(* ===== verification/Prelude.thy ===== *)
theory Prelude
  imports Complex_Main "HOL-Library.Char_ord" "HOL-Library.Sublist"
begin

text \<open>
  Shared ground of the development: the JavaScript numbers, strings and lists the frontend
  computes with, the error results its exceptions become, and the interfaces (locales) that
  several components of the program provide.

  Strings are lists of characters; text outside ASCII is held as its UTF-8 bytes. Numbers are
  exact rationals with one extra value for NaN: the program works with small integers, with
  minutes divided by sixty and with weights in percent, and rounds only through \<open>Math.round\<close>,
  \<open>Math.floor\<close> and \<open>toFixed\<close>. The rounding error of binary floating point and the two
  infinities are not modelled.
\<close>

named_theorems js_simps \<open>evaluation rules of the JavaScript values\<close>
named_theorems step_simps \<open>unfolding rules of the step functions\<close>

section \<open>Errors\<close>

text \<open>An exception that leaves a function is the left summand of its result.\<close>

datatype js_error = TypeError | RangeError | SyntaxError | ErrorMsg string

fun fold_res :: "('a \<Rightarrow> 's \<Rightarrow> 'e + 's) \<Rightarrow> 'a list \<Rightarrow> 's \<Rightarrow> 'e + 's" where
  "fold_res f [] s = Inr s"
| "fold_res f (x # xs) s = (case f x s of Inl e \<Rightarrow> Inl e | Inr s' \<Rightarrow> fold_res f xs s')"

lemma fold_res_append:
  "fold_res f (xs @ ys) s =
     (case fold_res f xs s of Inl e \<Rightarrow> Inl e | Inr s' \<Rightarrow> fold_res f ys s')"
  by (induction xs arbitrary: s) (auto split: sum.splits)

lemma fold_res_pure:
  "(\<And>x s. x \<in> set xs \<Longrightarrow> f x s = Inr (g x s)) \<Longrightarrow> fold_res f xs s = Inr (fold g xs s)"
  by (induction xs arbitrary: s) auto

section \<open>Numbers\<close>

datatype jsnum = NaN | Num rat

instantiation jsnum :: "{zero, one, plus, minus, times, ord}"
begin

definition zero_jsnum :: jsnum where "zero_jsnum = Num 0"
definition one_jsnum :: jsnum where "one_jsnum = Num 1"

fun plus_jsnum :: "jsnum \<Rightarrow> jsnum \<Rightarrow> jsnum" where
  "plus_jsnum (Num a) (Num b) = Num (a + b)"
| "plus_jsnum _ _ = NaN"

fun minus_jsnum :: "jsnum \<Rightarrow> jsnum \<Rightarrow> jsnum" where
  "minus_jsnum (Num a) (Num b) = Num (a - b)"
| "minus_jsnum _ _ = NaN"

fun times_jsnum :: "jsnum \<Rightarrow> jsnum \<Rightarrow> jsnum" where
  "times_jsnum (Num a) (Num b) = Num (a * b)"
| "times_jsnum _ _ = NaN"

text \<open>A comparison with NaN is false, in either direction.\<close>

fun less_eq_jsnum :: "jsnum \<Rightarrow> jsnum \<Rightarrow> bool" where
  "less_eq_jsnum (Num a) (Num b) = (a \<le> b)"
| "less_eq_jsnum _ _ = False"

fun less_jsnum :: "jsnum \<Rightarrow> jsnum \<Rightarrow> bool" where
  "less_jsnum (Num a) (Num b) = (a < b)"
| "less_jsnum _ _ = False"

instance ..

end

text \<open>Division by a positive constant, the only division the program applies to a parsed number.\<close>

fun div_by :: "jsnum \<Rightarrow> rat \<Rightarrow> jsnum" where
  "div_by (Num a) k = Num (a / k)"
| "div_by NaN k = NaN"

fun js_max :: "jsnum \<Rightarrow> jsnum \<Rightarrow> jsnum" where
  "js_max (Num a) (Num b) = Num (max a b)"
| "js_max _ _ = NaN"

fun js_min :: "jsnum \<Rightarrow> jsnum \<Rightarrow> jsnum" where
  "js_min (Num a) (Num b) = Num (min a b)"
| "js_min _ _ = NaN"

text \<open>\<open>===\<close> on numbers: NaN differs from itself.\<close>

fun js_eq :: "jsnum \<Rightarrow> jsnum \<Rightarrow> bool" where
  "js_eq (Num a) (Num b) = (a = b)"
| "js_eq _ _ = False"

text \<open>The order \<open>(a, b) => a - b\<close> gives to \<open>sort\<close>. On NaN the result is left to the engine;
  the model ranks it as zero.\<close>

fun num_key :: "jsnum \<Rightarrow> rat" where
  "num_key (Num a) = a"
| "num_key NaN = 0"

text \<open>\<open>Math.round\<close>: the nearest integer, ties towards positive infinity.\<close>

definition js_round :: "rat \<Rightarrow> int" where
  "js_round x = \<lfloor>x + 1 / 2\<rfloor>"

fun jsnum_round :: "jsnum \<Rightarrow> jsnum" where
  "jsnum_round (Num a) = Num (of_int (js_round a))"
| "jsnum_round NaN = NaN"

abbreviation num_int :: "int \<Rightarrow> jsnum" where
  "num_int i \<equiv> Num (of_int i)"

lemma js_round_of_int [simp]: "js_round (of_int i) = i"
  unfolding js_round_def by linarith

lemma js_round_bounds: "of_int (js_round x) - 1 / 2 \<le> x" "x < of_int (js_round x) + 1 / 2"
  unfolding js_round_def by linarith+

lemma js_round_mono: "x \<le> y \<Longrightarrow> js_round x \<le> js_round y"
  unfolding js_round_def by (simp add: floor_mono)

lemma js_round_eqI: "of_int i - 1 / 2 \<le> x \<Longrightarrow> x < of_int i + 1 / 2 \<Longrightarrow> js_round x = i"
  unfolding js_round_def by linarith

declare zero_jsnum_def [js_simps] one_jsnum_def [js_simps]


section \<open>Strings\<close>

definition is_digit :: "char \<Rightarrow> bool" where
  "is_digit c = (CHR ''0'' \<le> c \<and> c \<le> CHR ''9'')"

text \<open>\<open>\s\<close> and the white space that \<open>trim\<close> removes, within ASCII.\<close>

definition is_space :: "char \<Rightarrow> bool" where
  "is_space c = (c \<in> {CHR '' '', CHR 0x09, CHR 0x0A, CHR 0x0B, CHR 0x0C, CHR 0x0D})"

definition is_lower :: "char \<Rightarrow> bool" where
  "is_lower c = (CHR ''a'' \<le> c \<and> c \<le> CHR ''z'')"

definition is_upper :: "char \<Rightarrow> bool" where
  "is_upper c = (CHR ''A'' \<le> c \<and> c \<le> CHR ''Z'')"

definition is_word :: "char \<Rightarrow> bool" where
  "is_word c = (is_lower c \<or> is_upper c \<or> is_digit c \<or> c = CHR ''_'')"

definition digit_val :: "char \<Rightarrow> nat" where
  "digit_val c = of_char c - 48"

definition digit_char :: "nat \<Rightarrow> char" where
  "digit_char d = char_of (48 + d)"

definition to_lower_char :: "char \<Rightarrow> char" where
  "to_lower_char c = (if is_upper c then char_of (of_char c + 32 :: nat) else c)"

definition to_upper_char :: "char \<Rightarrow> char" where
  "to_upper_char c = (if is_lower c then char_of (of_char c - 32 :: nat) else c)"

definition ltrim :: "string \<Rightarrow> string" where
  "ltrim s = dropWhile is_space s"

definition js_trim :: "string \<Rightarrow> string" where
  "js_trim s = rev (ltrim (rev (ltrim s)))"

text \<open>\<open>s.split(c)\<close> and \<open>xs.join(sep)\<close>; the split of the empty string is one empty piece.\<close>

fun split_on :: "char \<Rightarrow> string \<Rightarrow> string list" where
  "split_on c [] = [[]]"
| "split_on c (x # xs) =
     (if x = c then [] # split_on c xs
      else (case split_on c xs of [] \<Rightarrow> [[x]] | p # ps \<Rightarrow> (x # p) # ps))"

fun join_with :: "string \<Rightarrow> string list \<Rightarrow> string" where
  "join_with sep [] = []"
| "join_with sep [x] = x"
| "join_with sep (x # y # ys) = x @ sep @ join_with sep (y # ys)"

fun starts_with :: "string \<Rightarrow> string \<Rightarrow> bool" where
  "starts_with [] s = True"
| "starts_with (p # ps) [] = False"
| "starts_with (p # ps) (c # cs) = (p = c \<and> starts_with ps cs)"

definition ends_with :: "string \<Rightarrow> string \<Rightarrow> bool" where
  "ends_with suf s = starts_with (rev suf) (rev s)"

fun show_nat :: "nat \<Rightarrow> string" where
  "show_nat n = (if n < 10 then [digit_char n] else show_nat (n div 10) @ [digit_char (n mod 10)])"

declare show_nat.simps [simp del]

definition show_int :: "int \<Rightarrow> string" where
  "show_int i = (if i < 0 then CHR ''-'' # show_nat (nat (- i)) else show_nat (nat i))"

text \<open>\<open>String(x)\<close> of an integer or NaN. A number with a fraction is printed with as many decimals
  as it has; the program only prints integers this way.\<close>

fun show_frac :: "nat \<Rightarrow> rat \<Rightarrow> string" where
  "show_frac 0 r = []"
| "show_frac (Suc n) r =
     (if r = 0 then [] else digit_char (nat \<lfloor>r * 10\<rfloor>) # show_frac n (r * 10 - of_int \<lfloor>r * 10\<rfloor>))"

definition show_rat :: "rat \<Rightarrow> string" where
  "show_rat r =
     (let a = \<bar>r\<bar>; i = \<lfloor>a\<rfloor>; f = a - of_int i;
          s = show_nat (nat i) @ (if f = 0 then [] else CHR ''.'' # show_frac 17 f)
      in if r < 0 then CHR ''-'' # s else s)"

fun show_num :: "jsnum \<Rightarrow> string" where
  "show_num NaN = ''NaN''"
| "show_num (Num r) = show_rat r"

text \<open>\<open>x.toFixed(1)\<close>: the closest tenth, the larger one on a tie, by magnitude.\<close>

fun to_fixed1 :: "jsnum \<Rightarrow> string" where
  "to_fixed1 NaN = ''NaN''"
| "to_fixed1 (Num r) =
     (let n = nat \<lfloor>\<bar>r\<bar> * 10 + 1 / 2\<rfloor>
      in (if r < 0 then ''-'' else []) @ show_nat (n div 10) @ ''.'' @ show_nat (n mod 10))"

definition pad_start :: "nat \<Rightarrow> char \<Rightarrow> string \<Rightarrow> string" where
  "pad_start n c s = replicate (n - length s) c @ s"

definition digits_val :: "string \<Rightarrow> nat" where
  "digits_val ds = foldl (\<lambda>n c. 10 * n + digit_val c) 0 ds"

text \<open>\<open>parseInt(s, 10)\<close>: leading white space and a sign, then the longest run of digits.\<close>

definition parse_int :: "string \<Rightarrow> jsnum" where
  "parse_int s =
     (let t = ltrim s;
          neg = starts_with ''-'' t;
          u = (if neg \<or> starts_with ''+'' t then tl t else t);
          ds = takeWhile is_digit u
      in if ds = [] then NaN
         else Num (if neg then - of_nat (digits_val ds) else of_nat (digits_val ds)))"

text \<open>\<open>Number(s)\<close> on decimal literals: white space is trimmed, the empty string is zero, anything
  that is not a signed decimal with an optional fraction is NaN. Exponents, radix prefixes
  and \<open>Infinity\<close> do not occur in the fields the program parses and are read as NaN.\<close>

definition js_number :: "string \<Rightarrow> jsnum" where
  "js_number s =
     (let t = js_trim s;
          neg = starts_with ''-'' t;
          u = (if neg \<or> starts_with ''+'' t then tl t else t);
          ip = takeWhile is_digit u;
          r = dropWhile is_digit u;
          fp = (if starts_with ''.'' r then takeWhile is_digit (tl r) else []);
          rest = (if starts_with ''.'' r then dropWhile is_digit (tl r) else r);
          v = (of_nat (digits_val ip) + of_nat (digits_val fp) / 10 ^ length fp :: rat)
      in if t = [] then Num 0
         else if rest \<noteq> [] \<or> (ip = [] \<and> fp = []) then NaN
         else Num (if neg then - v else v))"


subsection \<open>Splitting and joining\<close>

lemma split_on_not_Nil [simp]: "split_on c s \<noteq> []"
  by (induction s) (auto split: list.splits)

lemma split_on_no_sep: "c \<notin> set s \<Longrightarrow> split_on c s = [s]"
  by (induction s) auto

lemma split_on_sep: "split_on c (a @ c # b) = split_on c a @ split_on c b"
  by (induction a) (auto split: list.splits)

lemma split_on_pieces: "p \<in> set (split_on c s) \<Longrightarrow> c \<notin> set p"
proof (induction s arbitrary: p)
  case Nil
  then show ?case by simp
next
  case (Cons x s)
  then show ?case by (cases "split_on c s") (auto split: if_splits)
qed

text \<open>Appending to a text only extends the last piece of its split.\<close>

lemma split_on_append:
  "split_on c (a @ b) = butlast (split_on c a) @ split_on c (last (split_on c a) @ b)"
proof (induction a)
  case Nil
  then show ?case by simp
next
  case (Cons x a)
  obtain p ps where sp: "split_on c a = p # ps"
    using split_on_not_Nil by (metis neq_Nil_conv)
  show ?case
  proof (cases "x = c \<or> ps \<noteq> []")
    case True
    with Cons sp show ?thesis by auto
  next
    case False
    with Cons sp show ?thesis by auto
  qed
qed

lemma join_with_Cons: "ps \<noteq> [] \<Longrightarrow> join_with sep (p # ps) = p @ sep @ join_with sep ps"
  by (cases ps) auto

lemma join_split: "join_with [c] (split_on c s) = s"
proof (induction s)
  case Nil
  then show ?case by simp
next
  case (Cons x s)
  obtain p ps where sp: "split_on c s = p # ps"
    using split_on_not_Nil by (metis neq_Nil_conv)
  show ?case
    using Cons sp by (cases ps) auto
qed

lemma split_join:
  "ps \<noteq> [] \<Longrightarrow> \<forall>p \<in> set ps. c \<notin> set p \<Longrightarrow> split_on c (join_with [c] ps) = ps"
proof (induction ps)
  case Nil
  then show ?case by simp
next
  case (Cons p ps)
  show ?case
  proof (cases "ps = []")
    case True
    with Cons show ?thesis by (simp add: split_on_no_sep)
  next
    case False
    with Cons have "split_on c (p @ c # join_with [c] ps) = [p] @ ps"
      by (simp only: split_on_sep) (simp add: split_on_no_sep)
    with False show ?thesis by (simp add: join_with_Cons)
  qed
qed

subsection \<open>Printed numbers\<close>

lemma digit_val_char [simp]: "d < 10 \<Longrightarrow> digit_val (digit_char d) = d"
  by (simp add: digit_val_def digit_char_def)

lemma digit_less_cases: "(d::nat) < 10 \<Longrightarrow> d \<in> {0, 1, 2, 3, 4, 5, 6, 7, 8, 9}"
  by auto

lemma is_digit_char [simp]: "d < 10 \<Longrightarrow> is_digit (digit_char d)"
  by (drule digit_less_cases) (auto simp: is_digit_def digit_char_def less_eq_char_def)

lemma is_digit_not_space: "is_digit c \<Longrightarrow> \<not> is_space c"
  by (auto simp: is_digit_def is_space_def less_eq_char_def)

lemma is_digit_not_sign: "is_digit c \<Longrightarrow> c \<noteq> CHR ''-'' \<and> c \<noteq> CHR ''+''"
  by (auto simp: is_digit_def less_eq_char_def)

lemma show_nat_digits: "c \<in> set (show_nat n) \<Longrightarrow> is_digit c"
proof (induction n rule: show_nat.induct)
  case (1 n)
  show ?case
    using 1 by (cases "n < 10") (auto simp: show_nat.simps [of n])
qed

lemma show_nat_not_Nil [simp]: "show_nat n \<noteq> []"
  by (subst show_nat.simps) simp

lemma digits_val_append: "digits_val (a @ b) = digits_val a * 10 ^ length b + digits_val b"
proof (induction b rule: rev_induct)
  case Nil
  then show ?case by (simp add: digits_val_def)
next
  case (snoc c b)
  have "digits_val (a @ b @ [c]) = 10 * digits_val (a @ b) + digit_val c"
    by (simp add: digits_val_def)
  also have "\<dots> = digits_val a * 10 ^ length (b @ [c]) + (10 * digits_val b + digit_val c)"
    using snoc by (simp add: algebra_simps)
  also have "10 * digits_val b + digit_val c = digits_val (b @ [c])"
    by (simp add: digits_val_def)
  finally show ?case by simp
qed

lemma digits_val_show_nat [simp]: "digits_val (show_nat n) = n"
proof (induction n rule: show_nat.induct)
  case (1 n)
  show ?case
  proof (cases "n < 10")
    case True
    then show ?thesis by (simp add: show_nat.simps [of n] digits_val_def)
  next
    case False
    then show ?thesis
      using 1 by (simp add: show_nat.simps [of n] digits_val_append) (simp add: digits_val_def)
  qed
qed

lemma digits_val_zeros: "digits_val (replicate k (CHR ''0'') @ s) = digits_val s"
proof -
  have "digits_val (replicate k (CHR ''0'')) = 0"
    by (induction k) (auto simp: digits_val_def digit_val_def simp flip: replicate_append_same)
  then show ?thesis by (simp add: digits_val_append)
qed

definition all_digits :: "string \<Rightarrow> bool" where
  "all_digits s = (s \<noteq> [] \<and> list_all is_digit s)"

lemma all_digits_show_nat [simp]: "all_digits (show_nat n)"
  by (auto simp: all_digits_def list_all_iff intro: show_nat_digits)

lemma all_digits_pad [simp]: "all_digits s \<Longrightarrow> all_digits (pad_start k (CHR ''0'') s)"
  by (auto simp: all_digits_def pad_start_def is_digit_def list_all_iff less_eq_char_def)

lemma digits_val_pad [simp]: "digits_val (pad_start k (CHR ''0'') s) = digits_val s"
  by (simp add: pad_start_def digits_val_zeros)

lemma all_digits_take:
  "all_digits s \<Longrightarrow> takeWhile is_digit s = s" "all_digits s \<Longrightarrow> dropWhile is_digit s = []"
  by (auto simp: all_digits_def list_all_iff)

lemma all_digits_ltrim: "all_digits s \<Longrightarrow> ltrim s = s"
  by (cases s) (auto simp: all_digits_def ltrim_def dest: is_digit_not_space)

lemma all_digits_rev: "all_digits s \<Longrightarrow> all_digits (rev s)"
  by (auto simp: all_digits_def list_all_iff)

lemma all_digits_trim: "all_digits s \<Longrightarrow> js_trim s = s"
  by (simp add: js_trim_def all_digits_ltrim all_digits_rev)

lemma all_digits_no_sign:
  "all_digits s \<Longrightarrow> \<not> starts_with ''-'' s \<and> \<not> starts_with ''+'' s"
  by (cases s) (auto simp: all_digits_def dest: is_digit_not_sign)

lemma js_number_digits: "all_digits s \<Longrightarrow> js_number s = Num (of_nat (digits_val s))"
  by (auto simp: js_number_def all_digits_trim all_digits_no_sign all_digits_take Let_def)
     (auto simp: all_digits_def digits_val_def)

lemma parse_int_digits: "all_digits s \<Longrightarrow> parse_int s = Num (of_nat (digits_val s))"
  by (auto simp: parse_int_def all_digits_ltrim all_digits_no_sign all_digits_take Let_def)
     (auto simp: all_digits_def)


section \<open>Lists\<close>

text \<open>\<open>xs.slice(-n)\<close> for a positive \<open>n\<close>.\<close>

definition slice_last :: "nat \<Rightarrow> 'a list \<Rightarrow> 'a list" where
  "slice_last n xs = drop (length xs - n) xs"

lemma length_slice_last [simp]: "length (slice_last n xs) = min n (length xs)"
  by (simp add: slice_last_def)

lemma slice_last_short: "length xs \<le> n \<Longrightarrow> slice_last n xs = xs"
  by (simp add: slice_last_def)

lemma slice_last_append:
  "slice_last n (slice_last n xs @ ys) = slice_last n (xs @ ys)"
proof (cases "length xs \<le> n")
  case True
  then show ?thesis by (simp add: slice_last_short)
next
  case False
  then show ?thesis by (auto simp: slice_last_def add.commute)
qed

text \<open>\<open>xs.indexOf(x)\<close>, with \<open>None\<close> for -1.\<close>

fun index_of :: "'a \<Rightarrow> 'a list \<Rightarrow> nat option" where
  "index_of x [] = None"
| "index_of x (y # ys) = (if x = y then Some 0 else map_option Suc (index_of x ys))"

lemma index_of_Some: "index_of x xs = Some i \<Longrightarrow> i < length xs \<and> xs ! i = x"
  by (induction xs arbitrary: i) (auto split: if_splits)

lemma index_of_None: "index_of x xs = None \<longleftrightarrow> x \<notin> set xs"
  by (induction xs) auto

text \<open>\<open>Map.set\<close> on an insertion-ordered map: an existing key keeps its place.\<close>

fun assoc_set :: "'k \<Rightarrow> 'v \<Rightarrow> ('k \<times> 'v) list \<Rightarrow> ('k \<times> 'v) list" where
  "assoc_set k v [] = [(k, v)]"
| "assoc_set k v ((k', v') # xs) =
     (if k = k' then (k, v) # xs else (k', v') # assoc_set k v xs)"

lemma map_of_assoc_set [simp]: "map_of (assoc_set k v xs) = (map_of xs)(k \<mapsto> v)"
  by (induction xs) (auto simp: fun_eq_iff)

lemma keys_assoc_set: "set (map fst (assoc_set k v xs)) = insert k (set (map fst xs))"
  by (induction k v xs rule: assoc_set.induct) auto

lemma distinct_assoc_set:
  "distinct (map fst xs) \<Longrightarrow> distinct (map fst (assoc_set k v xs))"
proof (induction k v xs rule: assoc_set.induct)
  case (1 k v)
  then show ?case by simp
next
  case (2 k v k' v' xs)
  then show ?case by (cases "k = k'") (simp_all add: keys_assoc_set del: set_map)
qed

text \<open>Grouping into a \<open>Map\<close>: the entry of the element's key is updated, or made by \<open>new\<close> first.\<close>

definition group_into ::
  "('a \<Rightarrow> string) \<Rightarrow> ('a \<Rightarrow> 's \<Rightarrow> 's) \<Rightarrow> ('a \<Rightarrow> 's) \<Rightarrow> 'a \<Rightarrow> (string \<times> 's) list \<Rightarrow> (string \<times> 's) list" where
  "group_into key add new x m =
     assoc_set (key x) (add x (case map_of m (key x) of Some e \<Rightarrow> e | None \<Rightarrow> new x)) m"

lemma group_map_of:
  "map_of (fold (group_into key add new) xs []) k =
     (case filter (\<lambda>x. key x = k) xs of [] \<Rightarrow> None | y # ys \<Rightarrow> Some (fold add (y # ys) (new y)))"
  by (induction xs rule: rev_induct) (auto simp: group_into_def split: list.split)

lemma group_distinct: "distinct (map fst m) \<Longrightarrow> distinct (map fst (fold (group_into key add new) xs m))"
  by (induction xs arbitrary: m) (simp_all add: group_into_def distinct_assoc_set del: map_map)

lemma group_keys: "set (map fst (fold (group_into key add new) xs [])) = key ` set xs"
  by (induction xs rule: rev_induct) (simp_all add: group_into_def keys_assoc_set del: set_map)

section \<open>Interfaces\<close>

subsection \<open>State machines\<close>

text \<open>
  A component with state is a step function on events. What every step keeps, every run keeps;
  the components interpret this interface with their own step and invariant.
\<close>

definition run :: "('s \<Rightarrow> 'e \<Rightarrow> 's) \<Rightarrow> 's \<Rightarrow> 'e list \<Rightarrow> 's" where
  "run step s es = foldl step s es"

lemma run_simps [simp]:
  "run step s [] = s"
  "run step s (e # es) = run step (step s e) es"
  "run step s (es @ es') = run step (run step s es) es'"
  by (simp_all add: run_def)

locale machine =
  fixes step :: "'s \<Rightarrow> 'e \<Rightarrow> 's"
    and inv :: "'s \<Rightarrow> bool"
  assumes step_inv: "inv s \<Longrightarrow> inv (step s e)"
begin

lemma run_inv: "inv s \<Longrightarrow> inv (run step s es)"
  by (induction es arbitrary: s) (auto intro: step_inv)

lemma prefix_inv: "inv s \<Longrightarrow> prefix es' es \<Longrightarrow> inv (run step s es')"
  by (rule run_inv)

end

text \<open>The same with events that come from outside and are only trusted when \<open>ok\<close> holds of them.\<close>

locale guarded_machine =
  fixes step :: "'s \<Rightarrow> 'e \<Rightarrow> 's"
    and inv :: "'s \<Rightarrow> bool"
    and ok :: "'e \<Rightarrow> bool"
  assumes step_inv: "inv s \<Longrightarrow> ok e \<Longrightarrow> inv (step s e)"
begin

lemma run_inv: "inv s \<Longrightarrow> list_all ok es \<Longrightarrow> inv (run step s es)"
  by (induction es arbitrary: s) (auto intro: step_inv)

end

sublocale machine \<subseteq> guarded: guarded_machine step inv "\<lambda>_. True"
  by unfold_locales (rule step_inv)

text \<open>A machine with a mode it never leaves: what was true of it once stays true.\<close>

locale absorbing_machine = machine +
  fixes final :: "'s \<Rightarrow> bool"
  assumes final_step: "inv s \<Longrightarrow> final s \<Longrightarrow> final (step s e)"
begin

lemma final_run: "inv s \<Longrightarrow> final s \<Longrightarrow> final (run step s es)"
  by (induction es arbitrary: s) (auto intro: step_inv final_step)

end

subsection \<open>Bounded buffers\<close>

text \<open>
  A live view keeps at most \<open>cap\<close> items and forgets the oldest: a batch is appended and the
  last \<open>cap\<close> items stay.
\<close>

locale tail_buffer =
  fixes push :: "'x \<Rightarrow> 'a list \<Rightarrow> 'a list"
    and items :: "'x \<Rightarrow> 'a list"
    and cap :: nat
  assumes push_def: "length xs \<le> cap \<Longrightarrow> push x xs = slice_last cap (xs @ items x)"
begin

lemma push_bound: "length xs \<le> cap \<Longrightarrow> length (push x xs) \<le> cap"
  by (simp add: push_def)

lemma pushes:
  "length xs \<le> cap \<Longrightarrow> fold push bs xs = slice_last cap (xs @ concat (map items bs))"
proof (induction bs arbitrary: xs)
  case Nil
  then show ?case by (simp add: slice_last_short)
next
  case (Cons b bs)
  have "fold push (b # bs) xs = slice_last cap (push b xs @ concat (map items bs))"
    using Cons push_bound by simp
  also have "\<dots> = slice_last cap ((xs @ items b) @ concat (map items bs))"
    using Cons.prems by (simp only: push_def slice_last_append)
  finally show ?case by simp
qed

lemma pushes_bound: "length xs \<le> cap \<Longrightarrow> length (fold push bs xs) \<le> cap"
  by (simp add: pushes)

lemma pushes_lossless:
  "length (xs @ concat (map items bs)) \<le> cap \<Longrightarrow> fold push bs xs = xs @ concat (map items bs)"
  by (subst pushes) (auto simp: slice_last_short)

end

subsection \<open>Reconnect delays\<close>

text \<open>The waiting times of the stream hooks: doubling from a base up to a cap.\<close>

locale capped_backoff =
  fixes delay :: "nat \<Rightarrow> rat"
    and base cap :: rat
  assumes base_pos: "0 < base"
    and base_le_cap: "base \<le> cap"
    and delay_def: "delay n = min cap (base * 2 ^ n)"
begin

lemma delay_le_cap: "delay n \<le> cap"
  by (simp add: delay_def)

lemma base_le_delay: "base \<le> delay n"
proof -
  have "base * 1 \<le> base * 2 ^ n"
    using base_pos by (intro mult_left_mono) simp_all
  then show ?thesis using base_le_cap by (simp add: delay_def)
qed

lemma delay_mono: "m \<le> n \<Longrightarrow> delay m \<le> delay n"
proof -
  assume "m \<le> n"
  then have "base * 2 ^ m \<le> base * 2 ^ n"
    using base_pos by (intro mult_left_mono power_increasing) simp_all
  then show ?thesis by (simp add: delay_def min_def)
qed

lemma delay_saturates: "cap \<le> base * 2 ^ k \<Longrightarrow> k \<le> n \<Longrightarrow> delay n = cap"
proof -
  assume "cap \<le> base * 2 ^ k" and "k \<le> n"
  then have "cap \<le> delay k" by (simp add: delay_def)
  with \<open>k \<le> n\<close> show ?thesis
    using delay_mono [of k n] delay_le_cap [of n] by linarith
qed

lemma delay_doubles: "base * 2 ^ Suc n \<le> cap \<Longrightarrow> delay (Suc n) = 2 * delay n"
proof -
  assume "base * 2 ^ Suc n \<le> cap"
  moreover have "base * 2 ^ n \<le> base * 2 ^ Suc n"
    using base_pos by (intro mult_left_mono power_increasing) simp_all
  ultimately show ?thesis by (simp add: delay_def min_absorb2)
qed

lemma total_delay_bounds:
  "of_nat n * base \<le> (\<Sum>i<n. delay i)" "(\<Sum>i<n. delay i) \<le> of_nat n * cap"
proof -
  show "of_nat n * base \<le> (\<Sum>i<n. delay i)"
    using sum_mono [of "{..<n}" "\<lambda>_. base" delay] base_le_delay by simp
  show "(\<Sum>i<n. delay i) \<le> of_nat n * cap"
    using sum_mono [of "{..<n}" delay "\<lambda>_. cap"] delay_le_cap by simp
qed

end

end
