(* ===== verification/Types.thy ===== *)
theory Types
  imports Prelude
begin

text \<open>
  The data the backend and the frontend exchange (\<open>frontend/src/lib/types.ts\<close>). An interface is a
  record, a union of string literals a datatype, an optional or nullable field an option. Fields
  carry a short prefix because HOL records share one name space. Numbers that are identifiers or
  counters are integers, timestamps stay the strings the backend sends.
\<close>

section \<open>Sleep windows\<close>

record sleep_window =
  win_name :: "string option"
  daysOfWeek :: "int list"
  startTime :: string
  endTime :: string
  allDay :: bool

section \<open>Policies and executions\<close>

datatype exec_mode = Plan | Apply

datatype policy_state = Sleeping | Awake | UnknownState | Transitioning

record policy =
  pol_id :: int
  pol_name :: string
  pol_description :: string
  pol_namespaceFilter :: string
  pol_labelSelector :: string
  pol_sleepWindows :: "sleep_window list option"
  pol_timezone :: string
  pol_mode :: exec_mode
  pol_enabled :: bool
  pol_timeoutMinutes :: int
  pol_currentState :: policy_state
  pol_stateSince :: "string option"
  pol_lastSleepAt :: "string option"
  pol_lastWakeAt :: "string option"
  pol_createdAt :: string
  pol_updatedAt :: string
  pol_nextTransitionAt :: "string option"

datatype direction = DirSleep | DirWake

datatype exec_status = Running | Success | Failed | Interrupted

datatype log_level = LInfo | LOk | LPlan | LError | LWarn

record log_line =
  ln_id :: int
  ln_executionId :: int
  ln_seq :: int
  ln_level :: log_level
  ln_message :: string
  ln_timestamp :: string

section \<open>Exceptions\<close>

datatype exception_type = StayAwake | ForceSleep

datatype exception_status = Pending | Active | Completed | Cancelled

datatype workload_kind = Deployment | StatefulSet

record workload_target =
  tgt_kind :: workload_kind
  tgt_namespace :: string
  tgt_name :: string

record scheduled_exception =
  ex_id :: int
  ex_policyId :: "int option"
  ex_type :: exception_type
  ex_startsAt :: string
  ex_endsAt :: string
  ex_ticketRef :: string
  ex_reason :: string
  ex_sleepOnEnd :: bool
  ex_namespaceFilter :: string
  ex_labelSelector :: string
  ex_status :: exception_status
  ex_startExecutionId :: "int option"
  ex_endExecutionId :: "int option"
  ex_cancelledAt :: "string option"
  ex_cancelReason :: string
  ex_createdBy :: string
  ex_createdAt :: string
  ex_updatedAt :: string
  ex_workloadTargets :: "workload_target list"

section \<open>Users and the audit log\<close>

datatype role = Admin | Operator | Viewer

datatype user_source = LocalUser | OidcUser

record user =
  usr_id :: int
  usr_username :: string
  usr_givenName :: "string option"
  usr_familyName :: "string option"
  usr_email :: "string option"
  usr_role :: role
  usr_source :: user_source
  usr_enabled :: bool
  usr_createdAt :: string
  usr_lastLoginAt :: "string option"
  usr_permissions :: "string list"
  usr_defaultTimezone :: "string option"

record audit_log_entry =
  aud_id :: int
  aud_userId :: "int option"
  aud_username :: string
  aud_action :: string
  aud_resourceType :: "string option"
  aud_resourceId :: "int option"
  aud_before :: "string option"
  aud_after :: "string option"
  aud_ipAddress :: "string option"
  aud_timestamp :: string

section \<open>Guardrails\<close>

record guardrails =
  gr_id :: int
  gr_protectedNamespaces :: string
  gr_skipNsNode :: string
  gr_skipNodeLabels :: string
  gr_skipNodeTaints :: string
  gr_scalingPriorityNamespaces :: string
  gr_schedulerEvalInterval :: string
  gr_schedulerAutoWake :: bool
  gr_schedulerReconcileWhileAwake :: bool
  gr_schedulerEnforceSleep :: bool
  gr_scalingConcurrency :: int
  gr_wakeWaveSize :: int
  gr_wakeWavePauseSeconds :: int
  gr_protectCriticalPodNodes :: bool
  gr_updatedAt :: string

section \<open>Time units (\<open>constants.ts\<close>)\<close>

abbreviation (input) MINUTES_PER_HOUR :: int where "MINUTES_PER_HOUR \<equiv> 60"
abbreviation (input) MINUTES_PER_DAY :: int where "MINUTES_PER_DAY \<equiv> 1440"
abbreviation (input) HOURS_PER_WEEK :: int where "HOURS_PER_WEEK \<equiv> 168"

end
