(* ===== verification/WindowCover.thy ===== *)
theory WindowCover
  imports Windows
begin

text \<open>
  What a schedule means, and that \<open>weeklySleepMinutes\<close> computes it. A week has 10080 minutes,
  counted from Sunday 00:00. A window covers a minute when the minute lies within the window's
  length after its start on one of its days, counted around the week. The count of covered
  minutes is stated without intervals, sorting or merging; the lemmas lead from the code's
  per-day interval lists to it.
\<close>

section \<open>Well-formed windows\<close>

text \<open>The backend stores times as two digits, a colon and two digits, and days as 0 to 6.\<close>

definition valid_time :: "string \<Rightarrow> bool" where
  "valid_time s =
     (length s = 5 \<and> s ! 2 = CHR '':'' \<and> list_all is_digit (take 2 s) \<and> list_all is_digit (drop 3 s)
      \<and> digits_val (take 2 s) < 24 \<and> digits_val (drop 3 s) < 60)"

definition clock_minutes :: "string \<Rightarrow> int" where
  "clock_minutes s = int (digits_val (take 2 s)) * 60 + int (digits_val (drop 3 s))"

definition wf_window :: "sleep_window \<Rightarrow> bool" where
  "wf_window w =
     (list_all (\<lambda>d. 0 \<le> d \<and> d \<le> 6) (daysOfWeek w)
      \<and> (allDay w \<or> (valid_time (startTime w) \<and> valid_time (endTime w))))"

lemma clock_minutes_bounds: "valid_time s \<Longrightarrow> 0 \<le> clock_minutes s \<and> clock_minutes s < 1440"
  by (simp add: valid_time_def clock_minutes_def)

lemma valid_time_shape:
  assumes "valid_time s"
  shows "s = take 2 s @ CHR '':'' # drop 3 s"
    and "all_digits (take 2 s)" and "all_digits (drop 3 s)"
    and "CHR '':'' \<notin> set (take 2 s)" and "CHR '':'' \<notin> set (drop 3 s)"
proof -
  have l: "length s = 5" and c: "s ! 2 = CHR '':''"
    and d: "list_all is_digit (take 2 s)" "list_all is_digit (drop 3 s)"
    using assms by (auto simp: valid_time_def)
  have "drop 2 s = s ! 2 # drop 3 s"
    using l by (simp add: Cons_nth_drop_Suc [symmetric] numeral_3_eq_3 numeral_2_eq_2)
  then show "s = take 2 s @ CHR '':'' # drop 3 s"
    using c by (metis append_take_drop_id)
  show "all_digits (take 2 s)" "all_digits (drop 3 s)"
    using l d by (auto simp: all_digits_def)
  have "\<not> is_digit CHR '':''" by (simp add: is_digit_def less_eq_char_def)
  then show "CHR '':'' \<notin> set (take 2 s)" "CHR '':'' \<notin> set (drop 3 s)"
    using d by (auto simp: list_all_iff)
qed

lemma split_time_valid:
  assumes "valid_time s"
  shows "split_time s =
    (num_int (int (digits_val (take 2 s))), num_int (int (digits_val (drop 3 s))))"
proof -
  note sh = valid_time_shape [OF assms]
  have "split_on CHR '':'' s = [take 2 s, drop 3 s]"
    by (subst sh(1)) (simp add: split_on_sep split_on_no_sep sh(4,5))
  then show ?thesis
    by (simp add: split_time_def js_number_digits sh(2,3))
qed

definition win_start :: "sleep_window \<Rightarrow> int" where
  "win_start w = (if allDay w then 0 else clock_minutes (startTime w))"

definition win_end :: "sleep_window \<Rightarrow> int" where
  "win_end w = (if allDay w then 1440 else clock_minutes (endTime w))"

lemma win_bounds:
  "wf_window w \<Longrightarrow> 0 \<le> win_start w \<and> win_start w < 1440 \<and> 0 \<le> win_end w \<and> win_end w \<le> 1440"
  using clock_minutes_bounds [of "startTime w"] clock_minutes_bounds [of "endTime w"]
  by (auto simp: wf_window_def win_start_def win_end_def)

lemma window_minutes_wf:
  "wf_window w \<Longrightarrow> window_minutes w = (num_int (win_start w), num_int (win_end w))"
  by (cases "allDay w")
     (auto simp: window_minutes_def wf_window_def win_start_def win_end_def split_time_valid
        clock_minutes_def split: prod.splits)

section \<open>The minutes a schedule covers\<close>

definition win_length :: "sleep_window \<Rightarrow> int" where
  "win_length w =
     (if win_start w < win_end w then win_end w - win_start w
      else win_end w - win_start w + 1440)"

definition covers :: "sleep_window \<Rightarrow> int \<Rightarrow> bool" where
  "covers w t =
     list_ex (\<lambda>d. (t - (d * 1440 + win_start w)) mod 10080 < win_length w) (daysOfWeek w)"

definition asleep :: "sleep_window list \<Rightarrow> int \<Rightarrow> bool" where
  "asleep ws t = list_ex (\<lambda>w. covers w t) ws"

definition sleep_set :: "sleep_window list \<Rightarrow> int set" where
  "sleep_set ws = {t \<in> {0..<10080}. asleep ws t}"

text \<open>The same minutes, cut at midnight as the code cuts them.\<close>

definition day_cover :: "int \<Rightarrow> int \<Rightarrow> int \<Rightarrow> int set" where
  "day_cover s e d =
     (if s < e then {d * 1440 + s..<d * 1440 + e}
      else {d * 1440 + s..<d * 1440 + 1440}
           \<union> {((d + 1) mod 7) * 1440..<((d + 1) mod 7) * 1440 + e})"

lemma mod_week:
  assumes "0 \<le> t" "t < 10080" "0 \<le> c" "c < 10080"
  shows "(t - c) mod 10080 = (if c \<le> t then t - c else t - c + (10080::int))"
proof (cases "c \<le> t")
  case True
  with assms show ?thesis by (simp add: mod_pos_pos_trivial)
next
  case False
  have "(t - c) mod 10080 = (t - c + 10080) mod 10080" by simp
  also have "\<dots> = t - c + 10080"
    using assms False by (intro mod_pos_pos_trivial) auto
  finally show ?thesis using False by simp
qed

lemma in_day_cover:
  assumes "0 \<le> d" "d \<le> 6" "0 \<le> s" "s < 1440" "0 \<le> e" "e \<le> 1440" "0 \<le> t" "t < 10080"
  shows "t \<in> day_cover s e d \<longleftrightarrow>
    (t - (d * 1440 + s)) mod 10080 < (if s < e then e - s else e - s + 1440)"
proof -
  have m: "(t - (d * 1440 + s)) mod 10080 =
      (if d * 1440 + s \<le> t then t - (d * 1440 + s) else t - (d * 1440 + s) + 10080)"
    using assms by (intro mod_week) auto
  have n: "(d + 1) mod 7 = (if d = 6 then 0 else d + 1)"
    using assms by auto
  show ?thesis
    using assms unfolding m day_cover_def n by (cases "d = 6") auto
qed

lemma day_cover_week:
  "0 \<le> d \<Longrightarrow> d \<le> 6 \<Longrightarrow> 0 \<le> s \<Longrightarrow> s < 1440 \<Longrightarrow> 0 \<le> e \<Longrightarrow> e \<le> 1440 \<Longrightarrow>
     day_cover s e d \<subseteq> {0..<10080}"
proof -
  assume a: "0 \<le> d" "d \<le> 6" "0 \<le> s" "s < 1440" "0 \<le> e" "e \<le> 1440"
  have "(d + 1) mod 7 = (if d = 6 then 0 else d + 1)"
    using a by auto
  with a show ?thesis by (auto simp: day_cover_def)
qed

definition win_cover :: "sleep_window \<Rightarrow> int set" where
  "win_cover w = (\<Union>d \<in> set (daysOfWeek w). day_cover (win_start w) (win_end w) d)"

lemma win_cover_covers:
  assumes "wf_window w"
  shows "win_cover w = {t \<in> {0..<10080}. covers w t}"
proof -
  have days: "0 \<le> d \<and> d \<le> 6" if "d \<in> set (daysOfWeek w)" for d
    using assms that by (auto simp: wf_window_def list_all_iff)
  note wb = win_bounds [OF assms]
  have "t \<in> win_cover w \<longleftrightarrow> covers w t" if "0 \<le> t" "t < 10080" for t
    using in_day_cover [of _ "win_start w" "win_end w" t] wb days that
    by (auto simp: win_cover_def covers_def win_length_def list_ex_iff)
  moreover have "win_cover w \<subseteq> {0..<10080}"
    using day_cover_week [of _ "win_start w" "win_end w"] wb days
    unfolding win_cover_def by blast
  ultimately show ?thesis by auto
qed

lemma sleep_set_cover:
  "\<forall>w \<in> set ws. wf_window w \<Longrightarrow> sleep_set ws = (\<Union>w \<in> set ws. win_cover w)"
  by (auto simp: sleep_set_def asleep_def list_ex_iff win_cover_covers)


section \<open>The sweep over one day\<close>

definition good_iv :: "interval \<Rightarrow> bool" where
  "good_iv iv = (\<exists>a b. iv = (num_int a, num_int b) \<and> 0 \<le> a \<and> a \<le> b \<and> b \<le> 1440)"

definition iv_set :: "interval \<Rightarrow> int set" where
  "iv_set iv = {m. fst iv \<le> num_int m \<and> num_int m < snd iv}"

lemma iv_set_num [simp]: "iv_set (num_int a, num_int b) = {a..<b}"
  by (auto simp: iv_set_def)

definition ivs_set :: "interval list \<Rightarrow> int set" where
  "ivs_set ivs = (\<Union>iv \<in> set ivs. iv_set iv)"

lemma ivs_set_simps [simp]:
  "ivs_set [] = {}" "ivs_set (iv # ivs) = iv_set iv \<union> ivs_set ivs"
  "ivs_set (ivs @ ivs') = ivs_set ivs \<union> ivs_set ivs'"
  by (auto simp: ivs_set_def)

lemma ivs_set_day: "\<forall>iv \<in> set ivs. good_iv iv \<Longrightarrow> ivs_set ivs \<subseteq> {0..<1440}"
  by (fastforce simp: ivs_set_def good_iv_def)

lemma finite_ivs_set: "\<forall>iv \<in> set ivs. good_iv iv \<Longrightarrow> finite (ivs_set ivs)"
  by (rule finite_subset [OF ivs_set_day]) auto

lemma ivs_set_above:
  "\<forall>iv \<in> set ivs. good_iv iv \<and> num_key (num_int a) \<le> num_key (fst iv) \<Longrightarrow>
     m \<in> ivs_set ivs \<Longrightarrow> a \<le> m"
  by (fastforce simp: ivs_set_def good_iv_def)

lemma sweep_counts:
  assumes "\<forall>iv \<in> set ivs. good_iv iv" and "sorted (map (\<lambda>iv. num_key (fst iv)) ivs)"
    and "\<forall>iv \<in> set ivs. of_int s \<le> num_key (fst iv)" and "s \<le> e"
  shows "sweep ivs (num_int s) (num_int e) (num_int t)
      = num_int (t + int (card ({s..<e} \<union> ivs_set ivs)))"
  using assms
proof (induction ivs arbitrary: s e t)
  case Nil
  then show ?case by simp
next
  case (Cons iv ivs)
  from Cons.prems(1) obtain a b where iv: "iv = (num_int a, num_int b)"
    and ab: "0 \<le> a" "a \<le> b" "b \<le> 1440"
    by (auto simp: good_iv_def)
  have good: "\<forall>iv \<in> set ivs. good_iv iv" and srt: "sorted (map (\<lambda>iv. num_key (fst iv)) ivs)"
    and above: "\<forall>iv \<in> set ivs. of_int a \<le> num_key (fst iv)"
    and from_s: "\<forall>iv \<in> set ivs. of_int s \<le> num_key (fst iv)" and sa: "s \<le> a"
    using Cons.prems by (auto simp: iv)
  show ?case
  proof (cases "e < a")
    case True
    have disj: "{s..<e} \<inter> ({a..<b} \<union> ivs_set ivs) = {}"
      using True ivs_set_above [of ivs a] good above by force
    have "card ({s..<e} \<union> ({a..<b} \<union> ivs_set ivs))
        = card {s..<e} + card ({a..<b} \<union> ivs_set ivs)"
      using disj finite_ivs_set [OF good] by (intro card_Un_disjoint) auto
    then show ?thesis
      using True Cons.IH [OF good srt above ab(2), of "t + (e - s)"] Cons.prems(4)
      by (simp add: iv)
  next
    case False
    have un: "{s..<e} \<union> ({a..<b} \<union> ivs_set ivs) = {s..<max e b} \<union> ivs_set ivs"
      using False sa ab by auto
    have mx: "js_max (num_int e) (num_int b) = num_int (max e b)"
      by (simp add: of_int_max)
    show ?thesis
      using False Cons.IH [OF good srt from_s, of "max e b" t] Cons.prems(4)
      by (simp add: iv mx un del: js_max.simps)
  qed
qed

lemma day_total_counts:
  assumes "\<forall>iv \<in> set ivs. good_iv iv"
  shows "day_total ivs (num_int t) = num_int (t + int (card (ivs_set ivs)))"
proof -
  let ?s = "sort_key (\<lambda>iv. num_key (fst iv)) ivs"
  have "\<forall>iv \<in> set ?s. of_int 0 \<le> num_key (fst iv)"
    using assms by (auto simp: good_iv_def)
  then have "sweep ?s (num_int 0) (num_int 0) (num_int t)
      = num_int (t + int (card ({0..<0} \<union> ivs_set ?s)))"
    using assms by (intro sweep_counts) auto
  moreover have "ivs_set ?s = ivs_set ivs" by (simp add: ivs_set_def)
  ultimately show ?thesis by (simp add: day_total_def)
qed

section \<open>The per-day lists\<close>

definition good_days :: "interval list list \<Rightarrow> bool" where
  "good_days days = (length days = 7 \<and> (\<forall>ivs \<in> set days. \<forall>iv \<in> set ivs. good_iv iv))"

definition days_set :: "interval list list \<Rightarrow> int set" where
  "days_set days = (\<Union>k < length days. (\<lambda>m. int k * 1440 + m) ` ivs_set (days ! k))"

lemma UN_lessThan_update:
  "n < N \<Longrightarrow> (\<Union>k < N. F k \<union> (if k = n then G k else {})) = (\<Union>k < N. F k) \<union> G (n::nat)"
  by (auto split: if_splits)

lemma push_day_ok:
  assumes "good_days days" "0 \<le> d" "d \<le> 6" "0 \<le> a" "a \<le> b" "b \<le> 1440"
  shows "\<exists>days'. push_day d (num_int a, num_int b) days = Inr days' \<and> good_days days'
     \<and> days_set days' = days_set days \<union> {d * 1440 + a..<d * 1440 + b}"
proof -
  let ?iv = "(num_int a, num_int b)"
  let ?days' = "days[nat d := days ! nat d @ [?iv]]"
  have len: "length days = 7" and nd: "nat d < 7" using assms by (auto simp: good_days_def)
  have iv: "good_iv ?iv" using assms by (auto simp: good_iv_def)
  have "push_day d ?iv days = Inr ?days'"
    using assms len by (simp add: push_day_def)
  moreover have "good_days ?days'"
    using assms(1) iv len nd nth_mem [of "nat d" days]
    by (fastforce simp: good_days_def dest!: set_update_subset_insert [THEN subsetD])
  moreover have "days_set ?days' = days_set days \<union> {d * 1440 + a..<d * 1440 + b}"
  proof -
    have img: "(\<lambda>m. int (nat d) * 1440 + m) ` {a..<b} = {d * 1440 + a..<d * 1440 + b}"
      using assms(2) by (simp add: image_add_atLeastLessThan add.commute)
    have "days_set ?days' = (\<Union>k < 7. (\<lambda>m. int k * 1440 + m) ` ivs_set (days ! k)
        \<union> (if k = nat d then (\<lambda>m. int k * 1440 + m) ` {a..<b} else {}))"
      unfolding days_set_def length_list_update len
      by (rule SUP_cong) (use len nd in \<open>simp_all add: nth_list_update image_Un\<close>)
    also have "\<dots> = days_set days \<union> (\<lambda>m. int (nat d) * 1440 + m) ` {a..<b}"
      unfolding days_set_def len by (rule UN_lessThan_update [OF nd])
    finally show ?thesis by (simp only: img)
  qed
  ultimately show ?thesis by blast
qed

lemma push_window_day_ok:
  assumes "good_days days" "0 \<le> d" "d \<le> 6" "0 \<le> s" "s < 1440" "0 \<le> e" "e \<le> 1440"
  shows "\<exists>days'. push_window_day (num_int s) (num_int e) d days = Inr days' \<and> good_days days'
     \<and> days_set days' = days_set days \<union> day_cover s e d"
proof (cases "s < e")
  case True
  then show ?thesis
    using push_day_ok [of days d s e] assms by (simp add: push_window_day_def day_cover_def)
next
  case False
  let ?n = "(d + 1) mod 7"
  have n: "js_rem (d + 1) 7 = ?n" "0 \<le> ?n" "?n \<le> 6"
    using assms by (auto simp: js_rem_def)
  obtain d1 where d1: "push_day d (num_int s, num_int 1440) days = Inr d1" "good_days d1"
    "days_set d1 = days_set days \<union> {d * 1440 + s..<d * 1440 + 1440}"
    using push_day_ok [of days d s 1440] assms by auto
  obtain d2 where d2: "push_day ?n (num_int 0, num_int e) d1 = Inr d2" "good_days d2"
    "days_set d2 = days_set d1 \<union> {?n * 1440 + 0..<?n * 1440 + e}"
    using push_day_ok [of d1 ?n 0 e] d1 n assms by auto
  show ?thesis
    using False d1 d2 n by (auto simp: push_window_day_def day_cover_def)
qed

lemma fold_window_days_ok:
  assumes "good_days days" "\<forall>d \<in> set ds. 0 \<le> d \<and> d \<le> 6" "0 \<le> s" "s < 1440" "0 \<le> e" "e \<le> 1440"
  shows "\<exists>days'. fold_res (push_window_day (num_int s) (num_int e)) ds days = Inr days'
     \<and> good_days days' \<and> days_set days' = days_set days \<union> (\<Union>d \<in> set ds. day_cover s e d)"
  using assms(1,2)
proof (induction ds arbitrary: days)
  case Nil
  then show ?case by simp
next
  case (Cons d ds)
  obtain d1 where d1: "push_window_day (num_int s) (num_int e) d days = Inr d1" "good_days d1"
    "days_set d1 = days_set days \<union> day_cover s e d"
    using push_window_day_ok [of days d s e] Cons.prems assms by auto
  obtain d2 where "fold_res (push_window_day (num_int s) (num_int e)) ds d1 = Inr d2" "good_days d2"
    "days_set d2 = days_set d1 \<union> (\<Union>d \<in> set ds. day_cover s e d)"
    using Cons.IH [OF d1(2)] Cons.prems by auto
  with d1 show ?case by auto
qed

lemma push_window_ok:
  assumes "good_days days" "wf_window w"
  shows "\<exists>days'. push_window w days = Inr days' \<and> good_days days'
     \<and> days_set days' = days_set days \<union> win_cover w"
  using fold_window_days_ok [OF assms(1), of "daysOfWeek w" "win_start w" "win_end w"]
    win_bounds [OF assms(2)] assms(2)
  by (auto simp: push_window_def window_minutes_wf win_cover_def wf_window_def list_all_iff)

lemma push_windows_ok:
  "good_days days \<Longrightarrow> \<forall>w \<in> set ws. wf_window w \<Longrightarrow>
     \<exists>days'. fold_res push_window ws days = Inr days' \<and> good_days days'
       \<and> days_set days' = days_set days \<union> (\<Union>w \<in> set ws. win_cover w)"
proof (induction ws arbitrary: days)
  case Nil
  then show ?case by simp
next
  case (Cons w ws)
  obtain d1 where d1: "push_window w days = Inr d1" "good_days d1"
    "days_set d1 = days_set days \<union> win_cover w"
    using push_window_ok [OF Cons.prems(1), of w] Cons.prems(2) by auto
  obtain d2 where "fold_res push_window ws d1 = Inr d2" "good_days d2"
    "days_set d2 = days_set d1 \<union> (\<Union>w \<in> set ws. win_cover w)"
    using Cons.IH [OF d1(2)] Cons.prems(2) by auto
  with d1 show ?case by auto
qed


section \<open>The weekly total\<close>

lemma fold_day_total:
  "\<forall>ivs \<in> set days. \<forall>iv \<in> set ivs. good_iv iv \<Longrightarrow>
     fold day_total days (num_int t)
       = num_int (t + (\<Sum>k < length days. int (card (ivs_set (days ! k)))))"
proof (induction days arbitrary: t)
  case Nil
  then show ?case by simp
next
  case (Cons ivs days)
  have "fold day_total (ivs # days) (num_int t)
      = fold day_total days (num_int (t + int (card (ivs_set ivs))))"
    using Cons.prems by (simp add: day_total_counts)
  also have "\<dots> = num_int (t + int (card (ivs_set ivs))
      + (\<Sum>k < length days. int (card (ivs_set (days ! k)))))"
    using Cons.prems by (intro Cons.IH) auto
  finally show ?case
    by (simp add: sum.lessThan_Suc_shift add.assoc del: sum.lessThan_Suc)
qed

lemma card_days_set:
  assumes "good_days days"
  shows "int (card (days_set days)) = (\<Sum>k < length days. int (card (ivs_set (days ! k))))"
proof -
  have day: "ivs_set (days ! k) \<subseteq> {0..<1440}" and fin: "finite (ivs_set (days ! k))"
    if "k < length days" for k
    using assms that ivs_set_day [of "days ! k"] finite_ivs_set [of "days ! k"] nth_mem [OF that]
    by (simp_all add: good_days_def)
  have inj: "card ((\<lambda>m. int k * 1440 + m) ` ivs_set (days ! k)) = card (ivs_set (days ! k))" for k
    by (rule card_image) (simp add: inj_on_def)
  have disj: "(\<lambda>m. int i * 1440 + m) ` ivs_set (days ! i) \<inter> (\<lambda>m. int j * 1440 + m) ` ivs_set (days ! j) = {}"
    if "i < length days" "j < length days" "i \<noteq> j" for i j
  proof -
    have "int i * 1440 + m \<noteq> int j * 1440 + n" if "m \<in> {0..<1440}" "n \<in> {0..<1440}" for m n
      using that \<open>i \<noteq> j\<close> by auto
    then show ?thesis using day \<open>i < length days\<close> \<open>j < length days\<close> by blast
  qed
  have "card (days_set days) = (\<Sum>k < length days. card ((\<lambda>m. int k * 1440 + m) ` ivs_set (days ! k)))"
    unfolding days_set_def using fin disj by (intro card_UN_disjoint) auto
  then show ?thesis by (simp add: inj)
qed

lemma weeklySleepMinutes_counts:
  assumes "\<forall>w \<in> set ws. wf_window w"
  shows "weeklySleepMinutes ws = Inr (num_int (int (card (sleep_set ws))))"
proof -
  let ?empty = "replicate 7 [] :: interval list list"
  have empty: "good_days ?empty" "days_set ?empty = {}"
    by (auto simp: good_days_def days_set_def)
  obtain days where days: "fold_res push_window ws ?empty = Inr days" "good_days days"
    "days_set days = sleep_set ws"
    using push_windows_ok [OF empty(1) assms] empty(2) sleep_set_cover [OF assms] by auto
  have "fold day_total days (num_int 0) = num_int (int (card (days_set days)))"
    using days(2) by (subst fold_day_total) (auto simp: card_days_set good_days_def)
  then show ?thesis using days by (simp add: weeklySleepMinutes_def)
qed

lemma finite_sleep_set [simp]: "finite (sleep_set ws)"
  by (rule finite_subset [of _ "{0..<10080}"]) (auto simp: sleep_set_def)

lemma card_sleep_set_le: "card (sleep_set ws) \<le> 10080"
proof -
  have "card (sleep_set ws) \<le> card {0..<10080::int}"
    by (rule card_mono) (auto simp: sleep_set_def)
  then show ?thesis by simp
qed

lemma sleep_set_set: "set ws = set ws' \<Longrightarrow> sleep_set ws = sleep_set ws'"
  by (simp add: sleep_set_def asleep_def list_ex_iff)

lemma sleep_set_append: "sleep_set (ws @ ws') = sleep_set ws \<union> sleep_set ws'"
  by (auto simp: sleep_set_def asleep_def)

lemma sleep_set_mono: "set ws \<subseteq> set ws' \<Longrightarrow> sleep_set ws \<subseteq> sleep_set ws'"
  by (auto simp: sleep_set_def asleep_def list_ex_iff)

section \<open>What the weekly figures mean\<close>

text \<open>C1. For windows as the backend stores them, overlapping, adjacent and overnight ones included, the
  count is the number of minutes of the week in which some window is asleep; no exception.\<close>

theorem weekly_minutes_are_the_asleep_minutes:
  assumes "\<forall>w \<in> set ws. wf_window w"
  shows "weeklySleepMinutes ws = Inr (num_int (int (card {t \<in> {0..<10080}. asleep ws t})))"
  using weeklySleepMinutes_counts [OF assms] by (simp add: sleep_set_def)

definition sample_week :: "sleep_window list" where
  "sample_week =
     [\<lparr>win_name = None, daysOfWeek = [5, 6], startTime = ''22:00'', endTime = ''06:30'', allDay = False\<rparr>,
      \<lparr>win_name = None, daysOfWeek = [0], startTime = ''00:00'', endTime = ''00:00'', allDay = True\<rparr>]"

lemma sample_week_wf: "\<forall>w \<in> set sample_week. wf_window w"
  by code_simp

lemma sample_week_minutes: "weeklySleepMinutes sample_week = Inr (num_int (9 * 60 + 90 + 24 * 60))"
  by code_simp

theorem weekly_minutes_witness:
  "weeklySleepMinutes sample_week = Inr (num_int (int (card {t \<in> {0..<10080}. asleep sample_week t})))"
  by (rule weekly_minutes_are_the_asleep_minutes [OF sample_week_wf])

text \<open>The rounded hours stay within the week, add up to it, and are within half an hour of the minutes.\<close>

theorem weekly_stats_bounds:
  assumes "\<forall>w \<in> set ws. wf_window w"
  shows "\<exists>h::int. computeWeeklyStats ws = Inr \<lparr>sleepHours = num_int h, awakeHours = num_int (168 - h)\<rparr>
     \<and> 0 \<le> h \<and> h \<le> 168 \<and> \<bar>60 * h - int (card (sleep_set ws))\<bar> \<le> 30"
proof -
  obtain m where m_def: "m = card (sleep_set ws)" by blast
  obtain h where h_def: "h = js_round (of_nat m / 60)" by blast
  have "computeWeeklyStats ws = Inr \<lparr>sleepHours = num_int h, awakeHours = num_int (168 - h)\<rparr>"
    using weeklySleepMinutes_counts [OF assms] by (simp add: computeWeeklyStats_def h_def m_def Let_def)
  moreover have near: "of_int h - 1 / 2 \<le> (of_nat m / 60 :: rat)" "(of_nat m / 60 :: rat) < of_int h + 1 / 2"
    unfolding h_def by (rule js_round_bounds)+
  then have "of_int (60 * h) \<le> (of_int (int m + 30) :: rat)" "(of_int (int m) :: rat) < of_int (60 * h + 30)"
    by (simp_all add: field_simps)
  then have "60 * h \<le> int m + 30" "int m < 60 * h + 30"
    unfolding of_int_le_iff of_int_less_iff by blast+
  moreover have "m \<le> 10080" unfolding m_def by (rule card_sleep_set_le)
  ultimately show ?thesis by (intro exI [of _ h]) (auto simp: m_def)
qed

theorem weekly_stats_witness:
  "\<exists>h::int. computeWeeklyStats sample_week = Inr \<lparr>sleepHours = num_int h, awakeHours = num_int (168 - h)\<rparr>
     \<and> 0 \<le> h \<and> h \<le> 168 \<and> \<bar>60 * h - int (card (sleep_set sample_week))\<bar> \<le> 30"
  by (rule weekly_stats_bounds [OF sample_week_wf])

text \<open>The savings percentage is the rounded share of the week that is asleep, between 0 and 100, and
  is 100 for a schedule that covers the week.\<close>

theorem savings_percent_bounds:
  assumes "\<forall>w \<in> set ws. wf_window w"
  shows "\<exists>p::int. weeklySavingsPercent ws = Inr (num_int p) \<and> 0 \<le> p \<and> p \<le> 100
     \<and> \<bar>of_int p - of_nat (card (sleep_set ws)) * 100 / 10080\<bar> \<le> (1 / 2 :: rat)
     \<and> (sleep_set ws = {0..<10080} \<longrightarrow> p = 100)"
proof -
  obtain m where m_def: "m = card (sleep_set ws)" by blast
  obtain p where p_def: "p = js_round (of_nat m / 10080 * 100)" by blast
  have "weeklySavingsPercent ws = Inr (num_int p)"
    using weeklySleepMinutes_counts [OF assms] by (simp add: weeklySavingsPercent_def p_def m_def)
  moreover have le: "m \<le> 10080" unfolding m_def by (rule card_sleep_set_le)
  have "js_round (of_int 0) \<le> p" "p \<le> js_round (of_int 100)"
    unfolding p_def using le by (intro js_round_mono; simp)+
  then have "0 \<le> p" "p \<le> 100" by (simp_all only: js_round_of_int)
  moreover have "\<bar>of_int p - of_nat m * 100 / 10080\<bar> \<le> (1 / 2 :: rat)"
  proof -
    have x: "of_nat m * 100 / 10080 = (of_nat m / 10080 * 100 :: rat)" by simp
    show ?thesis
      unfolding x p_def using js_round_bounds [of "of_nat m / 10080 * 100"] by linarith
  qed
  moreover have "p = 100" if "sleep_set ws = {0..<10080}"
  proof -
    have "of_nat m / 10080 * 100 = (of_int 100 :: rat)" using that by (simp add: m_def)
    then show ?thesis unfolding p_def by (simp only: js_round_of_int)
  qed
  ultimately show ?thesis by (auto simp: m_def)
qed

theorem savings_percent_witness:
  "\<exists>p::int. weeklySavingsPercent sample_week = Inr (num_int p) \<and> 0 \<le> p \<and> p \<le> 100
     \<and> \<bar>of_int p - of_nat (card (sleep_set sample_week)) * 100 / 10080\<bar> \<le> (1 / 2 :: rat)
     \<and> (sleep_set sample_week = {0..<10080} \<longrightarrow> p = 100)"
  by (rule savings_percent_bounds [OF sample_week_wf])

text \<open>Reordering or repeating windows changes nothing, and adding windows never lowers the count.\<close>

theorem weekly_minutes_monotone:
  assumes "\<forall>w \<in> set ws'. wf_window w" "set ws \<subseteq> set ws'"
  shows "\<exists>m m'. weeklySleepMinutes ws = Inr (num_int m) \<and> weeklySleepMinutes ws' = Inr (num_int m')
     \<and> m \<le> m' \<and> (set ws = set ws' \<longrightarrow> m = m')"
proof -
  have "\<forall>w \<in> set ws. wf_window w" using assms by blast
  then show ?thesis
    using weeklySleepMinutes_counts [of ws] weeklySleepMinutes_counts [OF assms(1)]
      card_mono [OF finite_sleep_set sleep_set_mono [OF assms(2)]] sleep_set_set [of ws ws']
    by (intro exI [of _ "int (card (sleep_set ws))"] exI [of _ "int (card (sleep_set ws'))"]) auto
qed

theorem weekly_minutes_monotone_witness:
  "\<exists>m m'. weeklySleepMinutes (tl sample_week) = Inr (num_int m) \<and> weeklySleepMinutes sample_week = Inr (num_int m')
     \<and> m \<le> m' \<and> (set (tl sample_week) = set sample_week \<longrightarrow> m = m')"
  by (rule weekly_minutes_monotone [OF sample_week_wf]) (simp add: sample_week_def)

end
