(* ===== verification/WindowPicker.thy ===== *)
theory WindowPicker
  imports WindowCover
begin

text \<open>
  \<open>frontend/src/components/policies/WindowPicker.tsx\<close>: the editor of a policy's sleep windows. The
  state is the list of windows the parent holds (every edit is passed to \<open>onChange\<close> and comes
  back as the new list); an event is a control the user operates, with the guard under which the
  component renders or enables that control.
\<close>

section \<open>Helpers\<close>

definition MAX_WINDOWS :: nat where "MAX_WINDOWS = 10"

definition DAYS :: "(int \<times> string) list" where
  "DAYS = [(1, ''Mon''), (2, ''Tue''), (3, ''Wed''), (4, ''Thu''), (5, ''Fri''), (6, ''Sat''),
           (0, ''Sun'')]"

definition DAY_NAMES_BY_VALUE :: "int \<Rightarrow> string option" where
  "DAY_NAMES_BY_VALUE = map_of DAYS"

definition HOURS :: "nat list" where "HOURS = [0..<24]"

definition MINUTES :: "nat list" where
  "MINUTES = [0, 5, 10, 15, 20, 25, 30, 35, 40, 45, 50, 55]"

text \<open>\<open>join\<close> prints a day that has no name as nothing.\<close>

definition day_part :: "int list \<Rightarrow> string" where
  "day_part sorted_days =
     (if length sorted_days = 7 then ''Daily''
      else if length sorted_days = 5 \<and> list_all (\<lambda>d. d \<in> set sorted_days) [1, 2, 3, 4, 5]
      then ''Weekday''
      else if length sorted_days = 2 \<and> sorted_days ! 0 = 0 \<and> sorted_days ! 1 = 6
      then ''Weekend''
      else join_with '', '' (map (\<lambda>d. case DAY_NAMES_BY_VALUE d of None \<Rightarrow> [] | Some n \<Rightarrow> n) sorted_days))"

definition time_part :: "jsnum \<Rightarrow> string" where
  "time_part startHour =
     (if Num 17 \<le> startHour \<or> startHour < Num 4 then ''Nights''
      else if Num 4 \<le> startHour \<and> startHour < Num 9 then ''Mornings''
      else if Num 9 \<le> startHour \<and> startHour < Num 13 then ''Midday''
      else ''Afternoons'')"

definition deriveWindowPlaceholder :: "sleep_window \<Rightarrow> nat \<Rightarrow> string" where
  "deriveWindowPlaceholder w idx =
     (if daysOfWeek w = [] then ''Window '' @ show_nat (idx + 1)
      else let sorted_days = sort (daysOfWeek w);
               dayPart = day_part sorted_days;
               isWeekdays = (length sorted_days = 5
                 \<and> list_all (\<lambda>d. d \<in> set sorted_days) [1, 2, 3, 4, 5]);
               isWeekends = (length sorted_days = 2 \<and> sorted_days ! 0 = 0 \<and> sorted_days ! 1 = 6)
           in if allDay w
              then (if isWeekdays then ''Weekdays'' else if isWeekends then ''Weekends'' else dayPart)
              else dayPart @ '' '' @ time_part (parse_int (hd (split_on CHR '':'' (startTime w)))))"

definition parseHM :: "string \<Rightarrow> jsnum \<times> jsnum" where
  "parseHM time = split_time time"

definition toHM :: "jsnum \<Rightarrow> jsnum \<Rightarrow> string" where
  "toHM h m = pad_start 2 CHR ''0'' (show_num h) @ '':'' @ pad_start 2 CHR ''0'' (show_num m)"

definition window :: "string option \<Rightarrow> int list \<Rightarrow> string \<Rightarrow> string \<Rightarrow> bool \<Rightarrow> sleep_window" where
  "window n ds st en ad =
     \<lparr>win_name = n, daysOfWeek = ds, startTime = st, endTime = en, allDay = ad\<rparr>"

definition PRESETS :: "(string \<times> sleep_window list) list" where
  "PRESETS =
     [(''Business hours'',
        [window (Some ''After Hours'') [1, 2, 3, 4, 5] ''17:00'' ''09:00'' False,
         window (Some ''Weekends'') [0, 6] ''00:00'' ''00:00'' True]),
      (''Weekday nights'',
        [window (Some ''Weekday Nights'') [1, 2, 3, 4, 5] ''19:00'' ''07:00'' False]),
      (''Weekends'',
        [window (Some ''Weekends'') [0, 6] ''00:00'' ''00:00'' True])]"

section \<open>Edits\<close>

text \<open>The patches the card's controls pass to \<open>onUpdate\<close>.\<close>

datatype patch =
    PatchName "string option"
  | PatchAllDay bool
  | PatchStart string
  | PatchEnd string
  | PatchDays "int list"

fun apply_patch :: "patch \<Rightarrow> sleep_window \<Rightarrow> sleep_window" where
  "apply_patch (PatchName n) w = w\<lparr>win_name := n\<rparr>"
| "apply_patch (PatchAllDay b) w = w\<lparr>allDay := b\<rparr>"
| "apply_patch (PatchStart s) w = w\<lparr>startTime := s\<rparr>"
| "apply_patch (PatchEnd s) w = w\<lparr>endTime := s\<rparr>"
| "apply_patch (PatchDays ds) w = w\<lparr>daysOfWeek := ds\<rparr>"

definition updateWindow :: "sleep_window list \<Rightarrow> nat \<Rightarrow> patch \<Rightarrow> sleep_window list" where
  "updateWindow windows idx p =
     map (\<lambda>(i, w). if i = idx then apply_patch p w else w) (List.enumerate 0 windows)"

definition toggleDay :: "sleep_window list \<Rightarrow> nat \<Rightarrow> int \<Rightarrow> js_error + sleep_window list" where
  "toggleDay windows windowIdx day =
     (if windowIdx < length windows
      then let w = windows ! windowIdx;
               days = (if day \<in> set (daysOfWeek w) then filter (\<lambda>d. d \<noteq> day) (daysOfWeek w)
                       else daysOfWeek w @ [day])
           in Inr (updateWindow windows windowIdx (PatchDays days))
      else Inl TypeError)"

definition addWindow :: "sleep_window list \<Rightarrow> sleep_window list" where
  "addWindow windows = windows @ [window None [] ''19:00'' ''07:00'' False]"

definition removeWindow :: "sleep_window list \<Rightarrow> nat \<Rightarrow> sleep_window list" where
  "removeWindow windows idx =
     map snd (filter (\<lambda>(i, w). i \<noteq> idx) (List.enumerate 0 windows))"

definition neverWakes :: "sleep_window list \<Rightarrow> bool" where
  "neverWakes windows =
     (let activeWindows = filter (\<lambda>w. 0 < length (daysOfWeek w)) windows;
          allDaysScheduled = remdups (concat (map daysOfWeek activeWindows))
      in 0 < length activeWindows \<and> list_all allDay activeWindows \<and> length allDaysScheduled = 7)"

section \<open>The editor as a state machine\<close>

text \<open>
  Controls of card \<open>i\<close>: the name field (an emptied field removes the name), the all-day switch,
  the four time menus (rendered unless the window is all-day; their values are the items of
  \<open>HOURS\<close> and \<open>MINUTES\<close>), the seven day buttons, the remove button (rendered with more than one
  window). Below the cards: the presets and the add button (disabled at the limit).
\<close>

datatype picker_event =
    EditName nat string
  | SwitchAllDay nat bool
  | PickSleepHour nat nat
  | PickSleepMinute nat nat
  | PickWakeHour nat nat
  | PickWakeMinute nat nat
  | ClickDay nat nat
  | ClickRemove nat
  | ClickAdd
  | ClickPreset nat

definition pick_time :: "(jsnum \<times> jsnum \<Rightarrow> string) \<Rightarrow> (string \<Rightarrow> patch) \<Rightarrow> (sleep_window \<Rightarrow> string)
     \<Rightarrow> sleep_window list \<Rightarrow> nat \<Rightarrow> sleep_window list" where
  "pick_time f mk field ws i =
     (if i < length ws \<and> \<not> allDay (ws ! i)
      then updateWindow ws i (mk (f (parseHM (field (ws ! i))))) else ws)"

fun picker_step :: "sleep_window list \<Rightarrow> picker_event \<Rightarrow> sleep_window list" where
  "picker_step ws (EditName i s) = updateWindow ws i (PatchName (if s = [] then None else Some s))"
| "picker_step ws (SwitchAllDay i b) = updateWindow ws i (PatchAllDay b)"
| "picker_step ws (PickSleepHour i k) =
     (if k < length HOURS
      then pick_time (\<lambda>(sH, sM). toHM (Num (of_nat (HOURS ! k))) sM) PatchStart startTime ws i
      else ws)"
| "picker_step ws (PickSleepMinute i k) =
     (if k < length MINUTES
      then pick_time (\<lambda>(sH, sM). toHM sH (Num (of_nat (MINUTES ! k)))) PatchStart startTime ws i
      else ws)"
| "picker_step ws (PickWakeHour i k) =
     (if k < length HOURS
      then pick_time (\<lambda>(eH, eM). toHM (Num (of_nat (HOURS ! k))) eM) PatchEnd endTime ws i
      else ws)"
| "picker_step ws (PickWakeMinute i k) =
     (if k < length MINUTES
      then pick_time (\<lambda>(eH, eM). toHM eH (Num (of_nat (MINUTES ! k)))) PatchEnd endTime ws i
      else ws)"
| "picker_step ws (ClickDay i k) =
     (if k < length DAYS
      then (case toggleDay ws i (fst (DAYS ! k)) of Inl e \<Rightarrow> ws | Inr ws' \<Rightarrow> ws') else ws)"
| "picker_step ws (ClickRemove i) = (if 1 < length ws then removeWindow ws i else ws)"
| "picker_step ws ClickAdd = (if MAX_WINDOWS \<le> length ws then ws else addWindow ws)"
| "picker_step ws (ClickPreset k) = (if k < length PRESETS then snd (PRESETS ! k) else ws)"

section \<open>Correctness of the edits\<close>

lemma length_updateWindow [simp]: "length (updateWindow ws i p) = length ws"
  by (simp add: updateWindow_def)

lemma nth_updateWindow:
  "j < length ws \<Longrightarrow> updateWindow ws i p ! j = (if j = i then apply_patch p (ws ! j) else ws ! j)"
  by (simp add: updateWindow_def nth_enumerate_eq)

lemma updateWindow_eq:
  "i < length ws \<Longrightarrow> updateWindow ws i p = ws[i := apply_patch p (ws ! i)]"
  by (rule nth_equalityI) (auto simp: nth_updateWindow nth_list_update)

lemma updateWindow_out: "length ws \<le> i \<Longrightarrow> updateWindow ws i p = ws"
  by (rule nth_equalityI) (auto simp: nth_updateWindow)

lemma removeWindow_eq: "removeWindow ws i = take i ws @ drop (Suc i) ws"
proof -
  have "map snd (filter (\<lambda>(j, w). j \<noteq> i) (List.enumerate n ws))
      = (if n \<le> i then take (i - n) ws @ drop (Suc (i - n)) ws else ws)" for n
  proof (induction ws arbitrary: n)
    case Nil
    then show ?case by simp
  next
    case (Cons w ws)
    show ?case
    proof (cases "i - n")
      case 0
      then show ?thesis using Cons [of "Suc n"] by (cases "n = i") auto
    next
      case (Suc k)
      then have "i - Suc n = k" by simp
      with Suc show ?thesis using Cons [of "Suc n"] by auto
    qed
  qed
  from this [of 0] show ?thesis by (simp add: removeWindow_def)
qed

text \<open>A window the editor can hold: like \<open>wf_window\<close>, with times that stay valid under the switch.\<close>

definition editable :: "sleep_window \<Rightarrow> bool" where
  "editable w =
     (list_all (\<lambda>d. 0 \<le> d \<and> d \<le> 6) (daysOfWeek w) \<and> distinct (daysOfWeek w)
      \<and> valid_time (startTime w) \<and> valid_time (endTime w))"

lemma editable_wf: "editable w \<Longrightarrow> wf_window w"
  by (simp add: editable_def wf_window_def)

definition two_digits :: "nat \<Rightarrow> string" where
  "two_digits n = pad_start 2 CHR ''0'' (show_nat n)"

lemma digit_char_0: "digit_char 0 = CHR ''0''"
  by code_simp

lemma two_digits_char: "n < 100 \<Longrightarrow> two_digits n = [digit_char (n div 10), digit_char (n mod 10)]"
proof (cases "n < 10")
  case True
  then have "show_nat n = [digit_char n]" by (simp add: show_nat.simps)
  with True show ?thesis
    by (simp add: two_digits_def pad_start_def digit_char_0)
next
  case False
  assume "n < 100"
  with False have "show_nat n = [digit_char (n div 10), digit_char (n mod 10)]"
    by (simp add: show_nat.simps [of n] show_nat.simps [of "n div 10"])
  then show ?thesis by (simp add: two_digits_def pad_start_def)
qed

lemma valid_time_two_digits:
  assumes "h < 24" "m < 60"
  shows "valid_time (two_digits h @ CHR '':'' # two_digits m)"
proof -
  have val: "digits_val (two_digits h) = h" "digits_val (two_digits m) = m"
    by (simp_all add: two_digits_def)
  have "two_digits h = [digit_char (h div 10), digit_char (h mod 10)]"
    "two_digits m = [digit_char (m div 10), digit_char (m mod 10)]"
    using assms by (simp_all add: two_digits_char)
  then show ?thesis
    using assms val by (simp add: valid_time_def)
qed

lemma show_num_nat: "show_num (Num (of_nat n)) = show_nat n"
proof -
  have "\<lfloor>rat_of_nat n\<rfloor> = int n" by (metis floor_of_int of_int_of_nat_eq)
  then show ?thesis by (simp add: show_rat_def Let_def)
qed

lemma toHM_nat: "toHM (Num (of_nat h)) (Num (of_nat m)) = two_digits h @ CHR '':'' # two_digits m"
  by (simp add: toHM_def two_digits_def show_num_nat del: show_num.simps)

lemma parseHM_valid:
  "valid_time s \<Longrightarrow> \<exists>h m. parseHM s = (Num (of_nat h), Num (of_nat m)) \<and> h < 24 \<and> m < 60"
  by (auto simp: parseHM_def split_time_valid valid_time_def)


lemma editable_times:
  assumes "editable w"
  shows "h < 24 \<Longrightarrow> editable (w\<lparr>startTime := case parseHM (startTime w) of (sH, sM) \<Rightarrow> toHM (Num (of_nat h)) sM\<rparr>)"
    and "m < 60 \<Longrightarrow> editable (w\<lparr>startTime := case parseHM (startTime w) of (sH, sM) \<Rightarrow> toHM sH (Num (of_nat m))\<rparr>)"
    and "h < 24 \<Longrightarrow> editable (w\<lparr>endTime := case parseHM (endTime w) of (eH, eM) \<Rightarrow> toHM (Num (of_nat h)) eM\<rparr>)"
    and "m < 60 \<Longrightarrow> editable (w\<lparr>endTime := case parseHM (endTime w) of (eH, eM) \<Rightarrow> toHM eH (Num (of_nat m))\<rparr>)"
  using assms parseHM_valid [of "startTime w"] parseHM_valid [of "endTime w"]
  by (auto simp: editable_def toHM_nat valid_time_two_digits)

lemma HOURS_bound: "k < length HOURS \<Longrightarrow> HOURS ! k < 24"
  by (simp add: HOURS_def)

lemma MINUTES_bound: "k < length MINUTES \<Longrightarrow> MINUTES ! k < 60"
  using nth_mem [of k MINUTES] by (auto simp: MINUTES_def)

lemma DAYS_bound: "k < length DAYS \<Longrightarrow> 0 \<le> fst (DAYS ! k) \<and> fst (DAYS ! k) \<le> 6"
  using nth_mem [of k DAYS] by (auto simp: DAYS_def)

lemma valid_time_literals:
  "valid_time ''17:00''" "valid_time ''09:00''" "valid_time ''00:00''" "valid_time ''19:00''"
  "valid_time ''07:00''"
  by code_simp+

lemma PRESETS_ok: "k < length PRESETS \<Longrightarrow>
    list_all editable (snd (PRESETS ! k)) \<and> length (snd (PRESETS ! k)) \<le> MAX_WINDOWS
      \<and> snd (PRESETS ! k) \<noteq> []"
  using nth_mem [of k PRESETS]
  by (auto simp: PRESETS_def window_def editable_def valid_time_literals MAX_WINDOWS_def)

definition picker_inv :: "sleep_window list \<Rightarrow> bool" where
  "picker_inv ws = (list_all editable ws \<and> length ws \<le> MAX_WINDOWS)"

lemma toggleDay_ok:
  assumes "i < length ws"
  shows "toggleDay ws i d = Inr (ws[i := (ws ! i)\<lparr>daysOfWeek :=
    (if d \<in> set (daysOfWeek (ws ! i)) then filter (\<lambda>x. x \<noteq> d) (daysOfWeek (ws ! i))
     else daysOfWeek (ws ! i) @ [d])\<rparr>])"
  using assms by (simp add: toggleDay_def Let_def updateWindow_eq)

lemma editable_toggle:
  "editable w \<Longrightarrow> 0 \<le> d \<Longrightarrow> d \<le> 6 \<Longrightarrow> editable (w\<lparr>daysOfWeek :=
    (if d \<in> set (daysOfWeek w) then filter (\<lambda>x. x \<noteq> d) (daysOfWeek w) else daysOfWeek w @ [d])\<rparr>)"
  by (auto simp: editable_def list_all_iff)

lemma list_all_update: "list_all P xs \<Longrightarrow> P x \<Longrightarrow> list_all P (xs[i := x])"
  by (auto simp: list_all_iff dest!: set_update_subset_insert [THEN subsetD])

lemma update_ok:
  assumes "picker_inv ws" "\<And>w. editable w \<Longrightarrow> editable (apply_patch p w)"
  shows "picker_inv (updateWindow ws i p)"
proof (cases "i < length ws")
  case True
  then have "editable (apply_patch p (ws ! i))"
    using assms by (simp add: picker_inv_def list_all_length)
  then show ?thesis
    using assms(1) True by (simp add: picker_inv_def updateWindow_eq list_all_update)
next
  case False
  then show ?thesis using assms(1) by (simp add: updateWindow_out)
qed

lemma pick_time_ok:
  assumes inv: "picker_inv ws"
    and "\<And>w. editable w \<Longrightarrow> editable (apply_patch (mk (f (parseHM (field w)))) w)"
  shows "picker_inv (pick_time f mk field ws i)"
proof (cases "i < length ws \<and> \<not> allDay (ws ! i)")
  case True
  then have "editable (apply_patch (mk (f (parseHM (field (ws ! i))))) (ws ! i))"
    using assms by (simp add: picker_inv_def list_all_length)
  then show ?thesis
    using inv True by (simp add: pick_time_def picker_inv_def updateWindow_eq list_all_update)
next
  case False
  then show ?thesis using inv by (auto simp: pick_time_def)
qed

lemma toggle_ok:
  assumes "picker_inv ws" "0 \<le> d" "d \<le> 6" "toggleDay ws i d = Inr ws'"
  shows "picker_inv ws'"
proof (cases "i < length ws")
  case True
  then have e: "editable (ws ! i)" using assms(1) by (simp add: picker_inv_def list_all_length)
  show ?thesis
    using True assms list_all_update [where P = editable, OF _ editable_toggle [OF e assms(2,3)]]
    by (auto simp: toggleDay_ok picker_inv_def split del: if_split)
next
  case False
  then show ?thesis using assms by (simp add: toggleDay_def)
qed

lemma remove_ok: "picker_inv ws \<Longrightarrow> picker_inv (removeWindow ws i)"
  by (auto simp: picker_inv_def removeWindow_eq list_all_iff dest: in_set_takeD in_set_dropD)

lemma add_ok: "picker_inv ws \<Longrightarrow> length ws < MAX_WINDOWS \<Longrightarrow> picker_inv (addWindow ws)"
  by (auto simp: picker_inv_def addWindow_def window_def editable_def valid_time_literals)

lemma preset_ok: "k < length PRESETS \<Longrightarrow> picker_inv (snd (PRESETS ! k))"
  by (simp add: PRESETS_ok picker_inv_def)

lemma picker_step_inv: "picker_inv ws \<Longrightarrow> picker_inv (picker_step ws e)"
proof (cases e)
  case (EditName i s)
  moreover assume "picker_inv ws"
  ultimately show ?thesis by (auto intro!: update_ok simp: editable_def)
next
  case (SwitchAllDay i b)
  moreover assume "picker_inv ws"
  ultimately show ?thesis by (auto intro!: update_ok simp: editable_def)
next
  case (ClickDay i k)
  moreover assume "picker_inv ws"
  ultimately show ?thesis
    using DAYS_bound [of k] by (auto split: sum.splits intro: toggle_ok)
next
  case (PickSleepHour i k)
  moreover assume "picker_inv ws"
  ultimately show ?thesis
    using pick_time_ok [of ws PatchStart] editable_times(1) HOURS_bound [of k] by simp
next
  case (PickSleepMinute i k)
  moreover assume "picker_inv ws"
  ultimately show ?thesis
    using pick_time_ok [of ws PatchStart] editable_times(2) MINUTES_bound [of k] by simp
next
  case (PickWakeHour i k)
  moreover assume "picker_inv ws"
  ultimately show ?thesis
    using pick_time_ok [of ws PatchEnd] editable_times(3) HOURS_bound [of k] by simp
next
  case (PickWakeMinute i k)
  moreover assume "picker_inv ws"
  ultimately show ?thesis
    using pick_time_ok [of ws PatchEnd] editable_times(4) MINUTES_bound [of k] by simp
qed (simp_all add: remove_ok add_ok preset_ok)

interpretation picker: machine picker_step picker_inv
  by unfold_locales (rule picker_step_inv)

section \<open>The never-wake warning\<close>

lemma neverWakes_covers:
  assumes "\<forall>w \<in> set ws. wf_window w" "neverWakes ws"
  shows "sleep_set ws = {0..<10080}"
proof -
  let ?act = "filter (\<lambda>w. 0 < length (daysOfWeek w)) ws"
  let ?days = "set (concat (map daysOfWeek ?act))"
  have all: "\<forall>w \<in> set ?act. allDay w" and card: "card ?days = 7"
    using assms(2) by (auto simp: neverWakes_def Let_def list_all_iff length_remdups_card_conv)
  have "?days \<subseteq> {0..6}"
    using assms(1) by (auto simp: wf_window_def list_all_iff)
  then have days: "?days = {0..6}"
    using card by (intro card_subset_eq) auto
  have "asleep ws t" if t: "0 \<le> t" "t < 10080" for t
  proof -
    have "t div 1440 \<in> {0..6}" using t by auto
    then have "t div 1440 \<in> ?days" by (simp only: days)
    then obtain w where w: "w \<in> set ?act" "t div 1440 \<in> set (daysOfWeek w)" by auto
    have "(t - t div 1440 * 1440) mod 10080 < 1440"
      by (simp add: minus_div_mult_eq_mod)
    with w all have "covers w t"
      by (auto simp: covers_def list_ex_iff win_length_def win_start_def win_end_def intro!: bexI [of _ "t div 1440"])
    then show ?thesis using w by (auto simp: asleep_def list_ex_iff)
  qed
  then show ?thesis by (auto simp: sleep_set_def)
qed

text \<open>Whatever the user clicks, in any order, the editor holds at most ten windows, each with times that can be read
  and distinct days of the week, so the weekly figures of what it holds are always defined. A window may be without a
  day, and end when it starts.\<close>

theorem picker_keeps_schedule_valid:
  assumes "list_all editable ws" "length ws \<le> MAX_WINDOWS"
  shows "let ws' = run picker_step ws es in list_all editable ws' \<and> length ws' \<le> MAX_WINDOWS
     \<and> (\<exists>m. weeklySleepMinutes ws' = Inr (num_int m) \<and> 0 \<le> m \<and> m \<le> 10080)"
proof -
  let ?ws = "run picker_step ws es"
  have inv: "picker_inv ?ws" using assms by (intro picker.run_inv) (simp add: picker_inv_def)
  then have "\<forall>w \<in> set ?ws. wf_window w" by (auto simp: picker_inv_def list_all_iff editable_wf)
  then show ?thesis
    using inv weeklySleepMinutes_counts card_sleep_set_le [of ?ws]
    by (auto simp: picker_inv_def Let_def intro!: exI [of _ "int (card (sleep_set ?ws))"])
qed

theorem picker_keeps_schedule_valid_witness:
  "let ws' = run picker_step [] [ClickAdd, ClickDay 0 6, PickWakeHour 0 23, ClickPreset 0, ClickRemove 1]
   in list_all editable ws' \<and> length ws' \<le> MAX_WINDOWS
     \<and> (\<exists>m. weeklySleepMinutes ws' = Inr (num_int m) \<and> 0 \<le> m \<and> m \<le> 10080)"
  by (rule picker_keeps_schedule_valid) simp_all

text \<open>The never-wake warning is never wrong: when it shows, every minute of the week is asleep.\<close>

theorem never_wake_warning_sound:
  assumes "\<forall>w \<in> set ws. wf_window w" "neverWakes ws"
  shows "weeklySleepMinutes ws = Inr (num_int 10080)"
  using weeklySleepMinutes_counts [OF assms(1)] neverWakes_covers [OF assms] by simp

definition all_week :: "sleep_window list" where
  "all_week = [window None [1, 2, 3, 4, 5] ''09:00'' ''17:00'' True, window None [0, 6] ''00:00'' ''00:00'' True]"

theorem never_wake_warning_sound_witness: "weeklySleepMinutes all_week = Inr (num_int 10080)"
  by (rule never_wake_warning_sound) code_simp+

text \<open>It is not complete: a window from midnight to midnight on all seven days sleeps through the whole
  week, and so does a full set of all-day windows beside a shorter window, but neither is reported.\<close>

theorem never_wake_warning_incomplete:
  "weeklySleepMinutes [window None [0, 1, 2, 3, 4, 5, 6] ''00:00'' ''00:00'' False] = Inr (num_int 10080)
   \<and> \<not> neverWakes [window None [0, 1, 2, 3, 4, 5, 6] ''00:00'' ''00:00'' False]
   \<and> weeklySleepMinutes (window None [1] ''19:00'' ''20:00'' False # all_week) = Inr (num_int 10080)
   \<and> \<not> neverWakes (window None [1] ''19:00'' ''20:00'' False # all_week)"
  by (intro conjI; code_simp)

end
