(* ===== verification/ClusterTypes.thy ===== *)
theory ClusterTypes
  imports Types
begin

text \<open>
  The rest of \<open>frontend/src/lib/types.ts\<close>: workloads, nodes, pods, the overview, executions and the
  inputs of the forms, and the constants of \<open>constants.ts\<close>. Conventions as in theory Types; a
  \<open>Record<string, string>\<close> is an insertion-ordered association list.
\<close>

section \<open>Workloads and nodes\<close>

datatype workload_status = WlRunning | WlSleeping | WlPartial

record workload =
  wl_namespace :: string
  wl_name :: string
  wl_kind :: workload_kind
  wl_currentReplicas :: int
  wl_savedReplicas :: "int option"
  wl_readyReplicas :: int
  wl_status :: workload_status

record node_taint =
  tn_key :: string
  tn_value :: string
  tn_effect :: string

datatype node_status = NodeActive | NodeProtected | NodeWouldDrain

record node =
  nd_name :: string
  nd_instanceType :: string
  nd_zone :: string
  nd_podCount :: int
  nd_status :: node_status
  nd_protectionReason :: "string option"
  nd_cpuAllocatable :: int
  nd_cpuRequested :: int
  nd_memAllocatable :: int
  nd_memRequested :: int
  nd_createdAt :: string
  nd_cordoned :: bool
  nd_labels :: "(string \<times> string) list"
  nd_taints :: "node_taint list"

section \<open>Pods\<close>

record node_pod =
  np_name :: string
  np_namespace :: string
  np_ownerKind :: string
  np_ownerName :: string
  np_status :: string
  np_readyContainers :: int
  np_totalContainers :: int
  np_cpuRequest :: int
  np_memRequest :: int
  np_cpuUsage :: int
  np_memUsage :: int
  np_startedAt :: string

record pod_container =
  ct_name :: string
  ct_image :: string
  ct_ready :: bool
  ct_restartCount :: int
  ct_cpuRequest :: int
  ct_memRequest :: int
  ct_cpuLimit :: int
  ct_memLimit :: int
  ct_cpuUsage :: int
  ct_memUsage :: int
  ct_lastState :: string

datatype condition_status = CondTrue | CondFalse | CondUnknown

record pod_condition =
  co_type :: string
  co_status :: condition_status

record pod_event =
  pe_type :: string
  pe_reason :: string
  pe_message :: string
  pe_count :: int
  pe_lastSeen :: string

record pod_detail =
  po_name :: string
  po_namespace :: string
  po_phase :: string
  po_nodeName :: string
  po_nodeInstanceType :: string
  po_podIP :: string
  po_hostIP :: string
  po_qosClass :: string
  po_startedAt :: string
  po_labels :: "(string \<times> string) list"
  po_annotations :: "(string \<times> string) list"
  po_containers :: "pod_container list"
  po_conditions :: "pod_condition list"
  po_events :: "pod_event list"

section \<open>Overview\<close>

datatype cluster_status = ClusterAwake | ClusterSleeping | ClusterPartial

record overview =
  ov_clusterStatus :: cluster_status
  ov_runningCount :: int
  ov_sleepingCount :: int
  ov_nodeCount :: int
  ov_sleepingByNs :: "(string \<times> int) list"
  ov_nextRun :: "(string \<times> string) option"
  ov_cacheAgeMs :: int

record cluster_info =
  ci_apiServer :: string
  ci_kubernetesVersion :: string
  ci_authMode :: string
  ci_clusterName :: string

record version_info =
  vi_version :: string
  vi_goVersion :: string
  vi_uptime :: string

section \<open>Executions\<close>

record policy_execution =
  xe_id :: int
  xe_policyId :: int
  xe_policyName :: "string option"
  xe_direction :: direction
  xe_trigger :: string
  xe_startedAt :: string
  xe_finishedAt :: "string option"
  xe_status :: exec_status
  xe_mode :: exec_mode
  xe_countScaled :: int
  xe_countSkipped :: int
  xe_countErrors :: int
  xe_countProtected :: int
  xe_countDrained :: int
  xe_countDeleted :: int

text \<open>A page of a list with the number of all its entries; executions and audit entries have one each.\<close>

record 'a page =
  pg_items :: "'a list"
  pg_total :: int

section \<open>Inputs\<close>

text \<open>A field that is absent is \<open>None\<close>.\<close>

record policy_input =
  pi_name :: string
  pi_description :: "string option"
  pi_namespaceFilter :: "string option"
  pi_labelSelector :: "string option"
  pi_sleepWindows :: "sleep_window list"
  pi_timezone :: "string option"
  pi_mode :: "exec_mode option"
  pi_enabled :: "bool option"
  pi_timeoutMinutes :: "int option"

record exception_input =
  xi_policyId :: "int option"
  xi_exceptionType :: exception_type
  xi_startsAt :: string
  xi_endsAt :: string
  xi_ticketRef :: "string option"
  xi_reason :: "string option"
  xi_sleepOnEnd :: "bool option"
  xi_namespaceFilter :: "string option"
  xi_labelSelector :: "string option"
  xi_workloadTargets :: "workload_target list option"

datatype snack_severity = SnackSuccess | SnackError

record snack_message =
  sn_msg :: string
  sn_severity :: snack_severity

section \<open>Constants\<close>

definition TIMEZONES :: "string list" where
  "TIMEZONES =
     [''UTC'',
      ''Europe/London'', ''Europe/Dublin'', ''Europe/Lisbon'',
      ''Europe/Paris'', ''Europe/Berlin'', ''Europe/Amsterdam'', ''Europe/Brussels'',
      ''Europe/Madrid'', ''Europe/Rome'', ''Europe/Zurich'',
      ''Europe/Budapest'', ''Europe/Warsaw'', ''Europe/Prague'', ''Europe/Vienna'',
      ''Europe/Athens'', ''Europe/Helsinki'', ''Europe/Stockholm'',
      ''Europe/Moscow'', ''Europe/Istanbul'',
      ''America/New_York'', ''America/Toronto'',
      ''America/Chicago'', ''America/Denver'',
      ''America/Los_Angeles'', ''America/Vancouver'',
      ''America/Sao_Paulo'', ''America/Argentina/Buenos_Aires'',
      ''America/Mexico_City'', ''America/Bogota'',
      ''Asia/Dubai'', ''Asia/Karachi'', ''Asia/Kolkata'',
      ''Asia/Dhaka'', ''Asia/Bangkok'', ''Asia/Singapore'', ''Asia/Shanghai'',
      ''Asia/Tokyo'', ''Asia/Seoul'',
      ''Africa/Cairo'', ''Africa/Nairobi'', ''Africa/Johannesburg'', ''Africa/Lagos'',
      ''Australia/Sydney'', ''Australia/Melbourne'', ''Australia/Perth'',
      ''Pacific/Auckland'']"

definition REQUEST_TIMEOUT_MS :: int where "REQUEST_TIMEOUT_MS = 30000"
definition WORKLOADS_REFETCH_MS :: int where "WORKLOADS_REFETCH_MS = 30000"
definition NODES_REFETCH_MS :: int where "NODES_REFETCH_MS = 30000"
definition POLICIES_REFETCH_MS :: int where "POLICIES_REFETCH_MS = 30000"
definition EXCEPTIONS_REFETCH_MS :: int where "EXCEPTIONS_REFETCH_MS = 30000"
definition EXECUTIONS_REFETCH_MS :: int where "EXECUTIONS_REFETCH_MS = 10000"
definition SNACKBAR_AUTO_HIDE_MS :: int where "SNACKBAR_AUTO_HIDE_MS = 4000"
definition DRAWER_MIN_WIDTH :: int where "DRAWER_MIN_WIDTH = 360"
definition DRAWER_MAX_WIDTH_RATIO :: rat where "DRAWER_MAX_WIDTH_RATIO = 9 / 10"

lemma timezones_distinct: "distinct TIMEZONES \<and> ''UTC'' \<in> set TIMEZONES"
  by code_simp

end
