(* ===== verification/QueryKeys.thy ===== *)
theory QueryKeys
  imports ClusterTypes
begin

text \<open>
  \<open>lib/queryKeys.ts\<close>, the part of the query cache that the mutations use, \<open>lib/usePolicyTriggers.ts\<close> and
  \<open>lib/rbac.ts\<close>. A key is a list of texts, numbers and undefined; \<open>invalidateQueries\<close> marks every cached
  query whose key extends the given one, as the documentation of the query library says.
\<close>

section \<open>Keys\<close>

datatype key_part = KStr string | KNum int | KUndef

type_synonym query_key = "key_part list"

definition opt_num :: "int option \<Rightarrow> key_part" where
  "opt_num n = (case n of Some i \<Rightarrow> KNum i | None \<Rightarrow> KUndef)"

definition opt_str :: "string option \<Rightarrow> key_part" where
  "opt_str s = (case s of Some t \<Rightarrow> KStr t | None \<Rightarrow> KUndef)"

definition workloads_key :: query_key where "workloads_key = [KStr ''workloads'']"
definition nodes_key :: query_key where "nodes_key = [KStr ''nodes'']"
definition guardrails_key :: query_key where "guardrails_key = [KStr ''guardrails'']"
definition policies_key :: query_key where "policies_key = [KStr ''policies'']"
definition policy_key :: "int \<Rightarrow> query_key" where "policy_key i = [KStr ''policy'', KNum i]"

definition policyExecutions_key :: "int option \<Rightarrow> query_key" where
  "policyExecutions_key policyId =
     (case policyId of
        Some i \<Rightarrow> [KStr ''policy-executions'', KStr ''by-policy'', KNum i]
      | None \<Rightarrow> [KStr ''policy-executions''])"

definition policyExecutionsFeed_key :: query_key where
  "policyExecutionsFeed_key = [KStr ''policy-executions'', KStr ''feed'']"

definition policyExecutionsTable_key :: "int \<Rightarrow> int \<Rightarrow> string \<Rightarrow> string \<Rightarrow> query_key" where
  "policyExecutionsTable_key page rowsPerPage status direction =
     [KStr ''policy-executions'', KStr ''table'', KNum page, KNum rowsPerPage, KStr status, KStr direction]"

definition policyExecutionPoll_key :: "int option \<Rightarrow> query_key" where
  "policyExecutionPoll_key i = [KStr ''policy-execution-poll'', opt_num i]"
definition policyExecution_key :: "int option \<Rightarrow> query_key" where
  "policyExecution_key i = [KStr ''policy-execution'', opt_num i]"
definition policyExecutionsFetch_key :: "int \<Rightarrow> query_key" where
  "policyExecutionsFetch_key i = [KStr ''policy-executions'', KStr ''fetch'', KNum i]"

definition auditLogs_key :: "int \<Rightarrow> int \<Rightarrow> string \<Rightarrow> string \<Rightarrow> string \<Rightarrow> string \<Rightarrow> query_key" where
  "auditLogs_key page pageSize user action since till =
     [KStr ''audit-logs'', KNum page, KNum pageSize, KStr user, KStr action, KStr since, KStr till]"

definition exceptions_key :: "int option \<Rightarrow> query_key" where
  "exceptions_key policyId = (case policyId of Some i \<Rightarrow> [KStr ''exceptions'', KNum i] | None \<Rightarrow> [KStr ''exceptions''])"

definition users_key :: query_key where "users_key = [KStr ''users'']"
definition logs_key :: "int option \<Rightarrow> query_key" where "logs_key i = [KStr ''logs'', opt_num i]"
definition podDetail_key :: "string \<Rightarrow> string \<Rightarrow> query_key" where
  "podDetail_key namespace podName = [KStr ''pod-detail'', KStr namespace, KStr podName]"
definition nodePods_key :: "string option \<Rightarrow> query_key" where "nodePods_key n = [KStr ''node-pods'', opt_str n]"
definition workloadPods_key :: "string option \<Rightarrow> string option \<Rightarrow> string option \<Rightarrow> query_key" where
  "workloadPods_key ns kind name = [KStr ''workload-pods'', opt_str ns, opt_str kind, opt_str name]"
definition clusterInfo_key :: query_key where "clusterInfo_key = [KStr ''cluster-info'']"
definition version_key :: query_key where "version_key = [KStr ''version'']"
definition sessions_key :: query_key where "sessions_key = [KStr ''sessions'']"
definition oidcConfig_key :: query_key where "oidcConfig_key = [KStr ''oidc-config'']"
definition overview_key :: query_key where "overview_key = [KStr ''overview'']"
definition observabilityHistory_key :: "string \<Rightarrow> query_key" where
  "observabilityHistory_key r = [KStr ''observability-history'', KStr r]"

section \<open>The cache\<close>

text \<open>The cached queries with the mark that their data is stale.\<close>

type_synonym query_cache = "(query_key \<times> bool) list"

definition invalidateQueries :: "query_key \<Rightarrow> query_cache \<Rightarrow> query_cache" where
  "invalidateQueries key cache = map (\<lambda>(k, stale). (k, stale \<or> prefix key k)) cache"

lemma invalidate_mem: "(k, b) \<in> set (invalidateQueries key cache) \<longleftrightarrow>
    (\<exists>st. (k, st) \<in> set cache \<and> b = (st \<or> prefix key k))"
  by (force simp: invalidateQueries_def)

section \<open>Triggering a policy (\<open>usePolicyTriggers\<close>)\<close>

text \<open>What the hook calls: the notification, the router, or the caller's \<open>onSuccessOverride\<close>.\<close>

datatype notice = Notified string snack_severity | Navigated string | Overridden int

record trigger_state =
  ts_cache :: query_cache
  ts_sleepPending :: bool
  ts_wakePending :: bool
  ts_notices :: "notice list"

datatype trigger_event =
    SleepClicked
  | WakeClicked
  | TriggerDone direction int
  | TriggerFailed direction string

definition trigger_success :: "bool \<Rightarrow> int \<Rightarrow> int \<Rightarrow> trigger_state \<Rightarrow> trigger_state" where
  "trigger_success overrides policyId executionId s =
     s\<lparr>ts_cache := invalidateQueries (policyExecutions_key (Some policyId))
         (invalidateQueries (policyExecutions_key None)
           (invalidateQueries (policy_key policyId) (invalidateQueries policies_key (ts_cache s)))),
       ts_notices := ts_notices s @
         [if overrides then Overridden executionId
          else Navigated (''/policies/detail/?id='' @ show_int policyId @ ''&exec='' @ show_int executionId)]\<rparr>"

definition set_pending :: "direction \<Rightarrow> bool \<Rightarrow> trigger_state \<Rightarrow> trigger_state" where
  "set_pending d b s = (case d of DirSleep \<Rightarrow> s\<lparr>ts_sleepPending := b\<rparr> | DirWake \<Rightarrow> s\<lparr>ts_wakePending := b\<rparr>)"

fun trigger_step :: "bool \<Rightarrow> int \<Rightarrow> trigger_state \<Rightarrow> trigger_event \<Rightarrow> trigger_state" where
  "trigger_step overrides policyId s SleepClicked = set_pending DirSleep True s"
| "trigger_step overrides policyId s WakeClicked = set_pending DirWake True s"
| "trigger_step overrides policyId s (TriggerDone d executionId) = trigger_success overrides policyId executionId (set_pending d False s)"
| "trigger_step overrides policyId s (TriggerFailed d msg) =
     (set_pending d False s)\<lparr>ts_notices := ts_notices s @ [Notified msg SnackError]\<rparr>"

definition isBusy :: "trigger_state \<Rightarrow> bool" where
  "isBusy s = (ts_sleepPending s \<or> ts_wakePending s)"

text \<open>After a trigger every cached list of executions, the policy and the list of policies are stale, and
  nothing else becomes so.\<close>

theorem trigger_refreshes_executions:
  "(k, True) \<in> set (ts_cache (trigger_step overrides policyId s (TriggerDone d e))) \<longleftrightarrow>
     (\<exists>st. (k, st) \<in> set (ts_cache s) \<and>
        (st \<or> prefix policies_key k \<or> prefix (policy_key policyId) k \<or> prefix (policyExecutions_key None) k))"
proof -
  have "prefix (policyExecutions_key (Some policyId)) k \<Longrightarrow> prefix (policyExecutions_key None) k"
    by (auto simp: policyExecutions_key_def prefix_def)
  moreover have "ts_cache (set_pending d False s) = ts_cache s" by (cases d) (simp_all add: set_pending_def)
  ultimately show ?thesis
    by (auto simp: trigger_success_def invalidate_mem)
qed

lemma execution_lists_refreshed:
  "prefix (policyExecutions_key None) (policyExecutions_key i)" "prefix (policyExecutions_key None) policyExecutionsFeed_key"
  "prefix (policyExecutions_key None) (policyExecutionsTable_key p r st d)"
  "\<not> prefix (policyExecutions_key None) (policyExecution_key i)"
  by (auto simp: policyExecutions_key_def policyExecutionsFeed_key_def policyExecutionsTable_key_def
      policyExecution_key_def split: option.split)

section \<open>Permissions (\<open>rbac.ts\<close>)\<close>

definition hasPerm :: "string list option \<Rightarrow> string \<Rightarrow> bool" where
  "hasPerm permissions perm = (case permissions of None \<Rightarrow> False | Some ps \<Rightarrow> perm \<in> set ps)"

definition canEditSchedules :: "string list option \<Rightarrow> bool" where "canEditSchedules ps = hasPerm ps ''schedule.edit''"
definition canTriggerSchedules :: "string list option \<Rightarrow> bool" where "canTriggerSchedules ps = hasPerm ps ''schedule.trigger''"
definition canEditGuardrails :: "string list option \<Rightarrow> bool" where "canEditGuardrails ps = hasPerm ps ''guardrail.edit''"
definition canManageUsers :: "string list option \<Rightarrow> bool" where "canManageUsers ps = hasPerm ps ''user.manage''"
definition canResetDB :: "string list option \<Rightarrow> bool" where "canResetDB ps = hasPerm ps ''admin.reset_db''"
definition canEmergencyScale :: "string list option \<Rightarrow> bool" where "canEmergencyScale ps = hasPerm ps ''admin.emergency_scale''"
definition canViewAudit :: "string list option \<Rightarrow> bool" where "canViewAudit ps = hasPerm ps ''audit.view''"

end
