(* ===== verification/TimeBlocks.thy ===== *)
theory TimeBlocks
  imports Windows
begin

text \<open>
  The calendar part of \<open>windowUtils.ts\<close>, with \<open>timelineUtils.ts\<close>: instants, civil times encoded as
  UTC dates, and the split of a time range into one block per calendar day.

  A \<open>Date\<close> is its time value in milliseconds; an invalid date is \<open>None\<close>. What the code asks the
  runtime for, and nothing in the repository defines, is a record of functions: the parsing of a
  timestamp, the civil fields of an instant in a named zone (the \<open>Intl\<close> time zone database; \<open>None\<close>
  is the \<open>RangeError\<close> for an unknown zone) and in the browser's own zone, and the current time.
\<close>

section \<open>The runtime\<close>

record civil =
  cv_year :: int
  cv_month :: int
  cv_day :: int
  cv_hour :: int
  cv_minute :: int
  cv_second :: int

record js_env =
  date_parse :: "string \<Rightarrow> int option"
  intl_parts :: "string \<Rightarrow> int \<Rightarrow> civil option"
  host_fields :: "int \<Rightarrow> civil"
  date_now :: int

section \<open>Dates\<close>

abbreviation (input) MS_PER_DAY :: int where "MS_PER_DAY \<equiv> 86400000"

text \<open>Days since 1970-01-01 in the proleptic Gregorian calendar; \<open>m\<close> counts from 0.\<close>

definition days_of_civil :: "int \<Rightarrow> int \<Rightarrow> int \<Rightarrow> int" where
  "days_of_civil y m d =
     (let y1 = y + m div 12; mp = m mod 12 + 1;
          yy = (if mp \<le> 2 then y1 - 1 else y1);
          era = yy div 400; yoe = yy mod 400;
          doy = (153 * ((mp + 9) mod 12) + 2) div 5 + d - 1;
          doe = yoe * 365 + yoe div 4 - yoe div 100 + doy
      in era * 146097 + doe - 719468)"

text \<open>\<open>Date.UTC(y, m, d, h, mi, s)\<close>, with its reading of the years 0 to 99.\<close>

definition Date_UTC :: "int \<Rightarrow> int \<Rightarrow> int \<Rightarrow> int \<Rightarrow> int \<Rightarrow> int \<Rightarrow> int" where
  "Date_UTC y m d h mi s =
     days_of_civil (if 0 \<le> y \<and> y \<le> 99 then 1900 + y else y) m d * MS_PER_DAY
       + h * 3600000 + mi * 60000 + s * 1000"

definition getUTCDay :: "int \<Rightarrow> int" where "getUTCDay ms = (ms div MS_PER_DAY + 4) mod 7"
definition getUTCHours :: "int \<Rightarrow> int" where "getUTCHours ms = ms div 3600000 mod 24"
definition getUTCMinutes :: "int \<Rightarrow> int" where "getUTCMinutes ms = ms div 60000 mod 60"

text \<open>\<open>setUTCHours(0, 0, 0, 0)\<close>, which is also \<open>Date.UTC\<close> of the date's own year, month and day.\<close>

definition utc_midnight :: "int \<Rightarrow> int" where
  "utc_midnight ms = ms div MS_PER_DAY * MS_PER_DAY"

section \<open>Civil time\<close>

definition dateInTimezone :: "js_env \<Rightarrow> int option \<Rightarrow> string option \<Rightarrow> js_error + int option" where
  "dateInTimezone env date tz =
     (if tz = None \<or> tz = Some ''''
      then (case date of
              None \<Rightarrow> Inr None
            | Some ms \<Rightarrow>
                (let f = host_fields env ms
                 in Inr (Some (Date_UTC (cv_year f) (cv_month f - 1) (cv_day f)
                                 (cv_hour f) (cv_minute f) (cv_second f)))))
      else (case date of
              None \<Rightarrow> Inl RangeError
            | Some ms \<Rightarrow>
                (case intl_parts env (the tz) ms of
                   None \<Rightarrow> Inl RangeError
                 | Some p \<Rightarrow> Inr (Some (Date_UTC (cv_year p) (cv_month p - 1) (cv_day p)
                                 (cv_hour p) (cv_minute p) (cv_second p))))))"

text \<open>\<open>host_fields\<close> counts months from 1 as the formatted parts do; \<open>getMonth\<close> counts from 0.\<close>

definition hour_of :: "int \<Rightarrow> rat" where
  "hour_of d = of_int (getUTCHours d) + of_int (getUTCMinutes d) / 60"

text \<open>The current time is a valid date, so the getters of \<open>nowInTimezone\<close> never see an invalid one.\<close>

record zone_time =
  zt_dayOfWeek :: int
  zt_fractionalHour :: rat

definition nowInTimezone :: "js_env \<Rightarrow> string option \<Rightarrow> js_error + zone_time" where
  "nowInTimezone env tz =
     (case dateInTimezone env (Some (date_now env)) tz of
        Inl e \<Rightarrow> Inl e
      | Inr None \<Rightarrow> Inl TypeError
      | Inr (Some d) \<Rightarrow> Inr \<lparr>zt_dayOfWeek = getUTCDay d, zt_fractionalHour = hour_of d\<rparr>)"

definition DOW_MAP :: "int list" where
  "DOW_MAP = [1, 2, 3, 4, 5, 6, 0]"

definition toTimezone :: "js_env \<Rightarrow> string \<Rightarrow> string option \<Rightarrow> js_error + int option" where
  "toTimezone env ts tz = dateInTimezone env (date_parse env ts) tz"

section \<open>Blocks\<close>

record time_block =
  tb_row :: nat
  tb_startHour :: rat
  tb_endHour :: rat

definition day_block :: "int \<Rightarrow> int \<Rightarrow> int \<Rightarrow> int \<Rightarrow> time_block list" where
  "day_block st en endDay cursor =
     (case index_of (getUTCDay cursor) DOW_MAP of
        None \<Rightarrow> []
      | Some row \<Rightarrow>
          (let isSameAsStart = (cursor = utc_midnight st);
               isSameAsEnd = (cursor = endDay);
               sh = (if isSameAsStart then hour_of st else 0);
               eh = (if isSameAsEnd then hour_of en else 24)
           in if sh < eh then [\<lparr>tb_row = row, tb_startHour = sh, tb_endHour = eh\<rparr>] else []))"

function block_loop :: "int \<Rightarrow> int \<Rightarrow> int \<Rightarrow> int \<Rightarrow> time_block list" where
  "block_loop st en endDay cursor =
     (if cursor \<le> endDay
      then day_block st en endDay cursor @ block_loop st en endDay (cursor + MS_PER_DAY)
      else [])"
  by pat_completeness auto
termination
  by (relation "measure (\<lambda>(st, en, endDay, cursor). nat (endDay - cursor + 1))") auto

declare block_loop.simps [simp del]

definition computeTimeRangeBlocks ::
    "js_env \<Rightarrow> string \<Rightarrow> string \<Rightarrow> string option \<Rightarrow> js_error + time_block list" where
  "computeTimeRangeBlocks env startISO endISO tz =
     (case toTimezone env startISO tz of
        Inl e \<Rightarrow> Inl e
      | Inr st \<Rightarrow>
          (case toTimezone env endISO tz of
             Inl e \<Rightarrow> Inl e
           | Inr en \<Rightarrow>
               (case (st, en) of
                  (Some s, Some e) \<Rightarrow> Inr (block_loop s e (utc_midnight e) (utc_midnight s))
                | _ \<Rightarrow> Inr [])))"

text \<open>\<open>timelineUtils.ts\<close>\<close>

record x_segment =
  xs_row :: nat
  xs_startX :: rat
  xs_endX :: rat

definition timeRangeToXSegments ::
    "js_env \<Rightarrow> string \<Rightarrow> string \<Rightarrow> string option \<Rightarrow> js_error + x_segment list" where
  "timeRangeToXSegments env st en tz =
     map_sum id (map (\<lambda>tb. \<lparr>xs_row = tb_row tb, xs_startX = tb_startHour tb / 24,
                           xs_endX = tb_endHour tb / 24\<rparr>))
       (computeTimeRangeBlocks env st en tz)"


section \<open>Properties of the blocks\<close>

lemma getUTCDay_range: "0 \<le> getUTCDay d" "getUTCDay d \<le> 6"
  by (auto simp: getUTCDay_def)

lemma DOW_MAP_row: "0 \<le> d \<Longrightarrow> d \<le> 6 \<Longrightarrow> index_of d DOW_MAP = Some (nat ((d + 6) mod 7))"
proof -
  assume "0 \<le> d" "d \<le> 6"
  then have "d \<in> {0, 1, 2, 3, 4, 5, 6}" by auto
  then show ?thesis by (auto simp: DOW_MAP_def)
qed

definition row_of :: "int \<Rightarrow> nat" where
  "row_of cursor = nat ((getUTCDay cursor + 6) mod 7)"

lemma row_of_less: "row_of c < 7"
  by (simp add: row_of_def nat_less_iff)

lemma index_row: "index_of (getUTCDay c) DOW_MAP = Some (row_of c)"
  using getUTCDay_range by (simp add: DOW_MAP_row row_of_def)

text \<open>Minutes of the civil day, the unit in which the blocks are exact.\<close>

definition day_minute :: "int \<Rightarrow> int" where
  "day_minute d = d div 60000 mod 1440"

lemma hour_of_minutes: "hour_of d * 60 = of_int (day_minute d)"
proof -
  have "d div 3600000 = d div 60000 div 60"
    by (simp add: zdiv_zmult2_eq [symmetric])
  moreover have "m mod 1440 = (m div 60 mod 24) * 60 + m mod 60" for m :: int
    using zmod_zmult2_eq [of 24 m 60] by simp
  ultimately have hm: "getUTCHours d * 60 + getUTCMinutes d = day_minute d"
    by (simp add: getUTCHours_def getUTCMinutes_def day_minute_def)
  have "hour_of d * 60 = of_int (getUTCHours d * 60 + getUTCMinutes d)"
    by (simp add: hour_of_def distrib_right)
  then show ?thesis by (simp only: hm)
qed

lemma day_minute_range: "0 \<le> day_minute d" "day_minute d < 1440"
  by (simp_all add: day_minute_def)

lemma hour_of_range: "0 \<le> hour_of d" "hour_of d < 24"
proof -
  have "hour_of d = of_int (day_minute d) / 60"
    using hour_of_minutes [of d] by simp
  then show "0 \<le> hour_of d" "hour_of d < 24"
    using day_minute_range [of d] by simp_all
qed

definition block_minutes :: "time_block \<Rightarrow> rat" where
  "block_minutes b = (tb_endHour b - tb_startHour b) * 60"

lemma midnight_minute: "utc_midnight d div 60000 + day_minute d = d div 60000"
proof -
  have "d div 86400000 = d div 60000 div 1440"
    by (simp add: zdiv_zmult2_eq [symmetric])
  then show ?thesis by (simp add: utc_midnight_def day_minute_def)
qed

lemma utc_midnight_le: "utc_midnight d \<le> d"
  using div_mult_mod_eq [of d 86400000] pos_mod_sign [of 86400000 d]
  by (simp add: utc_midnight_def)

lemma utc_midnight_mono: "d \<le> d' \<Longrightarrow> utc_midnight d \<le> utc_midnight d'"
  by (simp add: utc_midnight_def zdiv_mono1)

lemma utc_midnight_dvd: "86400000 dvd utc_midnight d"
  by (simp add: utc_midnight_def)

definition wf_block :: "time_block \<Rightarrow> bool" where
  "wf_block b = (tb_row b < 7 \<and> 0 \<le> tb_startHour b \<and> tb_startHour b < tb_endHour b
     \<and> tb_endHour b \<le> 24)"

lemma day_block_wf: "b \<in> set (day_block st en ed c) \<Longrightarrow> wf_block b"
  using hour_of_range
  by (fastforce simp: day_block_def index_row wf_block_def Let_def row_of_less
      split: if_splits intro: less_imp_le)

lemma block_loop_wf: "b \<in> set (block_loop st en ed c) \<Longrightarrow> wf_block b"
proof (induction st en ed c rule: block_loop.induct)
  case (1 st en ed c)
  then show ?case
    by (auto simp: block_loop.simps [of st en ed c] day_block_wf split: if_splits)
qed

definition total_minutes :: "time_block list \<Rightarrow> rat" where
  "total_minutes bs = sum_list (map block_minutes bs)"

lemma total_minutes_simps [simp]:
  "total_minutes [] = 0" "total_minutes (b # bs) = block_minutes b + total_minutes bs"
  "total_minutes (bs @ bs') = total_minutes bs + total_minutes bs'"
  by (simp_all add: total_minutes_def)

text \<open>The minutes from a midnight \<open>c\<close> after the start day to the end.\<close>

lemma day_block_minutes:
  "total_minutes (day_block st en ed c) =
     max 0 ((if c = ed then of_int (day_minute en) else 1440)
       - (if c = utc_midnight st then of_int (day_minute st) else 0))"
  using hour_of_minutes [of st] hour_of_minutes [of en] hour_of_range [of st] hour_of_range [of en]
  by (auto simp: day_block_def index_row Let_def block_minutes_def algebra_simps max_def)

lemma block_loop_step:
  "c \<le> ed \<Longrightarrow> total_minutes (block_loop st en ed c)
     = total_minutes (day_block st en ed c) + total_minutes (block_loop st en ed (c + 86400000))"
  by (subst block_loop.simps) simp

lemma block_loop_stop: "\<not> c \<le> ed \<Longrightarrow> block_loop st en ed c = []"
  by (subst block_loop.simps) simp

lemma later_minutes:
  assumes "86400000 dvd c" "utc_midnight st < c" "c \<le> utc_midnight en + 86400000"
  shows "total_minutes (block_loop st en (utc_midnight en) c)
     = of_int (max 0 (en div 60000 - c div 60000))"
  using assms
proof (induction st en "utc_midnight en" c rule: block_loop.induct)
  case (1 st en c)
  obtain k where k: "c = 86400000 * k" using 1(2) by (elim dvdE)
  obtain j where j: "utc_midnight en = 86400000 * j" using utc_midnight_dvd [of en] by (elim dvdE)
  have en: "en div 60000 = 1440 * j + day_minute en"
    using midnight_minute [of en] by (simp add: j)
  show ?case
  proof (cases "c \<le> utc_midnight en")
    case True
    have IH: "total_minutes (block_loop st en (utc_midnight en) (c + 86400000))
        = of_int (max 0 (en div 60000 - (c + 86400000) div 60000))"
      using 1 True by (intro "1.hyps") auto
    show ?thesis
      unfolding block_loop_step [OF True] day_block_minutes IH
      using True day_minute_range [of en] "1.prems"(2)
      by (auto simp: en j k max_def)
  next
    case False
    then show ?thesis
      unfolding block_loop_stop [OF False]
      using day_minute_range [of en] by (auto simp: en j k)
  qed
qed

lemma block_loop_minutes:
  "total_minutes (block_loop st en (utc_midnight en) (utc_midnight st))
     = of_int (max 0 (en div 60000 - st div 60000))"
proof (cases "utc_midnight st \<le> utc_midnight en")
  case True
  obtain k where k: "utc_midnight st = 86400000 * k" using utc_midnight_dvd [of st] by (elim dvdE)
  obtain j where j: "utc_midnight en = 86400000 * j" using utc_midnight_dvd [of en] by (elim dvdE)
  have e: "en div 60000 = 1440 * j + day_minute en" "st div 60000 = 1440 * k + day_minute st"
    using midnight_minute [of en] midnight_minute [of st] by (simp_all add: j k)
  have later: "total_minutes (block_loop st en (utc_midnight en) (utc_midnight st + 86400000))
      = of_int (max 0 (en div 60000 - (utc_midnight st + 86400000) div 60000))"
    using True by (intro later_minutes) (auto simp: utc_midnight_dvd)
  show ?thesis
    unfolding block_loop_step [OF True] day_block_minutes later
    using True day_minute_range [of en] day_minute_range [of st]
    by (auto simp: j k e max_def)
next
  case False
  then have "\<not> st \<le> en" using utc_midnight_mono by blast
  then have "en div 60000 \<le> st div 60000"
    by (intro zdiv_mono1) auto
  then show ?thesis
    by (simp add: block_loop_stop [OF False])
qed

section \<open>Time ranges become blocks\<close>

lemma computeTimeRangeBlocks_wf:
  "computeTimeRangeBlocks env a b tz = Inr bs \<Longrightarrow> blk \<in> set bs \<Longrightarrow> wf_block blk"
  by (auto simp: computeTimeRangeBlocks_def split: sum.splits option.splits dest: block_loop_wf)

text \<open>The row of a day, counted from 1 January 1970, a Thursday; Monday has the first row. Blocks on consecutive days
  join at midnight.\<close>

definition weekday_row :: "int \<Rightarrow> nat" where
  "weekday_row day = nat ((day + 3) mod 7)"

fun consecutive :: "int \<Rightarrow> time_block list \<Rightarrow> bool" where
  "consecutive day [] = True"
| "consecutive day [b] = (tb_row b = weekday_row day)"
| "consecutive day (b # b' # bs) =
     (tb_row b = weekday_row day \<and> tb_endHour b = 24 \<and> tb_startHour b' = 0 \<and> consecutive (day + 1) (b' # bs))"

lemma consecutive_Cons:
  "tb_row b = weekday_row day \<Longrightarrow> (bs \<noteq> [] \<Longrightarrow> tb_endHour b = 24 \<and> tb_startHour (hd bs) = 0) \<Longrightarrow> consecutive (day + 1) bs
     \<Longrightarrow> consecutive day (b # bs)"
  by (cases bs) simp_all

lemma row_of_day: "row_of (86400000 * k) = weekday_row k"
proof -
  have "getUTCDay (86400000 * k) = (k + 4) mod 7" by (simp add: getUTCDay_def)
  moreover have "(k + 4 + 6) mod 7 = (k + 3) mod 7" using mod_add_self2 [of "k + 3" 7] by (simp add: add.assoc)
  ultimately show ?thesis unfolding row_of_def weekday_row_def by (simp only: mod_add_left_eq)
qed

lemma day_block_later:
  "utc_midnight st < c \<Longrightarrow> day_block st en ed c =
     (if c = ed then (if 0 < hour_of en then [\<lparr>tb_row = row_of c, tb_startHour = 0, tb_endHour = hour_of en\<rparr>] else [])
      else [\<lparr>tb_row = row_of c, tb_startHour = 0, tb_endHour = 24\<rparr>])"
  by (auto simp: day_block_def index_row Let_def)

lemma later_run:
  assumes "utc_midnight st < 86400000 * k"
  shows "consecutive k (block_loop st en (utc_midnight en) (86400000 * k))
    \<and> (block_loop st en (utc_midnight en) (86400000 * k) \<noteq> [] \<longrightarrow> tb_startHour (hd (block_loop st en (utc_midnight en) (86400000 * k))) = 0)"
  using assms
proof (induction "nat (utc_midnight en + 1 - 86400000 * k)" arbitrary: k rule: less_induct)
  case less
  let ?c = "86400000 * k"
  consider "?c < utc_midnight en" | "?c = utc_midnight en" | "utc_midnight en < ?c" by linarith
  then show ?case
  proof cases
    case 1
    have e: "?c + 86400000 = 86400000 * (k + 1)" by simp
    have "consecutive (k + 1) (block_loop st en (utc_midnight en) (86400000 * (k + 1)))
      \<and> (block_loop st en (utc_midnight en) (86400000 * (k + 1)) \<noteq> []
           \<longrightarrow> tb_startHour (hd (block_loop st en (utc_midnight en) (86400000 * (k + 1)))) = 0)"
      using 1 less.prems by (intro less.hyps) (simp_all add: algebra_simps)
    moreover have "block_loop st en (utc_midnight en) ?c
      = \<lparr>tb_row = weekday_row k, tb_startHour = 0, tb_endHour = 24\<rparr> # block_loop st en (utc_midnight en) (86400000 * (k + 1))"
      unfolding e [symmetric] using 1 less.prems by (subst block_loop.simps) (simp add: day_block_later row_of_day)
    ultimately show ?thesis by (auto intro!: consecutive_Cons)
  next
    case 2
    then have "block_loop st en (utc_midnight en) ?c = day_block st en ?c ?c"
      by (subst block_loop.simps) (simp add: block_loop_stop)
    then show ?thesis using less.prems by (simp add: day_block_later row_of_day)
  next
    case 3
    then show ?thesis by (simp add: block_loop_stop)
  qed
qed

lemma blocks_run:
  "consecutive (st div 86400000) (block_loop st en (utc_midnight en) (utc_midnight st))
   \<and> (st div 60000 < en div 60000 \<longrightarrow> tb_startHour (hd (block_loop st en (utc_midnight en) (utc_midnight st))) = of_int (day_minute st) / 60)"
proof -
  let ?k = "st div 86400000" and ?loop = "block_loop st en (utc_midnight en)"
  have c: "utc_midnight st = 86400000 * ?k" by (simp add: utc_midnight_def)
  have h: "hour_of st = of_int (day_minute st) / 60" using hour_of_minutes [of st] by simp
  consider "utc_midnight st < utc_midnight en" | "utc_midnight st = utc_midnight en" | "utc_midnight en < utc_midnight st" by linarith
  then show ?thesis
  proof cases
    case 1
    have "86400000 * ?k + 86400000 = 86400000 * (?k + 1)" by simp
    then have "?loop (utc_midnight st)
      = \<lparr>tb_row = weekday_row ?k, tb_startHour = hour_of st, tb_endHour = 24\<rparr> # ?loop (86400000 * (?k + 1))"
      using 1 hour_of_range [of st] c row_of_day [of ?k]
      by (subst block_loop.simps) (simp add: day_block_def index_row Let_def)
    moreover have "utc_midnight st < 86400000 * (?k + 1)" unfolding c by simp
    ultimately show ?thesis using later_run [of st "?k + 1" en] h by (auto intro!: consecutive_Cons)
  next
    case 2
    then have l: "?loop (utc_midnight st) = day_block st en (utc_midnight st) (utc_midnight st)"
      by (subst block_loop.simps) (simp add: block_loop_stop)
    have "hour_of st < hour_of en" if "st div 60000 < en div 60000"
    proof -
      have "day_minute st < day_minute en" using that 2 midnight_minute [of st] midnight_minute [of en] by linarith
      then have "hour_of st * 60 < hour_of en * 60" unfolding hour_of_minutes by simp
      then show ?thesis by simp
    qed
    then show ?thesis unfolding l using h row_of_day [of ?k] c
      by (auto simp: day_block_def index_row Let_def 2 [symmetric])
  next
    case 3
    then have "\<not> st \<le> en" using utc_midnight_mono by fastforce
    then have "\<not> st div 60000 < en div 60000" using zdiv_mono1 [of en st 60000] by linarith
    then show ?thesis using 3 by (simp add: block_loop_stop)
  qed
qed

text \<open>C7. A range between two instants, read on the clock of the zone, becomes nonempty blocks on consecutive days, each in
  the row of its weekday and inside its day; the first starts at the start of the range, the blocks join at midnight,
  and together they last as many whole minutes as lie between the two clock times. A change of the clock within the
  range is therefore not counted.\<close>

theorem time_range_blocks_cover:
  assumes "toTimezone env a tz = Inr (Some st)" "toTimezone env b tz = Inr (Some en)"
  shows "\<exists>bs. computeTimeRangeBlocks env a b tz = Inr bs \<and> (\<forall>blk \<in> set bs. wf_block blk)
     \<and> total_minutes bs = of_int (max 0 (en div 60000 - st div 60000))
     \<and> consecutive (st div MS_PER_DAY) bs
     \<and> (st div 60000 < en div 60000 \<longrightarrow> tb_startHour (hd bs) = of_int (st div 60000 mod 1440) / 60)"
proof -
  let ?bs = "block_loop st en (utc_midnight en) (utc_midnight st)"
  have "computeTimeRangeBlocks env a b tz = Inr ?bs" using assms by (simp add: computeTimeRangeBlocks_def)
  moreover have "\<forall>blk \<in> set ?bs. wf_block blk" by (blast dest: block_loop_wf)
  ultimately show ?thesis using blocks_run [of st en] block_loop_minutes [of st en] by (auto simp: day_minute_def)
qed

text \<open>A runtime for concrete runs: timestamps of the form \<open>2024-01-31T22:00:00Z\<close> and two zones.\<close>

definition iso_parse :: "string \<Rightarrow> int option" where
  "iso_parse s =
     (let num = (\<lambda>i n. int (digits_val (take n (drop i s))))
      in if length s = 20 \<and> s ! 10 = CHR ''T'' \<and> s ! 19 = CHR ''Z'' \<and> num 5 2 \<in> {1..12}
         then Some (Date_UTC (num 0 4) (num 5 2 - 1) (num 8 2) (num 11 2) (num 14 2) (num 17 2))
         else None)"

definition utc_fields :: "int \<Rightarrow> civil" where
  "utc_fields ms =
     (let days = ms div MS_PER_DAY; t = ms mod MS_PER_DAY;
          z = days + 719468; era = z div 146097; doe = z mod 146097;
          yoe = (doe - doe div 1460 + doe div 36524 - doe div 146096) div 365;
          doy = doe - (365 * yoe + yoe div 4 - yoe div 100); mp = (5 * doy + 2) div 153;
          m = (if mp < 10 then mp + 3 else mp - 9)
      in \<lparr>cv_year = yoe + era * 400 + (if m \<le> 2 then 1 else 0), cv_month = m,
          cv_day = doy - (153 * mp + 2) div 5 + 1, cv_hour = t div 3600000,
          cv_minute = t div 60000 mod 60, cv_second = t div 1000 mod 60\<rparr>)"

definition sample_env :: js_env where
  "sample_env =
     \<lparr>date_parse = iso_parse,
      intl_parts = (\<lambda>z ms. if z = ''UTC'' then Some (utc_fields ms)
        else if z = ''Asia/Kolkata'' then Some (utc_fields (ms + 19800000)) else None),
      host_fields = utc_fields, date_now = 0\<rparr>"

lemma sample_range:
  "toTimezone sample_env ''2024-02-28T22:00:00Z'' (Some ''Asia/Kolkata'') = Inr (Some 1709177400000)"
  "toTimezone sample_env ''2024-03-01T01:15:00Z'' (Some ''Asia/Kolkata'') = Inr (Some 1709275500000)"
  by code_simp+

theorem time_range_blocks_witness:
  "\<exists>bs. computeTimeRangeBlocks sample_env ''2024-02-28T22:00:00Z'' ''2024-03-01T01:15:00Z''
       (Some ''Asia/Kolkata'') = Inr bs \<and> (\<forall>blk \<in> set bs. wf_block blk) \<and> total_minutes bs = 1635
     \<and> consecutive 19782 bs \<and> tb_startHour (hd bs) = 7 / 2"
  using time_range_blocks_cover [OF sample_range] by simp

end
