(* ===== verification/Dates.thy ===== *)
theory Dates
  imports TimeBlocks
begin

text \<open>
  The methods of \<open>Date\<close> that the rest of the program uses beyond \<open>windowUtils.ts\<close>: the civil date
  of a time value and \<open>toISOString\<close>. They belong to the language's library.
\<close>

section \<open>From days to dates\<close>

text \<open>Year, month from 1 and day of a number of days since 1970-01-01; eras of 400 years that begin
  on the first of March.\<close>

definition civil_of_days :: "int \<Rightarrow> int \<times> int \<times> int" where
  "civil_of_days n =
     (let z = n + 719468; era = z div 146097; doe = z mod 146097;
          yoe = (doe - doe div 1460 + doe div 36524 - doe div 146096) div 365;
          doy = doe - (365 * yoe + yoe div 4 - yoe div 100);
          mp = (5 * doy + 2) div 153;
          d = doy - (153 * mp + 2) div 5 + 1;
          m = (if mp < 10 then mp + 3 else mp - 9)
      in (yoe + era * 400 + (if m \<le> 2 then 1 else 0), m, d))"

definition getUTCSeconds :: "int \<Rightarrow> int" where "getUTCSeconds ms = ms div 1000 mod 60"
definition getUTCMilliseconds :: "int \<Rightarrow> int" where "getUTCMilliseconds ms = ms mod 1000"

definition padded :: "nat \<Rightarrow> int \<Rightarrow> string" where
  "padded k n = pad_start k CHR ''0'' (show_int n)"

definition iso_year :: "int \<Rightarrow> string" where
  "iso_year y =
     (if 0 \<le> y \<and> y \<le> 9999 then padded 4 y
      else (if y < 0 then ''-'' else ''+'') @ padded 6 \<bar>y\<bar>)"

definition iso_date :: "int \<Rightarrow> string" where
  "iso_date ms = (let (y, m, d) = civil_of_days (ms div MS_PER_DAY) in iso_year y @ ''-'' @ padded 2 m @ ''-'' @ padded 2 d)"

definition toISOString :: "int \<Rightarrow> string" where
  "toISOString ms =
     iso_date ms @ ''T'' @ padded 2 (getUTCHours ms) @ '':'' @ padded 2 (getUTCMinutes ms) @ '':''
       @ padded 2 (getUTCSeconds ms) @ ''.'' @ padded 3 (getUTCMilliseconds ms) @ ''Z''"

lemma toISOString_sample: "toISOString 1711289700123 = ''2024-03-24T14:15:00.123Z''"
  by code_simp

end
