(* ===== verification/Formatters.thy ===== *)
theory Formatters
  imports Dates
begin

text \<open>
  \<open>frontend/src/lib/formatters.ts\<close>: sizes, ages, durations and percentages as text. \<open>Date.now\<close> and
  the parsing of timestamps come from the runtime record; an unreadable timestamp makes every number
  computed from it NaN, whose text appears in the result. Locale formatting is a function argument.
\<close>

section \<open>Numbers\<close>

definition em_dash :: string where "em_dash = [CHR 0xE2, CHR 0x80, CHR 0x94]"
definition ellipsis :: string where "ellipsis = [CHR 0xE2, CHR 0x80, CHR 0xA6]"

definition GiB :: int where "GiB = 1073741824"
definition MiB :: int where "MiB = 1048576"

definition fmtCpu :: "int \<Rightarrow> string" where
  "fmtCpu m = (if 1000 \<le> m then to_fixed1 (Num (of_int m / 1000)) @ ''c'' else show_int m @ ''m'')"

definition fmtMem :: "int \<Rightarrow> string" where
  "fmtMem bytes =
     (let gib = of_int bytes / of_int GiB :: rat
      in if 1 \<le> gib then to_fixed1 (Num gib) @ ''G'' else show_int (js_round (of_int bytes / of_int MiB)) @ ''M'')"

definition usage_pct :: "int \<Rightarrow> int \<Rightarrow> int" where
  "usage_pct used tot = (if 0 < tot then js_round (of_int used / of_int tot * 100) else 0)"

definition PCT_CRITICAL :: int where "PCT_CRITICAL = 85"
definition PCT_WARNING :: int where "PCT_WARNING = 65"

definition pctColor :: "int \<Rightarrow> bool \<Rightarrow> string" where
  "pctColor p isDark =
     (if PCT_CRITICAL \<le> p then (if isDark then ''#F87171'' else ''#B91C1C'')
      else if PCT_WARNING \<le> p then (if isDark then ''#FBBF24'' else ''#92400E'')
      else (if isDark then ''#22C55E'' else ''#15803D''))"

section \<open>Times\<close>

definition podAge :: "js_env \<Rightarrow> string \<Rightarrow> string" where
  "podAge env ts =
     (if ts = [] then em_dash
      else case date_parse env ts of
             None \<Rightarrow> ''NaNd''
           | Some t \<Rightarrow>
               (let ageSeconds = (date_now env - t) div 1000
                in if ageSeconds < 3600 then show_int (ageSeconds div 60) @ ''m''
                   else if ageSeconds < 86400 then show_int (ageSeconds div 3600) @ ''h''
                   else show_int (ageSeconds div 86400) @ ''d''))"

definition sinceMs :: "js_env \<Rightarrow> int \<Rightarrow> string" where
  "sinceMs env ms =
     (let elapsedSeconds = (date_now env - ms) div 1000
      in if elapsedSeconds < 10 then ''just now''
         else if elapsedSeconds < 60 then show_int elapsedSeconds @ ''s ago''
         else show_int (elapsedSeconds div 60) @ ''m ago'')"

definition timeUntil :: "js_env \<Rightarrow> string \<Rightarrow> string" where
  "timeUntil env ts =
     (case date_parse env ts of
        None \<Rightarrow> ''in NaNd''
      | Some t \<Rightarrow>
          (let diff = t - date_now env; minutesDiff = diff div 60000;
               hoursDiff = minutesDiff div 60; daysDiff = hoursDiff div 24; remH = hoursDiff mod 24
           in if diff \<le> 0 then ''now''
              else if minutesDiff < 60 then ''in '' @ show_int minutesDiff @ ''m''
              else if hoursDiff < 24 then
                (if 0 < minutesDiff mod 60
                 then ''in '' @ show_int hoursDiff @ ''h '' @ show_int (minutesDiff mod 60) @ ''m''
                 else ''in '' @ show_int hoursDiff @ ''h'')
              else if 0 < remH then ''in '' @ show_int daysDiff @ ''d '' @ show_int remH @ ''h''
              else ''in '' @ show_int daysDiff @ ''d''))"

definition timeAgo :: "js_env \<Rightarrow> string \<Rightarrow> string" where
  "timeAgo env ts =
     (case date_parse env ts of
        None \<Rightarrow> ''NaNd ago''
      | Some t \<Rightarrow>
          (let minutesDiff = (date_now env - t) div 60000; hoursDiff = minutesDiff div 60
           in if minutesDiff < 1 then ''just now''
              else if minutesDiff < 60 then show_int minutesDiff @ ''m ago''
              else if hoursDiff < 24 then show_int hoursDiff @ ''h ago''
              else show_int (hoursDiff div 24) @ ''d ago''))"

definition fmtDuration :: "js_env \<Rightarrow> string \<Rightarrow> string option \<Rightarrow> string" where
  "fmtDuration env startedAt finishedAt =
     (case finishedAt of
        None \<Rightarrow> ''Running'' @ ellipsis
      | Some fin \<Rightarrow>
          if fin = [] then ''Running'' @ ellipsis
          else (case (date_parse env fin, date_parse env startedAt) of
                  (Some f, Some s) \<Rightarrow>
                    (let seconds = (f - s) div 1000
                     in if seconds < 60 then show_int seconds @ ''s''
                        else show_int (seconds div 60) @ ''m '' @ show_int (seconds mod 60) @ ''s'')
                | _ \<Rightarrow> ''NaNm NaNs''))"

text \<open>\<open>locale\<close> is \<open>toLocaleString\<close> with the options of the call.\<close>

definition fmtDt :: "js_env \<Rightarrow> (int option \<Rightarrow> string) \<Rightarrow> string option \<Rightarrow> string" where
  "fmtDt env locale ts =
     (case ts of None \<Rightarrow> em_dash | Some s \<Rightarrow> if s = [] then em_dash else locale (date_parse env s))"

definition fmtDtShort :: "js_env \<Rightarrow> (int option \<Rightarrow> string) \<Rightarrow> string option \<Rightarrow> string" where
  "fmtDtShort env localeShort ts =
     (case ts of None \<Rightarrow> em_dash | Some s \<Rightarrow> if s = [] then em_dash else localeShort (date_parse env s))"

text \<open>A caught value that is an \<open>Error\<close> has a message.\<close>

definition formatError :: "string option \<Rightarrow> string" where
  "formatError message = (case message of Some m \<Rightarrow> m | None \<Rightarrow> ''Unknown error'')"

section \<open>Bounds\<close>

lemma usage_pct_bounds:
  assumes "0 \<le> used" "used \<le> tot"
  shows "0 \<le> usage_pct used tot" "usage_pct used tot \<le> 100"
proof -
  have "0 \<le> (of_int used / of_int tot * 100 :: rat)" using assms by simp
  moreover have "(of_int used / of_int tot * 100 :: rat) \<le> 100" if "0 < tot"
    using assms that by (simp add: divide_le_eq)
  ultimately show "0 \<le> usage_pct used tot" "usage_pct used tot \<le> 100"
    using js_round_mono [of _ "100 :: rat"] js_round_mono [of "0 :: rat"] js_round_of_int [of 100] js_round_of_int [of 0]
    by (auto simp: usage_pct_def)
qed

lemma usage_pct_mono: "used \<le> used' \<Longrightarrow> usage_pct used tot \<le> usage_pct used' tot"
  by (auto simp: usage_pct_def intro!: js_round_mono divide_right_mono)

text \<open>The three parts of a duration are its minutes and seconds again.\<close>

lemma fmtDuration_parts:
  assumes "date_parse env b = Some f" "date_parse env a = Some s" "b \<noteq> []" "s + 60000 \<le> f"
  shows "\<exists>m r. fmtDuration env a (Some b) = show_int m @ ''m '' @ show_int r @ ''s'' \<and> 0 \<le> r \<and> r < 60
     \<and> 1 \<le> m \<and> 1000 * (60 * m + r) \<le> f - s \<and> f - s < 1000 * (60 * m + r + 1)"
proof -
  obtain n where n_def: "n = (f - s) div 1000" by blast
  have "f - s = 1000 * n + (f - s) mod 1000" "0 \<le> (f - s) mod 1000" "(f - s) mod 1000 < 1000"
    unfolding n_def by simp_all
  with assms(4) have n: "60 \<le> n" "1000 * n \<le> f - s" "f - s < 1000 * (n + 1)"
    by (simp_all only: distrib_left)
  have parts: "60 * (n div 60) + n mod 60 = n" "0 \<le> n mod 60" "n mod 60 < 60" by simp_all
  with n(1) have "1 \<le> n div 60" by linarith
  moreover have "fmtDuration env a (Some b) = show_int (n div 60) @ ''m '' @ show_int (n mod 60) @ ''s''"
    using assms(1-3) n(1) unfolding fmtDuration_def Let_def n_def by simp
  ultimately show ?thesis using n parts by metis
qed

end
