(* ===== verification/Json.thy ===== *)
theory Json
  imports Prelude
begin

text \<open>
  JSON as the program uses it: the values that \<open>JSON.parse\<close> returns, the parser itself with the
  exception it throws as \<open>None\<close>, and \<open>JSON.stringify\<close> without indentation. An object is an
  insertion-ordered list of members; the reordering that JavaScript applies to keys that look
  like array indices is not modelled. Text is UTF-8, so an escape \<open>\u\<close> contributes the bytes of
  its code point.
\<close>

datatype json =
    JNull
  | JBool bool
  | JNum jsnum
  | JStr string
  | JArr "json list"
  | JObj "(string \<times> json) list"

section \<open>Printing\<close>

definition hex_digit :: "nat \<Rightarrow> char" where
  "hex_digit d = (if d < 10 then char_of (48 + d) else char_of (87 + d))"

definition escape_char :: "char \<Rightarrow> string" where
  "escape_char c =
     (let n = of_char c :: nat in
      if n = 34 then [CHR 0x5C, CHR 0x22]
      else if n = 92 then [CHR 0x5C, CHR 0x5C]
      else if n = 8 then [CHR 0x5C, CHR ''b'']
      else if n = 12 then [CHR 0x5C, CHR ''f'']
      else if n = 10 then [CHR 0x5C, CHR ''n'']
      else if n = 13 then [CHR 0x5C, CHR ''r'']
      else if n = 9 then [CHR 0x5C, CHR ''t'']
      else if n < 32 then [CHR 0x5C, CHR ''u'', CHR ''0'', CHR ''0'', hex_digit (n div 16), hex_digit (n mod 16)]
      else [c])"

definition quote_str :: "string \<Rightarrow> string" where
  "quote_str s = CHR 0x22 # concat (map escape_char s) @ [CHR 0x22]"

fun stringify :: "json \<Rightarrow> string" where
  "stringify JNull = ''null''"
| "stringify (JBool b) = (if b then ''true'' else ''false'')"
| "stringify (JNum NaN) = ''null''"
| "stringify (JNum (Num r)) = show_rat r"
| "stringify (JStr s) = quote_str s"
| "stringify (JArr vs) = ''['' @ join_with '','' (map stringify vs) @ '']''"
| "stringify (JObj ms) =
     ''{'' @ join_with '','' (map (\<lambda>(k, v). quote_str k @ '':'' @ stringify v) ms) @ ''}''"

section \<open>Parsing\<close>

text \<open>The four white space characters of the grammar.\<close>

definition skip_ws :: "string \<Rightarrow> string" where
  "skip_ws s = dropWhile (\<lambda>c. c \<in> {CHR '' '', CHR 0x09, CHR 0x0A, CHR 0x0D}) s"

definition hex_val :: "char \<Rightarrow> nat option" where
  "hex_val c =
     (if is_digit c then Some (digit_val c)
      else if CHR ''a'' \<le> c \<and> c \<le> CHR ''f'' then Some (of_char c - 87)
      else if CHR ''A'' \<le> c \<and> c \<le> CHR ''F'' then Some (of_char c - 55)
      else None)"

fun hex4 :: "string \<Rightarrow> (nat \<times> string) option" where
  "hex4 (a # b # c # d # r) =
     (case (hex_val a, hex_val b, hex_val c, hex_val d) of
        (Some a, Some b, Some c, Some d) \<Rightarrow> Some (4096 * a + 256 * b + 16 * c + d, r)
      | _ \<Rightarrow> None)"
| "hex4 _ = None"

definition utf8 :: "nat \<Rightarrow> string" where
  "utf8 n =
     (if n < 0x80 then [char_of n]
      else if n < 0x800 then [char_of (0xC0 + n div 0x40), char_of (0x80 + n mod 0x40)]
      else if n < 0x10000 then
        [char_of (0xE0 + n div 0x1000), char_of (0x80 + n div 0x40 mod 0x40), char_of (0x80 + n mod 0x40)]
      else
        [char_of (0xF0 + n div 0x40000), char_of (0x80 + n div 0x1000 mod 0x40),
         char_of (0x80 + n div 0x40 mod 0x40), char_of (0x80 + n mod 0x40)])"

text \<open>The text after a backslash; a high surrogate joins the low surrogate that follows it.\<close>

definition p_unicode :: "string \<Rightarrow> (string \<times> string) option" where
  "p_unicode r =
     (case hex4 r of
        None \<Rightarrow> None
      | Some (n, r') \<Rightarrow>
          (if 0xD800 \<le> n \<and> n < 0xDC00 \<and> starts_with [CHR 0x5C, CHR ''u''] r' then
             (case hex4 (drop 2 r') of
                Some (m, r'') \<Rightarrow>
                  if 0xDC00 \<le> m \<and> m < 0xE000
                  then Some (utf8 (0x10000 + (n - 0xD800) * 0x400 + (m - 0xDC00)), r'')
                  else Some (utf8 n, r')
              | None \<Rightarrow> Some (utf8 n, r'))
           else Some (utf8 n, r')))"

fun p_escape :: "string \<Rightarrow> (string \<times> string) option" where
  "p_escape [] = None"
| "p_escape (e # r) =
     (if e = CHR 0x22 \<or> e = CHR 0x5C \<or> e = CHR ''/'' then Some ([e], r)
      else if e = CHR ''b'' then Some ([CHR 0x08], r)
      else if e = CHR ''f'' then Some ([CHR 0x0C], r)
      else if e = CHR ''n'' then Some ([CHR 0x0A], r)
      else if e = CHR ''r'' then Some ([CHR 0x0D], r)
      else if e = CHR ''t'' then Some ([CHR 0x09], r)
      else if e = CHR ''u'' then p_unicode r
      else None)"

lemma hex4_shorter: "hex4 r = Some (n, r') \<Longrightarrow> length r' < length r"
  by (cases r rule: hex4.cases) (auto split: option.splits)

lemma p_unicode_shorter: "p_unicode r = Some (out, r') \<Longrightarrow> length r' < length r"
  unfolding p_unicode_def
  by (auto split: option.splits prod.splits if_splits dest!: hex4_shorter)

lemma p_escape_shorter: "p_escape r = Some (out, r') \<Longrightarrow> length r' < length r"
  by (cases r) (auto split: if_splits dest!: p_unicode_shorter)

definition prepend :: "'a list \<Rightarrow> ('a list \<times> 'b) option \<Rightarrow> ('a list \<times> 'b) option" where
  "prepend xs = map_option (\<lambda>(ys, r). (xs @ ys, r))"

text \<open>The rest of a string literal after its opening quote.\<close>

function p_string :: "string \<Rightarrow> (string \<times> string) option" where
  "p_string [] = None"
| "p_string (c # r) =
     (if c = CHR 0x22 then Some ([], r)
      else if c = CHR 0x5C then
        (case p_escape r of None \<Rightarrow> None | Some (out, r') \<Rightarrow> prepend out (p_string r'))
      else if (of_char c :: nat) < 32 then None
      else prepend [c] (p_string r))"
  by pat_completeness auto

termination by (relation "measure length") (auto dest: p_escape_shorter)

text \<open>\<open>-?(0|[1-9]\d*)(\.\d+)?([eE][+-]?\d+)?\<close>\<close>

definition p_frac :: "string \<Rightarrow> (string \<times> string) option" where
  "p_frac s =
     (if starts_with ''.'' s then
        (let ds = takeWhile is_digit (tl s)
         in if ds = [] then None else Some (ds, dropWhile is_digit (tl s)))
      else Some ([], s))"

definition p_exp :: "string \<Rightarrow> (int \<times> string) option" where
  "p_exp s =
     (if starts_with ''e'' s \<or> starts_with ''E'' s then
        (let t = tl s; neg = starts_with ''-'' t;
             u = (if neg \<or> starts_with ''+'' t then tl t else t);
             ds = takeWhile is_digit u
         in if ds = [] then None
            else Some ((if neg then - int (digits_val ds) else int (digits_val ds)), dropWhile is_digit u))
      else Some (0, s))"

definition p_number :: "string \<Rightarrow> (json \<times> string) option" where
  "p_number s =
     (let neg = starts_with ''-'' s;
          u = (if neg then tl s else s);
          ip = takeWhile is_digit u
      in if ip = [] \<or> (starts_with ''0'' ip \<and> length ip > 1) then None
         else (case p_frac (dropWhile is_digit u) of None \<Rightarrow> None | Some (fp, r) \<Rightarrow>
           (case p_exp r of None \<Rightarrow> None | Some (e, r') \<Rightarrow>
              (let m = (of_nat (digits_val ip) + of_nat (digits_val fp) / 10 ^ length fp :: rat);
                   v = (if 0 \<le> e then m * 10 ^ nat e else m / 10 ^ nat (- e))
               in Some (JNum (Num (if neg then - v else v)), r')))))"

text \<open>The number of nested calls is bounded by the first argument; the length of the text is
  enough, since every call but the last consumes a character.\<close>

fun p_value :: "nat \<Rightarrow> string \<Rightarrow> (json \<times> string) option"
  and p_elems :: "nat \<Rightarrow> string \<Rightarrow> (json list \<times> string) option"
  and p_members :: "nat \<Rightarrow> string \<Rightarrow> ((string \<times> json) list \<times> string) option" where
  "p_value 0 s = None"
| "p_value (Suc n) s =
     (case skip_ws s of
        [] \<Rightarrow> None
      | c # r \<Rightarrow>
          if c = CHR 0x22 then map_option (\<lambda>(t, r'). (JStr t, r')) (p_string r)
          else if c = CHR ''['' then
            (if starts_with '']'' (skip_ws r) then Some (JArr [], tl (skip_ws r))
             else map_option (\<lambda>(vs, r'). (JArr vs, r')) (p_elems n r))
          else if c = CHR ''{'' then
            (if starts_with ''}'' (skip_ws r) then Some (JObj [], tl (skip_ws r))
             else map_option (\<lambda>(ms, r'). (JObj (fold (\<lambda>(k, v). assoc_set k v) ms []), r')) (p_members n r))
          else if starts_with ''null'' (c # r) then Some (JNull, drop 4 (c # r))
          else if starts_with ''true'' (c # r) then Some (JBool True, drop 4 (c # r))
          else if starts_with ''false'' (c # r) then Some (JBool False, drop 5 (c # r))
          else p_number (c # r))"
| "p_elems 0 s = None"
| "p_elems (Suc n) s =
     (case p_value n s of
        None \<Rightarrow> None
      | Some (v, r) \<Rightarrow>
          (case skip_ws r of
             [] \<Rightarrow> None
           | c # r' \<Rightarrow>
               if c = CHR '','' then map_option (\<lambda>(vs, r''). (v # vs, r'')) (p_elems n r')
               else if c = CHR '']'' then Some ([v], r') else None))"
| "p_members 0 s = None"
| "p_members (Suc n) s =
     (case skip_ws s of
        [] \<Rightarrow> None
      | q # r \<Rightarrow>
          if q \<noteq> CHR 0x22 then None else
          (case p_string r of
             None \<Rightarrow> None
           | Some (k, r1) \<Rightarrow>
               if \<not> starts_with '':'' (skip_ws r1) then None else
               (case p_value n (tl (skip_ws r1)) of
                  None \<Rightarrow> None
                | Some (v, r2) \<Rightarrow>
                    (case skip_ws r2 of
                       [] \<Rightarrow> None
                     | c # r3 \<Rightarrow>
                         if c = CHR '','' then map_option (\<lambda>(ms, r4). ((k, v) # ms, r4)) (p_members n r3)
                         else if c = CHR ''}'' then Some ([(k, v)], r3) else None))))"

definition json_parse :: "string \<Rightarrow> json option" where
  "json_parse s =
     (case p_value (Suc (length s)) s of
        None \<Rightarrow> None
      | Some (v, r) \<Rightarrow> if skip_ws r = [] then Some v else None)"

text \<open>\<open>v.f\<close> of a parsed value: reading a property of null is a TypeError, an absent property and a
  property of a number or a string that has none of that name are undefined.\<close>

fun json_get :: "string \<Rightarrow> json \<Rightarrow> js_error + json option" where
  "json_get f JNull = Inl TypeError"
| "json_get f (JObj ms) = Inr (map_of ms f)"
| "json_get f _ = Inr None"


section \<open>Printed values read back\<close>

text \<open>The values that print without loss: integers, and objects whose keys differ.\<close>

fun wf_json :: "json \<Rightarrow> bool" where
  "wf_json (JNum (Num r)) = (of_int \<lfloor>r\<rfloor> = r)"
| "wf_json (JNum NaN) = False"
| "wf_json (JArr vs) = list_all wf_json vs"
| "wf_json (JObj ms) = (distinct (map fst ms) \<and> list_all (\<lambda>(k, v). wf_json v) ms)"
| "wf_json _ = True"

text \<open>What may follow a value: nothing, a separator, or the end of a line.\<close>

definition sep_next :: "string \<Rightarrow> bool" where
  "sep_next r = (r = [] \<or> hd r \<in> {CHR '','', CHR '']'', CHR ''}'', CHR 0x0A})"

subsection \<open>Strings\<close>

lemma p_escape_code:
  "c = CHR ''b'' \<or> c = CHR ''f'' \<or> c = CHR ''n'' \<or> c = CHR ''r'' \<or> c = CHR ''t'' \<or> c = CHR ''u''
     \<Longrightarrow> c \<noteq> CHR 0x22 \<and> c \<noteq> CHR 0x5C \<and> c \<noteq> CHR ''/''"
  by auto

lemma hex_val_digit: "d < 16 \<Longrightarrow> hex_val (hex_digit d) = Some d"
proof -
  assume "d < 16"
  then have "d \<in> {0, 1, 2, 3, 4, 5, 6, 7, 8, 9, 10, 11, 12, 13, 14, 15}"
    unfolding insert_iff empty_iff by presburger
  then show ?thesis
    by (auto simp: hex_digit_def hex_val_def is_digit_def digit_val_def less_eq_char_def)
qed

lemma p_unicode_control:
  "n < 32 \<Longrightarrow> p_unicode (CHR ''0'' # CHR ''0'' # hex_digit (n div 16) # hex_digit (n mod 16) # r)
     = Some ([char_of n], r)"
proof -
  assume n: "n < 32"
  have z: "hex_val (CHR ''0'') = Some 0"
    by (simp add: hex_val_def is_digit_def digit_val_def less_eq_char_def)
  have "hex4 (CHR ''0'' # CHR ''0'' # hex_digit (n div 16) # hex_digit (n mod 16) # r) = Some (n, r)"
    using n by (simp add: z hex_val_digit)
  with n show ?thesis by (simp add: p_unicode_def utf8_def)
qed

lemma char_code_eq: "(of_char c :: nat) = of_char d \<Longrightarrow> c = d"
  by simp

lemma p_string_escape: "p_string (escape_char c @ t) = prepend [c] (p_string t)"
proof -
  have pe: "p_string (CHR 0x5C # r) =
      (case p_escape r of None \<Rightarrow> None | Some (out, r') \<Rightarrow> prepend out (p_string r'))" for r
    by simp
  have "\<not> (of_char c :: nat) < 32 \<Longrightarrow> (of_char c :: nat) \<noteq> 34 \<Longrightarrow> (of_char c :: nat) \<noteq> 92 \<Longrightarrow> ?thesis"
    by (auto simp: escape_char_def Let_def)
  moreover have ?thesis
    if "(of_char c :: nat) \<in> {34, 92, 8, 12, 10, 13, 9}"
    using that
      char_code_eq [of c "CHR 0x22"] char_code_eq [of c "CHR 0x5C"] char_code_eq [of c "CHR 0x08"]
      char_code_eq [of c "CHR 0x0C"] char_code_eq [of c "CHR 0x0A"] char_code_eq [of c "CHR 0x0D"]
      char_code_eq [of c "CHR 0x09"]
    by (auto simp: escape_char_def pe)
  moreover have ?thesis
    if "(of_char c :: nat) < 32" "(of_char c :: nat) \<notin> {34, 92, 8, 12, 10, 13, 9}"
    using that by (auto simp: escape_char_def pe p_unicode_control Let_def)
  ultimately show ?thesis by blast
qed

lemma p_string_quoted: "p_string (concat (map escape_char s) @ CHR 0x22 # r) = Some (s, r)"
  by (induction s) (simp_all add: p_string_escape prepend_def del: p_string.simps(2),
    simp add: p_string.simps(2))

subsection \<open>Numbers\<close>

lemma show_nat_lead: "starts_with ''0'' (show_nat n) \<Longrightarrow> n = 0"
proof (induction n rule: show_nat.induct)
  case (1 n)
  show ?case
  proof (cases "n < 10")
    case True
    with 1(2) have "CHR ''0'' = digit_char n" by (simp add: show_nat.simps [of n])
    then have "digit_val (CHR ''0'') = digit_val (digit_char n)" by simp
    with True show ?thesis by simp (simp add: digit_val_def)
  next
    case False
    then have "starts_with ''0'' (show_nat (n div 10))"
      using 1(2) by (cases "show_nat (n div 10)") (auto simp: show_nat.simps [of n])
    with False 1(1) have "n div 10 = 0" by simp
    with False show ?thesis by simp
  qed
qed

lemma show_rat_int: "show_rat (of_int i) = show_int i"
  by (simp add: show_rat_def show_int_def Let_def)

lemma sep_next_not_digit: "sep_next r \<Longrightarrow> takeWhile is_digit r = [] \<and> dropWhile is_digit r = r"
  by (cases r) (auto simp: sep_next_def is_digit_def less_eq_char_def)

lemma take_show_nat:
  "sep_next r \<Longrightarrow> takeWhile is_digit (show_nat n @ r) = show_nat n"
  "sep_next r \<Longrightarrow> dropWhile is_digit (show_nat n @ r) = r"
  using show_nat_digits by (auto simp: takeWhile_append dropWhile_append sep_next_not_digit)

lemma sep_next_frac: "sep_next r \<Longrightarrow> p_frac r = Some ([], r) \<and> p_exp r = Some (0, r)"
  by (cases r) (auto simp: sep_next_def p_frac_def p_exp_def)

lemma p_number_nat:
  assumes "sep_next r"
  shows "p_number ((if neg then ''-'' else []) @ show_nat n @ r)
      = Some (JNum (Num (if neg then - of_nat n else of_nat n)), r)"
proof -
  have no_minus: "\<not> starts_with ''-'' (show_nat n @ r)"
    using show_nat_digits [of "hd (show_nat n)" n]
    by (cases "show_nat n") (auto dest: is_digit_not_sign)
  have "starts_with ''0'' (show_nat n) \<Longrightarrow> length (show_nat n) = 1"
    using show_nat_lead [of n] by (auto simp: show_nat.simps)
  then show ?thesis
    using assms no_minus
    by (auto simp: p_number_def take_show_nat sep_next_frac Let_def) (simp_all add: digits_val_def)
qed

lemma p_number_int: "sep_next r \<Longrightarrow> p_number (show_int i @ r) = Some (JNum (num_int i), r)"
  using p_number_nat [of r True "nat (- i)"] p_number_nat [of r False "nat i"]
  by (auto simp: show_int_def)


subsection \<open>Values\<close>

lemma skip_ws_token: "s = c # t \<Longrightarrow> c \<notin> {CHR '' '', CHR 0x09, CHR 0x0A, CHR 0x0D} \<Longrightarrow> skip_ws (s @ r) = s @ r"
  by (simp add: skip_ws_def)

definition digit_or_minus :: "char \<Rightarrow> bool" where
  "digit_or_minus c = (c = CHR ''-'' \<or> is_digit c)"

lemma show_int_hd: "\<exists>c t. show_int i = c # t \<and> digit_or_minus c"
  using show_nat_digits [of "hd (show_nat (nat i))" "nat i"]
  by (cases "show_nat (nat i)") (auto simp: show_int_def digit_or_minus_def)

lemma digit_or_minus_other:
  "digit_or_minus c \<Longrightarrow> c \<noteq> CHR 0x22 \<and> c \<noteq> CHR ''['' \<and> c \<noteq> CHR ''{'' \<and> c \<noteq> CHR ''n'' \<and> c \<noteq> CHR ''t''
     \<and> c \<noteq> CHR ''f'' \<and> c \<noteq> CHR '']'' \<and> c \<noteq> CHR ''}'' \<and> \<not> (c \<in> {CHR '' '', CHR 0x09, CHR 0x0A, CHR 0x0D})"
  by (auto simp: digit_or_minus_def is_digit_def less_eq_char_def)

lemma stringify_num: "of_int \<lfloor>q\<rfloor> = q \<Longrightarrow> stringify (JNum (Num q)) = show_int \<lfloor>q\<rfloor>"
  by (metis stringify.simps(4) show_rat_int)

lemma stringify_wf_num: "wf_json (JNum x) \<Longrightarrow> \<exists>i. stringify (JNum x) = show_int i"
proof (cases x)
  case (Num q)
  assume "wf_json (JNum x)"
  with Num have "stringify (JNum x) = show_int \<lfloor>q\<rfloor>" by (simp only: wf_json.simps stringify_num)
  then show ?thesis ..
qed simp

lemma stringify_hd:
  "wf_json v \<Longrightarrow> \<exists>c t. stringify v = c # t \<and> c \<notin> {CHR '' '', CHR 0x09, CHR 0x0A, CHR 0x0D, CHR '']'', CHR ''}''}"
proof (cases v)
  case (JNum x)
  assume "wf_json v"
  with JNum show ?thesis
  proof (cases x)
    case (Num q)
    then show ?thesis
      using show_int_hd [of "\<lfloor>q\<rfloor>"] stringify_num [of q] JNum \<open>wf_json v\<close> digit_or_minus_other
      by fastforce
  qed simp
qed (auto simp: quote_str_def)

lemma skip_stringify: "wf_json v \<Longrightarrow> skip_ws (stringify v @ r) = stringify v @ r"
  using stringify_hd [of v] by (auto intro: skip_ws_token)

lemma skip_sep [simp]:
  "skip_ws ('','' @ r) = '','' @ r" "skip_ws ('']'' @ r) = '']'' @ r" "skip_ws (''}'' @ r) = ''}'' @ r"
  "skip_ws ('':'' @ r) = '':'' @ r" "skip_ws (quote_str k @ r) = quote_str k @ r"
  by (simp_all add: skip_ws_def quote_str_def)

definition reads :: "json \<Rightarrow> bool" where
  "reads v = (\<forall>n r. length (stringify v) \<le> n \<longrightarrow> sep_next r \<longrightarrow> p_value n (stringify v @ r) = Some (v, r))"

lemma sep_next_sep [simp]: "sep_next ('','' @ r)" "sep_next ('']'' @ r)" "sep_next (''}'' @ r)"
  by (simp_all add: sep_next_def)

lemma p_elems_join:
  "vs \<noteq> [] \<Longrightarrow> \<forall>v \<in> set vs. wf_json v \<and> reads v \<Longrightarrow> Suc (length (join_with '','' (map stringify vs))) \<le> n
     \<Longrightarrow> p_elems n (join_with '','' (map stringify vs) @ '']'' @ r) = Some (vs, r)"
proof (induction vs arbitrary: n)
  case Nil
  then show ?case by simp
next
  case (Cons v vs)
  obtain m where n: "n = Suc m" using Cons.prems(3) by (cases n) auto
  show ?case
  proof (cases "vs = []")
    case True
    then have "p_value m (stringify v @ '']'' @ r) = Some (v, '']'' @ r)"
      using Cons.prems n sep_next_sep(2) [of r] unfolding reads_def by simp
    with True n show ?thesis using skip_sep(2) [of r] by simp
  next
    case False
    let ?rest = "join_with '','' (map stringify vs) @ '']'' @ r"
    have "p_value m (stringify v @ '','' @ ?rest) = Some (v, '','' @ ?rest)"
      using Cons.prems n False sep_next_sep(1) [of ?rest] unfolding reads_def
      by (simp add: join_with_Cons)
    moreover have "p_elems m ?rest = Some (vs, r)"
      using Cons.prems n False by (intro Cons.IH) (simp_all add: join_with_Cons)
    ultimately show ?thesis
      using n False skip_sep(1) [of ?rest] by (simp add: join_with_Cons)
  qed
qed

definition member_text :: "string \<times> json \<Rightarrow> string" where
  "member_text = (\<lambda>(k, v). quote_str k @ '':'' @ stringify v)"

lemma skip_ws_quote [simp]: "skip_ws (CHR 0x22 # t) = CHR 0x22 # t"
  by (simp add: skip_ws_def)

lemma p_members_step:
  assumes "wf_json v" "p_value n (stringify v @ c # r) = Some (v, c # r)"
  shows "p_members (Suc n) (member_text (k, v) @ c # r)
     = (case skip_ws (c # r) of
          [] \<Rightarrow> None
        | c # r3 \<Rightarrow>
            if c = CHR '','' then map_option (\<lambda>(ms, r4). ((k, v) # ms, r4)) (p_members n r3)
            else if c = CHR ''}'' then Some ([(k, v)], r3) else None)"
proof -
  let ?v = "stringify v @ c # r"
  have "p_string (concat (map escape_char k) @ CHR 0x22 # '':'' @ ?v) = Some (k, '':'' @ ?v)"
    by (rule p_string_quoted)
  then show ?thesis
    using assms(2) skip_sep(4) [of ?v] by (simp add: member_text_def quote_str_def)
qed

lemma p_members_join:
  "ms \<noteq> [] \<Longrightarrow> \<forall>(k, v) \<in> set ms. wf_json v \<and> reads v \<Longrightarrow> Suc (length (join_with '','' (map member_text ms))) \<le> n
     \<Longrightarrow> p_members n (join_with '','' (map member_text ms) @ ''}'' @ r) = Some (ms, r)"
proof (induction ms arbitrary: n)
  case Nil
  then show ?case by simp
next
  case (Cons m ms)
  obtain i where n: "n = Suc i" using Cons.prems(3) by (cases n) auto
  obtain k v where m: "m = (k, v)" by (cases m)
  have v: "wf_json v" "reads v" using Cons.prems m by auto
  show ?case
  proof (cases "ms = []")
    case True
    have "p_value i (stringify v @ ''}'' @ r) = Some (v, ''}'' @ r)"
      using v Cons.prems(3) n m sep_next_sep(3) [of r] unfolding reads_def
      by (cases ms) (simp_all add: member_text_def)
    with True show ?thesis
      using p_members_step [OF v(1), of i "CHR ''}''" r k] m n skip_sep(3) [of r] by simp
  next
    case False
    let ?rest = "join_with '','' (map member_text ms) @ ''}'' @ r"
    have "p_value i (stringify v @ '','' @ ?rest) = Some (v, '','' @ ?rest)"
      using v Cons.prems(3) n m False sep_next_sep(1) [of ?rest] unfolding reads_def
      by (simp add: join_with_Cons member_text_def)
    moreover have "p_members i ?rest = Some (ms, r)"
      using Cons.prems n False m by (intro Cons.IH) (simp_all add: join_with_Cons)
    ultimately show ?thesis
      using p_members_step [OF v(1), of i "CHR '',''" ?rest k] m n False skip_sep(1) [of ?rest]
      by (simp add: join_with_Cons)
  qed
qed

lemma assoc_set_new: "k \<notin> set (map fst xs) \<Longrightarrow> assoc_set k v xs = xs @ [(k, v)]"
  by (induction xs) auto

lemma fold_assoc_set_distinct:
  "distinct (map fst (acc @ ms)) \<Longrightarrow> fold (\<lambda>(k, v). assoc_set k v) ms acc = acc @ ms"
proof (induction ms arbitrary: acc)
  case Nil
  then show ?case by simp
next
  case (Cons m ms)
  obtain k v where m: "m = (k, v)" by (cases m)
  show ?case using Cons m assoc_set_new [of k acc v] by auto
qed

lemma reads_value: "wf_json v \<Longrightarrow> reads v"
proof (induction v)
  case (JNum x)
  show ?case
    unfolding reads_def
  proof (intro allI impI)
    fix n r
    assume n: "length (stringify (JNum x)) \<le> n" and r: "sep_next r"
    obtain q where q: "x = Num q" "of_int \<lfloor>q\<rfloor> = q" using JNum by (cases x) auto
    then have tx: "stringify (JNum x) = show_int \<lfloor>q\<rfloor>" using stringify_num by simp
    obtain c t where ct: "show_int \<lfloor>q\<rfloor> = c # t" "digit_or_minus c" using show_int_hd by blast
    then obtain i where "n = Suc i" using n tx by (cases n) auto
    moreover have "p_number (c # t @ r) = Some (JNum (Num q), r)"
      using p_number_int [OF r, of "\<lfloor>q\<rfloor>"] ct q by simp
    ultimately show "p_value n (stringify (JNum x) @ r) = Some (JNum x, r)"
      using tx ct digit_or_minus_other [OF ct(2)] q skip_ws_token [OF ct(1)] by auto
  qed
next
  case (JArr vs)
  show ?case
    unfolding reads_def
  proof (intro allI impI)
    fix n r
    assume n: "length (stringify (JArr vs)) \<le> n" and r: "sep_next r"
    then obtain i where i: "n = Suc i" by (cases n) auto
    show "p_value n (stringify (JArr vs) @ r) = Some (JArr vs, r)"
    proof (cases vs)
      case Nil
      then show ?thesis using i by (simp add: skip_ws_def)
    next
      case (Cons v ws)
      let ?b = "join_with '','' (map stringify vs) @ '']'' @ r"
      have "p_elems i ?b = Some (vs, r)"
        using JArr n i Cons by (intro p_elems_join) (auto simp: list_all_iff)
      moreover obtain c t where "stringify v = c # t" "c \<notin> {CHR '' '', CHR 0x09, CHR 0x0A, CHR 0x0D, CHR '']'', CHR ''}''}"
        using stringify_hd [of v] JArr Cons by (auto simp: list_all_iff)
      then have "\<not> starts_with '']'' (skip_ws ?b)"
        using Cons by (cases ws) (auto simp: skip_ws_def)
      ultimately show ?thesis
        using i by (simp add: skip_ws_def)
    qed
  qed
next
  case (JObj ms)
  show ?case
    unfolding reads_def
  proof (intro allI impI)
    fix n r
    assume n: "length (stringify (JObj ms)) \<le> n" and r: "sep_next r"
    then obtain i where i: "n = Suc i" by (cases n) auto
    have wf: "\<forall>(k, v) \<in> set ms. wf_json v \<and> reads v"
      using JObj by (fastforce simp: list_all_iff)
    have tx: "stringify (JObj ms) = ''{'' @ join_with '','' (map member_text ms) @ ''}''"
      by (simp add: member_text_def)
    show "p_value n (stringify (JObj ms) @ r) = Some (JObj ms, r)"
    proof (cases ms)
      case Nil
      then show ?thesis using i by (simp add: skip_ws_def)
    next
      case (Cons m ws)
      let ?b = "join_with '','' (map member_text ms) @ ''}'' @ r"
      have "p_members i ?b = Some (ms, r)"
        using n i Cons wf tx by (intro p_members_join) auto
      moreover have "\<not> starts_with ''}'' (skip_ws ?b)"
        using Cons by (cases ws; cases m) (auto simp: skip_ws_def member_text_def quote_str_def)
      moreover have "fold (\<lambda>(k, v). assoc_set k v) ms [] = ms"
        using JObj.prems by (subst fold_assoc_set_distinct) auto
      ultimately show ?thesis
        using i tx by (simp add: skip_ws_def)
    qed
  qed
next
  case (JStr s)
  show ?case
    unfolding reads_def
  proof (intro allI impI)
    fix n r
    assume "length (stringify (JStr s)) \<le> n"
    then obtain i where i: "n = Suc i" by (cases n) (auto simp: quote_str_def)
    then show "p_value n (stringify (JStr s) @ r) = Some (JStr s, r)"
      using p_string_quoted [of s r] skip_sep(5) [of s r] by (simp add: quote_str_def)
  qed
next
  case JNull
  show ?case
    unfolding reads_def
  proof (intro allI impI)
    fix n r
    assume "length (stringify JNull) \<le> n"
    then obtain i where "n = Suc i" by (cases n) auto
    then show "p_value n (stringify JNull @ r) = Some (JNull, r)" by (simp add: skip_ws_def)
  qed
next
  case (JBool b)
  show ?case
    unfolding reads_def
  proof (intro allI impI)
    fix n r
    assume "length (stringify (JBool b)) \<le> n"
    then obtain i where "n = Suc i" by (cases n) (auto split: if_splits)
    then show "p_value n (stringify (JBool b) @ r) = Some (JBool b, r)" by (simp add: skip_ws_def)
  qed
qed

theorem json_parse_stringify: "wf_json v \<Longrightarrow> json_parse (stringify v) = Some v"
proof -
  assume "wf_json v"
  then have "p_value (Suc (length (stringify v))) (stringify v @ []) = Some (v, [])"
    using reads_value [of v] unfolding reads_def sep_next_def by (metis le_SucI order_refl)
  then show ?thesis by (simp add: json_parse_def skip_ws_def)
qed

end
