(* ===== verification/Uri.thy ===== *)
theory Uri
  imports Json
begin

text \<open>
  The URL functions of the language that the client uses: \<open>encodeURIComponent\<close>,
  \<open>decodeURIComponent\<close> (\<open>None\<close> for the \<open>URIError\<close> it throws) and the serialisation of
  \<open>URLSearchParams\<close>, with the reading of a query string that a server applies to it.
\<close>

section \<open>Percent encoding\<close>

definition hex_upper :: "nat \<Rightarrow> char" where
  "hex_upper d = (if d < 10 then char_of (48 + d) else char_of (55 + d))"

definition pct :: "char \<Rightarrow> string" where
  "pct c = [CHR ''%'', hex_upper (of_char c div 16), hex_upper (of_char c mod 16)]"

definition is_alnum :: "char \<Rightarrow> bool" where
  "is_alnum c = (is_lower c \<or> is_upper c \<or> is_digit c)"

definition uri_unreserved :: "char \<Rightarrow> bool" where
  "uri_unreserved c = (is_alnum c \<or> c \<in> set ''-_.!~*()'' \<or> c = CHR 0x27)"

definition encodeURIComponent :: "string \<Rightarrow> string" where
  "encodeURIComponent s = concat (map (\<lambda>c. if uri_unreserved c then [c] else pct c) s)"

fun pct_decode :: "string \<Rightarrow> string option" where
  "pct_decode [] = Some []"
| "pct_decode (c # r) =
     (if c = CHR ''%'' then
        (case r of
           a # b # r' \<Rightarrow>
             (case (hex_val a, hex_val b) of
                (Some x, Some y) \<Rightarrow> map_option (\<lambda>t. char_of (16 * x + y) # t) (pct_decode r')
              | _ \<Rightarrow> None)
         | _ \<Rightarrow> None)
      else map_option (\<lambda>t. c # t) (pct_decode r))"

text \<open>Well-formed UTF-8, without overlong forms and surrogates.\<close>

definition cont_byte :: "char \<Rightarrow> bool" where
  "cont_byte c = (0x80 \<le> (of_char c :: nat) \<and> (of_char c :: nat) < 0xC0)"

fun valid_utf8 :: "string \<Rightarrow> bool" where
  "valid_utf8 [] = True"
| "valid_utf8 (a # r) =
     (let n = of_char a :: nat in
      if n < 0x80 then valid_utf8 r
      else if 0xC2 \<le> n \<and> n < 0xE0 then
        (case r of b # r' \<Rightarrow> cont_byte b \<and> valid_utf8 r' | _ \<Rightarrow> False)
      else if 0xE0 \<le> n \<and> n < 0xF0 then
        (case r of b # c # r' \<Rightarrow>
             cont_byte b \<and> cont_byte c \<and> (n = 0xE0 \<longrightarrow> 0xA0 \<le> (of_char b :: nat))
               \<and> (n = 0xED \<longrightarrow> (of_char b :: nat) < 0xA0) \<and> valid_utf8 r'
         | _ \<Rightarrow> False)
      else if 0xF0 \<le> n \<and> n < 0xF5 then
        (case r of b # c # d # r' \<Rightarrow>
             cont_byte b \<and> cont_byte c \<and> cont_byte d \<and> (n = 0xF0 \<longrightarrow> 0x90 \<le> (of_char b :: nat))
               \<and> (n = 0xF4 \<longrightarrow> (of_char b :: nat) < 0x90) \<and> valid_utf8 r'
         | _ \<Rightarrow> False)
      else False)"

definition decodeURIComponent :: "string \<Rightarrow> string option" where
  "decodeURIComponent s =
     (case pct_decode s of Some t \<Rightarrow> if valid_utf8 t then Some t else None | None \<Rightarrow> None)"

section \<open>Query strings\<close>

definition form_unreserved :: "char \<Rightarrow> bool" where
  "form_unreserved c = (is_alnum c \<or> c \<in> set ''*-._'')"

definition form_encode :: "string \<Rightarrow> string" where
  "form_encode s =
     concat (map (\<lambda>c. if form_unreserved c then [c] else if c = CHR '' '' then ''+'' else pct c) s)"

text \<open>\<open>String(new URLSearchParams(...))\<close>; the parameters are in insertion order, and \<open>set\<close> is \<open>assoc_set\<close>.\<close>

definition params_text :: "(string \<times> string) list \<Rightarrow> string" where
  "params_text ps = join_with ''&'' (map (\<lambda>(k, v). form_encode k @ ''='' @ form_encode v) ps)"

text \<open>What a server reads.\<close>

definition form_decode :: "string \<Rightarrow> string option" where
  "form_decode s = pct_decode (map (\<lambda>c. if c = CHR ''+'' then CHR '' '' else c) s)"

definition read_pair :: "string \<Rightarrow> (string \<times> string) option" where
  "read_pair s =
     (case (form_decode (takeWhile (\<lambda>c. c \<noteq> CHR ''='') s), form_decode (drop 1 (dropWhile (\<lambda>c. c \<noteq> CHR ''='') s))) of
        (Some k, Some v) \<Rightarrow> Some (k, v) | _ \<Rightarrow> None)"

definition read_query :: "string \<Rightarrow> (string \<times> string) option list" where
  "read_query q = map read_pair (filter (\<lambda>s. s \<noteq> []) (split_on CHR ''&'' q))"

section \<open>Reading back\<close>

lemma nibbles: "(of_char c :: nat) div 16 < 16" "(of_char c :: nat) mod 16 < 16"
  using nat_of_char_less_256 [of c] by (simp_all add: less_mult_imp_div_less)

lemma hex_val_upper: "d < 16 \<Longrightarrow> hex_val (hex_upper d) = Some d"
proof -
  assume "d < 16"
  then have "d \<in> {0, 1, 2, 3, 4, 5, 6, 7, 8, 9, 10, 11, 12, 13, 14, 15}"
    unfolding insert_iff empty_iff by presburger
  then show ?thesis
    by (auto simp: hex_upper_def hex_val_def is_digit_def digit_val_def less_eq_char_def)
qed

lemma hex_upper_alnum: "d < 16 \<Longrightarrow> is_alnum (hex_upper d)"
proof -
  assume "d < 16"
  then have "d \<in> {0, 1, 2, 3, 4, 5, 6, 7, 8, 9, 10, 11, 12, 13, 14, 15}"
    unfolding insert_iff empty_iff by presburger
  then show ?thesis
    by (auto simp: hex_upper_def is_alnum_def is_digit_def is_upper_def is_lower_def less_eq_char_def)
qed

lemma pct_decode_pct: "pct_decode (pct c @ r) = map_option (\<lambda>t. c # t) (pct_decode r)"
  by (simp add: pct_def hex_val_upper nibbles)

lemma unreserved_not_special:
  "uri_unreserved c \<Longrightarrow> c \<noteq> CHR ''%'' \<and> c \<noteq> CHR ''/'' \<and> c \<noteq> CHR ''?'' \<and> c \<noteq> CHR ''#''"
  "form_unreserved c \<Longrightarrow> c \<noteq> CHR ''%'' \<and> c \<noteq> CHR ''&'' \<and> c \<noteq> CHR ''='' \<and> c \<noteq> CHR ''+''"
  by (auto simp: uri_unreserved_def form_unreserved_def is_alnum_def is_digit_def is_upper_def is_lower_def
      less_eq_char_def)

lemma pct_decode_encode: "pct_decode (encodeURIComponent s) = Some s"
  by (induction s) (auto simp: encodeURIComponent_def pct_decode_pct dest: unreserved_not_special(1))

lemma decode_encode: "valid_utf8 s \<Longrightarrow> decodeURIComponent (encodeURIComponent s) = Some s"
  by (simp add: decodeURIComponent_def pct_decode_encode)

lemma pct_chars: "x \<in> set (pct c) \<Longrightarrow> x = CHR ''%'' \<or> is_alnum x"
  by (auto simp: pct_def hex_upper_alnum nibbles)

lemma alnum_not_special: "is_alnum c \<Longrightarrow> c \<notin> set ''/?#&=+''"
  by (auto simp: is_alnum_def is_digit_def is_upper_def is_lower_def less_eq_char_def)

lemma encode_chars: "x \<in> set (encodeURIComponent s) \<Longrightarrow> x \<notin> set ''/?#''"
  using alnum_not_special unreserved_not_special(1)
  by (fastforce simp: encodeURIComponent_def split: if_splits dest: pct_chars)

lemma form_chars: "x \<in> set (form_encode s) \<Longrightarrow> x \<notin> set ''&=''"
  using alnum_not_special unreserved_not_special(2)
  by (fastforce simp: form_encode_def split: if_splits dest: pct_chars)

lemma form_decode_encode: "form_decode (form_encode s) = Some s"
proof (induction s)
  case Nil
  then show ?case by (simp add: form_encode_def form_decode_def)
next
  case (Cons c s)
  let ?sp = "map (\<lambda>c. if c = CHR ''+'' then CHR '' '' else c)"
  have "x \<noteq> CHR ''+''" if "x \<in> set (pct c)" for x
    using pct_chars [OF that] alnum_not_special by auto
  then have "?sp (pct c) = pct c" by (auto intro: map_idI)
  with Cons show ?case
    by (auto simp: form_encode_def form_decode_def pct_decode_pct dest: unreserved_not_special(2))
qed

lemma read_pair_encode: "read_pair (form_encode k @ ''='' @ form_encode v) = Some (k, v)"
proof -
  let ?ne = "\<lambda>c. c \<noteq> CHR ''=''"
  have k: "\<forall>x \<in> set (form_encode k). ?ne x" using form_chars by auto
  then have "takeWhile ?ne (form_encode k @ ''='' @ form_encode v) = form_encode k"
    "dropWhile ?ne (form_encode k @ ''='' @ form_encode v) = ''='' @ form_encode v"
    by (simp_all add: takeWhile_append dropWhile_append)
  then show ?thesis by (simp add: read_pair_def form_decode_encode)
qed

text \<open>A server reads from the query string exactly the parameters that were set, whatever characters they hold.\<close>

lemma read_query_params: "read_query (params_text ps) = map Some ps"
proof (cases "ps = []")
  case True
  then show ?thesis by (simp add: params_text_def read_query_def)
next
  case False
  let ?t = "\<lambda>(k, v). form_encode k @ ''='' @ form_encode v"
  have "CHR ''&'' \<notin> set (?t p)" for p
    using form_chars by (cases p) auto
  then have "split_on CHR ''&'' (params_text ps) = map ?t ps"
    unfolding params_text_def using False by (intro split_join) auto
  moreover have "filter (\<lambda>s. s \<noteq> []) (map ?t ps) = map ?t ps"
    by (auto simp: filter_id_conv)
  moreover have "map read_pair (map ?t ps) = map Some ps"
    by (induction ps) (auto simp: read_pair_encode [simplified])
  ultimately show ?thesis by (simp add: read_query_def)
qed

end
