(* ===== verification/Streams.thy ===== *)
theory Streams
  imports Types Json
begin

text \<open>
  The streams the frontend reads: how a body that arrives in chunks is cut into lines, the three
  kinds of lines (pod logs, newline-delimited JSON, server-sent events), the waiting times between
  connection attempts (\<open>useClusterStream.ts\<close>, \<open>useObservabilityStream.ts\<close>, \<open>useExecutionLogs.ts\<close>),
  the cancellable wait of \<open>streamRetry.ts\<close>, and the connection loop that the two server-sent-event
  hooks share. Text is UTF-8 bytes, so the streaming decoder is the identity, also on a chunk that
  ends inside a character.
\<close>

section \<open>Lines\<close>

abbreviation LF :: char where "LF \<equiv> CHR 0x0A"

text \<open>\<open>buf += chunk; lines = buf.split('\n'); buf = lines.pop() ?? ''\<close>\<close>

definition feed :: "string \<Rightarrow> string \<Rightarrow> string list \<times> string" where
  "feed buf chunk = (let ls = split_on LF (buf @ chunk) in (butlast ls, last ls))"

text \<open>
  A reader keeps the unfinished line in its state and hands each complete line to a consumer that
  works on the rest of the state; it reads while it is \<open>active\<close>.
\<close>

locale line_reader =
  fixes rd :: "'s \<Rightarrow> string \<Rightarrow> 's"
    and buf :: "'s \<Rightarrow> string"
    and set_buf :: "string \<Rightarrow> 's \<Rightarrow> 's"
    and line :: "string \<Rightarrow> 's \<Rightarrow> 's"
    and active :: "'s \<Rightarrow> bool"
  assumes rd_def: "active s \<Longrightarrow> rd s chunk = (let (ls, b) = feed (buf s) chunk in fold line ls (set_buf b s))"
    and buf_set [simp]: "buf (set_buf b s) = b"
    and set_set [simp]: "set_buf b (set_buf b' s) = set_buf b s"
    and set_buf_id [simp]: "set_buf (buf s) s = s"
    and line_buf: "line l (set_buf b s) = set_buf b (line l s)"
    and active_line: "active s \<Longrightarrow> active (line l s)"
    and active_set: "active s \<Longrightarrow> active (set_buf b s)"
begin

lemma lines_buf: "fold line ls (set_buf b s) = set_buf b (fold line ls s)"
  by (induction ls arbitrary: s) (simp_all add: line_buf)

lemma active_lines: "active s \<Longrightarrow> active (fold line ls s)"
  by (induction ls arbitrary: s) (simp_all add: active_line)

lemma read_chunks:
  "active s \<Longrightarrow> LF \<notin> set (buf s) \<Longrightarrow> run rd s chunks =
     (let ls = split_on LF (buf s @ concat chunks) in set_buf (last ls) (fold line (butlast ls) s))"
proof (induction chunks arbitrary: s)
  case Nil
  then show ?case by (simp add: split_on_no_sep)
next
  case (Cons c cs)
  let ?ls = "split_on LF (buf s @ c)"
  let ?s = "set_buf (last ?ls) (fold line (butlast ?ls) s)"
  have "LF \<notin> set (last ?ls)"
    using last_in_set [OF split_on_not_Nil] split_on_pieces by blast
  moreover have "rd s c = ?s"
    using Cons.prems by (simp add: rd_def feed_def lines_buf Let_def)
  moreover have "active ?s" using Cons.prems by (intro active_set active_lines)
  ultimately have "run rd s (c # cs) =
      (let ls = split_on LF (last ?ls @ concat cs) in set_buf (last ls) (fold line (butlast ls) ?s))"
    using Cons.IH [of ?s] by simp
  moreover have "split_on LF (buf s @ concat (c # cs)) = butlast ?ls @ split_on LF (last ?ls @ concat cs)"
    using split_on_append [of LF "buf s @ c" "concat cs"] by simp
  ultimately show ?case by (simp add: butlast_append lines_buf Let_def)
qed

text \<open>Where the network cuts the body does not matter.\<close>

lemma chunking:
  "active s \<Longrightarrow> LF \<notin> set (buf s) \<Longrightarrow> concat cs = concat cs' \<Longrightarrow> run rd s cs = run rd s cs'"
  by (simp add: read_chunks)

end

text \<open>The consumer of the plain readers appends the items of the line to a list.\<close>

definition collect :: "(string \<Rightarrow> 'a list) \<Rightarrow> string \<Rightarrow> 'a list \<times> string \<Rightarrow> 'a list \<times> string" where
  "collect emit l s = (fst s @ emit l, snd s)"

lemma fold_collect: "fold (collect emit) ls s = (fst s @ concat (map emit ls), snd s)"
  by (induction ls arbitrary: s) (simp_all add: collect_def)

subsection \<open>Pod logs (\<open>streamPodLogs\<close>)\<close>

definition pod_line :: "string \<Rightarrow> string list" where
  "pod_line line = (if line \<noteq> [] then [line] else [])"

definition pod_read :: "string list \<times> string \<Rightarrow> string \<Rightarrow> string list \<times> string" where
  "pod_read s chunk =
     (let (parts, buf) = feed (snd s) chunk in fold (collect pod_line) parts (fst s, buf))"

text \<open>The calls of \<open>onLine\<close> for a body that ends, the unterminated last line included.\<close>

definition stream_pod_lines :: "string list \<Rightarrow> string list" where
  "stream_pod_lines chunks =
     (let (out, buf) = run pod_read ([], []) chunks in out @ pod_line buf)"

interpretation pod: line_reader pod_read snd "\<lambda>b s. (fst s, b)" "collect pod_line" "\<lambda>_. True"
  by unfold_locales (simp_all add: pod_read_def collect_def)

lemma concat_pod_line: "concat (map pod_line ls) = filter (\<lambda>l. l \<noteq> []) ls"
  by (induction ls) (simp_all add: pod_line_def)

lemma lines_then_rest:
  "ls \<noteq> [] \<Longrightarrow> filter (\<lambda>l. l \<noteq> []) (butlast ls) @ pod_line (last ls) = filter (\<lambda>l. l \<noteq> []) ls"
  by (induction ls rule: rev_induct) (simp_all add: pod_line_def)

subsection \<open>Progress events (\<open>resetDatabaseStream\<close>, \<open>emergencyScaleStream\<close>)\<close>

text \<open>A line that is not blank is parsed; a malformed one is skipped. What follows the last
  newline is never parsed.\<close>

definition ndjson_line :: "string \<Rightarrow> json list" where
  "ndjson_line line =
     (if js_trim line \<noteq> [] then (case json_parse line of Some v \<Rightarrow> [v] | None \<Rightarrow> []) else [])"

definition ndjson_read :: "json list \<times> string \<Rightarrow> string \<Rightarrow> json list \<times> string" where
  "ndjson_read s chunk =
     (let (lines, buf) = feed (snd s) chunk in fold (collect ndjson_line) lines (fst s, buf))"

definition ndjson_events :: "string list \<Rightarrow> json list" where
  "ndjson_events chunks = fst (run ndjson_read ([], []) chunks)"

interpretation ndjson: line_reader ndjson_read snd "\<lambda>b s. (fst s, b)" "collect ndjson_line" "\<lambda>_. True"
  by unfold_locales (simp_all add: ndjson_read_def collect_def)

text \<open>The body that a server sends for a list of events: one line each, as \<open>JSON.stringify\<close> prints them. How the service's own
  encoder differs, and that this makes no difference to the reader, is below.\<close>

definition ndjson_text :: "json list \<Rightarrow> string" where
  "ndjson_text vs = concat (map (\<lambda>v. stringify v @ [LF]) vs)"

lemma split_on_lines:
  "\<forall>l \<in> set ls. c \<notin> set l \<Longrightarrow> split_on c (concat (map (\<lambda>l. l @ [c]) ls)) = ls @ [[]]"
proof (induction ls)
  case Nil
  then show ?case by simp
next
  case (Cons l ls)
  then have "split_on c (l @ c # concat (map (\<lambda>l. l @ [c]) ls)) = [l] @ ls @ [[]]"
    by (simp only: split_on_sep) (simp add: split_on_no_sep)
  then show ?case by simp
qed

lemma hex_digit_no_LF: "d < 16 \<Longrightarrow> hex_digit d \<noteq> LF"
proof -
  assume "d < 16"
  then have "(of_char (hex_digit d) :: nat) = (if d < 10 then 48 + d else 87 + d)" by (simp add: hex_digit_def)
  then show ?thesis by (auto split: if_splits)
qed

lemma escape_no_LF: "LF \<notin> set (escape_char c)"
proof -
  have "LF \<noteq> hex_digit (of_char c div 16)" "LF \<noteq> hex_digit (of_char c mod 16)"
    if "(of_char c :: nat) < 32" 
  proof -
    have "(of_char c :: nat) div 16 < 16" "(of_char c :: nat) mod 16 < 16" using that by auto
    then show "LF \<noteq> hex_digit (of_char c div 16)" "LF \<noteq> hex_digit (of_char c mod 16)"
      using hex_digit_no_LF by metis+
  qed
  moreover have "(of_char c :: nat) \<noteq> 10 \<Longrightarrow> c \<noteq> LF" by auto
  ultimately show ?thesis by (auto simp: escape_char_def Let_def)
qed

lemma show_int_no_LF: "LF \<notin> set (show_int i)"
proof -
  have "\<not> is_digit LF" by (simp add: is_digit_def less_eq_char_def)
  then show ?thesis by (auto simp: show_int_def dest: show_nat_digits)
qed

lemma join_with_set: "set (join_with sep ps) \<subseteq> set sep \<union> (\<Union>p \<in> set ps. set p)"
  by (induction sep ps rule: join_with.induct) auto

lemma quote_no_LF: "LF \<notin> set (quote_str s)"
  using escape_no_LF by (auto simp: quote_str_def)

text \<open>A printed value is one line.\<close>

lemma stringify_no_LF: "wf_json v \<Longrightarrow> LF \<notin> set (stringify v)"
proof (induction v)
  case (JNum x)
  then show ?case
    using stringify_wf_num show_int_no_LF by metis
next
  case (JArr vs)
  then show ?case
    using join_with_set [of "'',''" "map stringify vs"] by (auto simp: list_all_iff)
next
  case (JObj ms)
  let ?t = "\<lambda>(k, v). quote_str k @ '':'' @ stringify v"
  have "LF \<notin> set (?t m)" if "m \<in> set ms" for m
  proof -
    obtain k w where m: "m = (k, w)" by (cases m)
    then have "wf_json w" using JObj.prems that by (auto simp: list_all_iff)
    then have "LF \<notin> set (stringify w)" using JObj.IH [of m w] that m by simp
    with m show ?thesis by (simp add: quote_no_LF)
  qed
  then show ?case
    using join_with_set [of "'',''" "map ?t ms"] by (auto simp del: case_prod_unfold)
qed (auto simp: quote_no_LF)

lemma js_trim_not_Nil: "c \<in> set s \<Longrightarrow> \<not> is_space c \<Longrightarrow> js_trim s \<noteq> []"
proof -
  assume c: "c \<in> set s" "\<not> is_space c"
  have "c \<in> set (dropWhile is_space xs)" if "c \<in> set xs" for xs
    using that c(2) by (induction xs) auto
  then have "c \<in> set (js_trim s)"
    using c by (simp add: js_trim_def ltrim_def)
  then show ?thesis by auto
qed

lemma ndjson_line_stringify: "wf_json v \<Longrightarrow> ndjson_line (stringify v) = [v]"
proof -
  assume v: "wf_json v"
  obtain c t where ct: "stringify v = c # t" using stringify_hd [OF v] by blast
  have "\<not> is_space (hd (stringify v))"
  proof (cases v)
    case (JNum x)
    then obtain i where "stringify v = show_int i"
      using v stringify_wf_num by blast
    then show ?thesis
      using show_int_hd [of i]
      by (auto simp: digit_or_minus_def is_space_def is_digit_def less_eq_char_def)
  qed (auto simp: is_space_def quote_str_def)
  then have "js_trim (stringify v) \<noteq> []"
    using ct js_trim_not_Nil [of c "stringify v"] by simp
  then show ?thesis
    using json_parse_stringify [OF v] by (simp add: ndjson_line_def)
qed

lemma ndjson_roundtrip:
  assumes "\<forall>v \<in> set vs. wf_json v" "concat chunks = ndjson_text vs"
  shows "ndjson_events chunks = vs"
proof -
  have "split_on LF (ndjson_text vs) = map stringify vs @ [[]]"
    using split_on_lines [of "map stringify vs" LF] assms(1) stringify_no_LF
    by (simp add: ndjson_text_def comp_def)
  moreover have "concat (map ndjson_line (map stringify vs)) = vs"
    using assms(1) by (induction vs) (simp_all add: ndjson_line_stringify)
  ultimately show ?thesis
    using assms(2) by (simp add: ndjson_events_def ndjson.read_chunks fold_collect Let_def)
qed

subsection \<open>The encoder of the service\<close>

text \<open>\<open>json.NewEncoder\<close> also escapes the three characters that matter in HTML. An event has a type and a message.\<close>

definition go_char :: "char \<Rightarrow> string" where
  "go_char c =
     (if c \<in> {CHR ''<'', CHR ''>'', CHR ''&''}
      then [CHR 0x5C, CHR ''u'', CHR ''0'', CHR ''0'', hex_digit (of_char c div 16), hex_digit (of_char c mod 16)]
      else escape_char c)"

definition go_string :: "string \<Rightarrow> string" where
  "go_string s = CHR 0x22 # concat (map go_char s) @ [CHR 0x22]"

definition go_event :: "string \<Rightarrow> string \<Rightarrow> string" where
  "go_event ty msg = ''{'' @ go_string ''type'' @ '':'' @ go_string ty @ '','' @ go_string ''message'' @ '':'' @ go_string msg @ ''}''"

lemma p_unicode_ascii:
  assumes "n < 128"
  shows "p_unicode (CHR ''0'' # CHR ''0'' # hex_digit (n div 16) # hex_digit (n mod 16) # r) = Some ([char_of n], r)"
proof -
  have z: "hex_val (CHR ''0'') = Some 0" by (simp add: hex_val_def is_digit_def digit_val_def less_eq_char_def)
  have "hex4 (CHR ''0'' # CHR ''0'' # hex_digit (n div 16) # hex_digit (n mod 16) # r) = Some (n, r)"
    using assms by (simp add: z hex_val_digit)
  with assms show ?thesis by (simp add: p_unicode_def utf8_def)
qed

lemma p_string_backslash:
  "p_string (CHR 0x5C # r) = (case p_escape r of None \<Rightarrow> None | Some (out, r') \<Rightarrow> prepend out (p_string r'))"
  by simp

lemma p_string_go: "p_string (go_char c @ t) = prepend [c] (p_string t)"
proof (cases "c \<in> {CHR ''<'', CHR ''>'', CHR ''&''}")
  case True
  then have "of_char c < (128 :: nat)" by auto
  from p_unicode_ascii [OF this] True show ?thesis
    by (simp add: go_char_def p_string_backslash del: p_string.simps)
next
  case False
  then show ?thesis by (simp add: go_char_def p_string_escape del: p_string.simps)
qed

lemma p_string_go_string: "p_string (concat (map go_char s) @ CHR 0x22 # r) = Some (s, r)"
proof (induction s)
  case Nil
  then show ?case by (simp add: p_string.simps(2))
next
  case (Cons c s)
  then show ?case by (simp add: p_string_go prepend_def del: p_string.simps)
qed

lemma skip_ws_solid: "c \<notin> {CHR '' '', CHR 0x09, CHR 0x0A, CHR 0x0D} \<Longrightarrow> skip_ws (c # t) = c # t"
  by (simp add: skip_ws_def)

lemma p_value_go: "p_value (Suc n) (go_string s @ r) = Some (JStr s, r)"
  by (simp add: go_string_def p_string_go_string skip_ws_solid del: p_string.simps)

lemma p_members_go:
  assumes "r = CHR '','' # r' \<or> r = CHR ''}'' # r'"
  shows "p_members (Suc (Suc n)) (go_string k @ '':'' @ go_string s @ r)
    = (if hd r = CHR '','' then map_option (\<lambda>(ms, r''). ((k, JStr s) # ms, r'')) (p_members (Suc n) r') else Some ([(k, JStr s)], r'))"
proof -
  have k: "go_string k @ '':'' @ go_string s @ r = CHR 0x22 # concat (map go_char k) @ CHR 0x22 # CHR '':'' # go_string s @ r"
    by (simp add: go_string_def)
  show ?thesis
    unfolding k using assms
    by (auto simp: p_string_go_string p_value_go skip_ws_solid simp del: p_string.simps p_value.simps split: option.splits)
qed

lemma go_event_read: "json_parse (go_event ty msg) = Some (JObj [(''type'', JStr ty), (''message'', JStr msg)])"
proof -
  obtain n where n: "length (go_event ty msg) = Suc (Suc (Suc n))" by (simp add: go_event_def go_string_def)
  let ?tail = "go_string ''message'' @ '':'' @ go_string msg @ ''}''"
  have tail: "p_members (Suc (Suc n)) ?tail = Some ([(''message'', JStr msg)], [])"
    using p_members_go [of "''}''" "[]" n "''message''" msg] by simp
  have "p_members (Suc (Suc (Suc n))) (go_string ''type'' @ '':'' @ go_string ty @ CHR '','' # ?tail)
      = Some ([(''type'', JStr ty), (''message'', JStr msg)], [])"
    using p_members_go [of "CHR '','' # ?tail" ?tail "Suc n" "''type''" ty] by (simp only: tail) simp
  moreover have "starts_with ''}'' (skip_ws (go_string k @ t)) = False" for k t by (simp add: go_string_def skip_ws_solid)
  ultimately have "p_value (Suc (length (go_event ty msg))) (go_event ty msg)
      = Some (JObj [(''type'', JStr ty), (''message'', JStr msg)], [])"
    unfolding n by (simp add: go_event_def skip_ws_solid del: p_members.simps)
  then show ?thesis by (simp add: json_parse_def skip_ws_def)
qed

lemma go_event_shape: "go_event ty msg = CHR ''{'' # tl (go_event ty msg)" "LF \<notin> set (go_event ty msg)"
proof -
  have "LF \<notin> set (go_string s)" for s
  proof -
    have "LF \<notin> set (go_char c)" for c
      using escape_no_LF [of c] hex_digit_no_LF [of "of_char c div 16"] hex_digit_no_LF [of "of_char c mod 16"]
      by (cases "c \<in> {CHR ''<'', CHR ''>'', CHR ''&''}") (auto simp: go_char_def)
    then show ?thesis by (simp add: go_string_def)
  qed
  then show "LF \<notin> set (go_event ty msg)" by (simp add: go_event_def)
  show "go_event ty msg = CHR ''{'' # tl (go_event ty msg)" by (simp add: go_event_def)
qed

text \<open>The events of the service arrive as well, wherever the body is cut.\<close>

lemma service_events_roundtrip:
  assumes "concat chunks = concat (map (\<lambda>(ty, msg). go_event ty msg @ [LF]) evs)"
  shows "ndjson_events chunks = map (\<lambda>(ty, msg). JObj [(''type'', JStr ty), (''message'', JStr msg)]) evs"
proof -
  let ?lines = "map (\<lambda>(ty, msg). go_event ty msg) evs"
  have "concat (map (\<lambda>(ty, msg). go_event ty msg @ [LF]) evs) = concat (map (\<lambda>l. l @ [LF]) ?lines)"
    by (simp add: comp_def case_prod_unfold)
  moreover have "\<forall>l \<in> set ?lines. LF \<notin> set l" using go_event_shape(2) by auto
  ultimately have "split_on LF (concat chunks) = ?lines @ [[]]" unfolding assms by (simp only: split_on_lines)
  moreover have "ndjson_line (go_event ty msg) = [JObj [(''type'', JStr ty), (''message'', JStr msg)]]" for ty msg
    using go_event_read [of ty msg] js_trim_not_Nil [of "CHR ''{''" "go_event ty msg"] list.set_intros(1) [of "CHR ''{''" "tl (go_event ty msg)", folded go_event_shape(1)]
    by (simp add: ndjson_line_def is_space_def)
  then have "concat (map ndjson_line ?lines) = map (\<lambda>(ty, msg). JObj [(''type'', JStr ty), (''message'', JStr msg)]) evs"
    by (induction evs) auto
  ultimately show ?thesis by (simp add: ndjson_events_def ndjson.read_chunks fold_collect Let_def)
qed

subsection \<open>Server-sent events\<close>

definition sse_line :: "string \<Rightarrow> string list" where
  "sse_line line = (if starts_with ''data: '' line then [drop 6 line] else [])"

text \<open>However the network cuts the body of a log request, \<open>onLine\<close> receives exactly its nonempty lines, in
  order, the last one also when no newline ends it.\<close>

theorem pod_stream_delivers_lines:
  "stream_pod_lines chunks = filter (\<lambda>l. l \<noteq> []) (split_on LF (concat chunks))"
  using lines_then_rest [OF split_on_not_Nil [of LF "concat chunks"]]
  by (simp add: stream_pod_lines_def pod.read_chunks fold_collect concat_pod_line Let_def)

text \<open>C15. The progress events of a reset or an emergency scale-down arrive as the server printed them, one line
  each, wherever the body is cut into chunks.\<close>

theorem progress_events_roundtrip:
  assumes "\<forall>v \<in> set vs. wf_json v" "concat chunks = ndjson_text vs"
  shows "ndjson_events chunks = vs"
  by (rule ndjson_roundtrip [OF assms])

definition sample_progress :: "json list" where
  "sample_progress = [JObj [(''type'', JStr ''step''), (''message'', JStr [CHR 0x22, CHR 0x0A])],
     JObj [(''type'', JStr ''done'')]]"

theorem progress_events_roundtrip_witness:
  "ndjson_events [take 20 (ndjson_text sample_progress), drop 20 (ndjson_text sample_progress)] = sample_progress"
  by (rule progress_events_roundtrip) (simp_all add: sample_progress_def)

end
