(* ===== verification/ApiClient.thy ===== *)
theory ApiClient
  imports Uri Streams
begin

text \<open>
  \<open>frontend/src/lib/api.ts\<close>: every function of the client as the request it sends, the way a response
  becomes a result or an exception, and the three functions that do not go through \<open>apiFetch\<close>.
  \<open>BASE\<close> and the CSRF token are arguments. A response is its status and its body text; reading the
  body fails only by not being JSON.
\<close>

section \<open>Requests\<close>

datatype init_headers =
    NoHeaders
  | HeadersObject "(string \<times> string) list"
  | HeaderPairs "(string \<times> string) list"
  | HeaderRecord "(string \<times> string) list"

text \<open>The argument of \<open>apiFetch\<close>, and what reaches \<open>fetch\<close>. Every request of the client includes the
  credentials; \<open>hr_timeout\<close> and \<open>hr_signal\<close> say which signals can abort it.\<close>

record api_request =
  ar_path :: string
  ar_method :: "string option"
  ar_headers :: init_headers
  ar_body :: "string option"
  ar_signal :: bool

record http_request =
  hr_url :: string
  hr_method :: "string option"
  hr_headers :: "(string \<times> string) list"
  hr_body :: "string option"
  hr_credentials :: bool
  hr_timeout :: bool
  hr_signal :: bool

definition MUTATION_METHODS :: "string list" where
  "MUTATION_METHODS = [''POST'', ''PUT'', ''DELETE'', ''PATCH'']"

definition from_entries :: "(string \<times> string) list \<Rightarrow> (string \<times> string) list" where
  "from_entries es = fold (\<lambda>(k, v). assoc_set k v) es []"

text \<open>A \<open>Headers\<close> object yields its names in lower case.\<close>

definition incoming_headers :: "init_headers \<Rightarrow> (string \<times> string) list" where
  "incoming_headers h =
     (case h of
        NoHeaders \<Rightarrow> []
      | HeadersObject es \<Rightarrow> from_entries (map (\<lambda>(k, v). (map to_lower_char k, v)) es)
      | HeaderPairs es \<Rightarrow> from_entries es
      | HeaderRecord es \<Rightarrow> es)"

definition method_of :: "api_request \<Rightarrow> string" where
  "method_of r = (case ar_method r of Some m \<Rightarrow> map to_upper_char m | None \<Rightarrow> ''GET'')"

text \<open>The first half of \<open>apiFetch\<close>.\<close>

definition fetch_args :: "string \<Rightarrow> string \<Rightarrow> api_request \<Rightarrow> http_request" where
  "fetch_args BASE csrf r =
     (let hdrs = fold (\<lambda>(k, v). assoc_set k v) (incoming_headers (ar_headers r))
                   [(''Content-Type'', ''application/json'')];
          headers = (if method_of r \<in> set MUTATION_METHODS then assoc_set ''X-CSRF-Token'' csrf hdrs else hdrs)
      in \<lparr>hr_url = BASE @ ar_path r, hr_method = ar_method r, hr_headers = headers, hr_body = ar_body r,
          hr_credentials = True, hr_timeout = True, hr_signal = ar_signal r\<rparr>)"

definition api_get :: "string \<Rightarrow> api_request" where
  "api_get path = \<lparr>ar_path = path, ar_method = None, ar_headers = NoHeaders, ar_body = None, ar_signal = False\<rparr>"

definition api_send :: "string \<Rightarrow> string \<Rightarrow> json option \<Rightarrow> api_request" where
  "api_send m path body =
     \<lparr>ar_path = path, ar_method = Some m, ar_headers = NoHeaders, ar_body = map_option stringify body,
      ar_signal = False\<rparr>"

section \<open>Responses\<close>

record response =
  rs_status :: nat
  rs_body :: string

definition rs_ok :: "response \<Rightarrow> bool" where
  "rs_ok r = (200 \<le> rs_status r \<and> rs_status r < 300)"

text \<open>\<open>String(v)\<close> of a JSON value, and its truth value.\<close>

fun js_string :: "json \<Rightarrow> string" where
  "js_string JNull = ''null''"
| "js_string (JBool b) = (if b then ''true'' else ''false'')"
| "js_string (JNum x) = show_num x"
| "js_string (JStr s) = s"
| "js_string (JArr vs) = join_with '','' (map (\<lambda>v. if v = JNull then [] else js_string v) vs)"
| "js_string (JObj ms) = ''[object Object]''"

fun truthy :: "json \<Rightarrow> bool" where
  "truthy JNull = False"
| "truthy (JBool b) = b"
| "truthy (JNum x) = (x \<noteq> NaN \<and> x \<noteq> Num 0)"
| "truthy (JStr s) = (s \<noteq> [])"
| "truthy _ = True"

text \<open>\<open>body?.f\<close> with \<open>body = await res.json().catch(() => null)\<close>, used as \<open>... || other\<close>.\<close>

definition body_field :: "string \<Rightarrow> response \<Rightarrow> string \<Rightarrow> string" where
  "body_field f res other =
     (case json_parse (rs_body res) of
        Some (JObj ms) \<Rightarrow>
          (case map_of ms f of Some v \<Rightarrow> if truthy v then js_string v else other | None \<Rightarrow> other)
      | _ \<Rightarrow> other)"

definition http_text :: "response \<Rightarrow> string" where
  "http_text res = ''HTTP '' @ show_nat (rs_status res)"

text \<open>The exception, if any; a 401 also dispatches \<open>kp-session-expired\<close>, which \<open>session_expired\<close> records.\<close>

definition session_expired :: "response \<Rightarrow> bool" where
  "session_expired res = (rs_status res = 401)"

definition handleAuthErrors :: "response \<Rightarrow> js_error option" where
  "handleAuthErrors res =
     (if rs_status res = 401 then Some (ErrorMsg ''Session expired'')
      else if rs_status res = 403
      then Some (ErrorMsg (body_field ''error'' res ''You do not have permission to perform this action''))
      else None)"

text \<open>The second half of \<open>apiFetch\<close>; \<open>Inr None\<close> is undefined.\<close>

definition fetch_result :: "response \<Rightarrow> js_error + json option" where
  "fetch_result res =
     (case handleAuthErrors res of
        Some e \<Rightarrow> Inl e
      | None \<Rightarrow>
          if \<not> rs_ok res then Inl (ErrorMsg (body_field ''error'' res (body_field ''message'' res (http_text res))))
          else if rs_status res = 204 then Inr None
          else (case json_parse (rs_body res) of Some v \<Rightarrow> Inr (Some v) | None \<Rightarrow> Inl SyntaxError))"

section \<open>The functions\<close>

definition mode_body :: "exec_mode \<Rightarrow> json" where
  "mode_body m = JObj [(''mode'', JStr (case m of Plan \<Rightarrow> ''plan'' | Apply \<Rightarrow> ''apply''))]"

text \<open>The history request answers an empty list for a null body.\<close>

definition history_result :: "response \<Rightarrow> js_error + json option" where
  "history_result res =
     (case fetch_result res of
        Inr (Some JNull) \<Rightarrow> Inr (Some (JArr []))
      | Inr None \<Rightarrow> Inr (Some (JArr []))
      | r \<Rightarrow> r)"

definition getClusterInfo :: "api_request" where
  "getClusterInfo = api_get ''/api/cluster/info''"

definition getVersionInfo :: "api_request" where
  "getVersionInfo = api_get ''/api/version''"

definition getObservabilityHistory :: "string \<Rightarrow> bool \<Rightarrow> api_request" where
  "getObservabilityHistory rng has_signal = (api_get (''/api/observability/history?range='' @ rng))\<lparr>ar_signal := has_signal\<rparr>"

definition updateUserSettings :: "json \<Rightarrow> api_request" where
  "updateUserSettings settings = api_send ''PUT'' ''/api/auth/settings'' (Some settings)"

definition getSessions :: "api_request" where
  "getSessions = api_get ''/api/auth/sessions''"

definition getGuardrails :: "api_request" where
  "getGuardrails = api_get ''/api/guardrails''"

definition updateGuardrails :: "json \<Rightarrow> api_request" where
  "updateGuardrails data = api_send ''PUT'' ''/api/guardrails'' (Some data)"

definition getOverview :: "api_request" where
  "getOverview = api_get ''/api/overview''"

definition getWorkloads :: "api_request" where
  "getWorkloads = api_get ''/api/cluster/workloads''"

definition getNodes :: "api_request" where
  "getNodes = api_get ''/api/cluster/nodes''"

definition getNodePods :: "string \<Rightarrow> api_request" where
  "getNodePods nodeName = api_get (''/api/cluster/nodes/'' @ encodeURIComponent nodeName @ ''/pods'')"

definition getPodDetail :: "string \<Rightarrow> string \<Rightarrow> api_request" where
  "getPodDetail namespace podName = api_get (''/api/cluster/pods/'' @ encodeURIComponent namespace @ ''/'' @ encodeURIComponent podName)"

definition getWorkloadPods :: "string \<Rightarrow> string \<Rightarrow> string \<Rightarrow> api_request" where
  "getWorkloadPods namespace kind nm = api_get (''/api/cluster/workloads/'' @ encodeURIComponent namespace @ ''/'' @ encodeURIComponent kind
     @ ''/'' @ encodeURIComponent nm @ ''/pods'')"

definition getUsers :: "api_request" where
  "getUsers = api_get ''/api/users''"

definition createUser :: "json \<Rightarrow> api_request" where
  "createUser data = api_send ''POST'' ''/api/users'' (Some data)"

definition updateUserAccount :: "int \<Rightarrow> json \<Rightarrow> api_request" where
  "updateUserAccount i data = api_send ''PUT'' (''/api/users/'' @ show_int i) (Some data)"

definition deleteUser :: "int \<Rightarrow> api_request" where
  "deleteUser i = api_send ''DELETE'' (''/api/users/'' @ show_int i) None"

definition getOIDCConfig :: "api_request" where
  "getOIDCConfig = api_get ''/api/auth/oidc/config''"

definition getPolicies :: "api_request" where
  "getPolicies = api_get ''/api/policies''"

definition getPolicy :: "int \<Rightarrow> api_request" where
  "getPolicy i = api_get (''/api/policies/'' @ show_int i)"

definition createPolicy :: "json \<Rightarrow> api_request" where
  "createPolicy data = api_send ''POST'' ''/api/policies'' (Some data)"

definition updatePolicy :: "int \<Rightarrow> json \<Rightarrow> api_request" where
  "updatePolicy i data = api_send ''PUT'' (''/api/policies/'' @ show_int i) (Some data)"

definition deletePolicy :: "int \<Rightarrow> api_request" where
  "deletePolicy i = api_send ''DELETE'' (''/api/policies/'' @ show_int i) None"

definition triggerPolicySleep :: "int \<Rightarrow> exec_mode option \<Rightarrow> api_request" where
  "triggerPolicySleep i mode = api_send ''POST'' (''/api/policies/'' @ show_int i @ ''/sleep'') (map_option mode_body mode)"

definition triggerPolicyWake :: "int \<Rightarrow> exec_mode option \<Rightarrow> api_request" where
  "triggerPolicyWake i mode = api_send ''POST'' (''/api/policies/'' @ show_int i @ ''/wake'') (map_option mode_body mode)"

definition getPolicyExecution :: "int \<Rightarrow> bool \<Rightarrow> api_request" where
  "getPolicyExecution i has_signal = (api_get (''/api/policy-executions/'' @ show_int i))\<lparr>ar_signal := has_signal\<rparr>"

definition getPolicyExecutionLogs :: "int \<Rightarrow> api_request" where
  "getPolicyExecutionLogs i = api_get (''/api/policy-executions/'' @ show_int i @ ''/logs'')"

definition createException :: "json \<Rightarrow> api_request" where
  "createException data = api_send ''POST'' ''/api/exceptions'' (Some data)"

definition updateException :: "int \<Rightarrow> json \<Rightarrow> api_request" where
  "updateException i data = api_send ''PUT'' (''/api/exceptions/'' @ show_int i) (Some data)"

definition deleteException :: "int \<Rightarrow> api_request" where
  "deleteException i = api_send ''DELETE'' (''/api/exceptions/'' @ show_int i) None"

definition exportGuardrails :: "api_request" where
  "exportGuardrails = api_get ''/api/guardrails/export''"

definition exportPolicy :: "int \<Rightarrow> api_request" where
  "exportPolicy i = api_get (''/api/policies/'' @ show_int i @ ''/export'')"

definition exportException :: "int \<Rightarrow> api_request" where
  "exportException i = api_get (''/api/exceptions/'' @ show_int i @ ''/export'')"

definition previewGuardrailsImport :: "json \<Rightarrow> api_request" where
  "previewGuardrailsImport payload = api_send ''POST'' ''/api/guardrails/import/preview'' (Some payload)"

definition applyGuardrailsImport :: "json \<Rightarrow> api_request" where
  "applyGuardrailsImport payload = api_send ''POST'' ''/api/guardrails/import/apply'' (Some payload)"

definition previewPolicyImport :: "json \<Rightarrow> api_request" where
  "previewPolicyImport payload = api_send ''POST'' ''/api/policies/import/preview'' (Some payload)"

definition applyPolicyImport :: "json \<Rightarrow> api_request" where
  "applyPolicyImport payload = api_send ''POST'' ''/api/policies/import/apply'' (Some payload)"

definition previewExceptionImport :: "json \<Rightarrow> api_request" where
  "previewExceptionImport payload = api_send ''POST'' ''/api/exceptions/import/preview'' (Some payload)"

definition applyExceptionImport :: "json \<Rightarrow> api_request" where
  "applyExceptionImport payload = api_send ''POST'' ''/api/exceptions/import/apply'' (Some payload)"

subsection \<open>Query strings\<close>

text \<open>\<open>if (v) q.set(k, v)\<close>: absent, empty and zero values are left out.\<close>

definition set_str :: "string \<Rightarrow> string option \<Rightarrow> (string \<times> string) list \<Rightarrow> (string \<times> string) list" where
  "set_str k v q = (case v of Some s \<Rightarrow> if s \<noteq> [] then assoc_set k s q else q | None \<Rightarrow> q)"

definition set_num :: "string \<Rightarrow> int option \<Rightarrow> (string \<times> string) list \<Rightarrow> (string \<times> string) list" where
  "set_num k v q = (case v of Some n \<Rightarrow> if n \<noteq> 0 then assoc_set k (show_int n) q else q | None \<Rightarrow> q)"

text \<open>\<open>if (v !== undefined) q.set(k, String(v))\<close>\<close>

definition set_page :: "int option \<Rightarrow> (string \<times> string) list \<Rightarrow> (string \<times> string) list" where
  "set_page v q = (case v of Some n \<Rightarrow> assoc_set ''page'' (show_int n) q | None \<Rightarrow> q)"

record audit_params =
  ap_user :: "string option"
  ap_action :: "string option"
  ap_from :: "string option"
  ap_to :: "string option"
  ap_page :: "int option"
  ap_pageSize :: "int option"

definition audit_query :: "audit_params \<Rightarrow> (string \<times> string) list" where
  "audit_query p =
     set_num ''pageSize'' (ap_pageSize p) (set_page (ap_page p) (set_str ''to'' (ap_to p)
       (set_str ''from'' (ap_from p) (set_str ''action'' (ap_action p) (set_str ''user'' (ap_user p) [])))))"

definition getAuditLogs :: "audit_params \<Rightarrow> api_request" where
  "getAuditLogs p = api_get (''/api/audit-logs?'' @ params_text (audit_query p))"

record execution_params =
  ep_policyId :: "int option"
  ep_status :: "string option"
  ep_direction :: "string option"
  ep_page :: "int option"
  ep_pageSize :: "int option"

definition executions_query :: "execution_params \<Rightarrow> (string \<times> string) list" where
  "executions_query p =
     set_num ''page_size'' (ep_pageSize p) (set_page (ep_page p) (set_str ''direction'' (ep_direction p)
       (set_str ''status'' (ep_status p) (set_num ''policy_id'' (ep_policyId p) []))))"

definition getPolicyExecutions :: "execution_params \<Rightarrow> api_request" where
  "getPolicyExecutions p = api_get (''/api/policy-executions?'' @ params_text (executions_query p))"

definition exceptions_query :: "int option \<Rightarrow> string option \<Rightarrow> (string \<times> string) list" where
  "exceptions_query policyId status = set_str ''status'' status (set_num ''policy_id'' policyId [])"

definition getExceptions :: "int option \<Rightarrow> string option \<Rightarrow> api_request" where
  "getExceptions policyId status = api_get (''/api/exceptions?'' @ params_text (exceptions_query policyId status))"

subsection \<open>Pod logs\<close>

definition pod_logs_path :: "string \<Rightarrow> string \<Rightarrow> string" where
  "pod_logs_path namespace podName =
     ''/api/cluster/pods/'' @ encodeURIComponent namespace @ ''/'' @ encodeURIComponent podName @ ''/logs''"

definition pod_logs_query :: "string option \<Rightarrow> int \<Rightarrow> bool \<Rightarrow> (string \<times> string) list" where
  "pod_logs_query container tailLines previous =
     (let q = set_str ''container'' container [(''tailLines'', show_int tailLines)]
      in if previous then assoc_set ''previous'' ''true'' q else q)"

definition getPodLogs :: "string \<Rightarrow> string \<Rightarrow> string \<Rightarrow> string option \<Rightarrow> int \<Rightarrow> bool \<Rightarrow> http_request" where
  "getPodLogs BASE namespace podName container tailLines previous =
     \<lparr>hr_url = BASE @ pod_logs_path namespace podName @ ''?''
        @ params_text (pod_logs_query container tailLines previous),
      hr_method = None, hr_headers = [], hr_body = None, hr_credentials = True, hr_timeout = True,
      hr_signal = False\<rparr>"

definition getPodLogs_result :: "response \<Rightarrow> js_error + string" where
  "getPodLogs_result res =
     (case handleAuthErrors res of
        Some e \<Rightarrow> Inl e
      | None \<Rightarrow> if \<not> rs_ok res then Inl (ErrorMsg (body_field ''error'' res (http_text res))) else Inr (rs_body res))"

definition stream_query :: "string option \<Rightarrow> int \<Rightarrow> (string \<times> string) list" where
  "stream_query container tailLines =
     set_str ''container'' container [(''tailLines'', show_int tailLines), (''follow'', ''true'')]"

definition streamPodLogs :: "string \<Rightarrow> string \<Rightarrow> string \<Rightarrow> string option \<Rightarrow> int \<Rightarrow> bool \<Rightarrow> http_request" where
  "streamPodLogs BASE namespace podName container tailLines has_signal =
     \<lparr>hr_url = BASE @ pod_logs_path namespace podName @ ''?'' @ params_text (stream_query container tailLines),
      hr_method = None, hr_headers = [], hr_body = None, hr_credentials = True, hr_timeout = False,
      hr_signal = has_signal\<rparr>"

text \<open>What \<open>start\<close> reports: the lines, then the end or an error; \<open>chunks\<close> is \<open>None\<close> without a body, and
  \<open>broken\<close> the message of a read that fails after them. After an abort an error is not reported.\<close>

datatype stream_end = EndDone | EndError js_error | EndSilent

definition stream_report :: "response \<Rightarrow> string list option \<Rightarrow> string option \<Rightarrow> bool \<Rightarrow> string list \<times> stream_end" where
  "stream_report res chunks broken aborted =
     (let fail = (\<lambda>e. if aborted then EndSilent else EndError e) in
      case handleAuthErrors res of
        Some e \<Rightarrow> ([], fail e)
      | None \<Rightarrow>
          if \<not> rs_ok res then ([], fail (ErrorMsg (body_field ''error'' res (http_text res))))
          else (case chunks of
                  None \<Rightarrow> ([], EndDone)
                | Some cs \<Rightarrow>
                    (case broken of
                       Some m \<Rightarrow> (fst (run pod_read ([], []) cs), fail (ErrorMsg m))
                     | None \<Rightarrow> (stream_pod_lines cs, EndDone))))"

subsection \<open>The dangerous operations\<close>

definition danger_request :: "string \<Rightarrow> string \<Rightarrow> string \<Rightarrow> string \<Rightarrow> http_request" where
  "danger_request BASE csrf path phrase =
     \<lparr>hr_url = BASE @ path, hr_method = Some ''POST'',
      hr_headers = [(''Content-Type'', ''application/json''), (''X-CSRF-Token'', csrf)],
      hr_body = Some (stringify (JObj [(''confirm'', JStr phrase)])), hr_credentials = True,
      hr_timeout = False, hr_signal = False\<rparr>"

definition resetDatabaseStream :: "string \<Rightarrow> string \<Rightarrow> http_request" where
  "resetDatabaseStream BASE csrf = danger_request BASE csrf ''/api/danger/reset-db'' ''RESET DATABASE''"

definition emergencyScaleStream :: "string \<Rightarrow> string \<Rightarrow> http_request" where
  "emergencyScaleStream BASE csrf = danger_request BASE csrf ''/api/danger/emergency-scale'' ''EMERGENCY SCALE''"

text \<open>The events the generator yields; \<open>None\<close> for a response without a body.\<close>

definition danger_result :: "response \<Rightarrow> string list option \<Rightarrow> js_error + json list" where
  "danger_result res chunks =
     (case handleAuthErrors res of
        Some e \<Rightarrow> Inl e
      | None \<Rightarrow>
          if \<not> rs_ok res \<or> chunks = None
          then Inl (ErrorMsg (body_field ''error'' res (if rs_body res \<noteq> [] then rs_body res else http_text res)))
          else Inr (ndjson_events (the chunks)))"

subsection \<open>The WebSocket address\<close>

definition http_to_ws :: "string \<Rightarrow> string" where
  "http_to_ws u = (if starts_with ''http'' u then ''ws'' @ drop 4 u else u)"

definition wsPolicyLogsUrl :: "string \<Rightarrow> string option \<Rightarrow> int \<Rightarrow> string" where
  "wsPolicyLogsUrl BASE origin executionId =
     (let base = (if BASE \<noteq> [] then http_to_ws BASE else case origin of Some o' \<Rightarrow> http_to_ws o' | None \<Rightarrow> [])
      in base @ ''/ws/policy-executions/'' @ show_int executionId @ ''/logs'')"

section \<open>What every call does\<close>

text \<open>The requests that go through \<open>apiFetch\<close>.\<close>

inductive client_request :: "api_request \<Rightarrow> bool" where
  "client_request getClusterInfo"
| "client_request getVersionInfo"
| "client_request (getObservabilityHistory rng has_signal)"
| "client_request (updateUserSettings settings)"
| "client_request getSessions"
| "client_request getGuardrails"
| "client_request (updateGuardrails data)"
| "client_request getOverview"
| "client_request getWorkloads"
| "client_request getNodes"
| "client_request (getNodePods nodeName)"
| "client_request (getPodDetail namespace podName)"
| "client_request (getWorkloadPods namespace kind nm)"
| "client_request getUsers"
| "client_request (createUser data)"
| "client_request (updateUserAccount i data)"
| "client_request (deleteUser i)"
| "client_request getOIDCConfig"
| "client_request getPolicies"
| "client_request (getPolicy i)"
| "client_request (createPolicy data)"
| "client_request (updatePolicy i data)"
| "client_request (deletePolicy i)"
| "client_request (triggerPolicySleep i mode)"
| "client_request (triggerPolicyWake i mode)"
| "client_request (getPolicyExecution i has_signal)"
| "client_request (getPolicyExecutionLogs i)"
| "client_request (createException data)"
| "client_request (updateException i data)"
| "client_request (deleteException i)"
| "client_request exportGuardrails"
| "client_request (exportPolicy i)"
| "client_request (exportException i)"
| "client_request (previewGuardrailsImport payload)"
| "client_request (applyGuardrailsImport payload)"
| "client_request (previewPolicyImport payload)"
| "client_request (applyPolicyImport payload)"
| "client_request (previewExceptionImport payload)"
| "client_request (applyExceptionImport payload)"
| "client_request (getAuditLogs p)"
| "client_request (getPolicyExecutions p)"
| "client_request (getExceptions policyId status)"

lemmas request_defs = api_get_def api_send_def
  getClusterInfo_def getVersionInfo_def getObservabilityHistory_def updateUserSettings_def
  getSessions_def getGuardrails_def updateGuardrails_def getOverview_def
  getWorkloads_def getNodes_def getNodePods_def getPodDetail_def
  getWorkloadPods_def getUsers_def createUser_def updateUserAccount_def
  deleteUser_def getOIDCConfig_def getPolicies_def getPolicy_def
  createPolicy_def updatePolicy_def deletePolicy_def triggerPolicySleep_def
  triggerPolicyWake_def getPolicyExecution_def getPolicyExecutionLogs_def createException_def
  updateException_def deleteException_def exportGuardrails_def exportPolicy_def
  exportException_def previewGuardrailsImport_def applyGuardrailsImport_def previewPolicyImport_def
  applyPolicyImport_def previewExceptionImport_def applyExceptionImport_def getAuditLogs_def
  getPolicyExecutions_def getExceptions_def

lemma client_method:
  "client_request r \<Longrightarrow> ar_method r \<in> {None, Some ''POST'', Some ''PUT'', Some ''DELETE''}
     \<and> ar_headers r = NoHeaders \<and> starts_with ''/api/'' (ar_path r)"
  by (induction rule: client_request.induct) (simp_all add: request_defs)

lemma upper_methods:
  "to_upper_char CHR ''P'' = CHR ''P''" "to_upper_char CHR ''O'' = CHR ''O''" "to_upper_char CHR ''S'' = CHR ''S''"
  "to_upper_char CHR ''T'' = CHR ''T''" "to_upper_char CHR ''U'' = CHR ''U''" "to_upper_char CHR ''D'' = CHR ''D''"
  "to_upper_char CHR ''E'' = CHR ''E''" "to_upper_char CHR ''L'' = CHR ''L''"
  by code_simp+

text \<open>All requests of the client: the ones through \<open>apiFetch\<close> and the four functions that call \<open>fetch\<close> themselves. The
  flag marks the three whose answer is a stream.\<close>

inductive client_fetch :: "string \<Rightarrow> string \<Rightarrow> bool \<Rightarrow> http_request \<Rightarrow> bool" for BASE csrf where
  "client_request r \<Longrightarrow> client_fetch BASE csrf False (fetch_args BASE csrf r)"
| "client_fetch BASE csrf False (getPodLogs BASE namespace podName container tailLines previous)"
| "client_fetch BASE csrf True (streamPodLogs BASE namespace podName container tailLines has_signal)"
| "client_fetch BASE csrf True (resetDatabaseStream BASE csrf)"
| "client_fetch BASE csrf True (emergencyScaleStream BASE csrf)"

lemma api_request_protected:
  assumes "client_request r"
  shows "let h = fetch_args BASE csrf r
     in hr_credentials h \<and> hr_timeout h \<and> starts_with ''/api/'' (ar_path r) \<and> hr_url h = BASE @ ar_path r
      \<and> map_of (hr_headers h) ''X-CSRF-Token'' = (if hr_method h = None then None else Some csrf)
      \<and> hr_method h \<in> {None, Some ''POST'', Some ''PUT'', Some ''DELETE''}"
  using client_method [OF assms]
  by (auto simp: fetch_args_def method_of_def MUTATION_METHODS_def incoming_headers_def upper_methods Let_def)

text \<open>C13. Every request of the client goes to the API with the credentials; it carries the CSRF token exactly if it changes
  something, that is, has a method other than the default GET; and it ends by a timeout exactly if its answer is not a
  stream.\<close>

theorem client_requests_protected:
  assumes "client_fetch BASE csrf stream h"
  shows "hr_credentials h \<and> (\<exists>path. hr_url h = BASE @ path \<and> starts_with ''/api/'' path)
    \<and> (hr_timeout h \<longleftrightarrow> \<not> stream)
    \<and> map_of (hr_headers h) ''X-CSRF-Token'' = (if hr_method h = None then None else Some csrf)
    \<and> hr_method h \<in> {None, Some ''POST'', Some ''PUT'', Some ''DELETE''}"
  using assms
proof cases
  case (1 r)
  then show ?thesis using api_request_protected [of r BASE csrf] by (auto simp: Let_def)
qed (simp_all add: getPodLogs_def streamPodLogs_def resetDatabaseStream_def emergencyScaleStream_def danger_request_def pod_logs_path_def)

theorem client_requests_protected_witness:
  "hr_credentials (fetch_args ''https://kp'' ''t0k'' (deletePolicy 7)) \<and> hr_timeout (fetch_args ''https://kp'' ''t0k'' (deletePolicy 7))
   \<and> map_of (hr_headers (fetch_args ''https://kp'' ''t0k'' (deletePolicy 7))) ''X-CSRF-Token'' = Some ''t0k''"
proof -
  have c: "client_fetch ''https://kp'' ''t0k'' False (fetch_args ''https://kp'' ''t0k'' (deletePolicy 7))"
    by (intro client_fetch.intros client_request.intros)
  have m: "hr_method (fetch_args ''https://kp'' ''t0k'' (deletePolicy 7)) \<noteq> None"
    by (simp add: fetch_args_def deletePolicy_def api_send_def Let_def)
  show ?thesis using client_requests_protected [OF c] unfolding if_not_P [OF m] by simp
qed

text \<open>A call succeeds only on a 2xx response, with nothing for a 204 and with the parsed body otherwise; a 401
  is reported as an expired session and, alone, dispatches the session event; every other failure
  throws an error.\<close>

theorem fetch_result_branches:
  "(\<forall>v. fetch_result res = Inr v \<longrightarrow> rs_ok res \<and> v = (if rs_status res = 204 then None else json_parse (rs_body res)))
   \<and> (session_expired res \<longleftrightarrow> fetch_result res = Inl (ErrorMsg ''Session expired'') \<and> rs_status res = 401)
   \<and> (\<not> rs_ok res \<longrightarrow> (\<exists>m. fetch_result res = Inl (ErrorMsg m)))"
proof -
  have "\<not> rs_ok res" if "rs_status res = 401 \<or> rs_status res = 403" using that by (auto simp: rs_ok_def)
  then show ?thesis
    by (auto simp: fetch_result_def handleAuthErrors_def session_expired_def split: if_splits option.splits)
qed

theorem fetch_result_branches_witness:
  "rs_ok \<lparr>rs_status = 200, rs_body = ''null''\<rparr>
   \<and> (session_expired \<lparr>rs_status = 401, rs_body = ''{}''\<rparr> \<longleftrightarrow>
        fetch_result \<lparr>rs_status = 401, rs_body = ''{}''\<rparr> = Inl (ErrorMsg ''Session expired'')
        \<and> rs_status \<lparr>rs_status = 401, rs_body = ''{}''\<rparr> = 401)
   \<and> (\<exists>m. fetch_result \<lparr>rs_status = 404, rs_body = ''{}''\<rparr> = Inl (ErrorMsg m))"
proof -
  have "fetch_result \<lparr>rs_status = 200, rs_body = ''null''\<rparr> = Inr (Some JNull)" by code_simp
  moreover have "\<not> rs_ok \<lparr>rs_status = 404, rs_body = ''{}''\<rparr>" by code_simp
  ultimately show ?thesis
    using fetch_result_branches [of "\<lparr>rs_status = 200, rs_body = ''null''\<rparr>"]
      fetch_result_branches [of "\<lparr>rs_status = 401, rs_body = ''{}''\<rparr>"]
      fetch_result_branches [of "\<lparr>rs_status = 404, rs_body = ''{}''\<rparr>"] by blast
qed

section \<open>Addresses\<close>

lemma path_no_query: "CHR ''?'' \<notin> set (pod_logs_path namespace podName)"
  using encode_chars by (auto simp: pod_logs_path_def)

lemma set_str_lookup:
  "map_of (set_str k v q) k' = (if k' = k \<and> v \<noteq> None \<and> v \<noteq> Some [] then v else map_of q k')"
  by (auto simp: set_str_def split: option.split)

lemma audit_query_read:
  "read_query (params_text (audit_query p)) = map Some (audit_query p)
   \<and> distinct (map fst (audit_query p))
   \<and> map_of (audit_query p) ''user'' = (if ap_user p = Some [] then None else ap_user p)
   \<and> map_of (audit_query p) ''action'' = (if ap_action p = Some [] then None else ap_action p)
   \<and> map_of (audit_query p) ''from'' = (if ap_from p = Some [] then None else ap_from p)
   \<and> map_of (audit_query p) ''to'' = (if ap_to p = Some [] then None else ap_to p)
   \<and> map_of (audit_query p) ''page'' = map_option show_int (ap_page p)
   \<and> map_of (audit_query p) ''pageSize'' = (if ap_pageSize p = Some 0 then None else map_option show_int (ap_pageSize p))"
proof -
  have d: "distinct (map fst (set_str k v q))" "distinct (map fst (set_num k n q))" "distinct (map fst (set_page n q))"
    if "distinct (map fst q)" for k v n and q :: "(string \<times> string) list"
    using that by (simp_all add: set_str_def set_num_def set_page_def distinct_assoc_set split: option.split)
  have "distinct (map fst (audit_query p))"
    unfolding audit_query_def by (intro d) simp
  then show ?thesis
    by (simp add: read_query_params)
       (intro conjI; cases "ap_page p"; cases "ap_pageSize p"; simp add: audit_query_def set_num_def set_page_def set_str_lookup)
qed

text \<open>The server reads back every filter of the audit log that is set and nonempty, and nothing else.\<close>

theorem audit_filters_read_back:
  "read_query (params_text (audit_query p)) = map Some (audit_query p)
   \<and> distinct (map fst (audit_query p))
   \<and> map_of (audit_query p) ''user'' = (if ap_user p = Some [] then None else ap_user p)
   \<and> map_of (audit_query p) ''action'' = (if ap_action p = Some [] then None else ap_action p)
   \<and> map_of (audit_query p) ''from'' = (if ap_from p = Some [] then None else ap_from p)
   \<and> map_of (audit_query p) ''to'' = (if ap_to p = Some [] then None else ap_to p)
   \<and> map_of (audit_query p) ''page'' = map_option show_int (ap_page p)
   \<and> map_of (audit_query p) ''pageSize'' = (if ap_pageSize p = Some 0 then None else map_option show_int (ap_pageSize p))"
  by (rule audit_query_read)

end
