(* ===== verification/PolicyForm.thy ===== *)
theory PolicyForm
  imports WindowPicker QueryKeys Formatters ApiClient
begin

text \<open>
  \<open>components/policies/CreatePolicyDialog.tsx\<close> in \<open>app/policies/page.tsx\<close>: the form that creates and
  edits a policy, its validation, the payload it sends and the page that opens and closes it, as one machine
  over clicks, edits and answers. The windows are edited by the machine of \<open>WindowPicker\<close>.

  A mutation keeps running when the dialog closes, and its callbacks see the props of the latest
  render, as the documentation of the query library says of version 5. The dialog is modal: the buttons of the
  page act while it is closed, its own while it is open.
\<close>

section \<open>The form\<close>

record policy_form =
  pf_name :: string
  pf_description :: string
  pf_sleepWindows :: "sleep_window list"
  pf_timezone :: string
  pf_mode :: exec_mode
  pf_enabled :: bool
  pf_timeoutMinutes :: jsnum
  pf_namespaceFilter :: string
  pf_labelSelector :: string
  pf_editingWindows :: "sleep_window list"

definition DEFAULT_WINDOWS :: "sleep_window list" where
  "DEFAULT_WINDOWS = [window None [1, 2, 3, 4, 5] ''19:00'' ''07:00'' False]"

definition DEFAULTS :: policy_form where
  "DEFAULTS = \<lparr>pf_name = [], pf_description = [], pf_sleepWindows = DEFAULT_WINDOWS, pf_timezone = ''UTC'',
     pf_mode = Plan, pf_enabled = True, pf_timeoutMinutes = Num 30, pf_namespaceFilter = [], pf_labelSelector = [],
     pf_editingWindows = DEFAULT_WINDOWS\<rparr>"

definition loaded_policy :: "policy \<Rightarrow> policy_form" where
  "loaded_policy p =
     (let windows = (if hasSleepWindows (pol_sleepWindows p) then the (pol_sleepWindows p) else DEFAULT_WINDOWS)
      in \<lparr>pf_name = pol_name p, pf_description = pol_description p, pf_sleepWindows = windows,
          pf_timezone = (if pol_timezone p = [] then ''UTC'' else pol_timezone p),
          pf_mode = pol_mode p, pf_enabled = pol_enabled p, pf_timeoutMinutes = num_int (pol_timeoutMinutes p),
          pf_namespaceFilter = pol_namespaceFilter p, pf_labelSelector = pol_labelSelector p,
          pf_editingWindows = windows\<rparr>)"

definition new_policy :: "string option \<Rightarrow> policy_form" where
  "new_policy defaultTimezone = DEFAULTS\<lparr>pf_timezone := (case defaultTimezone of Some tz \<Rightarrow> tz | None \<Rightarrow> ''UTC'')\<rparr>"

definition policy_validate :: "policy_form \<Rightarrow> string option" where
  "policy_validate form =
     (if js_trim (pf_name form) = [] then Some ''Name is required''
      else if length (pf_editingWindows form) = 0 then Some ''At least one sleep window is required''
      else if list_all (\<lambda>w. length (daysOfWeek w) = 0) (pf_editingWindows form) then Some ''Select at least one day''
      else if pf_timeoutMinutes form < Num 0 \<or> Num 1440 < pf_timeoutMinutes form
        then Some (''Timeout must be 0'' @ en_dash @ ''1440 minutes'')
      else None)"

definition activeWindows :: "policy_form \<Rightarrow> sleep_window list" where
  "activeWindows form = filter (\<lambda>w. 0 < length (daysOfWeek w)) (pf_editingWindows form)"

definition form_weeklyStats :: "policy_form \<Rightarrow> js_error + weekly_stats option" where
  "form_weeklyStats form =
     (if 0 < length (activeWindows form)
      then (case computeWeeklyStats (activeWindows form) of Inl e \<Rightarrow> Inl e | Inr st \<Rightarrow> Inr (Some st))
      else Inr None)"

section \<open>The request\<close>

record policy_payload =
  pp_name :: string
  pp_description :: string
  pp_sleepWindows :: "sleep_window list"
  pp_timezone :: string
  pp_mode :: exec_mode
  pp_enabled :: bool
  pp_timeoutMinutes :: jsnum
  pp_namespaceFilter :: string
  pp_labelSelector :: string

definition policy_payload_of :: "policy_form \<Rightarrow> policy_payload" where
  "policy_payload_of form =
     \<lparr>pp_name = pf_name form, pp_description = pf_description form,
      pp_sleepWindows = filter (\<lambda>w. 0 < length (daysOfWeek w)) (pf_editingWindows form),
      pp_timezone = pf_timezone form, pp_mode = pf_mode form, pp_enabled = pf_enabled form,
      pp_timeoutMinutes = pf_timeoutMinutes form, pp_namespaceFilter = pf_namespaceFilter form,
      pp_labelSelector = pf_labelSelector form\<rparr>"

definition window_json :: "sleep_window \<Rightarrow> json" where
  "window_json w = JObj
     ((case win_name w of None \<Rightarrow> [] | Some n \<Rightarrow> [(''name'', JStr n)]) @
      [(''daysOfWeek'', JArr (map (\<lambda>d. JNum (num_int d)) (daysOfWeek w))), (''startTime'', JStr (startTime w)),
       (''endTime'', JStr (endTime w)), (''allDay'', JBool (allDay w))])"

definition payload_json :: "policy_payload \<Rightarrow> json" where
  "payload_json p = JObj
     [(''name'', JStr (pp_name p)), (''description'', JStr (pp_description p)),
      (''sleepWindows'', JArr (map window_json (pp_sleepWindows p))), (''timezone'', JStr (pp_timezone p)),
      (''mode'', JStr (case pp_mode p of Plan \<Rightarrow> ''plan'' | Apply \<Rightarrow> ''apply'')), (''enabled'', JBool (pp_enabled p)),
      (''timeoutMinutes'', JNum (pp_timeoutMinutes p)), (''namespaceFilter'', JStr (pp_namespaceFilter p)),
      (''labelSelector'', JStr (pp_labelSelector p))]"

definition policy_request :: "int option \<Rightarrow> policy_payload \<Rightarrow> api_request" where
  "policy_request existing payload =
     (case existing of Some i \<Rightarrow> updatePolicy i (payload_json payload) | None \<Rightarrow> createPolicy (payload_json payload))"

section \<open>The page\<close>

datatype policy_effect =
    PolicySent "int option" policy_payload
  | PolicyKeyStale query_key
  | PolicyNotified string snack_severity

record policy_page =
  pg_dialogOpen :: bool
  pg_editing :: "policy option"
  pg_userTimezone :: "string option"
  pg_form :: policy_form
  pg_error :: string
  pg_touchedName :: bool
  pg_pending :: bool
  pg_effects :: "policy_effect list"

datatype policy_field =
    FieldName string | FieldDescription string | FieldTimezone nat | FieldWindows picker_event
  | FieldNamespaces string | FieldLabels string | FieldMode exec_mode | FieldTimeout string | FieldEnabled bool

datatype policy_event =
    PolicyEditClicked policy
  | PolicyCreateClicked
  | PolicyCloseClicked
  | PolicyEdited policy_field
  | PolicyNameBlurred
  | PolicySaveClicked
  | PolicySaved
  | PolicySaveFailed "string option"
  | UserTimezoneChanged "string option"

text \<open>A number field of the browser holds the empty text instead of one that is not a number.\<close>

definition number_input :: "string \<Rightarrow> string" where
  "number_input s = (if js_number s = NaN then [] else s)"

fun set_policy_field :: "policy_field \<Rightarrow> policy_form \<Rightarrow> policy_form" where
  "set_policy_field (FieldName s) f = f\<lparr>pf_name := s\<rparr>"
| "set_policy_field (FieldDescription s) f = f\<lparr>pf_description := s\<rparr>"
| "set_policy_field (FieldTimezone k) f = (if k < length TIMEZONES then f\<lparr>pf_timezone := TIMEZONES ! k\<rparr> else f)"
| "set_policy_field (FieldWindows e) f = f\<lparr>pf_editingWindows := picker_step (pf_editingWindows f) e\<rparr>"
| "set_policy_field (FieldNamespaces s) f = f\<lparr>pf_namespaceFilter := s\<rparr>"
| "set_policy_field (FieldLabels s) f = f\<lparr>pf_labelSelector := s\<rparr>"
| "set_policy_field (FieldMode m) f = f\<lparr>pf_mode := m\<rparr>"
| "set_policy_field (FieldTimeout s) f = f\<lparr>pf_timeoutMinutes := js_number (number_input s)\<rparr>"
| "set_policy_field (FieldEnabled b) f = f\<lparr>pf_enabled := b\<rparr>"

definition name_error :: "policy_page \<Rightarrow> string option" where
  "name_error s = (if pg_touchedName s \<and> js_trim (pf_name (pg_form s)) = [] then Some ''Name is required'' else None)"

text \<open>The effect on \<open>[open, existing, user?.defaultTimezone]\<close>.\<close>

definition load_policy :: "policy_page \<Rightarrow> policy_page" where
  "load_policy s =
     (if pg_dialogOpen s
      then s\<lparr>pg_form := (case pg_editing s of Some p \<Rightarrow> loaded_policy p | None \<Rightarrow> new_policy (pg_userTimezone s)),
             pg_error := [], pg_touchedName := False\<rparr>
      else s)"

definition handleSave :: "policy_page \<Rightarrow> policy_page" where
  "handleSave s =
     (case policy_validate (pg_form s) of
        Some msg \<Rightarrow> s\<lparr>pg_error := msg\<rparr>
      | None \<Rightarrow> s\<lparr>pg_error := [], pg_pending := True,
          pg_effects := pg_effects s @ [PolicySent (map_option pol_id (pg_editing s)) (policy_payload_of (pg_form s))]\<rparr>)"

definition close_policy :: "policy_page \<Rightarrow> policy_page" where
  "close_policy s = s\<lparr>pg_dialogOpen := False, pg_editing := None\<rparr>"

definition policy_saved :: "policy_page \<Rightarrow> policy_page" where
  "policy_saved s = close_policy (s\<lparr>pg_pending := False, pg_effects := pg_effects s @
     [PolicyKeyStale policies_key] @
     (case pg_editing s of Some p \<Rightarrow> [PolicyKeyStale (policy_key (pol_id p))] | None \<Rightarrow> []) @
     [PolicyNotified (if pg_editing s \<noteq> None then ''Policy updated'' else ''Policy created'') SnackSuccess]\<rparr>)"

fun policy_step :: "bool \<Rightarrow> policy_page \<Rightarrow> policy_event \<Rightarrow> policy_page" where
  "policy_step canEdit s (PolicyEditClicked p) =
     (if canEdit \<and> \<not> pg_dialogOpen s then load_policy (s\<lparr>pg_editing := Some p, pg_dialogOpen := True\<rparr>) else s)"
| "policy_step canEdit s PolicyCreateClicked =
     (if canEdit \<and> \<not> pg_dialogOpen s then load_policy (s\<lparr>pg_editing := None, pg_dialogOpen := True\<rparr>) else s)"
| "policy_step canEdit s PolicyCloseClicked = (if pg_dialogOpen s then close_policy s else s)"
| "policy_step canEdit s (PolicyEdited fl) =
     (if pg_dialogOpen s then s\<lparr>pg_form := set_policy_field fl (pg_form s)\<rparr> else s)"
| "policy_step canEdit s PolicyNameBlurred = (if pg_dialogOpen s then s\<lparr>pg_touchedName := True\<rparr> else s)"
| "policy_step canEdit s PolicySaveClicked = (if pg_dialogOpen s \<and> \<not> pg_pending s then handleSave s else s)"
| "policy_step canEdit s PolicySaved = (if pg_pending s then policy_saved s else s)"
| "policy_step canEdit s (PolicySaveFailed err) =
     (if pg_pending s then s\<lparr>pg_pending := False, pg_error := formatError err\<rparr> else s)"
| "policy_step canEdit s (UserTimezoneChanged tz) =
     (if tz = pg_userTimezone s then s else load_policy (s\<lparr>pg_userTimezone := tz\<rparr>))"

definition policy_page_start :: "string option \<Rightarrow> policy_page" where
  "policy_page_start tz = \<lparr>pg_dialogOpen = False, pg_editing = None, pg_userTimezone = tz, pg_form = DEFAULTS,
     pg_error = [], pg_touchedName = False, pg_pending = False, pg_effects = []\<rparr>"

section \<open>What is sent\<close>

text \<open>What the form sees to: a name, windows that each have a day and times that can be read, a timeout of at most a day.
  It checks neither the time zone nor that a window ends at another time than it starts.\<close>

definition sendable :: "policy_payload \<Rightarrow> bool" where
  "sendable p =
     (js_trim (pp_name p) \<noteq> [] \<and> pp_sleepWindows p \<noteq> [] \<and> list_all editable (pp_sleepWindows p)
      \<and> list_all (\<lambda>w. daysOfWeek w \<noteq> []) (pp_sleepWindows p) \<and> length (pp_sleepWindows p) \<le> MAX_WINDOWS
      \<and> Num 0 \<le> pp_timeoutMinutes p \<and> pp_timeoutMinutes p \<le> Num 1440)"

definition form_ok :: "policy_form \<Rightarrow> bool" where
  "form_ok f = (picker_inv (pf_editingWindows f) \<and> pf_timeoutMinutes f \<noteq> NaN)"

definition page_inv :: "policy_page \<Rightarrow> bool" where
  "page_inv s = (form_ok (pg_form s) \<and> (\<forall>e p. PolicySent e p \<in> set (pg_effects s) \<longrightarrow> sendable p))"

definition schedulable :: "policy \<Rightarrow> bool" where
  "schedulable p = (case pol_sleepWindows p of None \<Rightarrow> True | Some ws \<Rightarrow> picker_inv ws)"

lemma default_windows_ok: "picker_inv DEFAULT_WINDOWS"
  by (simp add: picker_inv_def DEFAULT_WINDOWS_def window_def editable_def valid_time_literals MAX_WINDOWS_def)

lemma loaded_ok: "schedulable p \<Longrightarrow> form_ok (loaded_policy p)"
  by (auto simp: form_ok_def loaded_policy_def schedulable_def hasSleepWindows_def default_windows_ok Let_def split: option.splits)

lemma new_ok: "form_ok (new_policy tz)"
  by (simp add: form_ok_def new_policy_def DEFAULTS_def default_windows_ok)

lemma number_input_ok: "js_number (number_input s) \<noteq> NaN"
proof -
  have "js_number [] = Num 0" by code_simp
  then show ?thesis by (simp add: number_input_def)
qed

lemma set_field_ok: "form_ok f \<Longrightarrow> form_ok (set_policy_field fl f)"
  by (cases fl) (auto simp: form_ok_def picker_step_inv number_input_ok)

lemma payload_sendable:
  assumes "form_ok f" "policy_validate f = None"
  shows "sendable (policy_payload_of f)"
proof -
  let ?ws = "filter (\<lambda>w. 0 < length (daysOfWeek w)) (pf_editingWindows f)"
  obtain r where r: "pf_timeoutMinutes f = Num r" using assms(1) by (cases "pf_timeoutMinutes f") (auto simp: form_ok_def)
  have ws: "list_all editable (pf_editingWindows f)" "length (pf_editingWindows f) \<le> MAX_WINDOWS"
    using assms(1) by (auto simp: form_ok_def picker_inv_def)
  have v: "js_trim (pf_name f) \<noteq> []" "\<not> list_all (\<lambda>w. length (daysOfWeek w) = 0) (pf_editingWindows f)" "0 \<le> r" "r \<le> 1440"
    using assms(2) by (auto simp: policy_validate_def r split: if_splits)
  have "?ws \<noteq> []" using v(2) by (auto simp: list_all_iff filter_empty_conv)
  moreover have "length ?ws \<le> MAX_WINDOWS" using ws(2) length_filter_le le_trans by blast
  moreover have "list_all editable ?ws" "list_all (\<lambda>w. daysOfWeek w \<noteq> []) ?ws" using ws(1) by (simp_all add: list_all_iff)
  ultimately show ?thesis using v by (simp add: sendable_def policy_payload_of_def r)
qed

lemma load_effects [simp]: "pg_effects (load_policy s) = pg_effects s"
  by (simp add: load_policy_def)

lemma load_inv: "page_inv s \<Longrightarrow> (\<forall>p. pg_editing s = Some p \<longrightarrow> schedulable p) \<Longrightarrow> page_inv (load_policy s)"
  by (auto simp: page_inv_def load_policy_def loaded_ok new_ok split: option.splits)

text \<open>The events of a session in which each policy that is opened has at most ten windows, with times that can be read even
  where they are all-day.\<close>

fun well_sent :: "policy_event \<Rightarrow> bool" where
  "well_sent (PolicyEditClicked p) = schedulable p"
| "well_sent _ = True"

definition session_inv :: "policy_page \<Rightarrow> bool" where
  "session_inv s = (page_inv s \<and> (\<forall>p. pg_editing s = Some p \<longrightarrow> schedulable p))"

lemma load_session: "session_inv s \<Longrightarrow> session_inv (load_policy s)"
  using load_inv by (auto simp: session_inv_def load_policy_def)

lemma handleSave_session: "session_inv s \<Longrightarrow> session_inv (handleSave s)"
  using payload_sendable [of "pg_form s"] by (auto simp: session_inv_def page_inv_def handleSave_def split: option.splits)

lemma reload_session:
  "session_inv s \<Longrightarrow> (\<forall>p. ed = Some p \<longrightarrow> schedulable p) \<Longrightarrow> session_inv (load_policy (s\<lparr>pg_editing := ed, pg_dialogOpen := b\<rparr>))"
  "session_inv s \<Longrightarrow> session_inv (load_policy (s\<lparr>pg_userTimezone := tz\<rparr>))"
  by (rule load_session; simp add: session_inv_def page_inv_def)+

lemma policy_saved_session: "session_inv s \<Longrightarrow> session_inv (policy_saved s)"
  by (auto simp: session_inv_def page_inv_def policy_saved_def close_policy_def split: option.splits)

lemma policy_step_session: "session_inv s \<Longrightarrow> well_sent e \<Longrightarrow> session_inv (policy_step canEdit s e)"
  by (cases e)
     (simp_all add: reload_session handleSave_session policy_saved_session,
      simp_all add: session_inv_def page_inv_def close_policy_def set_field_ok)

interpretation policy_page: guarded_machine "policy_step canEdit" session_inv well_sent for canEdit
  by unfold_locales (rule policy_step_session)

lemma start_session: "session_inv (policy_page_start tz)"
  by (auto simp: session_inv_def page_inv_def policy_page_start_def form_ok_def DEFAULTS_def default_windows_ok)

text \<open>A window with a day sleeps for at least a minute.\<close>

lemma schedule_sleeps:
  assumes "ws \<noteq> []" "list_all editable ws" "list_all (\<lambda>w. daysOfWeek w \<noteq> []) ws"
  shows "0 < card (sleep_set ws)"
proof -
  obtain w ws' where w: "ws = w # ws'" using assms(1) by (cases ws) auto
  then obtain d where d: "d \<in> set (daysOfWeek w)" using assms(3) by (cases "daysOfWeek w") auto
  have wf: "wf_window w" and dr: "0 \<le> d" "d \<le> 6"
    using assms(2) d by (auto simp: w editable_wf editable_def list_all_iff)
  note b = win_bounds [OF wf]
  have "0 < win_length w" using b by (auto simp: win_length_def)
  then have "covers w (d * 1440 + win_start w)" using d by (auto simp: covers_def list_ex_iff intro!: bexI [of _ d])
  then have "d * 1440 + win_start w \<in> sleep_set ws"
    using b dr by (auto simp: sleep_set_def asleep_def w)
  then show ?thesis by (metis card_gt_0_iff empty_iff finite_Collect_conjI finite_atLeastLessThan_int sleep_set_def finite_Int Collect_conj_eq Collect_mem_eq)
qed

text \<open>Whatever is clicked and typed on the policies page, in any order and with any answers from the server,
  each policy that is sent has a name, at most ten windows with valid times and at least one day each, so its
  week has a positive number of sleeping minutes, and a timeout of at most a day.\<close>

theorem sent_policies_schedulable:
  assumes "list_all well_sent es" "PolicySent i p \<in> set (pg_effects (run (policy_step canEdit) (policy_page_start tz) es))"
  shows "sendable p \<and> (\<exists>m. weeklySleepMinutes (pp_sleepWindows p) = Inr (num_int m) \<and> 0 < m \<and> m \<le> 10080)"
proof -
  have "sendable p"
    using policy_page.run_inv [OF start_session assms(1), of canEdit tz] assms(2)
    by (auto simp: session_inv_def page_inv_def)
  moreover from this have "\<forall>w \<in> set (pp_sleepWindows p). wf_window w"
    by (auto simp: sendable_def list_all_iff editable_wf)
  ultimately show ?thesis
    using weeklySleepMinutes_counts [of "pp_sleepWindows p"] card_sleep_set_le [of "pp_sleepWindows p"] schedule_sleeps [of "pp_sleepWindows p"]
    by (auto simp: sendable_def intro!: exI [of _ "int (card (sleep_set (pp_sleepWindows p)))"])
qed

definition night_policy :: policy where
  "night_policy = \<lparr>pol_id = 7, pol_name = ''nights'', pol_description = [], pol_namespaceFilter = ''staging,dev'',
     pol_labelSelector = [], pol_sleepWindows = Some DEFAULT_WINDOWS, pol_timezone = ''Europe/Budapest'', pol_mode = Apply,
     pol_enabled = True, pol_timeoutMinutes = 45, pol_currentState = Awake, pol_stateSince = None, pol_lastSleepAt = None,
     pol_lastWakeAt = None, pol_createdAt = [], pol_updatedAt = [], pol_nextTransitionAt = None\<rparr>"

definition night_session :: "policy_event list" where
  "night_session = [PolicyEditClicked night_policy, PolicyEdited (FieldTimeout ''x1''), PolicyEdited (FieldWindows ClickAdd),
     PolicySaveClicked]"

definition night_payload :: policy_payload where
  "night_payload = \<lparr>pp_name = ''nights'', pp_description = [], pp_sleepWindows = DEFAULT_WINDOWS, pp_timezone = ''Europe/Budapest'',
     pp_mode = Apply, pp_enabled = True, pp_timeoutMinutes = Num 0, pp_namespaceFilter = ''staging,dev'', pp_labelSelector = []\<rparr>"

lemma night_session_sends:
  "pg_effects (run (policy_step True) (policy_page_start None) night_session) = [PolicySent (Some 7) night_payload]"
  by code_simp

lemma night_schedulable: "schedulable night_policy"
  by (simp add: schedulable_def night_policy_def default_windows_ok)

theorem sent_policies_schedulable_witness:
  "sendable night_payload \<and> (\<exists>m. weeklySleepMinutes (pp_sleepWindows night_payload) = Inr (num_int m) \<and> 0 < m \<and> m \<le> 10080)"
  by (rule sent_policies_schedulable [of night_session "Some 7" _ True None])
     (simp_all add: night_session_sends, simp add: night_session_def night_schedulable)

section \<open>Editing loses nothing\<close>

definition policy_payload_from :: "policy \<Rightarrow> sleep_window list \<Rightarrow> policy_payload" where
  "policy_payload_from p ws =
     \<lparr>pp_name = pol_name p, pp_description = pol_description p, pp_sleepWindows = ws, pp_timezone = pol_timezone p,
      pp_mode = pol_mode p, pp_enabled = pol_enabled p, pp_timeoutMinutes = num_int (pol_timeoutMinutes p),
      pp_namespaceFilter = pol_namespaceFilter p, pp_labelSelector = pol_labelSelector p\<rparr>"

text \<open>The windows the dialog shows for a policy: the default schedule where the policy has none.\<close>

definition shown_windows :: "policy \<Rightarrow> sleep_window list" where
  "shown_windows p = (case pol_sleepWindows p of Some (w # ws) \<Rightarrow> w # ws | _ \<Rightarrow> DEFAULT_WINDOWS)"

lemma shown_loaded: "pf_editingWindows (loaded_policy p) = shown_windows p"
  by (auto simp: loaded_policy_def shown_windows_def hasSleepWindows_def Let_def split: option.split list.split)

text \<open>C33. Opening a policy and saving it without an edit sends back each of its fields unchanged, if it has sleep windows and
  a time zone. A policy without sleep windows is sent with the schedule of weekday nights that the form offers for a new
  one, and a policy without a time zone with UTC.\<close>

theorem unedited_save_sends_policy:
  assumes "list_all (\<lambda>w. daysOfWeek w \<noteq> []) (shown_windows p)"
    and "js_trim (pol_name p) \<noteq> []" "0 \<le> pol_timeoutMinutes p" "pol_timeoutMinutes p \<le> 1440"
  shows "pg_effects (run (policy_step True) (policy_page_start tz) [PolicyEditClicked p, PolicySaveClicked])
    = [PolicySent (Some (pol_id p)) ((policy_payload_from p (shown_windows p))
         \<lparr>pp_timezone := if pol_timezone p = [] then ''UTC'' else pol_timezone p\<rparr>)]
   \<and> (\<forall>ws. pol_sleepWindows p = Some ws \<and> ws \<noteq> [] \<longrightarrow> shown_windows p = ws)"
proof -
  let ?ws = "shown_windows p"
  have "filter (\<lambda>w. 0 < length (daysOfWeek w)) ?ws = ?ws"
    using assms(1) by (simp add: list_all_iff filter_id_conv)
  moreover have ne: "?ws \<noteq> []" by (simp add: shown_windows_def DEFAULT_WINDOWS_def split: option.split list.split)
  moreover have "\<not> list_all (\<lambda>w. length (daysOfWeek w) = 0) ?ws"
    using assms(1) ne by (cases ?ws) auto
  ultimately have "policy_payload_of (loaded_policy p) = (policy_payload_from p ?ws)\<lparr>pp_timezone := if pol_timezone p = [] then ''UTC'' else pol_timezone p\<rparr>"
    "policy_validate (loaded_policy p) = None"
    using assms by (simp_all add: policy_payload_of_def policy_payload_from_def policy_validate_def shown_loaded)
       (simp_all add: loaded_policy_def Let_def)
  then show ?thesis
    by (auto simp: policy_page_start_def load_policy_def handleSave_def shown_windows_def split: list.split)
qed

text \<open>A policy without windows, opened and saved, gets a schedule that puts its workloads to sleep.\<close>

lemma windowless_save_schedules:
  assumes "pol_sleepWindows p = None" "js_trim (pol_name p) \<noteq> []" "0 \<le> pol_timeoutMinutes p" "pol_timeoutMinutes p \<le> 1440"
    "pol_timezone p \<noteq> []"
  shows "pg_effects (run (policy_step True) (policy_page_start tz) [PolicyEditClicked p, PolicySaveClicked])
    = [PolicySent (Some (pol_id p)) (policy_payload_from p DEFAULT_WINDOWS)]"
proof -
  have "policy_payload_of (loaded_policy p) = policy_payload_from p DEFAULT_WINDOWS" "policy_validate (loaded_policy p) = None"
    using assms by (simp_all add: policy_payload_of_def loaded_policy_def policy_payload_from_def policy_validate_def hasSleepWindows_def Let_def
        DEFAULT_WINDOWS_def window_def)
  then show ?thesis by (simp add: policy_page_start_def load_policy_def handleSave_def)
qed

theorem unedited_save_sends_policy_witness:
  "pg_effects (run (policy_step True) (policy_page_start None) [PolicyEditClicked night_policy, PolicySaveClicked])
    = [PolicySent (Some (pol_id night_policy)) ((policy_payload_from night_policy (shown_windows night_policy))\<lparr>pp_timezone := ''Europe/Budapest''\<rparr>)]"
proof -
  have "list_all (\<lambda>w. daysOfWeek w \<noteq> []) (shown_windows night_policy)" "js_trim (pol_name night_policy) \<noteq> []"
    "0 \<le> pol_timeoutMinutes night_policy" "pol_timeoutMinutes night_policy \<le> 1440"
    by code_simp+
  from conjunct1 [OF unedited_save_sends_policy [OF this]] show ?thesis by (simp add: night_policy_def)
qed

section \<open>A save that outlives its dialog\<close>

text \<open>A policy is saved and the dialog is cancelled before the answer arrives. The answer is then reported as
  a creation, the page of the policy keeps its old data, and when another dialog is open by then it is closed
  together with what was typed into it.\<close>

theorem late_save_misreported:
  "pg_effects (run (policy_step True) (policy_page_start None)
     [PolicyEditClicked night_policy, PolicySaveClicked, PolicyCloseClicked, PolicySaved])
     = [PolicySent (Some 7) (policy_payload_from night_policy DEFAULT_WINDOWS), PolicyKeyStale policies_key,
        PolicyNotified ''Policy created'' SnackSuccess]
   \<and> \<not> pg_dialogOpen (run (policy_step True) (policy_page_start None)
     [PolicyEditClicked night_policy, PolicySaveClicked, PolicyCloseClicked, PolicyCreateClicked,
      PolicyEdited (FieldName ''weekends''), PolicySaved])"
  by (intro conjI; code_simp)

end
