(* ===== verification/Timeline.thy ===== *)
theory Timeline
  imports WindowCover TimeBlocks
begin

text \<open>
  \<open>frontend/src/components/policies/timelineSegments.ts\<close>: the bars of the weekly timeline, one row
  per day with Monday first. The theorem of this theory says that the bars drawn for the sleep
  windows show exactly the minutes \<open>WindowCover\<close> calls asleep, so the picture and the computed
  statistics describe the same schedule.
\<close>

definition COLOR_sleep :: string where "COLOR_sleep = ''#7C3AED''"
definition COLOR_exception :: string where "COLOR_exception = ''#ef4444''"
definition COLOR_awake :: string where "COLOR_awake = ''#22c55e''"

record timeline_segment =
  seg_row :: nat
  seg_startHour :: jsnum
  seg_endHour :: jsnum
  seg_color :: string
  seg_variant :: string

definition sleep_segment :: "nat \<Rightarrow> jsnum \<Rightarrow> jsnum \<Rightarrow> timeline_segment" where
  "sleep_segment row st en =
     \<lparr>seg_row = row, seg_startHour = st, seg_endHour = en,
      seg_color = COLOR_sleep, seg_variant = ''sleep''\<rparr>"

definition window_day_segments :: "sleep_window \<Rightarrow> int \<Rightarrow> timeline_segment list" where
  "window_day_segments w dow =
     (case index_of dow DOW_MAP of
        None \<Rightarrow> []
      | Some row \<Rightarrow>
          if allDay w then [sleep_segment row (Num 0) (Num 24)]
          else (let startH = timeToHours (startTime w);
                    endH = timeToHours (endTime w)
                in if isOvernight w
                   then [sleep_segment row startH (Num 24),
                         sleep_segment ((row + 1) mod 7) (Num 0) endH]
                   else [sleep_segment row startH endH]))"

definition computeWindowSegments :: "sleep_window list \<Rightarrow> timeline_segment list" where
  "computeWindowSegments windows =
     concat (map (\<lambda>w. concat (map (window_day_segments w) (daysOfWeek w))) windows)"

definition timeRangeToSegments ::
    "js_env \<Rightarrow> string \<Rightarrow> string \<Rightarrow> string \<Rightarrow> string \<Rightarrow> string option
       \<Rightarrow> js_error + timeline_segment list" where
  "timeRangeToSegments env startISO endISO color variant tz =
     map_sum id (map (\<lambda>tb. \<lparr>seg_row = tb_row tb, seg_startHour = Num (tb_startHour tb),
                           seg_endHour = Num (tb_endHour tb), seg_color = color,
                           seg_variant = variant\<rparr>))
       (computeTimeRangeBlocks env startISO endISO tz)"

definition exception_segments ::
    "js_env \<Rightarrow> string option \<Rightarrow> scheduled_exception \<Rightarrow> timeline_segment list
       \<Rightarrow> js_error + timeline_segment list" where
  "exception_segments env tz ex segs =
     (if ex_status ex = Cancelled \<or> ex_status ex = Completed then Inr segs
      else let color = (if ex_type ex = ForceSleep then COLOR_exception else COLOR_awake);
               variant = (if ex_type ex = ForceSleep then ''exception'' else ''awake'')
           in map_sum id (\<lambda>new. segs @ new)
                (timeRangeToSegments env (ex_startsAt ex) (ex_endsAt ex) color variant tz))"

definition computeExceptionSegments ::
    "js_env \<Rightarrow> scheduled_exception list option \<Rightarrow> string option
       \<Rightarrow> js_error + timeline_segment list" where
  "computeExceptionSegments env exceptions tz =
     (case exceptions of
        None \<Rightarrow> Inr []
      | Some exs \<Rightarrow> fold_res (exception_segments env tz) exs [])"

section \<open>The bars show the schedule\<close>

text \<open>Minute \<open>t\<close> of the week (from Sunday 00:00) lies on a bar.\<close>

definition on_segment :: "timeline_segment \<Rightarrow> int \<Rightarrow> bool" where
  "on_segment s t =
     (DOW_MAP ! seg_row s = t div 1440
      \<and> seg_startHour s * Num 60 \<le> num_int (t mod 1440)
      \<and> num_int (t mod 1440) < seg_endHour s * Num 60)"

lemma timeToHours_valid: "valid_time s \<Longrightarrow> timeToHours s = Num (of_int (clock_minutes s) / 60)"
  by (simp add: timeToHours_def split_time_valid clock_minutes_def add_divide_distrib)

lemma isOvernight_valid:
  assumes "wf_window w" "\<not> allDay w"
  shows "isOvernight w \<longleftrightarrow> \<not> win_start w < win_end w"
proof -
  have "isOvernight w \<longleftrightarrow>
      (of_int (clock_minutes (endTime w)) :: rat) \<le> of_int (clock_minutes (startTime w))"
    using assms by (simp add: isOvernight_def wf_window_def split_time_valid clock_minutes_def)
  then show ?thesis
    using assms(2) by (simp only: of_int_le_iff win_start_def win_end_def if_False not_less)
qed

lemma rows_of_days:
  "0 \<le> d \<Longrightarrow> d \<le> 6 \<Longrightarrow> \<exists>r < 7. index_of d DOW_MAP = Some r \<and> DOW_MAP ! r = d
     \<and> DOW_MAP ! ((r + 1) mod 7) = (d + 1) mod 7"
proof -
  assume "0 \<le> d" "d \<le> 6"
  then have "d \<in> {0, 1, 2, 3, 4, 5, 6}" by auto
  then show ?thesis by (auto simp: DOW_MAP_def)
qed

lemma on_sleep_segment:
  assumes "DOW_MAP ! r = d"
  shows "on_segment (sleep_segment r (Num (of_int a / 60)) (Num (of_int b / 60))) t
     \<longleftrightarrow> t div 1440 = d \<and> a \<le> t mod 1440 \<and> t mod 1440 < b"
    and "on_segment (sleep_segment r (Num (of_int a / 60)) (Num 24)) t
     \<longleftrightarrow> t div 1440 = d \<and> a \<le> t mod 1440 \<and> t mod 1440 < 1440"
    and "on_segment (sleep_segment r (Num 0) (Num (of_int b / 60))) t
     \<longleftrightarrow> t div 1440 = d \<and> 0 \<le> t mod 1440 \<and> t mod 1440 < b"
    and "on_segment (sleep_segment r (Num 0) (Num 24)) t
     \<longleftrightarrow> t div 1440 = d \<and> 0 \<le> t mod 1440 \<and> t mod 1440 < 1440"
  using assms by (auto simp: on_segment_def sleep_segment_def)

lemma day_interval:
  assumes "0 \<le> a" "b \<le> 1440"
  shows "t div 1440 = d \<and> a \<le> t mod 1440 \<and> t mod 1440 < b \<longleftrightarrow> t \<in> {d * 1440 + a..<d * 1440 + (b::int)}"
proof -
  obtain q r where qr: "t div 1440 = q" "t mod 1440 = r" by blast
  have t: "t = q * 1440 + r" "0 \<le> r" "r < 1440"
    using div_mult_mod_eq [of t 1440] by (auto simp: qr [symmetric])
  consider "q = d" | "q < d" | "d < q" by linarith
  then show ?thesis using t assms by cases (auto simp: qr)
qed

lemma window_day_segments_cover:
  assumes w: "wf_window w" and d: "d \<in> set (daysOfWeek w)"
  shows "(\<exists>s \<in> set (window_day_segments w d). on_segment s t)
     \<longleftrightarrow> t \<in> day_cover (win_start w) (win_end w) d"
proof -
  have dr: "0 \<le> d" "d \<le> 6" using assms by (auto simp: wf_window_def list_all_iff)
  obtain r where r: "r < 7" "index_of d DOW_MAP = Some r" "DOW_MAP ! r = d"
    "DOW_MAP ! ((r + 1) mod 7) = (d + 1) mod 7"
    using rows_of_days [OF dr] by blast
  note b = win_bounds [OF w]
  note bars = on_sleep_segment [OF r(3), where t = t] on_sleep_segment [OF r(4), where t = t]
  have times: "timeToHours (startTime w) = Num (of_int (win_start w) / 60)"
    "timeToHours (endTime w) = Num (of_int (win_end w) / 60)" if "\<not> allDay w"
    using w that by (simp_all add: wf_window_def win_start_def win_end_def timeToHours_valid)
  consider "allDay w" | "\<not> allDay w" "win_start w < win_end w"
    | "\<not> allDay w" "\<not> win_start w < win_end w" by blast
  then show ?thesis
  proof cases
    case 1
    then show ?thesis
      using bars(4) day_interval [of 0 1440 t d]
      by (simp add: window_day_segments_def r(2) win_start_def win_end_def day_cover_def)
  next
    case 2
    then show ?thesis
      using b bars(1) day_interval [of "win_start w" "win_end w" t d]
      by (simp add: window_day_segments_def r(2) times isOvernight_valid [OF w] day_cover_def)
  next
    case 3
    then show ?thesis
      using b bars(2,7) day_interval [of "win_start w" 1440 t d]
        day_interval [of 0 "win_end w" t "(d + 1) mod 7"]
      by (simp add: window_day_segments_def r(2) times isOvernight_valid [OF w] day_cover_def)
  qed
qed

lemma computeWindowSegments_cover:
  assumes "\<forall>w \<in> set ws. wf_window w" "0 \<le> t" "t < 10080"
  shows "(\<exists>s \<in> set (computeWindowSegments ws). on_segment s t) \<longleftrightarrow> asleep ws t"
proof -
  have "(\<exists>s \<in> set (computeWindowSegments ws). on_segment s t) \<longleftrightarrow> (\<exists>w \<in> set ws. t \<in> win_cover w)"
    using assms(1) window_day_segments_cover
    by (fastforce simp: computeWindowSegments_def win_cover_def)
  also have "\<dots> \<longleftrightarrow> t \<in> sleep_set ws"
    using assms(1) by (simp add: sleep_set_cover)
  finally show ?thesis using assms by (simp add: sleep_set_def)
qed

text \<open>C2. The timeline draws exactly the schedule: a minute of the week lies on a bar if and only if some
  window is asleep at it.\<close>

theorem timeline_shows_schedule:
  assumes "\<forall>w \<in> set ws. wf_window w" "0 \<le> t" "t < 10080"
  shows "(\<exists>s \<in> set (computeWindowSegments ws). on_segment s t) \<longleftrightarrow> asleep ws t"
  using computeWindowSegments_cover [OF assms] .

theorem timeline_shows_schedule_witness:
  "(\<exists>s \<in> set (computeWindowSegments sample_week). on_segment s 100) \<longleftrightarrow> asleep sample_week 100"
  by (rule timeline_shows_schedule) (simp_all add: sample_week_wf)

text \<open>What a bar of an exception is allowed to look like.\<close>

definition exception_bar :: "scheduled_exception \<Rightarrow> timeline_segment \<Rightarrow> bool" where
  "exception_bar ex seg =
     (ex_status ex \<in> {Pending, Active}
      \<and> seg_color seg = (if ex_type ex = ForceSleep then COLOR_exception else COLOR_awake)
      \<and> seg_row seg < 7 \<and> Num 0 \<le> seg_startHour seg \<and> seg_startHour seg < seg_endHour seg
      \<and> seg_endHour seg \<le> Num 24)"

lemma exception_segments_bars:
  assumes "exception_segments env tz ex segs = Inr segs'"
  shows "\<exists>new. segs' = segs @ new \<and> (\<forall>seg \<in> set new. exception_bar ex seg)"
proof (cases "ex_status ex = Cancelled \<or> ex_status ex = Completed")
  case True
  then show ?thesis using assms by (auto simp: exception_segments_def)
next
  case False
  then have st: "ex_status ex \<in> {Pending, Active}" by (cases "ex_status ex") auto
  then show ?thesis
    using assms computeTimeRangeBlocks_wf [of env "ex_startsAt ex" "ex_endsAt ex" tz]
    by (cases "computeTimeRangeBlocks env (ex_startsAt ex) (ex_endsAt ex) tz")
       (auto simp: exception_segments_def timeRangeToSegments_def exception_bar_def wf_block_def Let_def)
qed

text \<open>Every bar of the exception view belongs to a pending or active exception of the list, has the color
  of its type and lies inside its day.\<close>

theorem exception_bars_belong:
  assumes "computeExceptionSegments env exs tz = Inr segs"
  shows "\<forall>seg \<in> set segs. \<exists>ex \<in> set (case exs of None \<Rightarrow> [] | Some l \<Rightarrow> l). exception_bar ex seg"
proof -
  have run: "fold_res (exception_segments env tz) l acc = Inr segs \<Longrightarrow>
      \<forall>seg \<in> set segs. seg \<in> set acc \<or> (\<exists>ex \<in> set l. exception_bar ex seg)" for l acc
  proof (induction l arbitrary: acc)
    case Nil
    then show ?case by simp
  next
    case (Cons ex l)
    then obtain acc' where acc': "exception_segments env tz ex acc = Inr acc'"
      "fold_res (exception_segments env tz) l acc' = Inr segs"
      by (auto split: sum.splits)
    then show ?case using Cons.IH [OF acc'(2)] exception_segments_bars [OF acc'(1)] by fastforce
  qed
  show ?thesis
    using assms run [of _ "[]"] by (fastforce simp: computeExceptionSegments_def split: option.splits)
qed

definition sample_exception :: scheduled_exception where
  "sample_exception =
     \<lparr>ex_id = 1, ex_policyId = None, ex_type = ForceSleep, ex_startsAt = ''2024-02-28T22:00:00Z'',
      ex_endsAt = ''2024-03-01T01:15:00Z'', ex_ticketRef = [], ex_reason = [], ex_sleepOnEnd = False,
      ex_namespaceFilter = [], ex_labelSelector = [], ex_status = Active, ex_startExecutionId = None,
      ex_endExecutionId = None, ex_cancelledAt = None, ex_cancelReason = [], ex_createdBy = [],
      ex_createdAt = [], ex_updatedAt = [], ex_workloadTargets = []\<rparr>"

lemma sample_exception_segments:
  "computeExceptionSegments sample_env (Some [sample_exception]) (Some ''UTC'') =
     Inr [\<lparr>seg_row = 2, seg_startHour = Num 22, seg_endHour = Num 24, seg_color = COLOR_exception, seg_variant = ''exception''\<rparr>,
          \<lparr>seg_row = 3, seg_startHour = Num 0, seg_endHour = Num 24, seg_color = COLOR_exception, seg_variant = ''exception''\<rparr>,
          \<lparr>seg_row = 4, seg_startHour = Num 0, seg_endHour = Num (5 / 4), seg_color = COLOR_exception, seg_variant = ''exception''\<rparr>]"
  by code_simp

theorem exception_bars_witness:
  "\<exists>segs. computeExceptionSegments sample_env (Some [sample_exception]) (Some ''UTC'') = Inr segs
     \<and> length segs = 3 \<and> (\<forall>seg \<in> set segs. \<exists>ex \<in> {sample_exception}. exception_bar ex seg)"
  using exception_bars_belong [OF sample_exception_segments] sample_exception_segments by simp

end
