(* ===== verification/TimelineViews.thy ===== *)
theory TimelineViews
  imports Timeline
begin

text \<open>
  The three pictures of a schedule in \<open>components/policies\<close>: the waveform of today
  (\<open>MiniTimeline.tsx\<close>), the weekly grid (\<open>WeeklyTimeline.tsx\<close>) and its variant with glowing strips
  (\<open>LedGlowTimeline.tsx\<close>), with the legend of the latter two (\<open>TimelineLegend.tsx\<close>). Each is modelled as
  the geometry it draws: points of a path, rectangles, the line of the current time. Widths and heights are in the
  units of the view box.
\<close>

section \<open>Colors\<close>

definition COLOR_sleepGlow :: string where "COLOR_sleepGlow = ''rgba(124,58,237,0.55)''"

section \<open>The waveform of today\<close>

definition TOP_PAD :: rat where "TOP_PAD = 6"
definition BOT_PAD :: rat where "BOT_PAD = 4"
definition STEP :: rat where "STEP = 1 / 4"
definition VB_W :: rat where "VB_W = 400"

definition window_ranges :: "int \<Rightarrow> sleep_window \<Rightarrow> interval list" where
  "window_ranges todayDow win =
     (let yesterdayDow = js_rem (todayDow + 6) 7
      in (if todayDow \<in> set (daysOfWeek win)
          then if allDay win then [(Num 0, Num 24)]
               else if isOvernight win then [(timeToHours (startTime win), Num 24)]
               else [(timeToHours (startTime win), timeToHours (endTime win))]
          else []) @
         (if yesterdayDow \<in> set (daysOfWeek win) \<and> isOvernight win then [(Num 0, timeToHours (endTime win))] else []))"

definition sleepRanges :: "sleep_window list \<Rightarrow> int \<Rightarrow> interval list" where
  "sleepRanges windows todayDow = concat (map (window_ranges todayDow) windows)"

definition isSleeping :: "interval list \<Rightarrow> rat \<Rightarrow> bool" where
  "isSleeping ranges hr =
     list_ex (\<lambda>r. fst r \<le> Num hr \<and> (Num hr < snd r \<or> (hr = 24 \<and> js_eq (snd r) (Num 24)))) ranges"

type_synonym point = "rat \<times> rat"

definition wave_y :: "rat \<Rightarrow> interval list \<Rightarrow> rat \<Rightarrow> rat" where
  "wave_y height ranges hr = (if isSleeping ranges hr then height - BOT_PAD else TOP_PAD)"

text \<open>The loop runs over the 97 quarters from 0 to 24 hours.\<close>

definition wave_points :: "rat \<Rightarrow> interval list \<Rightarrow> point list" where
  "wave_points height ranges =
     map (\<lambda>k. let hr = of_nat k * STEP in (hr / 24 * VB_W, wave_y height ranges hr)) [0..<97]"

fun smoothed :: "point list \<Rightarrow> point list" where
  "smoothed [] = []"
| "smoothed [p] = [p]"
| "smoothed (p # q # ps) =
     (if snd p \<noteq> snd q
      then p # ((fst p + fst q) / 2, snd p) # ((fst p + fst q) / 2, snd q) # smoothed (q # ps)
      else p # smoothed (q # ps))"

definition point_text :: "point \<Rightarrow> string" where
  "point_text p = to_fixed1 (Num (fst p)) @ '','' @ to_fixed1 (Num (snd p))"

definition lineD :: "point list \<Rightarrow> string" where
  "lineD ps = join_with '' '' (map (\<lambda>(i, p). (if i = 0 then ''M'' else ''L'') @ point_text p) (List.enumerate 0 ps))"

definition areaAboveD :: "point list \<Rightarrow> string" where
  "areaAboveD ps = lineD ps @ '' L'' @ show_rat VB_W @ '',0 L0,0 Z''"

definition areaBelowD :: "rat \<Rightarrow> point list \<Rightarrow> string" where
  "areaBelowD height ps = lineD ps @ '' L'' @ show_rat VB_W @ '','' @ show_rat height @ '' L0,'' @ show_rat height @ '' Z''"

record mini_timeline =
  mt_points :: "point list"
  mt_nowPct :: rat
  mt_nowY :: rat

definition MiniTimeline :: "js_env \<Rightarrow> sleep_window list \<Rightarrow> rat \<Rightarrow> string option \<Rightarrow> js_error + mini_timeline option" where
  "MiniTimeline env windows height timezone =
     (case nowInTimezone env timezone of
        Inl e \<Rightarrow> Inl e
      | Inr now \<Rightarrow>
          Inr (if windows = [] then None
               else let ranges = sleepRanges windows (zt_dayOfWeek now); h = zt_fractionalHour now
                    in Some \<lparr>mt_points = smoothed (wave_points height ranges), mt_nowPct = h / 24 * 100,
                         mt_nowY = wave_y height ranges h\<rparr>))"

section \<open>The weekly grid\<close>

record bar_rect =
  br_x :: jsnum
  br_y :: rat
  br_width :: jsnum
  br_height :: rat
  br_fill :: string

definition weekly_hourToX :: "jsnum \<Rightarrow> jsnum" where
  "weekly_hourToX h = Num 36 + div_by h 24 * Num 480"

definition rowY :: "nat \<Rightarrow> rat" where
  "rowY row = 18 + of_nat row * 24"

definition VARIANT_OPACITY :: "string \<Rightarrow> rat" where
  "VARIANT_OPACITY v = (if v = ''sleep'' then 45 / 100 else if v = ''exception'' then 35 / 100
     else if v = ''awake'' then 3 / 10 else 35 / 100)"

definition weekly_bar :: "timeline_segment \<Rightarrow> bar_rect" where
  "weekly_bar seg = \<lparr>br_x = weekly_hourToX (seg_startHour seg), br_y = rowY (seg_row seg) + 1,
     br_width = js_max (weekly_hourToX (seg_endHour seg) - weekly_hourToX (seg_startHour seg)) (Num 1),
     br_height = 24 - 4, br_fill = seg_color seg\<rparr>"

text \<open>The segments of the windows and then those of the exceptions, with the row of today (none when the day
  has no row) and the position of the marker.\<close>

record 'b week_view =
  wv_bars :: "'b list"
  wv_todayRow :: "nat option"
  wv_nowX :: jsnum

definition week_segments ::
    "js_env \<Rightarrow> sleep_window list \<Rightarrow> scheduled_exception list option \<Rightarrow> string option \<Rightarrow> js_error + timeline_segment list" where
  "week_segments env windows exceptions timezone =
     (case computeExceptionSegments env (Some (case exceptions of Some es \<Rightarrow> es | None \<Rightarrow> [])) timezone of
        Inl e \<Rightarrow> Inl e
      | Inr segs \<Rightarrow> Inr (computeWindowSegments windows @ segs))"

definition WeeklyTimeline ::
    "js_env \<Rightarrow> sleep_window list \<Rightarrow> scheduled_exception list option \<Rightarrow> string option \<Rightarrow> js_error + bar_rect week_view option" where
  "WeeklyTimeline env windows exceptions timezone =
     (if windows = [] then Inr None
      else case nowInTimezone env timezone of
        Inl e \<Rightarrow> Inl e
      | Inr now \<Rightarrow>
          (case week_segments env windows exceptions timezone of
             Inl e \<Rightarrow> Inl e
           | Inr segs \<Rightarrow> Inr (Some \<lparr>wv_bars = map weekly_bar segs, wv_todayRow = index_of (zt_dayOfWeek now) DOW_MAP,
               wv_nowX = weekly_hourToX (Num (zt_fractionalHour now))\<rparr>)))"

section \<open>The glowing strips\<close>

definition led_hourToX :: "jsnum \<Rightarrow> jsnum" where
  "led_hourToX h = Num 28 + div_by h 24 * Num 600"

definition stripY :: "nat \<Rightarrow> rat" where
  "stripY row = 14 + of_nat row * (6 + 4)"

definition ledColor :: "timeline_segment \<Rightarrow> string" where
  "ledColor seg =
     (if seg_variant seg = ''sleep'' then COLOR_sleepGlow
      else if seg_variant seg = ''exception'' then ''rgba(239,68,68,0.55)''
      else ''rgba(34,197,94,0.55)'')"

definition VARIANT_TO_GLOW :: "string \<Rightarrow> string" where
  "VARIANT_TO_GLOW v = (if v = ''sleep'' then ''led-glow-purple'' else if v = ''exception'' then ''led-glow-red''
     else if v = ''awake'' then ''led-glow-green'' else ''led-glow-green'')"

definition led_bar :: "timeline_segment \<Rightarrow> bar_rect" where
  "led_bar seg = \<lparr>br_x = led_hourToX (seg_startHour seg), br_y = stripY (seg_row seg),
     br_width = js_max (led_hourToX (seg_endHour seg) - led_hourToX (seg_startHour seg)) (Num 2),
     br_height = 6, br_fill = ledColor seg\<rparr>"

definition LedGlowTimeline ::
    "js_env \<Rightarrow> sleep_window list \<Rightarrow> scheduled_exception list option \<Rightarrow> string option \<Rightarrow> js_error + bar_rect week_view option" where
  "LedGlowTimeline env windows exceptions timezone =
     (if windows = [] then Inr None
      else case nowInTimezone env timezone of
        Inl e \<Rightarrow> Inl e
      | Inr now \<Rightarrow>
          (case week_segments env windows exceptions timezone of
             Inl e \<Rightarrow> Inl e
           | Inr segs \<Rightarrow> Inr (Some \<lparr>wv_bars = map led_bar segs, wv_todayRow = index_of (zt_dayOfWeek now) DOW_MAP,
               wv_nowX = led_hourToX (Num (zt_fractionalHour now))\<rparr>)))"

section \<open>The legend\<close>

definition live_exception :: "exception_type \<Rightarrow> scheduled_exception \<Rightarrow> bool" where
  "live_exception ty e = (ex_type e = ty \<and> (ex_status e = Pending \<or> ex_status e = Active))"

definition TimelineLegend :: "scheduled_exception list option \<Rightarrow> (string \<times> string) list" where
  "TimelineLegend exceptions =
     [(COLOR_sleep, ''Sleep''), (COLOR_awake, ''Awake'')] @
     (case exceptions of
        None \<Rightarrow> []
      | Some es \<Rightarrow>
          (if list_ex (live_exception StayAwake) es then [(COLOR_awake, ''Exception (awake)'')] else []) @
          (if list_ex (live_exception ForceSleep) es then [(COLOR_exception, ''Exception (sleep)'')] else []))"

section \<open>The waveform shows the schedule\<close>

lemma hour_minute:
  "Num (of_int a / 60) \<le> Num hr \<longleftrightarrow> a \<le> \<lfloor>hr * 60\<rfloor>"
  "Num hr < Num (of_int b / 60) \<longleftrightarrow> \<lfloor>hr * 60\<rfloor> < b"
  by (simp_all add: le_floor_iff floor_less_iff divide_le_eq less_divide_eq)

definition in_range :: "rat \<Rightarrow> interval \<Rightarrow> bool" where
  "in_range hr r = (fst r \<le> Num hr \<and> Num hr < snd r)"

lemma isSleeping_in_range: "hr < 24 \<Longrightarrow> isSleeping ranges hr \<longleftrightarrow> (\<exists>r \<in> set ranges. in_range hr r)"
  by (auto simp: isSleeping_def in_range_def list_ex_iff)

lemma in_day_cover_minute:
  assumes "0 \<le> d" "d \<le> 6" "0 \<le> d'" "d' \<le> 6" "0 \<le> s" "s < 1440" "0 \<le> e" "e \<le> 1440" "0 \<le> m" "m < 1440"
  shows "d * 1440 + m \<in> day_cover s e d' \<longleftrightarrow>
    (if s < e then d' = d \<and> s \<le> m \<and> m < e else (d' = d \<and> s \<le> m) \<or> (d' = (d + 6) mod 7 \<and> m < e))"
proof -
  have nxt: "(d' + 1) mod 7 = (if d' = 6 then 0 else d' + 1)"
    using assms by auto
  have prv: "(d + 6) mod 7 = (if d = 0 then 6 else d - 1)"
  proof (cases "d = 0")
    case False
    have "d + 6 = (d - 1) + 7 * 1" by simp
    then have "(d + 6) mod 7 = (d - 1) mod 7" by (simp only: mod_mult_self2)
    then show ?thesis using False assms(1,2) by simp
  qed simp
  have here: "d * 1440 + m \<in> {k * 1440 + a..<k * 1440 + b} \<longleftrightarrow> k = d \<and> a \<le> m \<and> m < b"
    if "0 \<le> a" "b \<le> 1440" for k a b
  proof -
    consider "k = d" | "k < d" | "d < k" by linarith
    then show ?thesis using that assms(9,10) by cases auto
  qed
  have turn: "(d' + 1) mod 7 = d \<longleftrightarrow> d' = (d + 6) mod 7" unfolding nxt prv using assms(1-4) by auto
  show ?thesis
  proof (cases "s < e")
    case True
    then show ?thesis using here [of s e d'] assms(5,8) by (simp add: day_cover_def)
  next
    case False
    then have "d * 1440 + m \<in> day_cover s e d' \<longleftrightarrow>
        d * 1440 + m \<in> {d' * 1440 + s..<d' * 1440 + 1440} \<or> d * 1440 + m \<in> {(d' + 1) mod 7 * 1440 + 0..<(d' + 1) mod 7 * 1440 + e}"
      by (simp add: day_cover_def)
    also have "\<dots> \<longleftrightarrow> (d' = d \<and> s \<le> m) \<or> (d' = (d + 6) mod 7 \<and> m < e)"
      using here [of s 1440 d'] here [of 0 e "(d' + 1) mod 7"] assms(5,8,9,10) turn by blast
    finally show ?thesis using False by simp
  qed
qed

lemma window_ranges_cover:
  assumes w: "wf_window w" and d: "0 \<le> d" "d \<le> 6" and hr: "0 \<le> hr" "hr < 24"
  shows "(\<exists>r \<in> set (window_ranges d w). in_range hr r) \<longleftrightarrow> d * 1440 + \<lfloor>hr * 60\<rfloor> \<in> win_cover w"
proof -
  let ?m = "\<lfloor>hr * 60\<rfloor>" and ?s = "win_start w" and ?e = "win_end w" and ?y = "(d + 6) mod 7"
  have m: "0 \<le> ?m" "?m < 1440" using hr by (simp_all add: floor_less_iff)
  have y: "js_rem (d + 6) 7 = ?y" using d by (simp add: js_rem_def)
  note b = win_bounds [OF w]
  have days: "\<And>d'. d' \<in> set (daysOfWeek w) \<Longrightarrow> 0 \<le> d' \<and> d' \<le> 6" using w by (auto simp: wf_window_def list_all_iff)
  have cover: "d * 1440 + ?m \<in> win_cover w \<longleftrightarrow>
      (if ?s < ?e then d \<in> set (daysOfWeek w) \<and> ?s \<le> ?m \<and> ?m < ?e
       else (d \<in> set (daysOfWeek w) \<and> ?s \<le> ?m) \<or> (?y \<in> set (daysOfWeek w) \<and> ?m < ?e))"
  proof -
    have "d * 1440 + ?m \<in> win_cover w \<longleftrightarrow> (\<exists>d' \<in> set (daysOfWeek w). d * 1440 + ?m \<in> day_cover ?s ?e d')"
      by (simp add: win_cover_def)
    also have "\<dots> \<longleftrightarrow> (\<exists>d' \<in> set (daysOfWeek w).
        if ?s < ?e then d' = d \<and> ?s \<le> ?m \<and> ?m < ?e else (d' = d \<and> ?s \<le> ?m) \<or> (d' = ?y \<and> ?m < ?e))"
      by (rule bex_cong [OF refl], rule in_day_cover_minute) (use d m b days in auto)
    finally show ?thesis by auto
  qed
  have edge: "in_range hr (Num (of_int a / 60), Num (of_int c / 60)) \<longleftrightarrow> a \<le> ?m \<and> ?m < c" for a c
    using hour_minute by (simp add: in_range_def)
  have full: "in_range hr (Num 0, Num 24)" "in_range hr (Num (of_int a / 60), Num 24) \<longleftrightarrow> a \<le> ?m"
    "in_range hr (Num 0, Num (of_int c / 60)) \<longleftrightarrow> ?m < c" for a c
    using edge [of 0 1440] edge [of a 1440] edge [of 0 c] m by simp_all
  show ?thesis
  proof (cases "allDay w")
    case True
    then have "window_ranges d w = (if d \<in> set (daysOfWeek w) then [(Num 0, Num 24)] else [])"
      by (simp add: window_ranges_def isOvernight_def Let_def)
    then show ?thesis
      using True m by (simp add: cover full win_start_def win_end_def)
  next
    case False
    then have "timeToHours (startTime w) = Num (of_int ?s / 60)" "timeToHours (endTime w) = Num (of_int ?e / 60)"
      using w by (simp_all add: wf_window_def win_start_def win_end_def timeToHours_valid)
    then show ?thesis
      using False isOvernight_valid [OF w False]
      by (cases "?s < ?e"; cases "d \<in> set (daysOfWeek w)"; cases "?y \<in> set (daysOfWeek w)")
         (simp_all add: window_ranges_def cover y full edge Let_def)
  qed
qed

lemma isSleeping_asleep:
  assumes "\<forall>w \<in> set ws. wf_window w" "0 \<le> d" "d \<le> 6" "0 \<le> hr" "hr < 24"
  shows "isSleeping (sleepRanges ws d) hr \<longleftrightarrow> asleep ws (d * 1440 + \<lfloor>hr * 60\<rfloor>)"
proof -
  have m: "0 \<le> \<lfloor>hr * 60\<rfloor>" "\<lfloor>hr * 60\<rfloor> < 1440" using assms(4,5) by (simp_all add: floor_less_iff)
  have "isSleeping (sleepRanges ws d) hr \<longleftrightarrow> (\<exists>w \<in> set ws. d * 1440 + \<lfloor>hr * 60\<rfloor> \<in> win_cover w)"
    using assms window_ranges_cover by (simp add: isSleeping_in_range sleepRanges_def)
  also have "\<dots> \<longleftrightarrow> d * 1440 + \<lfloor>hr * 60\<rfloor> \<in> sleep_set ws"
    using assms(1) by (simp add: sleep_set_cover)
  finally show ?thesis using assms m by (simp add: sleep_set_def)
qed

text \<open>At the right edge a window counts that lasts to midnight.\<close>

lemma ends_at_midnight:
  assumes "wf_window w" "r \<in> set (window_ranges d w)" "0 \<le> d" "d \<le> 6"
  shows "fst r \<le> Num 24 \<and> (Num 24 < snd r \<or> js_eq (snd r) (Num 24)) \<longleftrightarrow> in_range (1439 / 60) r"
proof -
  note b = win_bounds [OF assms(1)]
  have "\<exists>a c. r = (Num (of_int a / 60), Num (of_int c / 60)) \<and> a < 1440 \<and> c \<le> 1440"
  proof (cases "allDay w")
    case True
    then have "r = (Num (of_int 0 / 60), Num (of_int 1440 / 60))"
      using assms(2) by (auto simp: window_ranges_def isOvernight_def Let_def split: if_splits)
    then show ?thesis by (intro exI [of _ 0] exI [of _ 1440]) simp
  next
    case False
    then have "timeToHours (startTime w) = Num (of_int (win_start w) / 60)" "timeToHours (endTime w) = Num (of_int (win_end w) / 60)"
      using assms(1) by (simp_all add: wf_window_def win_start_def win_end_def timeToHours_valid)
    then have "r \<in> {(Num (of_int (win_start w) / 60), Num (of_int 1440 / 60)), (Num (of_int 0 / 60), Num (of_int (win_end w) / 60)),
        (Num (of_int (win_start w) / 60), Num (of_int (win_end w) / 60))}"
      using assms(2) False by (auto simp: window_ranges_def Let_def split: if_splits)
    then show ?thesis using b by fastforce
  qed
  then obtain a c where r: "r = (Num (of_int a / 60), Num (of_int c / 60))" "a < 1440" "c \<le> 1440" by blast
  have "rat_of_int a / 60 \<le> 24" "\<not> 24 < rat_of_int c / 60" "rat_of_int c / 60 = 24 \<longleftrightarrow> c = 1440"
    "rat_of_int a / 60 \<le> 1439 / 60" "1439 / 60 < rat_of_int c / 60 \<longleftrightarrow> c = 1440"
    using r(2,3) by (simp_all add: divide_le_eq less_divide_eq divide_eq_eq) linarith
  then show ?thesis by (simp add: r in_range_def)
qed

lemma wave_y_asleep:
  assumes "\<forall>w \<in> set ws. wf_window w" "0 \<le> d" "d \<le> 6" "0 \<le> hr" "hr < 24"
  shows "wave_y height (sleepRanges ws d) hr = (if asleep ws (d * 1440 + \<lfloor>hr * 60\<rfloor>) then height - 4 else 6)"
  using isSleeping_asleep [OF assms] by (simp add: wave_y_def TOP_PAD_def BOT_PAD_def)

lemma wave_y_midnight:
  assumes "\<forall>w \<in> set ws. wf_window w" "0 \<le> d" "d \<le> 6"
  shows "wave_y height (sleepRanges ws d) 24 = wave_y height (sleepRanges ws d) (1439 / 60)"
proof -
  have edge: "fst r \<le> Num 24 \<and> (Num 24 < snd r \<or> js_eq (snd r) (Num 24)) \<longleftrightarrow> in_range (1439 / 60) r"
    if r: "r \<in> set (sleepRanges ws d)" for r
  proof -
    obtain w where "w \<in> set ws" "r \<in> set (window_ranges d w)" using r by (auto simp: sleepRanges_def)
    with assms show ?thesis by (intro ends_at_midnight) auto
  qed
  have "isSleeping (sleepRanges ws d) 24 \<longleftrightarrow> (\<exists>r \<in> set (sleepRanges ws d). fst r \<le> Num 24 \<and> (Num 24 < snd r \<or> js_eq (snd r) (Num 24)))"
    by (simp add: isSleeping_def list_ex_iff)
  also have "\<dots> \<longleftrightarrow> (\<exists>r \<in> set (sleepRanges ws d). in_range (1439 / 60) r)"
    by (rule bex_cong [OF refl edge])
  also have "\<dots> \<longleftrightarrow> isSleeping (sleepRanges ws d) (1439 / 60)"
    by (simp add: isSleeping_in_range)
  finally show ?thesis by (simp add: wave_y_def)
qed

definition sharp :: "point \<Rightarrow> point \<Rightarrow> bool" where
  "sharp p q = (fst p \<le> fst q \<and> (fst p = fst q \<or> snd p = snd q))"

lemma smoothed_sharp: "successively (\<lambda>p q. fst p \<le> fst q) ps \<Longrightarrow> successively sharp (smoothed ps) \<and>
    (ps \<noteq> [] \<longrightarrow> smoothed ps \<noteq> [] \<and> hd (smoothed ps) = hd ps)"
  by (induction ps rule: smoothed.induct) (auto simp: sharp_def successively_Cons)

lemma set_smoothed: "set ps \<subseteq> set (smoothed ps)"
  by (induction ps rule: smoothed.induct) auto

lemma wave_points_right: "successively (\<lambda>p q. fst p \<le> fst q) (wave_points height ranges)"
  by (simp add: wave_points_def successively_conv_nth Let_def STEP_def VB_W_def)

lemma now_bounds:
  assumes "nowInTimezone env tz = Inr now"
  shows "0 \<le> zt_dayOfWeek now" "zt_dayOfWeek now \<le> 6" "0 \<le> zt_fractionalHour now" "zt_fractionalHour now < 24"
proof -
  obtain d where d: "zt_dayOfWeek now = getUTCDay d" "zt_fractionalHour now = hour_of d"
    using assms by (auto simp: nowInTimezone_def split: sum.splits option.splits)
  show "0 \<le> zt_dayOfWeek now" "zt_dayOfWeek now \<le> 6" by (simp_all add: d getUTCDay_def)
  have "0 \<le> getUTCHours d" "getUTCHours d \<le> 23" "0 \<le> getUTCMinutes d" "getUTCMinutes d \<le> 59"
    by (simp_all add: getUTCHours_def getUTCMinutes_def)
  then have "0 \<le> rat_of_int (getUTCHours d)" "rat_of_int (getUTCHours d) \<le> 23"
    "0 \<le> rat_of_int (getUTCMinutes d)" "rat_of_int (getUTCMinutes d) \<le> 59"
    by (simp_all add: of_int_le_iff [of _ 23, simplified] of_int_le_iff [of _ 59, simplified])
  then show "0 \<le> zt_fractionalHour now" "zt_fractionalHour now < 24" by (simp_all add: d hour_of_def)
qed

lemma smoothed_middle:
  "Suc i < length ps \<Longrightarrow> snd (ps ! i) \<noteq> snd (ps ! Suc i) \<Longrightarrow>
     ((fst (ps ! i) + fst (ps ! Suc i)) / 2, snd (ps ! i)) \<in> set (smoothed ps)
     \<and> ((fst (ps ! i) + fst (ps ! Suc i)) / 2, snd (ps ! Suc i)) \<in> set (smoothed ps)"
proof (induction ps arbitrary: i rule: smoothed.induct)
  case (3 p q ps)
  then show ?case by (cases i) auto
qed simp_all

text \<open>The level of the schedule at quarter \<open>k\<close> of a day; the last point, at 24 o'clock, counts as the last minute.\<close>

definition quarter_level :: "rat \<Rightarrow> sleep_window list \<Rightarrow> int \<Rightarrow> nat \<Rightarrow> rat" where
  "quarter_level height ws day k = (if asleep ws (day * 1440 + min (15 * int k) 1439) then height - 4 else 6)"

lemma wave_quarter:
  assumes "\<forall>w \<in> set ws. wf_window w" "0 \<le> d" "d \<le> 6" "k \<le> 96"
  shows "wave_y height (sleepRanges ws d) (of_nat k * STEP) = quarter_level height ws d k"
proof (cases "k = 96")
  case True
  then show ?thesis
    using wave_y_midnight [OF assms(1-3)] wave_y_asleep [OF assms(1-3), of "1439 / 60"] by (simp add: STEP_def quarter_level_def)
next
  case False
  have fl: "\<lfloor>of_nat k * STEP * 60\<rfloor> = 15 * int k"
    by (rule floor_unique) (simp_all add: STEP_def)
  have "0 \<le> of_nat k * STEP" "of_nat k * STEP < 24" using False assms(4) by (simp_all add: STEP_def)
  then show ?thesis
    using wave_y_asleep [OF assms(1-3), of "of_nat k * STEP"] False assms(4) by (simp add: fl quarter_level_def)
qed

text \<open>C26. The waveform of today shows the schedule by quarters of an hour: at each quarter its point is low exactly if some
  window is asleep at that minute of the week; between two quarters of different levels the line switches half way,
  wherever the window really begins or ends; the marker of the current time stands on the level that the schedule has
  now; and the line runs to the right in horizontal and vertical pieces only.\<close>

theorem waveform_shows_schedule:
  assumes "\<forall>w \<in> set ws. wf_window w" "nowInTimezone env tz = Inr now" "MiniTimeline env ws height tz = Inr (Some mt)" "k \<le> 96"
  shows "let level = quarter_level height ws (zt_dayOfWeek now); x = (\<lambda>q. q / 96 * 400)
     in (x (of_nat k), level k) \<in> set (mt_points mt)
      \<and> (k < 96 \<and> level k \<noteq> level (Suc k) \<longrightarrow>
           (x (of_nat k + 1 / 2), level k) \<in> set (mt_points mt) \<and> (x (of_nat k + 1 / 2), level (Suc k)) \<in> set (mt_points mt))
      \<and> mt_nowY mt = (if asleep ws (zt_dayOfWeek now * 1440 + \<lfloor>zt_fractionalHour now * 60\<rfloor>) then height - 4 else 6)
      \<and> successively sharp (mt_points mt)"
proof -
  let ?d = "zt_dayOfWeek now"
  let ?ps = "wave_points height (sleepRanges ws ?d)"
  note nb = now_bounds [OF assms(2)]
  have mt: "mt_points mt = smoothed ?ps" "mt_nowY mt = wave_y height (sleepRanges ws ?d) (zt_fractionalHour now)"
    using assms(2,3) by (auto simp: MiniTimeline_def Let_def split: if_splits)
  have pt: "?ps ! j = (of_nat j / 96 * 400, quarter_level height ws ?d j)" if "j \<le> 96" for j
    using that wave_quarter [OF assms(1) nb(1,2) that] by (simp add: wave_points_def Let_def VB_W_def STEP_def)
  have len: "length ?ps = 97" by (simp add: wave_points_def)
  have "?ps ! k \<in> set ?ps" using len assms(4) by (intro nth_mem) simp
  then have at: "?ps ! k \<in> set (mt_points mt)" unfolding mt using set_smoothed by blast
  have mid: "(of_nat k / 96 * 400 + of_nat (Suc k) / 96 * 400) / 2 = (of_nat k + 1 / 2) / 96 * (400 :: rat)"
    by (simp add: field_simps)
  have switch: "((of_nat k + 1 / 2) / 96 * 400, quarter_level height ws ?d k) \<in> set (mt_points mt)
      \<and> ((of_nat k + 1 / 2) / 96 * 400, quarter_level height ws ?d (Suc k)) \<in> set (mt_points mt)"
    if "k < 96" "quarter_level height ws ?d k \<noteq> quarter_level height ws ?d (Suc k)"
  proof -
    have p: "?ps ! k = (of_nat k / 96 * 400, quarter_level height ws ?d k)"
      "?ps ! Suc k = (of_nat (Suc k) / 96 * 400, quarter_level height ws ?d (Suc k))" using pt that(1) by simp_all
    have "Suc k < length ?ps" "snd (?ps ! k) \<noteq> snd (?ps ! Suc k)" using that by (simp_all only: p len snd_conv) simp
    from smoothed_middle [OF this] show ?thesis by (simp only: p fst_conv snd_conv mid mt)
  qed
  show ?thesis
    using at switch smoothed_sharp [OF wave_points_right] wave_y_asleep [OF assms(1) nb] pt [OF assms(4)]
    unfolding Let_def mt by simp
qed

definition sample_mini :: mini_timeline where
  "sample_mini = the (projr (MiniTimeline sample_env sample_week 48 (Some ''Asia/Kolkata'')))"

lemma sample_now: "nowInTimezone sample_env (Some ''Asia/Kolkata'') = Inr \<lparr>zt_dayOfWeek = 4, zt_fractionalHour = 11 / 2\<rparr>"
  by code_simp

theorem waveform_shows_schedule_witness:
  "let level = quarter_level 48 sample_week 4
   in (of_nat 8 / 96 * 400, level 8) \<in> set (mt_points sample_mini)
    \<and> mt_nowY sample_mini = (if asleep sample_week (4 * 1440 + \<lfloor>11 / 2 * 60 :: rat\<rfloor>) then 48 - 4 else 6)
    \<and> successively sharp (mt_points sample_mini)"
proof -
  have "MiniTimeline sample_env sample_week 48 (Some ''Asia/Kolkata'') = Inr (Some sample_mini)"
    by (simp add: sample_mini_def MiniTimeline_def sample_now sample_week_def Let_def del: One_nat_def)
  from waveform_shows_schedule [OF sample_week_wf sample_now this, of 8] show ?thesis by (simp add: Let_def)
qed

section \<open>The grids cover the schedule\<close>

text \<open>What the two grids share: hours are laid out linearly, a bar starts where its segment starts, and no
  bar is drawn narrower than \<open>least\<close>.\<close>

locale week_grid =
  fixes bar :: "timeline_segment \<Rightarrow> bar_rect"
    and hourX :: "jsnum \<Rightarrow> jsnum"
    and rowTop :: "nat \<Rightarrow> rat"
    and x0 scale least :: rat
  assumes hourX: "hourX h = Num x0 + div_by h 24 * Num scale"
    and scale_pos: "0 < scale"
    and bar_x: "br_x (bar s) = hourX (seg_startHour s)"
    and bar_y: "br_y (bar s) = rowTop (seg_row s)"
    and bar_width: "br_width (bar s) = js_max (hourX (seg_endHour s) - hourX (seg_startHour s)) (Num least)"
begin

lemma bar_covers:
  assumes "on_segment s t"
  shows "br_y (bar s) = rowTop (seg_row s) \<and> br_x (bar s) \<le> hourX (Num (of_int (t mod 1440) / 60))
    \<and> hourX (Num (of_int (t mod 1440) / 60)) < br_x (bar s) + br_width (bar s)"
proof -
  obtain a c where ac: "seg_startHour s = Num a" "seg_endHour s = Num c" "a * 60 \<le> of_int (t mod 1440)" "of_int (t mod 1440) < c * 60"
    using assms by (cases "seg_startHour s"; cases "seg_endHour s") (auto simp: on_segment_def)
  let ?h = "of_int (t mod 1440) / 60 :: rat"
  have "a \<le> ?h" "?h < c" using ac(3,4) by simp_all
  then have "a / 24 * scale \<le> ?h / 24 * scale" "?h / 24 * scale < c / 24 * scale" using scale_pos by (simp_all add: divide_right_mono)
  then have "x0 + a / 24 * scale \<le> x0 + ?h / 24 * scale"
    "x0 + ?h / 24 * scale < x0 + a / 24 * scale + max (x0 + c / 24 * scale - (x0 + a / 24 * scale)) least"
    by linarith+
  then show ?thesis by (simp add: bar_x bar_y bar_width hourX ac)
qed

end

interpretation weekly_grid: week_grid weekly_bar weekly_hourToX "\<lambda>row. rowY row + 1" 36 480 1
  by unfold_locales (simp_all add: weekly_hourToX_def weekly_bar_def)

interpretation led_grid: week_grid led_bar led_hourToX stripY 28 600 2
  by unfold_locales (simp_all add: led_hourToX_def led_bar_def)

definition drawn_at :: "(jsnum \<Rightarrow> jsnum) \<Rightarrow> (nat \<Rightarrow> rat) \<Rightarrow> bar_rect list \<Rightarrow> int \<Rightarrow> bool" where
  "drawn_at hourX rowTop bars t =
     (let x = hourX (Num (of_int (t mod 1440) / 60))
      in \<exists>b \<in> set bars. \<exists>row < 7. DOW_MAP ! row = t div 1440 \<and> br_y b = rowTop row \<and> br_x b \<le> x \<and> x < br_x b + br_width b)"

lemma window_segments_row: "s \<in> set (computeWindowSegments ws) \<Longrightarrow> seg_row s < 7"
proof -
  assume "s \<in> set (computeWindowSegments ws)"
  then obtain w d where s: "s \<in> set (window_day_segments w d)" by (auto simp: computeWindowSegments_def)
  then obtain r where r: "index_of d DOW_MAP = Some r" by (cases "index_of d DOW_MAP") (auto simp: window_day_segments_def)
  from index_of_Some [OF r] have "r < 7" by (simp add: DOW_MAP_def)
  then show ?thesis using s by (auto simp: window_day_segments_def r sleep_segment_def Let_def split: if_splits)
qed

text \<open>Neither grid ever shows a sleeping minute as awake: the place of every minute at which some window is
  asleep is covered by a bar, in the row of its day, in the weekly grid and in the glowing one.\<close>

theorem grids_cover_schedule:
  assumes "\<forall>w \<in> set ws. wf_window w" "0 \<le> t" "t < 10080" "asleep ws t"
    and "WeeklyTimeline env ws exs tz = Inr (Some grid)" "LedGlowTimeline env ws exs tz = Inr (Some led)"
  shows "drawn_at weekly_hourToX (\<lambda>row. rowY row + 1) (wv_bars grid) t \<and> drawn_at led_hourToX stripY (wv_bars led) t"
proof -
  obtain s where s: "s \<in> set (computeWindowSegments ws)" "on_segment s t"
    using computeWindowSegments_cover [OF assms(1-3)] assms(4) by blast
  obtain segs where segs: "wv_bars grid = map weekly_bar (computeWindowSegments ws @ segs)"
    "wv_bars led = map led_bar (computeWindowSegments ws @ segs)"
    using assms(5,6) by (auto simp: WeeklyTimeline_def LedGlowTimeline_def week_segments_def split: sum.splits if_splits)
  have row: "seg_row s < 7" "DOW_MAP ! seg_row s = t div 1440"
    using s window_segments_row by (auto simp: on_segment_def)
  show ?thesis
    using s(1) row weekly_grid.bar_covers [OF s(2)] led_grid.bar_covers [OF s(2)] unfolding drawn_at_def Let_def segs by auto
qed

theorem grids_cover_schedule_witness:
  "\<exists>grid led. WeeklyTimeline sample_env sample_week None (Some ''UTC'') = Inr (Some grid)
     \<and> LedGlowTimeline sample_env sample_week None (Some ''UTC'') = Inr (Some led)
     \<and> drawn_at weekly_hourToX (\<lambda>row. rowY row + 1) (wv_bars grid) 100 \<and> drawn_at led_hourToX stripY (wv_bars led) 100"
proof -
  have "nowInTimezone sample_env (Some ''UTC'') = Inr \<lparr>zt_dayOfWeek = 4, zt_fractionalHour = 0\<rparr>" by code_simp
  then obtain grid led where g: "WeeklyTimeline sample_env sample_week None (Some ''UTC'') = Inr (Some grid)"
    "LedGlowTimeline sample_env sample_week None (Some ''UTC'') = Inr (Some led)"
    by (simp add: WeeklyTimeline_def LedGlowTimeline_def week_segments_def computeExceptionSegments_def sample_week_def)
  have "asleep sample_week 100" by code_simp
  from grids_cover_schedule [OF sample_week_wf _ _ this g] show ?thesis using g by simp
qed

text \<open>The converse fails: a window that ends at midnight leaves a bar of the least width at the start of the next
  day, at which it is awake.\<close>

theorem midnight_window_leaves_sliver:
  "\<not> asleep [\<lparr>win_name = None, daysOfWeek = [1], startTime = ''19:00'', endTime = ''00:00'', allDay = False\<rparr>] (2 * 1440)
   \<and> map weekly_bar (computeWindowSegments [\<lparr>win_name = None, daysOfWeek = [1], startTime = ''19:00'', endTime = ''00:00'', allDay = False\<rparr>])
     = [\<lparr>br_x = Num 416, br_y = 19, br_width = Num 100, br_height = 20, br_fill = COLOR_sleep\<rparr>,
        \<lparr>br_x = Num 36, br_y = 43, br_width = Num 1, br_height = 20, br_fill = COLOR_sleep\<rparr>]"
  by (intro conjI; code_simp)

section \<open>The legend is complete\<close>

text \<open>Every color drawn on a timeline is explained by its legend, and the legend has an entry for exceptions of a type
  exactly if some pending or active exception of the list has it.\<close>

theorem legend_explains_bars:
  assumes "week_segments env ws (Some es) tz = Inr segs"
  shows "(\<forall>seg \<in> set segs. seg_color seg \<in> fst ` set (TimelineLegend (Some es)))
    \<and> ((COLOR_awake, ''Exception (awake)'') \<in> set (TimelineLegend (Some es)) \<longleftrightarrow> (\<exists>e \<in> set es. live_exception StayAwake e))
    \<and> ((COLOR_exception, ''Exception (sleep)'') \<in> set (TimelineLegend (Some es)) \<longleftrightarrow> (\<exists>e \<in> set es. live_exception ForceSleep e))"
proof -
  obtain xs where xs: "computeExceptionSegments env (Some es) tz = Inr xs" "segs = computeWindowSegments ws @ xs"
    using assms by (auto simp: week_segments_def split: sum.splits)
  have win: "seg_color s = COLOR_sleep" if "s \<in> set (computeWindowSegments ws)" for s
    using that by (auto simp: computeWindowSegments_def window_day_segments_def sleep_segment_def Let_def split: option.splits if_splits)
  have exc: "seg_color s \<in> fst ` set (TimelineLegend (Some es))" if s: "s \<in> set xs" for s
  proof -
    obtain e where "e \<in> set es" "exception_bar e s" using exception_bars_belong [OF xs(1)] s by auto
    then have "live_exception (ex_type e) e" "seg_color s = (if ex_type e = ForceSleep then COLOR_exception else COLOR_awake)"
      by (auto simp: exception_bar_def live_exception_def)
    with \<open>e \<in> set es\<close> have "(seg_color s, if ex_type e = ForceSleep then ''Exception (sleep)'' else ''Awake'') \<in> set (TimelineLegend (Some es))"
      by (auto simp: TimelineLegend_def list_ex_iff)
    then show ?thesis by force
  qed
  show ?thesis using win exc by (auto simp: xs(2) TimelineLegend_def list_ex_iff COLOR_awake_def COLOR_exception_def COLOR_sleep_def)
qed

end
