(* ===== verification/PolicyCard.thy ===== *)
theory PolicyCard
  imports QueryKeys Formatters Windows ApiClient
begin

text \<open>
  \<open>components/common/TriggerModeDialog.tsx\<close> with the three places that use it, and
  \<open>components/policies/PolicyCard.tsx\<close> with \<open>WeeklySavingsRing.tsx\<close>: the question whether to run a
  trigger as a plan or for real, the request it leads to, the card's contextual trigger, its menu and its deletion.

  A dialog that closes stays on the screen, and answers clicks, until its fading has ended; its handlers are those of
  the latest render.
\<close>

section \<open>Asking how to run a trigger\<close>

text \<open>\<open>tu_sent\<close> lists the requests sent, \<open>tu_asked\<close> the directions for which a button was clicked; the code
  keeps neither.\<close>

record trigger_ui =
  tu_dialog :: "direction option"
  tu_fading :: bool
  tu_triggers :: trigger_state
  tu_sent :: "(direction \<times> exec_mode) list"
  tu_asked :: "direction list"

datatype trigger_ui_event =
    TriggerAsked direction
  | TriggerConfirmed exec_mode
  | TriggerDismissed
  | TriggerFaded
  | TriggerAnswered trigger_event

definition mutate_trigger :: "direction \<Rightarrow> exec_mode \<Rightarrow> trigger_ui \<Rightarrow> trigger_ui" where
  "mutate_trigger d m s = s\<lparr>tu_triggers := set_pending d True (tu_triggers s), tu_sent := tu_sent s @ [(d, m)]\<rparr>"

text \<open>The two buttons: \<open>onClose(); onConfirm(mode)\<close>, where \<open>onConfirm\<close> compares the direction of its render.\<close>

definition confirm_trigger :: "exec_mode \<Rightarrow> trigger_ui \<Rightarrow> trigger_ui" where
  "confirm_trigger m s =
     (let closed = s\<lparr>tu_dialog := None, tu_fading := True\<rparr>
      in if tu_dialog s = Some DirSleep then mutate_trigger DirSleep m closed else mutate_trigger DirWake m closed)"

definition shown_direction :: "trigger_ui \<Rightarrow> direction" where
  "shown_direction s = (case tu_dialog s of Some d \<Rightarrow> d | None \<Rightarrow> DirSleep)"

fun trigger_ui_step :: "bool \<Rightarrow> bool \<Rightarrow> int \<Rightarrow> trigger_ui \<Rightarrow> trigger_ui_event \<Rightarrow> trigger_ui" where
  "trigger_ui_step canTrigger overrides policyId s (TriggerAsked d) =
     (if canTrigger \<and> \<not> isBusy (tu_triggers s) \<and> tu_dialog s = None \<and> \<not> tu_fading s
      then s\<lparr>tu_dialog := Some d, tu_asked := tu_asked s @ [d]\<rparr> else s)"
| "trigger_ui_step canTrigger overrides policyId s (TriggerConfirmed m) =
     (if tu_dialog s \<noteq> None \<or> tu_fading s then confirm_trigger m s else s)"
| "trigger_ui_step canTrigger overrides policyId s TriggerDismissed =
     (if tu_dialog s \<noteq> None then s\<lparr>tu_dialog := None, tu_fading := True\<rparr> else s)"
| "trigger_ui_step canTrigger overrides policyId s TriggerFaded =
     (if tu_dialog s = None then s\<lparr>tu_fading := False\<rparr> else s)"
| "trigger_ui_step canTrigger overrides policyId s (TriggerAnswered a) =
     (case a of
        TriggerDone d e \<Rightarrow> s\<lparr>tu_triggers := trigger_step overrides policyId (tu_triggers s) a\<rparr>
      | TriggerFailed d msg \<Rightarrow> s\<lparr>tu_triggers := trigger_step overrides policyId (tu_triggers s) a\<rparr>
      | _ \<Rightarrow> s)"

definition trigger_ui_start :: trigger_ui where
  "trigger_ui_start = \<lparr>tu_dialog = None, tu_fading = False,
     tu_triggers = \<lparr>ts_cache = [], ts_sleepPending = False, ts_wakePending = False, ts_notices = []\<rparr>,
     tu_sent = [], tu_asked = []\<rparr>"

definition trigger_request :: "int \<Rightarrow> direction \<times> exec_mode \<Rightarrow> api_request" where
  "trigger_request policyId r =
     (case r of (DirSleep, m) \<Rightarrow> triggerPolicySleep policyId (Some m) | (DirWake, m) \<Rightarrow> triggerPolicyWake policyId (Some m))"

section \<open>Labels and the ring\<close>

definition nextTransitionLabel :: "js_env \<Rightarrow> policy \<Rightarrow> string" where
  "nextTransitionLabel env p =
     (case pol_nextTransitionAt p of
        None \<Rightarrow> em_dash
      | Some ts \<Rightarrow>
          if ts = [] then em_dash
          else let relative = timeUntil env ts
               in if pol_currentState p = Sleeping then ''Wake '' @ relative
                  else if pol_currentState p = Awake then ''Sleep '' @ relative
                  else relative)"

definition namespace_chip :: "policy \<Rightarrow> string option" where
  "namespace_chip p =
     (if pol_namespaceFilter p = [] then None
      else Some (show_nat (length (split_on CHR '','' (pol_namespaceFilter p))) @ '' ns''))"

definition HEALTHY_THRESHOLD :: rat where "HEALTHY_THRESHOLD = 40"

definition ringColor :: "jsnum \<Rightarrow> string \<Rightarrow> string \<Rightarrow> string" where
  "ringColor percent success primary = (if Num HEALTHY_THRESHOLD \<le> percent then success else primary)"

record ring =
  rg_tooltipOpen :: bool
  rg_dismissed :: bool

datatype ring_event = RingOpen | RingClose bool | RingClick | RingEnter | RingLeave | RingBlur | RingClickAway

text \<open>The flag of \<open>RingClose\<close> says whether the Escape key closes the tooltip.\<close>

fun ring_step :: "ring \<Rightarrow> ring_event \<Rightarrow> ring" where
  "ring_step r RingOpen = (if rg_dismissed r then r else r\<lparr>rg_tooltipOpen := True\<rparr>)"
| "ring_step r (RingClose escape) = r\<lparr>rg_dismissed := (escape \<or> rg_dismissed r), rg_tooltipOpen := False\<rparr>"
| "ring_step r RingClick = r\<lparr>rg_dismissed := False, rg_tooltipOpen := True\<rparr>"
| "ring_step r RingEnter = r\<lparr>rg_dismissed := False\<rparr>"
| "ring_step r RingLeave = r\<lparr>rg_dismissed := False\<rparr>"
| "ring_step r RingBlur = r\<lparr>rg_dismissed := False\<rparr>"
| "ring_step r RingClickAway = r\<lparr>rg_tooltipOpen := False\<rparr>"

section \<open>The card\<close>

text \<open>The one button of the card: the opposite of the current state, or a menu when that is ambiguous.\<close>

definition triggerDirection :: "policy_state \<Rightarrow> direction option" where
  "triggerDirection st = (case st of Awake \<Rightarrow> Some DirSleep | Sleeping \<Rightarrow> Some DirWake | _ \<Rightarrow> None)"

definition triggerTooltip :: "bool \<Rightarrow> policy_state \<Rightarrow> string" where
  "triggerTooltip canTrigger st =
     (if \<not> canTrigger then ''No permission''
      else case st of Awake \<Rightarrow> ''Sleep Now'' | Sleeping \<Rightarrow> ''Wake Now'' | _ \<Rightarrow> ''Sleep / Wake'')"

datatype delete_effect = DeleteSent int | DeleteNotified string snack_severity | DeleteKeyStale query_key

record policy_card =
  cd_policy :: policy
  cd_trigger :: trigger_ui
  cd_menu :: bool
  cd_deleteOpen :: bool
  cd_deleteFading :: bool
  cd_effects :: "delete_effect list"

datatype card_event =
    CardRefetched policy
  | CardTriggerClicked
  | CardMenuPicked direction
  | CardMenuClosed
  | CardTrigger trigger_ui_event
  | CardDeleteClicked
  | CardDeleteConfirmed
  | CardDeleteDismissed
  | CardDeleteFaded
  | CardDeleted
  | CardDeleteFailed "string option"

definition card_ask :: "direction \<Rightarrow> policy_card \<Rightarrow> policy_card" where
  "card_ask d c = c\<lparr>cd_trigger := (cd_trigger c)\<lparr>tu_dialog := Some d, tu_fading := False, tu_asked := tu_asked (cd_trigger c) @ [d]\<rparr>\<rparr>"

text \<open>The modal dialogs and the menu cover the card: its buttons act when none is open.\<close>

definition card_free :: "policy_card \<Rightarrow> bool" where
  "card_free c = (tu_dialog (cd_trigger c) = None \<and> \<not> tu_fading (cd_trigger c) \<and> \<not> cd_menu c \<and> \<not> cd_deleteOpen c \<and> \<not> cd_deleteFading c)"

fun card_step :: "bool \<Rightarrow> bool \<Rightarrow> policy_card \<Rightarrow> card_event \<Rightarrow> policy_card" where
  "card_step canEdit canTrigger c (CardRefetched p) = (if pol_id p = pol_id (cd_policy c) then c\<lparr>cd_policy := p\<rparr> else c)"
| "card_step canEdit canTrigger c CardTriggerClicked =
     (if canTrigger \<and> \<not> isBusy (tu_triggers (cd_trigger c)) \<and> card_free c
      then (case triggerDirection (pol_currentState (cd_policy c)) of Some d \<Rightarrow> card_ask d c | None \<Rightarrow> c\<lparr>cd_menu := True\<rparr>)
      else c)"
| "card_step canEdit canTrigger c (CardMenuPicked d) = (if cd_menu c then card_ask d (c\<lparr>cd_menu := False\<rparr>) else c)"
| "card_step canEdit canTrigger c CardMenuClosed = c\<lparr>cd_menu := False\<rparr>"
| "card_step canEdit canTrigger c (CardTrigger e) =
     (case e of TriggerAsked d \<Rightarrow> c
      | _ \<Rightarrow> c\<lparr>cd_trigger := trigger_ui_step canTrigger False (pol_id (cd_policy c)) (cd_trigger c) e\<rparr>)"
| "card_step canEdit canTrigger c CardDeleteClicked = (if canEdit \<and> card_free c then c\<lparr>cd_deleteOpen := True\<rparr> else c)"
| "card_step canEdit canTrigger c CardDeleteConfirmed =
     (if cd_deleteOpen c \<or> cd_deleteFading c
      then c\<lparr>cd_deleteOpen := False, cd_deleteFading := True, cd_effects := cd_effects c @ [DeleteSent (pol_id (cd_policy c))]\<rparr>
      else c)"
| "card_step canEdit canTrigger c CardDeleteDismissed =
     (if cd_deleteOpen c then c\<lparr>cd_deleteOpen := False, cd_deleteFading := True\<rparr> else c)"
| "card_step canEdit canTrigger c CardDeleteFaded = (if cd_deleteOpen c then c else c\<lparr>cd_deleteFading := False\<rparr>)"
| "card_step canEdit canTrigger c CardDeleted =
     c\<lparr>cd_effects := cd_effects c @ [DeleteKeyStale policies_key,
         DeleteNotified ([CHR 0x22] @ pol_name (cd_policy c) @ [CHR 0x22] @ '' deleted'') SnackSuccess]\<rparr>"
| "card_step canEdit canTrigger c (CardDeleteFailed err) =
     c\<lparr>cd_effects := cd_effects c @ [DeleteNotified (formatError err) SnackError]\<rparr>"

definition card_start :: "policy \<Rightarrow> policy_card" where
  "card_start p = \<lparr>cd_policy = p, cd_trigger = trigger_ui_start, cd_menu = False, cd_deleteOpen = False, cd_deleteFading = False,
     cd_effects = []\<rparr>"

section \<open>Requests follow the question\<close>

text \<open>Sessions in which nothing is clicked twice: a confirmation only comes while the dialog is open.\<close>

fun confirms_once :: "bool \<Rightarrow> bool \<Rightarrow> int \<Rightarrow> trigger_ui \<Rightarrow> trigger_ui_event list \<Rightarrow> bool" where
  "confirms_once ct ov pid s [] = True"
| "confirms_once ct ov pid s (e # es) =
     ((case e of TriggerConfirmed m \<Rightarrow> tu_dialog s \<noteq> None | _ \<Rightarrow> True) \<and> confirms_once ct ov pid (trigger_ui_step ct ov pid s e) es)"

text \<open>The requests sent are, in order, some of the directions asked for, the one still on the screen excepted.\<close>

definition asked_before :: "trigger_ui \<Rightarrow> direction list" where
  "asked_before s = (case tu_dialog s of Some d \<Rightarrow> butlast (tu_asked s) | None \<Rightarrow> tu_asked s)"

definition trigger_inv :: "trigger_ui \<Rightarrow> bool" where
  "trigger_inv s =
     (subseq (map fst (tu_sent s)) (asked_before s)
      \<and> (\<forall>d. tu_dialog s = Some d \<longrightarrow> tu_asked s \<noteq> [] \<and> last (tu_asked s) = d))"

lemma confirm_inv:
  assumes "trigger_inv s" "tu_dialog s = Some d"
  shows "trigger_inv (confirm_trigger m s) \<and> map fst (tu_sent (confirm_trigger m s)) = map fst (tu_sent s) @ [d]"
proof -
  have "tu_asked s = butlast (tu_asked s) @ [d]" "subseq (map fst (tu_sent s)) (butlast (tu_asked s))"
    using assms by (auto simp: trigger_inv_def asked_before_def)
  then have "subseq (map fst (tu_sent s) @ [d]) (tu_asked s)" by (metis subseq_append)
  then show ?thesis
    using assms(2) by (cases d) (simp_all add: confirm_trigger_def mutate_trigger_def trigger_inv_def asked_before_def Let_def)
qed

lemma trigger_ui_step_inv:
  assumes "trigger_inv s" "case e of TriggerConfirmed m \<Rightarrow> tu_dialog s \<noteq> None | _ \<Rightarrow> True"
  shows "trigger_inv (trigger_ui_step ct ov pid s e)"
proof (cases e)
  case (TriggerConfirmed m)
  then show ?thesis using assms confirm_inv by auto
next
  case TriggerDismissed
  show ?thesis
  proof (cases "tu_dialog s")
    case (Some d)
    then have "subseq (map fst (tu_sent s)) (tu_asked s)"
      using assms(1) by (auto simp: trigger_inv_def asked_before_def intro: subseq_order.trans prefix_imp_subseq prefixeq_butlast)
    then show ?thesis by (simp add: TriggerDismissed Some trigger_inv_def asked_before_def)
  qed (use assms TriggerDismissed in simp)
qed (use assms in \<open>auto simp: trigger_inv_def asked_before_def split: trigger_event.splits option.splits\<close>)

lemma confirms_once_inv:
  "trigger_inv s \<Longrightarrow> confirms_once ct ov pid s es \<Longrightarrow> trigger_inv (run (trigger_ui_step ct ov pid) s es)"
  by (induction es arbitrary: s) (simp_all add: trigger_ui_step_inv)

text \<open>A dialog confirmed at most once each time it is on the screen only sends what was asked for: the directions of the
  requests sent are a subsequence of those whose button was clicked, so no click sends two requests.\<close>

theorem triggers_as_asked:
  assumes "confirms_once canTrigger overrides policyId trigger_ui_start es"
  shows "subseq (map fst (tu_sent (run (trigger_ui_step canTrigger overrides policyId) trigger_ui_start es)))
      (tu_asked (run (trigger_ui_step canTrigger overrides policyId) trigger_ui_start es))"
proof -
  let ?s = "run (trigger_ui_step canTrigger overrides policyId) trigger_ui_start es"
  have "trigger_inv trigger_ui_start" by (simp add: trigger_inv_def trigger_ui_start_def asked_before_def)
  then have "subseq (map fst (tu_sent ?s)) (asked_before ?s)"
    using confirms_once_inv assms by (auto simp: trigger_inv_def)
  moreover have "subseq (asked_before ?s) (tu_asked ?s)"
    by (auto simp: asked_before_def intro: prefix_imp_subseq prefixeq_butlast split: option.splits)
  ultimately show ?thesis by (rule subseq_order.trans)
qed

definition sample_clicks :: "trigger_ui_event list" where
  "sample_clicks = [TriggerAsked DirSleep, TriggerDismissed, TriggerFaded, TriggerAsked DirWake, TriggerConfirmed Apply,
     TriggerAnswered (TriggerDone DirWake 12), TriggerFaded]"

theorem triggers_as_asked_witness:
  "subseq (map fst (tu_sent (run (trigger_ui_step True False 7) trigger_ui_start sample_clicks)))
      (tu_asked (run (trigger_ui_step True False 7) trigger_ui_start sample_clicks))
   \<and> tu_sent (run (trigger_ui_step True False 7) trigger_ui_start sample_clicks) = [(DirWake, Apply)]"
proof -
  have "confirms_once True False 7 trigger_ui_start sample_clicks" by code_simp
  then show ?thesis using triggers_as_asked [of True False 7 sample_clicks] by (intro conjI; code_simp?)
qed

text \<open>A double click on the question to sleep sends two requests, the second of which wakes the policy: the dialog is still
  on the screen, and a handler that finds no direction takes the other branch.\<close>

theorem double_click_wakes:
  "map (trigger_request 7) (tu_sent (run (trigger_ui_step True False 7) trigger_ui_start
      [TriggerAsked DirSleep, TriggerConfirmed Apply, TriggerConfirmed Apply]))
   = [triggerPolicySleep 7 (Some Apply), triggerPolicyWake 7 (Some Apply)]"
  by (simp add: trigger_ui_start_def confirm_trigger_def mutate_trigger_def trigger_request_def Let_def isBusy_def)

section \<open>The card and its permissions\<close>

definition card_inv :: "bool \<Rightarrow> bool \<Rightarrow> policy_card \<Rightarrow> bool" where
  "card_inv canEdit canTrigger c =
     ((canTrigger \<or> (tu_sent (cd_trigger c) = [] \<and> tu_dialog (cd_trigger c) = None \<and> \<not> tu_fading (cd_trigger c) \<and> \<not> cd_menu c))
      \<and> (canEdit \<or> ((\<forall>i. DeleteSent i \<notin> set (cd_effects c)) \<and> \<not> cd_deleteOpen c \<and> \<not> cd_deleteFading c)))"

lemma card_step_inv: "card_inv canEdit canTrigger c \<Longrightarrow> card_inv canEdit canTrigger (card_step canEdit canTrigger c e)"
proof (cases e)
  case (CardTrigger t)
  moreover assume "card_inv canEdit canTrigger c"
  ultimately show ?thesis by (cases t) (auto simp: card_inv_def split: trigger_event.splits)
qed (auto simp: card_inv_def card_ask_def split: option.splits)

interpretation card: machine "card_step canEdit canTrigger" "card_inv canEdit canTrigger" for canEdit canTrigger
  by unfold_locales (rule card_step_inv)

text \<open>Without the permission to trigger, no sequence of clicks on a card sends a trigger; without the permission to edit,
  none deletes the policy.\<close>

theorem card_respects_permissions:
  "(canTrigger \<or> tu_sent (cd_trigger (run (card_step canEdit canTrigger) (card_start p) es)) = [])
   \<and> (canEdit \<or> (\<nexists>i. DeleteSent i \<in> set (cd_effects (run (card_step canEdit canTrigger) (card_start p) es))))"
proof -
  have "card_inv canEdit canTrigger (card_start p)"
    by (simp add: card_inv_def card_start_def trigger_ui_start_def)
  from card.run_inv [OF this] show ?thesis by (auto simp: card_inv_def)
qed

section \<open>What the card sends\<close>

text \<open>In a run of the card each event comes with the permissions of its render, to edit and to trigger.\<close>

type_synonym card_input = "(bool \<times> bool) \<times> card_event"

definition card_run :: "policy_card \<Rightarrow> card_input list \<Rightarrow> policy_card" where
  "card_run = run (\<lambda>c ((canEdit, canTrigger), e). card_step canEdit canTrigger c e)"

text \<open>A confirmation that comes while the dialog, already closed, fades.\<close>

definition second_click :: "policy_card \<Rightarrow> card_event \<Rightarrow> bool" where
  "second_click c e =
     (case e of CardTrigger (TriggerConfirmed m) \<Rightarrow> tu_dialog (cd_trigger c) = None \<and> tu_fading (cd_trigger c) | _ \<Rightarrow> False)"

text \<open>The directions the user asks for, in order, read off the clicks made with the permission to trigger and the state that
  the card shows: a click on the button of a policy that is awake asks for sleep, of one asleep for waking; a click on the button of any other
  policy opens the menu, whose next choice asks for what it names. \<open>menu\<close> says whether the menu was opened with the
  permission. A second click on a dialog counts as a wish to wake.\<close>

fun card_wishes :: "policy_card \<Rightarrow> bool \<Rightarrow> card_input list \<Rightarrow> direction list" where
  "card_wishes c menu [] = []"
| "card_wishes c menu (((canEdit, canTrigger), e) # es) =
     (let shown = pol_currentState (cd_policy c); c' = card_step canEdit canTrigger c e
      in if e = CardTriggerClicked
         then if \<not> canTrigger then card_wishes c' menu es
              else if shown = Awake then DirSleep # card_wishes c' menu es
              else if shown = Sleeping then DirWake # card_wishes c' menu es
              else card_wishes c' True es
         else case e of
                CardMenuPicked d \<Rightarrow> (if menu then [d] else []) @ card_wishes c' False es
              | CardMenuClosed \<Rightarrow> card_wishes c' False es
              | _ \<Rightarrow> (if second_click c e then [DirWake] else []) @ card_wishes c' menu es)"

text \<open>The requests sent and the question on the screen are covered by the wishes so far.\<close>

definition covered :: "direction list \<Rightarrow> policy_card \<Rightarrow> bool" where
  "covered ds c = subseq (map fst (tu_sent (cd_trigger c)) @ (case tu_dialog (cd_trigger c) of None \<Rightarrow> [] | Some d \<Rightarrow> [d])) ds"

lemma covered_sent: "covered ds c \<Longrightarrow> subseq (map fst (tu_sent (cd_trigger c))) ds"
  unfolding covered_def by (rule subseq_order.trans [OF prefix_imp_subseq]) simp_all

lemma covered_more: "covered ds c \<Longrightarrow> covered (ds @ es) c"
  unfolding covered_def by (rule subseq_rev_drop_many)

lemma covered_ask: "covered ds c \<Longrightarrow> covered (ds @ [d]) (card_ask d (c\<lparr>cd_menu := m\<rparr>))"
  using covered_sent [of ds c] by (simp add: covered_def card_ask_def)

lemma covered_same:
  "covered ds c \<Longrightarrow> tu_sent (cd_trigger c') = tu_sent (cd_trigger c) \<Longrightarrow> tu_dialog (cd_trigger c') = tu_dialog (cd_trigger c) \<Longrightarrow> covered ds c'"
  by (simp add: covered_def)

lemma covered_trigger:
  assumes "covered ds c" "\<forall>d. t \<noteq> TriggerAsked d"
  shows "covered (ds @ (if second_click c (CardTrigger t) then [DirWake] else [])) (card_step canEdit canTrigger c (CardTrigger t))"
proof (cases t)
  case (TriggerConfirmed m)
  show ?thesis
  proof (cases "tu_dialog (cd_trigger c)")
    case (Some d)
    then show ?thesis
      using assms(1) by (cases d) (simp_all add: covered_def TriggerConfirmed second_click_def confirm_trigger_def mutate_trigger_def Let_def)
  next
    case None
    then show ?thesis
      using covered_sent [OF assms(1)] assms(1)
      by (simp add: covered_def TriggerConfirmed second_click_def confirm_trigger_def mutate_trigger_def Let_def)
  qed
next
  case TriggerDismissed
  then show ?thesis
    using covered_sent [OF assms(1)] assms(1) by (simp add: covered_def second_click_def)
next
  case (TriggerAnswered a)
  then show ?thesis using assms(1) by (auto simp: second_click_def split: trigger_event.splits intro: covered_same)
qed (use assms in \<open>auto simp: second_click_def intro: covered_same\<close>)

lemma wishes_cover:
  assumes "covered ds c" "cd_menu c \<longrightarrow> menu"
  shows "covered (ds @ card_wishes c menu es) (card_run c es)"
  using assms
proof (induction es arbitrary: ds c menu)
  case Nil
  then show ?case by (simp add: card_run_def)
next
  case (Cons x es)
  obtain ce ct e where x: "x = ((ce, ct), e)" by (cases x) auto
  let ?c = "card_step ce ct c e"
  note IH = Cons.IH [of _ ?c]
  have r: "card_run c (x # es) = card_run ?c es" by (simp add: card_run_def x)
  show ?case unfolding r
  proof (cases e)
    case CardTriggerClicked
    consider (no) "\<not> ct" | (sleep) "ct" "pol_currentState (cd_policy c) = Awake" | (wake) "ct" "pol_currentState (cd_policy c) = Sleeping"
      | (menu) "ct" "pol_currentState (cd_policy c) \<noteq> Awake" "pol_currentState (cd_policy c) \<noteq> Sleeping" by blast
    then show "covered (ds @ card_wishes c menu (x # es)) (card_run ?c es)"
    proof cases
      case no
      then show ?thesis using IH [of ds menu] Cons.prems by (simp add: x CardTriggerClicked)
    next
      case sleep
      have "covered (ds @ [DirSleep]) ?c"
        using sleep Cons.prems covered_ask [of ds c DirSleep "cd_menu c"] covered_more by (auto simp: CardTriggerClicked triggerDirection_def)
      with sleep show ?thesis using IH [of "ds @ [DirSleep]" menu] Cons.prems by (auto simp: x CardTriggerClicked triggerDirection_def card_ask_def)
    next
      case wake
      have "covered (ds @ [DirWake]) ?c"
        using wake Cons.prems covered_ask [of ds c DirWake "cd_menu c"] covered_more by (auto simp: CardTriggerClicked triggerDirection_def)
      with wake show ?thesis using IH [of "ds @ [DirWake]" menu] Cons.prems by (auto simp: x CardTriggerClicked triggerDirection_def card_ask_def)
    next
      case menu
      then have "triggerDirection (pol_currentState (cd_policy c)) = None"
        by (cases "pol_currentState (cd_policy c)") (simp_all add: triggerDirection_def)
      then have "covered ds ?c" using Cons.prems covered_same by (auto simp: CardTriggerClicked)
      with menu show ?thesis using IH [of ds True] by (simp add: x CardTriggerClicked)
    qed
  next
    case (CardMenuPicked d)
    have "covered (ds @ (if menu then [d] else [])) ?c" "\<not> cd_menu ?c"
      using Cons.prems covered_ask [of ds c d False] covered_more [of ds c] by (auto simp: CardMenuPicked card_ask_def)
    then show "covered (ds @ card_wishes c menu (x # es)) (card_run ?c es)"
      using IH [of "ds @ (if menu then [d] else [])" False] by (simp add: x CardMenuPicked)
  next
    case (CardTrigger t)
    have "covered (ds @ (if second_click c e then [DirWake] else [])) ?c"
    proof (cases "\<exists>d. t = TriggerAsked d")
      case True
      then show ?thesis using Cons.prems by (auto simp: CardTrigger second_click_def)
    qed (use covered_trigger Cons.prems CardTrigger in simp)
    moreover have "cd_menu ?c = cd_menu c" by (cases t) (simp_all add: CardTrigger)
    ultimately show "covered (ds @ card_wishes c menu (x # es)) (card_run ?c es)"
      using IH [of "ds @ (if second_click c e then [DirWake] else [])" menu] Cons.prems by (simp add: x CardTrigger)
  qed (use IH [of ds] Cons.prems covered_same in \<open>auto simp: x second_click_def\<close>)
qed

lemma no_permission_no_trigger:
  "list_all (\<lambda>((ce, ct), e). \<not> (ct \<and> e = CardTriggerClicked)) es
   \<Longrightarrow> card_inv True False c \<Longrightarrow> card_inv True False (card_run c es)"
proof (induction es arbitrary: c)
  case Nil
  then show ?case by (simp add: card_run_def)
next
  case (Cons x es)
  obtain ce ct e where x: "x = ((ce, ct), e)" by (cases x) auto
  have "card_inv True False (card_step ce ct c e)"
  proof (cases e)
    case (CardTrigger t)
    then show ?thesis using Cons.prems by (cases t) (auto simp: card_inv_def split: trigger_event.splits)
  qed (use Cons.prems in \<open>auto simp: x card_inv_def card_ask_def split: option.splits\<close>)
  then show ?case using Cons by (simp add: card_run_def x)
qed

text \<open>C29. However a card is clicked, refetched and answered, and whenever the permission to trigger comes and goes, the triggers it sends are
  among the user's wishes, in their order: those of clicks on the button or the menu it opens, made with the permission, for
  the opposite of the state shown or for what the menu names, and a wish to wake for each second click on a dialog that is
  fading, which the code takes for one. Where the button was never clicked with the permission, none is sent.\<close>

theorem card_sends_wishes:
  "subseq (map fst (tu_sent (cd_trigger (card_run (card_start p) es)))) (card_wishes (card_start p) False es)
   \<and> (list_ex (\<lambda>((canEdit, canTrigger), e). canTrigger \<and> e = CardTriggerClicked) es
      \<or> tu_sent (cd_trigger (card_run (card_start p) es)) = [])"
proof
  have "covered [] (card_start p)" by (simp add: covered_def card_start_def trigger_ui_start_def)
  from wishes_cover [OF this, of False es] show
    "subseq (map fst (tu_sent (cd_trigger (card_run (card_start p) es)))) (card_wishes (card_start p) False es)"
    by (auto simp: card_start_def dest: covered_sent)
  show "list_ex (\<lambda>((canEdit, canTrigger), e). canTrigger \<and> e = CardTriggerClicked) es
      \<or> tu_sent (cd_trigger (card_run (card_start p) es)) = []"
  proof (cases "list_ex (\<lambda>((canEdit, canTrigger), e). canTrigger \<and> e = CardTriggerClicked) es")
    case False
    then have "list_all (\<lambda>((ce, ct), e). \<not> (ct \<and> e = CardTriggerClicked)) es"
      by (induction es) auto
    from no_permission_no_trigger [OF this, of "card_start p"] show ?thesis
      by (auto simp: card_inv_def card_start_def trigger_ui_start_def)
  qed simp
qed

text \<open>What the card asks for is the opposite of the state it shows.\<close>

lemma card_asks_opposite:
  assumes "tu_dialog (cd_trigger c) = None" "tu_dialog (cd_trigger (card_step canEdit canTrigger c CardTriggerClicked)) = Some d"
  shows "canTrigger \<and> (pol_currentState (cd_policy c) = Awake \<and> d = DirSleep \<or> pol_currentState (cd_policy c) = Sleeping \<and> d = DirWake)"
  using assms by (cases "pol_currentState (cd_policy c)") (auto simp: triggerDirection_def card_ask_def split: if_splits)

section \<open>The dismissed explanation\<close>

definition leaves_ring :: "ring_event \<Rightarrow> bool" where
  "leaves_ring e = (e \<in> {RingClick, RingEnter, RingLeave, RingBlur})"

definition ring_hidden :: "ring \<Rightarrow> bool" where
  "ring_hidden r = (rg_dismissed r \<and> \<not> rg_tooltipOpen r)"

interpretation ring: guarded_machine ring_step ring_hidden "\<lambda>e. \<not> leaves_ring e"
proof
  fix s e assume "ring_hidden s" "\<not> leaves_ring e"
  then show "ring_hidden (ring_step s e)" by (cases e) (auto simp: ring_hidden_def leaves_ring_def)
qed

text \<open>Escape hides the explanation until the pointer or the focus leaves the ring, or it is clicked.\<close>

theorem escape_keeps_ring_closed:
  assumes "list_all (\<lambda>e. \<not> leaves_ring e) es"
  shows "\<not> rg_tooltipOpen (run ring_step r (RingClose True # es))"
  using ring.run_inv [OF _ assms, of "ring_step r (RingClose True)"] by (simp add: ring_hidden_def)

theorem escape_keeps_ring_closed_witness:
  "\<not> rg_tooltipOpen (run ring_step \<lparr>rg_tooltipOpen = True, rg_dismissed = False\<rparr> (RingClose True # [RingOpen, RingClickAway, RingOpen]))"
  by (rule escape_keeps_ring_closed) (simp add: leaves_ring_def)

end
