(* ===== verification/Calendar.thy ===== *)
theory Calendar
  imports Dates WindowPicker
begin

text \<open>
  Dates in local time: the methods of \<open>Date\<close> that read and set local fields, over a zone given by the two
  conversions of the language definition, \<open>LocalTime\<close> and \<open>UTC\<close>. The first part proves the calendar
  arithmetic the dates rest on: the civil date of a day number leads back to that number, months have 28 to 31
  days, and the text of \<open>toISOString\<close> determines its date.
\<close>

section \<open>The civil calendar\<close>

text \<open>Within one century of 36524 days.\<close>

lemma century_year:
  fixes k r :: int
  assumes k: "0 \<le> k" "k \<le> 3" and r: "0 \<le> r" "r < 36524"
  defines "a \<equiv> (24 * k + r) div 1460"
  defines "y \<equiv> (r - a) div 365"
  shows "0 \<le> y" "y \<le> 99" "0 \<le> r - (365 * y + y div 4)" "r - (365 * y + y div 4) \<le> 365"
    and "r < 365 * (y + 1) + (y + 1) div 4"
proof -
  have a: "1460 * a \<le> 24 * k + r" "24 * k + r < 1460 * a + 1460"
    using div_mult_mod_eq [of "24 * k + r" 1460] pos_mod_bound [of 1460 "24 * k + r"] pos_mod_sign [of 1460 "24 * k + r"]
    unfolding a_def by linarith+
  have a0: "0 \<le> a" unfolding a_def using k r by (intro div_int_pos_iff [THEN iffD2]) auto
  have a25: "a \<le> 25" using a k r by linarith
  have y: "365 * y \<le> r - a" "r - a < 365 * y + 365"
    using div_mult_mod_eq [of "r - a" 365] pos_mod_bound [of 365 "r - a"] pos_mod_sign [of 365 "r - a"]
    unfolding y_def by linarith+
  obtain q s where q_def: "q = y div 4" and s_def: "s = y mod 4" by blast
  have q: "y = 4 * q + s" "0 \<le> s" "s \<le> 3" unfolding q_def s_def by auto
  have ar: "a \<le> r" using a a0 a25 k r by (cases "a = 0") linarith+
  show y0: "0 \<le> y" using y ar by linarith
  have "r - a \<le> 36499"
  proof (cases "a = 25")
    case False
    then have "a \<le> 24" using a25 by simp
    with a k show ?thesis by linarith
  qed (use r in simp)
  then show "y \<le> 99" using y by linarith
  have "q \<le> a" using a y q k a0 by linarith
  moreover have "a \<le> q + 1" using a y q k a25 by linarith
  ultimately show "0 \<le> r - (365 * y + y div 4)" "r - (365 * y + y div 4) \<le> 365"
    using y unfolding q_def by linarith+
  have "(y + 1) div 4 = (if s = 3 then q + 1 else q)" unfolding q(1) using q(2,3) by auto
  moreover have "a \<noteq> q + 1" if "s \<noteq> 3"
  proof
    assume "a = q + 1"
    moreover have "s \<le> 2" using that q(3) by linarith
    ultimately show False using a y q k a25 by linarith
  qed
  ultimately have "a \<le> (y + 1) div 4" using \<open>a \<le> q + 1\<close> by (cases "s = 3") auto
  then have "r - a + a < 365 * y + 365 + (y + 1) div 4" using y(2) by (rule add_less_le_mono [rotated])
  then show "r < 365 * (y + 1) + (y + 1) div 4" by (simp add: algebra_simps)
qed

lemma div_div: "0 \<le> b \<Longrightarrow> c = a * b \<Longrightarrow> x div a div b = x div (c :: int)"
  by (simp add: zdiv_zmult2_eq)

lemma div_shift: "x = s + b * c \<Longrightarrow> b \<noteq> 0 \<Longrightarrow> x div b = c + s div (b :: int)"
  by simp

lemma era_year:
  fixes doe :: int
  assumes "0 \<le> doe" "doe < 146097"
  defines "yoe \<equiv> (doe - doe div 1460 + doe div 36524 - doe div 146096) div 365"
  shows "0 \<le> yoe" "yoe \<le> 399" "0 \<le> doe - (365 * yoe + yoe div 4 - yoe div 100)" "doe - (365 * yoe + yoe div 4 - yoe div 100) \<le> 365"
    and "doe < (if yoe = 399 then 146097 else 365 * (yoe + 1) + (yoe + 1) div 4 - (yoe + 1) div 100)"
proof -
  have "doe < (if yoe = 399 then 146097 else 365 * (yoe + 1) + (yoe + 1) div 4 - (yoe + 1) div 100) \<and> 0 \<le> yoe \<and> yoe \<le> 399 \<and> 0 \<le> doe - (365 * yoe + yoe div 4 - yoe div 100) \<and> doe - (365 * yoe + yoe div 4 - yoe div 100) \<le> 365"
  proof (cases "doe = 146096")
    case True
    then show ?thesis by (simp add: yoe_def)
  next
    case False
    obtain k r where k_def: "k = doe div 36524" and r_def: "r = doe mod 36524" by blast
    have doe: "doe = 36524 * k + r" "0 \<le> r" "r < 36524" unfolding k_def r_def by auto
    have k: "0 \<le> k" "k \<le> 3" using doe assms False by linarith+
    obtain a y where a_def: "a = (24 * k + r) div 1460" and y_def: "y = (r - a) div 365" by blast
    note c = century_year [OF k doe(2,3), folded a_def, folded y_def]
    have "doe = 24 * k + r + 1460 * (25 * k)" using doe by simp
    then have "doe div 1460 = (24 * k + r + 1460 * (25 * k)) div 1460" by simp
    then have d1: "doe div 1460 = 25 * k + a" unfolding a_def by (subst (asm) div_mult_self2) simp_all
    have d2: "doe div 146096 = 0" using assms False by simp
    have "doe - doe div 1460 + doe div 36524 - doe div 146096 = r - a + 365 * (100 * k)"
      unfolding d1 d2 k_def [symmetric] using doe(1) by simp
    then have "yoe = (r - a + 365 * (100 * k)) div 365" unfolding yoe_def by simp
    then have yoe: "yoe = 100 * k + y" unfolding y_def by (subst (asm) div_mult_self2) simp_all
    have "yoe = y + 4 * (25 * k)" "yoe = y + 100 * k" using yoe by linarith+
    then have "yoe div 4 = 25 * k + y div 4" "yoe div 100 = k + y div 100" by (simp_all only: div_shift [OF refl])
    moreover have "y div 100 = 0" using c(1,2) by simp
    moreover have "doe < (if yoe = 399 then 146097 else 365 * (yoe + 1) + (yoe + 1) div 4 - (yoe + 1) div 100)"
    proof -
      have "yoe + 1 = (y + 1) + 4 * (25 * k)" "yoe + 1 = (y + 1) + 100 * k" using yoe by linarith+
      then have n: "(yoe + 1) div 4 = 25 * k + (y + 1) div 4" "(yoe + 1) div 100 = k + (y + 1) div 100"
        by (simp_all only: div_shift [OF refl])
      show ?thesis
      proof (cases "y = 99")
        case True
        then show ?thesis using n doe k yoe by simp
      next
        case False
        then have "(y + 1) div 100 = 0" "yoe \<noteq> 399" using c(1,2) k yoe by auto
        then show ?thesis using n c(5) doe(1) yoe by simp
      qed
    qed
    ultimately show ?thesis using c(1-4) k doe(1) yoe by simp
  qed
  then show "0 \<le> yoe" "yoe \<le> 399" "0 \<le> doe - (365 * yoe + yoe div 4 - yoe div 100)" "doe - (365 * yoe + yoe div 4 - yoe div 100) \<le> 365"
    "doe < (if yoe = 399 then 146097 else 365 * (yoe + 1) + (yoe + 1) div 4 - (yoe + 1) div 100)"
    by (blast+)
qed

lemma civil_round_trip:
  assumes "civil_of_days n = (y, m, d)"
  shows "days_of_civil y (m - 1) d = n" "1 \<le> m" "m \<le> 12" "1 \<le> d" "d \<le> 31"
proof -
  obtain z era doe where z_def: "z = n + 719468" and era_def: "era = z div 146097" and doe_def: "doe = z mod 146097" by blast
  obtain yoe where yoe_def: "yoe = (doe - doe div 1460 + doe div 36524 - doe div 146096) div 365" by blast
  obtain doy where doy_def: "doy = doe - (365 * yoe + yoe div 4 - yoe div 100)" by blast
  obtain mp where mp_def: "mp = (5 * doy + 2) div 153" by blast
  have doe: "0 \<le> doe" "doe < 146097" unfolding doe_def by simp_all
  note e = era_year [OF doe, folded yoe_def, folded doy_def]
  have mp: "153 * mp \<le> 5 * doy + 2" "5 * doy + 2 < 153 * mp + 153"
    using div_mult_mod_eq [of "5 * doy + 2" 153] pos_mod_bound [of 153 "5 * doy + 2"] pos_mod_sign [of 153 "5 * doy + 2"]
    unfolding mp_def by linarith+
  have mpb: "0 \<le> mp" "mp \<le> 11" using mp e by linarith+
  have "civil_of_days n = (yoe + era * 400 + (if (if mp < 10 then mp + 3 else mp - 9) \<le> 2 then 1 else 0),
      if mp < 10 then mp + 3 else mp - 9, doy - (153 * mp + 2) div 5 + 1)"
    unfolding civil_of_days_def Let_def mp_def doy_def yoe_def doe_def era_def z_def by (rule refl)
  then have ymd: "m = (if mp < 10 then mp + 3 else mp - 9)" "d = doy - (153 * mp + 2) div 5 + 1"
    "y = yoe + era * 400 + (if m \<le> 2 then 1 else 0)"
    using assms by simp_all
  show m: "1 \<le> m" "m \<le> 12" using mpb ymd(1) by auto
  obtain u where u_def: "u = (153 * mp + 2) div 5" by blast
  have u: "5 * u \<le> 153 * mp + 2" "153 * mp + 2 < 5 * u + 5"
    using div_mult_mod_eq [of "153 * mp + 2" 5] pos_mod_bound [of 5 "153 * mp + 2"] pos_mod_sign [of 5 "153 * mp + 2"]
    unfolding u_def by linarith+
  have "d = doy - u + 1" using ymd(2) by (simp add: u_def)
  then show "1 \<le> d" "d \<le> 31" using mp u by linarith+
  have mm: "(m - 1) div 12 = 0" "(m - 1) mod 12 = m - 1" using m by simp_all
  have y1: "(if m \<le> 2 then y - 1 else y) = yoe + 400 * era" using ymd(3) by auto
  have yy: "(yoe + 400 * era) div 400 = era" "(yoe + 400 * era) mod 400 = yoe" using e(1,2) by simp_all
  have m9: "(m + 9) mod 12 = mp"
  proof (cases "mp < 10")
    case True
    then have "m + 9 = mp + 12" using ymd(1) by simp
    then show ?thesis using True mpb by simp
  next
    case False
    then have "m + 9 = mp" using ymd(1) by simp
    then show ?thesis using mpb by simp
  qed
  have "days_of_civil y (m - 1) d = era * 146097 + (yoe * 365 + yoe div 4 - yoe div 100 + ((153 * mp + 2) div 5 + d - 1)) - 719468"
    using mm y1 yy m9 by (simp add: days_of_civil_def Let_def)
  also have "\<dots> = era * 146097 + doe - 719468" unfolding ymd(2) doy_def by simp
  also have "\<dots> = n" unfolding era_def doe_def z_def by simp
  finally show "days_of_civil y (m - 1) d = n" .
qed

lemma days_of_civil_add: "days_of_civil y m (d + i) = days_of_civil y m d + i"
  by (simp add: days_of_civil_def Let_def)

definition year_start :: "int \<Rightarrow> int" where
  "year_start yy = yy div 400 * 146097 + (yy mod 400 * 365 + yy mod 400 div 4 - yy mod 400 div 100)"

lemma next_div:
  fixes k r :: int
  assumes "1 < k"
  shows "(r + 1) div k = r div k + (if r mod k = k - 1 then 1 else 0)"
proof -
  obtain q s where q_def: "q = r div k" and s_def: "s = r mod k" by blast
  have s: "0 \<le> s" "s < k" unfolding s_def using assms by simp_all
  have "r + 1 = (s + 1) + k * q" unfolding q_def s_def by simp
  then have "(r + 1) div k = q + (s + 1) div k" using assms by (simp only: div_mult_self2)
  moreover have "(s + 1) div k = (if s = k - 1 then 1 else 0)" using s by simp
  ultimately show ?thesis unfolding q_def [symmetric] s_def [symmetric] by simp
qed

lemma length_of_year:
  fixes r :: int
  shows "e * 146097 + ((r + 1) * 365 + a' - b') - (e * 146097 + (r * 365 + a - b)) = 365 + (a' - a) - (b' - b)"
  by simp

lemma leap_length:
  fixes a a' b b' n :: int
  shows "n = 365 + (a' - a) - (b' - b) \<Longrightarrow> a' = a + (if P then 1 else 0) \<Longrightarrow> b' = b + (if Q then 1 else 0) \<Longrightarrow> (Q \<Longrightarrow> P) \<Longrightarrow> n \<in> {365, 366}"
  by auto

lemma year_length: "year_start (yy + 1) - year_start yy \<in> {365, 366}"
proof -
  obtain e r where e_def: "e = yy div 400" and r_def: "r = yy mod 400" by blast
  have r: "0 \<le> r" "r < 400" unfolding r_def by simp_all
  have yy: "yy = r + 400 * e" unfolding e_def r_def by simp
  show ?thesis
  proof (cases "r = 399")
    case True
    then have "yy + 1 = 0 + 400 * (e + 1)" using yy by simp
    then have "(yy + 1) div 400 = e + 1" "(yy + 1) mod 400 = 0" by simp_all
    then show ?thesis using True by (simp add: year_start_def e_def [symmetric] r_def [symmetric])
  next
    case False
    then have "yy + 1 = (r + 1) + 400 * e" "r + 1 < 400" using yy r by simp_all
    then have "(yy + 1) div 400 = e + (r + 1) div 400" "(yy + 1) mod 400 = (r + 1) mod 400"
      by (simp_all only: div_mult_self2 mod_mult_self2)
    then have "(yy + 1) div 400 = e" "(yy + 1) mod 400 = r + 1" using r \<open>r + 1 < 400\<close> by simp_all
    then have "year_start (yy + 1) = e * 146097 + ((r + 1) * 365 + (r + 1) div 4 - (r + 1) div 100)" by (simp only: year_start_def)
    moreover have "year_start yy = e * 146097 + (r * 365 + r div 4 - r div 100)" by (simp only: year_start_def e_def r_def)
    ultimately have "year_start (yy + 1) - year_start yy = 365 + ((r + 1) div 4 - r div 4) - ((r + 1) div 100 - r div 100)" by (simp only: length_of_year)
    moreover have "(r + 1) div 4 = r div 4 + (if r mod 4 = 3 then 1 else 0)" "(r + 1) div 100 = r div 100 + (if r mod 100 = 99 then 1 else 0)"
      using next_div [of 4 r] next_div [of 100 r] by simp_all
    moreover have "r mod 4 = 3" if "r mod 100 = 99"
    proof -
      have "100 * (r div 100) + 99 = r" using mult_div_mod_eq [of 100 r] unfolding that .
      then obtain q where "100 * q + 99 = r" ..
      then have "r = 3 + 4 * (25 * q + 24)" by (simp add: algebra_simps)
      then have "r mod 4 = 3 mod 4" by (simp only: mod_mult_self2)
      then show ?thesis by simp
    qed
    ultimately show ?thesis by (rule leap_length)
  qed
qed

lemma days_of_civil_year:
  "days_of_civil y m d = year_start (if m mod 12 \<le> 1 then y + m div 12 - 1 else y + m div 12)
     + (153 * ((m mod 12 + 10) mod 12) + 2) div 5 + d - 1 - 719468"
  by (simp add: days_of_civil_def year_start_def Let_def add.commute add.left_commute)

lemma month_length: "days_of_civil y m 1 + 28 \<le> days_of_civil y (m + 1) 1 \<and> days_of_civil y (m + 1) 1 \<le> days_of_civil y m 1 + 31"
proof -
  obtain q r where q_def: "q = m div 12" and r_def: "r = m mod 12" by blast
  have m: "m = r + 12 * q" "0 \<le> r" "r \<le> 11" unfolding q_def r_def by auto
  have dm: "m div 12 = q" "m mod 12 = r" by (simp_all add: q_def r_def)
  have "m + 1 = (r + 1) + 12 * q" using m by simp
  then have "(m + 1) div 12 = q + (r + 1) div 12" "(m + 1) mod 12 = (r + 1) mod 12"
    by (simp_all only: div_mult_self2 mod_mult_self2)
  then have nx: "(m + 1) div 12 = (if r = 11 then q + 1 else q)" "(m + 1) mod 12 = (if r = 11 then 0 else r + 1)"
    using m(2,3) by auto
  have "r = 0 \<or> r = 1 \<or> r = 2 \<or> r = 3 \<or> r = 4 \<or> r = 5 \<or> r = 6 \<or> r = 7 \<or> r = 8 \<or> r = 9 \<or> r = 10 \<or> r = 11"
    using m(2,3) by presburger
  then show ?thesis
    using year_length [of "y + q - 1"] unfolding days_of_civil_year dm nx by (elim disjE) auto
qed

lemma civil_in_month:
  assumes "civil_of_days n = (y, m, d)"
  shows "n < days_of_civil y m 1"
proof -
  obtain z era doe where z_def: "z = n + 719468" and era_def: "era = z div 146097" and doe_def: "doe = z mod 146097" by blast
  obtain yoe where yoe_def: "yoe = (doe - doe div 1460 + doe div 36524 - doe div 146096) div 365" by blast
  obtain doy where doy_def: "doy = doe - (365 * yoe + yoe div 4 - yoe div 100)" by blast
  obtain mp where mp_def: "mp = (5 * doy + 2) div 153" by blast
  have doe: "0 \<le> doe" "doe < 146097" unfolding doe_def by simp_all
  note e = era_year [OF doe, folded yoe_def, folded doy_def]
  have mp: "153 * mp \<le> 5 * doy + 2" "5 * doy + 2 < 153 * mp + 153"
    using div_mult_mod_eq [of "5 * doy + 2" 153] pos_mod_bound [of 153 "5 * doy + 2"] pos_mod_sign [of 153 "5 * doy + 2"]
    unfolding mp_def by linarith+
  have mpb: "0 \<le> mp" "mp \<le> 11" using mp e by linarith+
  have "civil_of_days n = (yoe + era * 400 + (if (if mp < 10 then mp + 3 else mp - 9) \<le> 2 then 1 else 0),
      if mp < 10 then mp + 3 else mp - 9, doy - (153 * mp + 2) div 5 + 1)"
    unfolding civil_of_days_def Let_def mp_def doy_def yoe_def doe_def era_def z_def by (rule refl)
  then have ym: "m = (if mp < 10 then mp + 3 else mp - 9)" "y = yoe + era * 400 + (if m \<le> 2 then 1 else 0)"
    using assms by simp_all
  have yy: "(yoe + era * 400) div 400 = era" "(yoe + era * 400) mod 400 = yoe" using e(1,2) by simp_all
  have n: "n = year_start (yoe + era * 400) + doy - 719468"
    unfolding year_start_def yy doy_def using div_mult_mod_eq [of z 146097] by (simp add: z_def era_def doe_def)
  have next_year: "n < year_start (yoe + era * 400 + 1) - 719468"
  proof (cases "yoe = 399")
    case True
    then have "yoe + era * 400 + 1 = 400 * (era + 1)" by simp
    then have "year_start (yoe + era * 400 + 1) = (era + 1) * 146097" by (simp add: year_start_def)
    then show ?thesis using doe div_mult_mod_eq [of z 146097] by (simp add: z_def era_def doe_def)
  next
    case False
    then have "yoe + 1 < 400" "yoe + era * 400 + 1 = (yoe + 1) + 400 * era" using e(2) by simp_all
    then have "(yoe + era * 400 + 1) div 400 = era + (yoe + 1) div 400" "(yoe + era * 400 + 1) mod 400 = (yoe + 1) mod 400"
      by (simp_all only: div_mult_self2 mod_mult_self2)
    then have "(yoe + era * 400 + 1) div 400 = era" "(yoe + era * 400 + 1) mod 400 = yoe + 1" using e(1) \<open>yoe + 1 < 400\<close> by simp_all
    then have "year_start (yoe + era * 400 + 1) = era * 146097 + ((yoe + 1) * 365 + (yoe + 1) div 4 - (yoe + 1) div 100)"
      by (simp only: year_start_def)
    moreover have "doe < 365 * (yoe + 1) + (yoe + 1) div 4 - (yoe + 1) div 100" using e(5) False by simp
    moreover have "n + 719468 = era * 146097 + doe" using div_mult_mod_eq [of z 146097] by (simp add: z_def era_def doe_def)
    ultimately show ?thesis by linarith
  qed
  have "mp = 0 \<or> mp = 1 \<or> mp = 2 \<or> mp = 3 \<or> mp = 4 \<or> mp = 5 \<or> mp = 6 \<or> mp = 7 \<or> mp = 8 \<or> mp = 9 \<or> mp = 10 \<or> mp = 11"
    using mpb by presburger
  then show ?thesis
    using mp(2) next_year n ym unfolding days_of_civil_year by (elim disjE) simp_all
qed

text \<open>Months in a row: month \<open>m\<close> of year \<open>y\<close> is number \<open>12 * y + m\<close>.\<close>

lemma days_of_civil_index: "days_of_civil y m d = days_of_civil 0 (12 * y + m) d"
proof -
  have "(12 * y + m) div 12 = y + m div 12" "(12 * y + m) mod 12 = m mod 12" by simp_all
  then show ?thesis unfolding days_of_civil_year by (simp only: add_0)
qed

lemma month_start_mono: "j < j' \<Longrightarrow> days_of_civil 0 (j + 1) 1 \<le> days_of_civil 0 j' 1"
proof -
  have "days_of_civil 0 (j + 1) 1 \<le> days_of_civil 0 (j + 1 + int k) 1" for k
  proof (induction k)
    case (Suc k)
    then show ?case using month_length [of 0 "j + 1 + int k"] by (simp add: add.assoc [symmetric])
  qed simp
  then show "j < j' \<Longrightarrow> ?thesis" by (metis add.commute add_le_cancel_left nonneg_int_cases zle_iff_zadd zless_imp_add1_zle)
qed

lemma civil_unique:
  assumes "0 \<le> m" "m \<le> 11" "1 \<le> d" "days_of_civil y m d < days_of_civil y (m + 1) 1"
  shows "civil_of_days (days_of_civil y m d) = (y, m + 1, d)"
proof -
  let ?n = "days_of_civil y m d"
  obtain y' m' d' where c: "civil_of_days ?n = (y', m', d')" by (cases "civil_of_days ?n") auto
  note r = civil_round_trip [OF c]
  have "days_of_civil y' (m' - 1) 1 \<le> ?n" "days_of_civil y m 1 \<le> ?n"
    using r(1,4) assms(3) days_of_civil_add [of y' "m' - 1" 1 "d' - 1"] days_of_civil_add [of y m 1 "d - 1"] by simp_all
  then have b: "days_of_civil 0 (12 * y' + (m' - 1)) 1 \<le> ?n" "days_of_civil 0 (12 * y + m) 1 \<le> ?n"
    "?n < days_of_civil 0 (12 * y' + (m' - 1) + 1) 1" "?n < days_of_civil 0 (12 * y + m + 1) 1"
    using civil_in_month [OF c] assms(4) by (simp_all add: days_of_civil_index [of y'] days_of_civil_index [of y] add.assoc)
  have "12 * y' + (m' - 1) = 12 * y + m"
    using month_start_mono [of "12 * y' + (m' - 1)" "12 * y + m"] month_start_mono [of "12 * y + m" "12 * y' + (m' - 1)"] b by linarith
  moreover from this have "y' = y" using r(2,3) assms(1,2) by linarith
  ultimately have ym: "y' = y" "m' = m + 1" by linarith+
  then have "d' = d" using r(1) days_of_civil_add [of y m 0 d] days_of_civil_add [of y m 0 d'] by simp
  with c ym show ?thesis by simp
qed

section \<open>The text of a date\<close>

text \<open>A reader of ISO texts, as the language defines \<open>Date.parse\<close> on them; the year takes what precedes the last
  twenty characters.\<close>

definition signed_digits :: "string \<Rightarrow> int" where
  "signed_digits s =
     (if starts_with ''-'' s then - int (digits_val (tl s)) else if starts_with ''+'' s then int (digits_val (tl s))
      else int (digits_val s))"

definition iso_ms_parse :: "string \<Rightarrow> int option" where
  "iso_ms_parse s =
     (let k = length s - 20; t = drop k s; num = (\<lambda>i n. int (digits_val (take n (drop i t))))
      in if 20 < length s \<and> t ! 6 = CHR ''T'' \<and> t ! 19 = CHR ''Z''
         then Some (days_of_civil (signed_digits (take k s)) (num 1 2 - 1) (num 4 2) * MS_PER_DAY
           + num 7 2 * 3600000 + num 10 2 * 60000 + num 13 2 * 1000 + num 16 3)
         else None)"

lemma padded_nat: "0 \<le> n \<Longrightarrow> padded k n = pad_start k CHR ''0'' (show_nat (nat n))"
  by (simp add: padded_def show_int_def)

lemma digits_padded: "0 \<le> n \<Longrightarrow> int (digits_val (padded k n)) = n"
  by (simp add: padded_nat)

lemma length_show_nat: "n < 10 ^ k \<Longrightarrow> 0 < k \<Longrightarrow> length (show_nat n) \<le> k"
proof (induction k arbitrary: n)
  case 0
  then show ?case by simp
next
  case (Suc k)
  show ?case
  proof (cases "n < 10")
    case True
    then show ?thesis by (simp add: show_nat.simps [of n])
  next
    case False
    then have "0 < k" using Suc.prems by (cases k) auto
    moreover have "n div 10 < 10 ^ k" using Suc.prems by (simp add: div_less_iff_less_mult mult.commute)
    ultimately show ?thesis using False Suc.IH by (simp add: show_nat.simps [of n])
  qed
qed

lemma length_padded: "0 \<le> n \<Longrightarrow> n < 10 ^ k \<Longrightarrow> 0 < k \<Longrightarrow> length (padded k n) = k"
proof -
  assume n: "0 \<le> n" "n < 10 ^ k" "0 < k"
  then have "nat n < 10 ^ k" by (simp add: nat_less_iff)
  with n(3) have "length (show_nat (nat n)) \<le> k" by (intro length_show_nat)
  then show ?thesis using n(1) by (simp add: padded_nat pad_start_def)
qed

lemma padded_head: "0 \<le> n \<Longrightarrow> 0 < k \<Longrightarrow> padded k n \<noteq> [] \<and> is_digit (hd (padded k n))"
proof -
  assume n: "0 \<le> n" "0 < k"
  have z: "is_digit CHR ''0''" by code_simp
  have "is_digit (hd (show_nat (nat n)))" by (rule show_nat_digits [of _ "nat n"]) simp
  then show ?thesis using n(1) z by (auto simp: padded_nat pad_start_def hd_append)
qed

lemma signed_iso_year: "signed_digits (iso_year y) = y \<and> iso_year y \<noteq> []"
proof -
  have d: "starts_with ''-'' s \<Longrightarrow> s \<noteq> [] \<Longrightarrow> hd s = CHR ''-''" "starts_with ''+'' s \<Longrightarrow> s \<noteq> [] \<Longrightarrow> hd s = CHR ''+''" for s
    by (cases s; simp)+
  have nd: "\<not> is_digit CHR ''-''" "\<not> is_digit CHR ''+''" by code_simp+
  consider "0 \<le> y" "y \<le> 9999" | "y < 0" | "9999 < y" by linarith
  then show ?thesis
  proof cases
    case 1
    then have p: "padded 4 y \<noteq> []" "is_digit (hd (padded 4 y))" using padded_head [of y 4] by auto
    then have "\<not> starts_with ''-'' (padded 4 y)" "\<not> starts_with ''+'' (padded 4 y)" using d nd by metis+
    then show ?thesis using 1 p digits_padded [of y 4] by (simp add: iso_year_def signed_digits_def)
  next
    case 2
    then show ?thesis using digits_padded [of "- y" 6] by (simp add: iso_year_def signed_digits_def)
  next
    case 3
    then show ?thesis using digits_padded [of y 6] by (simp add: iso_year_def signed_digits_def)
  qed
qed

lemma iso_tail_parse:
  assumes "length a = 2" "length b = 2" "length c = 2" "length e = 2" "length f = 2" "length g = 3" "y \<noteq> []"
  shows "iso_ms_parse (y @ ''-'' @ a @ ''-'' @ b @ ''T'' @ c @ '':'' @ e @ '':'' @ f @ ''.'' @ g @ ''Z'') =
    Some (days_of_civil (signed_digits y) (int (digits_val a) - 1) (int (digits_val b)) * MS_PER_DAY
      + int (digits_val c) * 3600000 + int (digits_val e) * 60000 + int (digits_val f) * 1000 + int (digits_val g))"
proof -
  obtain a0 a1 b0 b1 c0 c1 e0 e1 f0 f1 g0 g1 g2 where l: "a = [a0, a1]" "b = [b0, b1]" "c = [c0, c1]" "e = [e0, e1]" "f = [f0, f1]"
    "g = [g0, g1, g2]"
    using assms by (auto simp: length_Suc_conv eval_nat_numeral)
  have "0 < length y" using assms by simp
  then show ?thesis by (simp add: iso_ms_parse_def l Let_def eval_nat_numeral)
qed

text \<open>The text of a date determines it: reading what \<open>toISOString\<close> prints gives the same time value.\<close>

lemma iso_round_trip: "iso_ms_parse (toISOString ms) = Some ms"
proof -
  obtain y m d where ymd: "civil_of_days (ms div MS_PER_DAY) = (y, m, d)" by (cases "civil_of_days (ms div MS_PER_DAY)") auto
  note c = civil_round_trip [OF ymd]
  have t: "0 \<le> getUTCHours ms" "getUTCHours ms < 24" "0 \<le> getUTCMinutes ms" "getUTCMinutes ms < 60"
    "0 \<le> getUTCSeconds ms" "getUTCSeconds ms < 60" "0 \<le> getUTCMilliseconds ms" "getUTCMilliseconds ms < 1000"
    by (simp_all add: getUTCHours_def getUTCMinutes_def getUTCSeconds_def getUTCMilliseconds_def)
  have len: "length (padded 2 m) = 2" "length (padded 2 d) = 2" "length (padded 2 (getUTCHours ms)) = 2"
    "length (padded 2 (getUTCMinutes ms)) = 2" "length (padded 2 (getUTCSeconds ms)) = 2" "length (padded 3 (getUTCMilliseconds ms)) = 3"
    using c t by (simp_all add: length_padded)
  have val: "int (digits_val (padded 2 m)) = m" "int (digits_val (padded 2 d)) = d" "int (digits_val (padded 2 (getUTCHours ms))) = getUTCHours ms"
    "int (digits_val (padded 2 (getUTCMinutes ms))) = getUTCMinutes ms" "int (digits_val (padded 2 (getUTCSeconds ms))) = getUTCSeconds ms"
    "int (digits_val (padded 3 (getUTCMilliseconds ms))) = getUTCMilliseconds ms"
    using c t by (simp_all add: digits_padded)
  have "iso_ms_parse (toISOString ms) = Some (days_of_civil y (m - 1) d * MS_PER_DAY + getUTCHours ms * 3600000
      + getUTCMinutes ms * 60000 + getUTCSeconds ms * 1000 + getUTCMilliseconds ms)"
    using iso_tail_parse [OF len conjunct2 [OF signed_iso_year]] signed_iso_year [of y] val
    by (simp add: toISOString_def iso_date_def ymd)
  also have "\<dots> = Some ms"
  proof -
    have "ms div 1000 div 60 = ms div 60000" "ms div 60000 div 60 = ms div 3600000" "ms div 3600000 div 24 = ms div 86400000"
      by (rule div_div; simp)+
    then have "ms = ms div 1000 * 1000 + ms mod 1000" "ms div 1000 = ms div 60000 * 60 + ms div 1000 mod 60"
      "ms div 60000 = ms div 3600000 * 60 + ms div 60000 mod 60" "ms div 3600000 = ms div 86400000 * 24 + ms div 3600000 mod 24"
      using div_mult_mod_eq [of ms 1000] div_mult_mod_eq [of "ms div 1000" 60] div_mult_mod_eq [of "ms div 60000" 60]
        div_mult_mod_eq [of "ms div 3600000" 24] by linarith+
    then show ?thesis
      unfolding c(1) getUTCHours_def getUTCMinutes_def getUTCSeconds_def getUTCMilliseconds_def option.inject by linarith
  qed
  finally show ?thesis .
qed

section \<open>Local time\<close>

record zone =
  local_of :: "int \<Rightarrow> int"
  utc_of :: "int \<Rightarrow> int"

definition local_day :: "zone \<Rightarrow> int \<Rightarrow> int" where "local_day z d = local_of z d div MS_PER_DAY"
definition local_time :: "zone \<Rightarrow> int \<Rightarrow> int" where "local_time z d = local_of z d mod MS_PER_DAY"
definition date_at :: "zone \<Rightarrow> int \<Rightarrow> int \<Rightarrow> int" where "date_at z day t = utc_of z (day * MS_PER_DAY + t)"

definition getFullYear :: "zone \<Rightarrow> int \<Rightarrow> int" where "getFullYear z d = fst (civil_of_days (local_day z d))"
definition getMonth :: "zone \<Rightarrow> int \<Rightarrow> int" where "getMonth z d = fst (snd (civil_of_days (local_day z d))) - 1"
definition getDate :: "zone \<Rightarrow> int \<Rightarrow> int" where "getDate z d = snd (snd (civil_of_days (local_day z d)))"
definition getDay :: "zone \<Rightarrow> int \<Rightarrow> int" where "getDay z d = (local_day z d + 4) mod 7"
definition getHours :: "zone \<Rightarrow> int \<Rightarrow> int" where "getHours z d = local_time z d div 3600000"
definition getMinutes :: "zone \<Rightarrow> int \<Rightarrow> int" where "getMinutes z d = local_time z d div 60000 mod 60"

text \<open>\<open>new Date(y, m, d)\<close> with months from 0, which reads the years 0 to 99 as 1900 to 1999.\<close>

definition new_Date :: "zone \<Rightarrow> int \<Rightarrow> int \<Rightarrow> int \<Rightarrow> int" where
  "new_Date z y m d = date_at z (days_of_civil (if 0 \<le> y \<and> y \<le> 99 then 1900 + y else y) m d) 0"

definition setHours :: "zone \<Rightarrow> int \<Rightarrow> int \<Rightarrow> int \<Rightarrow> int \<Rightarrow> int \<Rightarrow> int" where
  "setHours z d h m s ms = date_at z (local_day z d) (h * 3600000 + m * 60000 + s * 1000 + ms)"

text \<open>\<open>setHours(h)\<close> keeps the minutes and what is below them, \<open>setDate\<close> the month and the time.\<close>

definition setHour :: "zone \<Rightarrow> int \<Rightarrow> int \<Rightarrow> int" where
  "setHour z d h = date_at z (local_day z d) (h * 3600000 + local_time z d mod 3600000)"

definition setDate :: "zone \<Rightarrow> int \<Rightarrow> int \<Rightarrow> int" where
  "setDate z d k = date_at z (days_of_civil (getFullYear z d) (getMonth z d) k) (local_time z d)"

text \<open>A zone without daylight saving.\<close>

definition fixed_zone :: "int \<Rightarrow> zone" where
  "fixed_zone off = \<lparr>local_of = (\<lambda>t. t + off), utc_of = (\<lambda>t. t - off)\<rparr>"

lemma local_date_at: "local_of (fixed_zone off) (date_at (fixed_zone off) day t) = day * MS_PER_DAY + t"
  by (simp add: fixed_zone_def date_at_def)

lemma local_day_at: "0 \<le> t \<Longrightarrow> t < MS_PER_DAY \<Longrightarrow> local_day (fixed_zone off) (date_at (fixed_zone off) day t) = day"
  by (simp add: local_day_def local_date_at)

lemma local_time_at: "0 \<le> t \<Longrightarrow> t < MS_PER_DAY \<Longrightarrow> local_time (fixed_zone off) (date_at (fixed_zone off) day t) = t"
  by (simp add: local_time_def local_date_at)

lemma date_at_local: "date_at (fixed_zone off) (local_day (fixed_zone off) d) (local_time (fixed_zone off) d) = d"
  using div_mult_mod_eq [of "d + off" MS_PER_DAY] by (simp add: date_at_def local_day_def local_time_def fixed_zone_def)

lemma local_time_bounds: "0 \<le> local_time z d" "local_time z d < MS_PER_DAY"
  by (simp_all add: local_time_def)

lemma date_order:
  "d \<le> d' \<longleftrightarrow> local_day (fixed_zone off) d < local_day (fixed_zone off) d'
     \<or> local_day (fixed_zone off) d = local_day (fixed_zone off) d' \<and> local_time (fixed_zone off) d \<le> local_time (fixed_zone off) d'"
proof -
  let ?q = "\<lambda>x. (x + off) div 86400000" and ?r = "\<lambda>x. (x + off) mod 86400000"
  have split: "x + off = ?q x * 86400000 + ?r x" "0 \<le> ?r x" "?r x < 86400000" for x by simp_all
  have "d \<le> d' \<longleftrightarrow> ?q d < ?q d' \<or> ?q d = ?q d' \<and> ?r d \<le> ?r d'"
  proof -
    consider "?q d < ?q d'" | "?q d = ?q d'" | "?q d' < ?q d" by linarith
    then show ?thesis using split [of d] split [of d'] by cases linarith+
  qed
  then show ?thesis by (simp add: local_day_def local_time_def fixed_zone_def)
qed

lemma local_day_civil: "days_of_civil (getFullYear z d) (getMonth z d) (getDate z d) = local_day z d"
  using civil_round_trip [of "local_day z d"]
  by (cases "civil_of_days (local_day z d)") (auto simp: getFullYear_def getMonth_def getDate_def)

section \<open>Zones that change their clock\<close>

text \<open>What the language promises of a zone: a reading of the clock that is skipped is read with the offset before the change,
  and so lands after it; one that comes twice is the first of the two; and the clock changes at whole minutes.\<close>

definition steady_clock :: "zone \<Rightarrow> bool" where
  "steady_clock z =
     ((\<forall>w y. local_of z (utc_of z w) < y \<longrightarrow> utc_of z w < utc_of z y) \<and> (\<forall>y. y \<le> local_of z (utc_of z y))
      \<and> (\<forall>d. local_of z (utc_of z (local_of z d - local_of z d mod 60000)) = local_of z d - local_of z d mod 60000))"

text \<open>The clock is never changed across a midnight: each day is the stretch of time from its midnight to the next one, and
  every time of day, skipped ones included, is found on its own day.\<close>

definition keeps_days :: "zone \<Rightarrow> bool" where
  "keeps_days z =
     ((\<forall>day d. date_at z day 0 \<le> d \<longleftrightarrow> day \<le> local_day z d)
      \<and> (\<forall>day t. 0 \<le> t \<and> t < MS_PER_DAY \<longrightarrow> local_day z (date_at z day t) = day))"

text \<open>A zone that changes its offset once.\<close>

definition changing_zone :: "int \<Rightarrow> int \<Rightarrow> int \<Rightarrow> zone" where
  "changing_zone before change after =
     \<lparr>local_of = (\<lambda>t. if t < change then t + before else t + after),
      utc_of = (\<lambda>w. if w < change + max before after then w - before else w - after)\<rparr>"

lemma le_day: "day \<le> w div MS_PER_DAY \<longleftrightarrow> day * MS_PER_DAY \<le> (w :: int)"
proof -
  have "w = w div MS_PER_DAY * MS_PER_DAY + w mod MS_PER_DAY" "0 \<le> w mod MS_PER_DAY" "w mod MS_PER_DAY < MS_PER_DAY" by simp_all
  then show ?thesis by linarith
qed

lemma changing_zone_keeps_days:
  assumes "day0 * MS_PER_DAY \<le> change + before" "day0 * MS_PER_DAY \<le> change + after" "change + before \<le> (day0 + 1) * MS_PER_DAY"
    "change + after \<le> (day0 + 1) * MS_PER_DAY" "change + after + (after - before) \<le> (day0 + 1) * MS_PER_DAY"
  shows "keeps_days (changing_zone before change after)"
  unfolding keeps_days_def
proof (intro conjI allI impI)
  let ?z = "changing_zone before change after"
  fix day d :: int
  consider "day \<le> day0" | "day0 + 1 \<le> day" by linarith
  then show "date_at ?z day 0 \<le> d \<longleftrightarrow> day \<le> local_day ?z d"
    using assms by cases (auto simp: date_at_def local_day_def changing_zone_def le_day max_def)
next
  let ?z = "changing_zone before change after"
  fix day t :: int
  assume t: "0 \<le> t \<and> t < MS_PER_DAY"
  consider "day \<le> day0 - 1" | "day = day0" | "day0 + 1 \<le> day" by linarith
  then have "day * MS_PER_DAY \<le> local_of ?z (date_at ?z day t)" "local_of ?z (date_at ?z day t) < (day + 1) * MS_PER_DAY"
    using assms t by (cases; auto simp: date_at_def changing_zone_def max_def)+
  then show "local_day ?z (date_at ?z day t) = day"
    using le_day [of day "local_of ?z (date_at ?z day t)"] le_day [of "day + 1" "local_of ?z (date_at ?z day t)"]
    by (simp add: local_day_def)
qed

lemma changing_zone_steady:
  assumes "(change + after) mod 60000 = 0"
  shows "steady_clock (changing_zone before change after)"
  unfolding steady_clock_def
proof (intro conjI allI)
  let ?z = "changing_zone before change after"
  show "local_of ?z (utc_of ?z w) < y \<longrightarrow> utc_of ?z w < utc_of ?z y" "y \<le> local_of ?z (utc_of ?z y)" for w y
    by (auto simp: changing_zone_def max_def split: if_splits)
  fix d
  have "change + after \<le> w - w mod 60000" if "change + after \<le> w" for w
  proof -
    have "(change + after) div 60000 \<le> w div 60000" using that by (rule zdiv_mono1) simp
    moreover have "change + after = (change + after) div 60000 * 60000" using assms div_mult_mod_eq [of "change + after" 60000] by simp
    moreover have "w - w mod 60000 = w div 60000 * 60000" by (simp add: minus_mod_eq_div_mult)
    ultimately show ?thesis by linarith
  qed
  from this [of "d + after"] have "change \<le> d \<Longrightarrow> change + after \<le> d + after - (d + after) mod 60000" by simp
  moreover have "0 \<le> w mod 60000" for w :: int by simp
  ultimately show "local_of ?z (utc_of ?z (local_of ?z d - local_of ?z d mod 60000)) = local_of ?z d - local_of ?z d mod 60000"
    by (smt (verit) changing_zone_def zone.select_convs)
qed

text \<open>Berlin in the spring of 2024, when the clock went from two to three in the morning of 31 March, and Nuuk, where it went from
  eleven in the evening of 30 March to midnight, so that an hour of the evening was skipped.\<close>

definition berlin_zone :: zone where "berlin_zone = changing_zone 3600000 1711846800000 7200000"
definition nuuk_zone :: zone where "nuuk_zone = changing_zone (- 7200000) 1711846800000 (- 3600000)"

lemma berlin_keeps_days: "keeps_days berlin_zone" "steady_clock berlin_zone"
  unfolding berlin_zone_def by (rule changing_zone_keeps_days [of 19813] changing_zone_steady; simp)+

lemma nuuk_skips_evening: "steady_clock nuuk_zone" "\<not> keeps_days nuuk_zone"
proof -
  show "steady_clock nuuk_zone" unfolding nuuk_zone_def by (rule changing_zone_steady) simp
  have "local_day nuuk_zone (date_at nuuk_zone 19812 84600000) = 19813" by code_simp
  moreover have "(0 :: int) \<le> 84600000" "(84600000 :: int) < MS_PER_DAY" by simp_all
  ultimately show "\<not> keeps_days nuuk_zone" unfolding keeps_days_def by fastforce
qed

lemma fixed_zone_keeps_days: "keeps_days (fixed_zone off)" "steady_clock (fixed_zone off)"
proof -
  show "keeps_days (fixed_zone off)"
    unfolding keeps_days_def by (simp add: local_day_at) (auto simp: date_at_def fixed_zone_def local_day_def le_day)
  show "steady_clock (fixed_zone off)" by (simp add: steady_clock_def fixed_zone_def)
qed

end
