(* ===== verification/ExceptionPicker.thy ===== *)
theory ExceptionPicker
  imports Calendar Formatters
begin

text \<open>
  \<open>components/policies/ExceptionWindowPicker.tsx\<close>: the two months of the calendar, the choice of a first and
  a last day, the steppers for the times, and the window they make, kept as two ISO texts in the form around it.
  Dates are in local time, over the zone of the browser.
\<close>

section \<open>Dates and texts\<close>

definition DEFAULT_START_TIME :: string where "DEFAULT_START_TIME = ''09:00''"
definition DEFAULT_END_TIME :: string where "DEFAULT_END_TIME = ''17:00''"

definition HOURS_TEXT :: "string list" where "HOURS_TEXT = map two_digits [0..<24]"
definition MINUTES_TEXT :: "string list" where "MINUTES_TEXT = map two_digits [0, 5, 10, 15, 20, 25, 30, 35, 40, 45, 50, 55]"

definition startOfDay :: "zone \<Rightarrow> int \<Rightarrow> int" where "startOfDay z d = setHours z d 0 0 0 0"
definition addMonths :: "zone \<Rightarrow> int \<Rightarrow> int \<Rightarrow> int" where "addMonths z d n = new_Date z (getFullYear z d) (getMonth z d + n) 1"
definition addHours :: "zone \<Rightarrow> int \<Rightarrow> int \<Rightarrow> int" where "addHours z d n = setHour z d (getHours z d + n)"

definition sameDay :: "zone \<Rightarrow> int \<Rightarrow> int \<Rightarrow> bool" where
  "sameDay z a b = (getFullYear z a = getFullYear z b \<and> getMonth z a = getMonth z b \<and> getDate z a = getDate z b)"

definition formatDuration :: "int \<Rightarrow> string" where
  "formatDuration ms =
     (if ms \<le> 0 then ''0m''
      else let mins = ms div 60000; d = mins div 1440; h = mins mod 1440 div 60; m = mins mod 60
           in join_with '' '' ((if d \<noteq> 0 then [show_int d @ ''d''] else []) @ (if h \<noteq> 0 then [show_int h @ ''h''] else [])
                @ (if m \<noteq> 0 then [show_int m @ ''m''] else [])))"

definition buildMonthGrid :: "zone \<Rightarrow> int \<Rightarrow> int list" where
  "buildMonthGrid z anchor =
     (let first = new_Date z (getFullYear z anchor) (getMonth z anchor) 1;
          gridStart = setDate z first (1 - js_rem (getDay z first + 6) 7)
      in map (\<lambda>i. new_Date z (getFullYear z gridStart) (getMonth z gridStart) (getDate z gridStart + int i)) [0..<42])"

definition timeOf :: "zone \<Rightarrow> int \<Rightarrow> string" where
  "timeOf z d = padded 2 (getHours z d) @ '':'' @ padded 2 (getMinutes z d)"

text \<open>\<open>parseInt(n, 10) || 0\<close>, an integer.\<close>

definition int_or_zero :: "string \<Rightarrow> int" where
  "int_or_zero s = (case parse_int s of NaN \<Rightarrow> 0 | Num r \<Rightarrow> \<lfloor>r\<rfloor>)"

text \<open>A missing minute is \<open>undefined\<close>, and the date invalid; the steppers always give both.\<close>

definition combineDateTime :: "zone \<Rightarrow> int \<Rightarrow> string \<Rightarrow> int option" where
  "combineDateTime z day hhmm =
     (case map int_or_zero (split_on CHR '':'' hhmm) of
        h # m # _ \<Rightarrow> Some (setHours z day h m 0 0)
      | _ \<Rightarrow> None)"

definition parseISO :: "js_env \<Rightarrow> string \<Rightarrow> int option" where
  "parseISO env s = (if s = [] then None else date_parse env s)"

section \<open>A month on the screen\<close>

record day_cell =
  dc_date :: int
  dc_disabled :: bool
  dc_today :: bool
  dc_start :: bool
  dc_end :: bool
  dc_inRange :: bool
  dc_inPreview :: bool
  dc_previewEnd :: bool

definition previewEnd :: "int option \<Rightarrow> int option \<Rightarrow> int option \<Rightarrow> int option" where
  "previewEnd startDay endDay hoverDay =
     (case (startDay, endDay, hoverDay) of (Some s, None, Some h) \<Rightarrow> if s < h then Some h else None | _ \<Rightarrow> None)"

definition day_cell_of ::
    "zone \<Rightarrow> int \<Rightarrow> int \<Rightarrow> int option \<Rightarrow> int option \<Rightarrow> int option \<Rightarrow> int option \<Rightarrow> int \<Rightarrow> day_cell" where
  "day_cell_of z now anchor startDay endDay hoverDay minDate d =
     (let inMonth = (getMonth z d = getMonth z anchor);
          isBeforeMin = (case minDate of Some m \<Rightarrow> d < startOfDay z m | None \<Rightarrow> False);
          preview = previewEnd startDay endDay hoverDay
      in \<lparr>dc_date = d, dc_disabled = (isBeforeMin \<or> \<not> inMonth), dc_today = sameDay z d (startOfDay z now),
          dc_start = (case startDay of Some s \<Rightarrow> sameDay z d s | None \<Rightarrow> False),
          dc_end = (case endDay of Some e \<Rightarrow> sameDay z d e | None \<Rightarrow> False),
          dc_inRange = (case (startDay, endDay) of (Some s, Some e) \<Rightarrow> s \<le> d \<and> d \<le> e | _ \<Rightarrow> False),
          dc_inPreview = (case (startDay, preview) of (Some s, Some p) \<Rightarrow> s < d \<and> d \<le> p | _ \<Rightarrow> False),
          dc_previewEnd = (case preview of Some p \<Rightarrow> sameDay z d p | None \<Rightarrow> False)\<rparr>)"

definition MonthView ::
    "zone \<Rightarrow> int \<Rightarrow> int \<Rightarrow> int option \<Rightarrow> int option \<Rightarrow> int option \<Rightarrow> int option \<Rightarrow> day_cell list" where
  "MonthView z now anchor startDay endDay hoverDay minDate =
     map (day_cell_of z now anchor startDay endDay hoverDay minDate) (buildMonthGrid z anchor)"

section \<open>The steppers\<close>

text \<open>\<open>value.split(':')\<close>: the hour and the minute of the text. The steppers are only given texts with both.\<close>

definition time_parts :: "string \<Rightarrow> string \<times> string" where
  "time_parts v = (case split_on CHR '':'' v of hh # mm # _ \<Rightarrow> (hh, mm) | _ \<Rightarrow> (v, []))"

definition step_time :: "string \<Rightarrow> int \<Rightarrow> string" where
  "step_time v deltaMin =
     (let (hh, mm) = time_parts v;
          tot = int_or_zero hh * 60 + int_or_zero mm + deltaMin;
          wrapped = js_rem (js_rem tot 1440 + 1440) 1440
      in padded 2 (wrapped div 60) @ '':'' @ padded 2 (wrapped mod 60))"

datatype stepper_event = StepBy15 bool | PickHour nat | PickMinute nat

fun stepper :: "string \<Rightarrow> stepper_event \<Rightarrow> string" where
  "stepper v (StepBy15 up) = step_time v (if up then 15 else - 15)"
| "stepper v (PickHour k) = (if k < length HOURS_TEXT then HOURS_TEXT ! k @ '':'' @ snd (time_parts v) else v)"
| "stepper v (PickMinute k) = (if k < length MINUTES_TEXT then fst (time_parts v) @ '':'' @ MINUTES_TEXT ! k else v)"

section \<open>The picker\<close>

record window_value =
  startISO :: string
  endISO :: string

record window_picker =
  wp_value :: window_value
  wp_anchor :: int
  wp_hover :: "int option"

text \<open>What the component derives from its value in each render.\<close>

definition startDate :: "js_env \<Rightarrow> window_value \<Rightarrow> int option" where "startDate env v = parseISO env (startISO v)"
definition endDate :: "js_env \<Rightarrow> window_value \<Rightarrow> int option" where "endDate env v = parseISO env (endISO v)"
definition startDay :: "js_env \<Rightarrow> zone \<Rightarrow> window_value \<Rightarrow> int option" where
  "startDay env z v = map_option (startOfDay z) (startDate env v)"
definition endDay :: "js_env \<Rightarrow> zone \<Rightarrow> window_value \<Rightarrow> int option" where
  "endDay env z v = map_option (startOfDay z) (endDate env v)"
definition wp_startTime :: "js_env \<Rightarrow> zone \<Rightarrow> window_value \<Rightarrow> string" where
  "wp_startTime env z v = (case startDate env v of Some d \<Rightarrow> timeOf z d | None \<Rightarrow> DEFAULT_START_TIME)"
definition wp_endTime :: "js_env \<Rightarrow> zone \<Rightarrow> window_value \<Rightarrow> string" where
  "wp_endTime env z v = (case endDate env v of Some d \<Rightarrow> timeOf z d | None \<Rightarrow> DEFAULT_END_TIME)"

text \<open>\<open>toISOString\<close> of an invalid date throws; the value then stays.\<close>

definition emit_iso :: "zone \<Rightarrow> int option \<Rightarrow> string \<Rightarrow> string option" where
  "emit_iso z day hhmm =
     (case day of None \<Rightarrow> Some [] | Some d \<Rightarrow> map_option toISOString (combineDateTime z d hhmm))"

definition emit_window :: "zone \<Rightarrow> int option \<Rightarrow> int option \<Rightarrow> string \<Rightarrow> string \<Rightarrow> window_value \<Rightarrow> window_value" where
  "emit_window z nextStartDay nextEndDay nextStartTime nextEndTime v =
     (case (emit_iso z nextStartDay nextStartTime, emit_iso z nextEndDay nextEndTime) of
        (Some s, Some e) \<Rightarrow> \<lparr>startISO = s, endISO = e\<rparr>
      | _ \<Rightarrow> v)"

definition bumpedTime :: "zone \<Rightarrow> int \<Rightarrow> string" where
  "bumpedTime z sStart =
     (let bumped = addHours z sStart 1 in padded 2 (getHours z bumped) @ '':'' @ padded 2 (getMinutes z bumped))"

definition pickDay :: "js_env \<Rightarrow> zone \<Rightarrow> int \<Rightarrow> window_value \<Rightarrow> window_value" where
  "pickDay env z d v =
     (let st = wp_startTime env z v; en = wp_endTime env z v
      in case (startDay env z v, endDay env z v) of
           (None, _) \<Rightarrow> emit_window z (Some d) None st en v
         | (Some s, Some e) \<Rightarrow> emit_window z (Some d) None st en v
         | (Some s, None) \<Rightarrow>
             if d < s then emit_window z (Some d) (Some s) st en v
             else let nextEndTime =
                        (if sameDay z d s
                         then (case (combineDateTime z d st, combineDateTime z d en) of
                                 (Some sStart, Some sEnd) \<Rightarrow> if sEnd \<le> sStart then bumpedTime z sStart else en
                               | _ \<Rightarrow> en)
                         else en)
                  in emit_window z (Some s) (Some d) st nextEndTime v)"

definition window_duration :: "js_env \<Rightarrow> window_value \<Rightarrow> string option" where
  "window_duration env v =
     (case (startDate env v, endDate env v) of
        (Some s, Some e) \<Rightarrow> if s < e then Some (formatDuration (e - s)) else None
      | _ \<Rightarrow> None)"

text \<open>The cells of the left and of the right month are numbered from 0; the time of an event is the time of its
  render. \<open>minDate\<close> is given when the window may not begin in the past.\<close>

datatype picker_input =
    CellClicked bool nat int
  | CellHovered bool nat int
  | HoverLeft
  | StartStepped stepper_event
  | EndStepped stepper_event
  | SelectionCleared
  | PrevMonth
  | NextMonth
  | JumpToday int

definition month_cell :: "js_env \<Rightarrow> zone \<Rightarrow> bool \<Rightarrow> window_picker \<Rightarrow> bool \<Rightarrow> nat \<Rightarrow> int \<Rightarrow> day_cell option" where
  "month_cell env z fromNow s right i now =
     (let cells = MonthView z now (if right then addMonths z (wp_anchor s) 1 else wp_anchor s) (startDay env z (wp_value s))
                    (endDay env z (wp_value s)) (wp_hover s) (if fromNow then Some now else None)
      in if i < length cells then Some (cells ! i) else None)"

fun window_picker_step :: "js_env \<Rightarrow> zone \<Rightarrow> bool \<Rightarrow> window_picker \<Rightarrow> picker_input \<Rightarrow> window_picker" where
  "window_picker_step env z fromNow s (CellClicked right i now) =
     (case month_cell env z fromNow s right i now of
        None \<Rightarrow> s
      | Some c \<Rightarrow> if dc_disabled c then s else s\<lparr>wp_value := pickDay env z (dc_date c) (wp_value s)\<rparr>)"
| "window_picker_step env z fromNow s (CellHovered right i now) =
     (case month_cell env z fromNow s right i now of
        None \<Rightarrow> s
      | Some c \<Rightarrow> if dc_disabled c then s else s\<lparr>wp_hover := Some (dc_date c)\<rparr>)"
| "window_picker_step env z fromNow s HoverLeft = s\<lparr>wp_hover := None\<rparr>"
| "window_picker_step env z fromNow s (StartStepped e) =
     s\<lparr>wp_value := emit_window z (startDay env z (wp_value s)) (endDay env z (wp_value s))
         (stepper (wp_startTime env z (wp_value s)) e) (wp_endTime env z (wp_value s)) (wp_value s)\<rparr>"
| "window_picker_step env z fromNow s (EndStepped e) =
     s\<lparr>wp_value := emit_window z (startDay env z (wp_value s)) (endDay env z (wp_value s))
         (wp_startTime env z (wp_value s)) (stepper (wp_endTime env z (wp_value s)) e) (wp_value s)\<rparr>"
| "window_picker_step env z fromNow s SelectionCleared =
     (if startDay env z (wp_value s) \<noteq> None \<or> endDay env z (wp_value s) \<noteq> None
      then s\<lparr>wp_value := \<lparr>startISO = [], endISO = []\<rparr>, wp_hover := None\<rparr> else s)"
| "window_picker_step env z fromNow s PrevMonth = s\<lparr>wp_anchor := addMonths z (wp_anchor s) (- 1)\<rparr>"
| "window_picker_step env z fromNow s NextMonth = s\<lparr>wp_anchor := addMonths z (wp_anchor s) 1\<rparr>"
| "window_picker_step env z fromNow s (JumpToday now) = s\<lparr>wp_anchor := addMonths z now 0\<rparr>"

section \<open>The grid of a month\<close>

lemma js_rem_nonneg: "0 \<le> a \<Longrightarrow> 0 < b \<Longrightarrow> js_rem a b = a mod b"
  by (simp add: js_rem_def sgn_if)

lemma local_fields:
  "0 \<le> getMonth z d \<and> getMonth z d \<le> 11 \<and> 1 \<le> getDate z d
     \<and> local_day z d < days_of_civil (getFullYear z d) (getMonth z d + 1) 1
     \<and> local_day z d = days_of_civil (getFullYear z d) (getMonth z d) 1 + (getDate z d - 1)"
proof -
  obtain y m k where c: "civil_of_days (local_day z d) = (y, m, k)" by (cases "civil_of_days (local_day z d)") auto
  note r = civil_round_trip [OF c]
  have "days_of_civil y (m - 1) k = days_of_civil y (m - 1) 1 + (k - 1)"
    using days_of_civil_add [of y "m - 1" 1 "k - 1"] by simp
  moreover have "getFullYear z d = y" "getMonth z d = m - 1" "getDate z d = k"
    by (simp_all add: getFullYear_def getMonth_def getDate_def c)
  ultimately show ?thesis using r civil_in_month [OF c] by simp
qed

lemma sameDay_iff: "sameDay z a b \<longleftrightarrow> local_day z a = local_day z b"
proof
  assume "sameDay z a b"
  then show "local_day z a = local_day z b" using local_day_civil [of z a] local_day_civil [of z b] by (simp add: sameDay_def)
next
  assume "local_day z a = local_day z b"
  then show "sameDay z a b" by (simp add: sameDay_def getFullYear_def getMonth_def getDate_def)
qed

lemma first_of_month:
  fixes off :: int
  defines "z \<equiv> fixed_zone off"
  assumes "100 < getFullYear z a"
  defines "f \<equiv> new_Date z (getFullYear z a) (getMonth z a) 1"
  shows "local_day z f = days_of_civil (getFullYear z a) (getMonth z a) 1" "local_time z f = 0"
    and "getFullYear z f = getFullYear z a" "getMonth z f = getMonth z a" "getDate z f = 1"
proof -
  note lf = local_fields [of z a]
  show d: "local_day z f = days_of_civil (getFullYear z a) (getMonth z a) 1" "local_time z f = 0"
    using assms(2) local_day_at [of 0 off] local_time_at [of 0 off] by (simp_all add: f_def new_Date_def z_def)
  have "civil_of_days (local_day z f) = (getFullYear z a, getMonth z a + 1, 1)"
    unfolding d(1) using lf month_length [of "getFullYear z a" "getMonth z a"] by (intro civil_unique) auto
  then show "getFullYear z f = getFullYear z a" "getMonth z f = getMonth z a" "getDate z f = 1"
    by (simp_all add: getFullYear_def getMonth_def getDate_def)
qed

lemma year_before:
  assumes "days_of_civil y (m - 1) 1 \<le> local_day z d" "0 \<le> m"
  shows "y - 1 \<le> getFullYear z d"
proof (rule ccontr)
  assume "\<not> y - 1 \<le> getFullYear z d"
  moreover note lf = local_fields [of z d]
  ultimately have "12 * getFullYear z d + getMonth z d < 12 * y + (m - 1)" using assms(2) by linarith
  from month_start_mono [OF this] show False
    using assms(1) lf by (simp add: days_of_civil_index [of y] days_of_civil_index [of "getFullYear z d"] add.assoc)
qed

text \<open>The first day the grid of a month shows.\<close>

definition grid_start :: "zone \<Rightarrow> int \<Rightarrow> int" where
  "grid_start z a = (let day1 = days_of_civil (getFullYear z a) (getMonth z a) 1 in day1 - (day1 + 3) mod 7)"

lemma month_grid_days:
  fixes off :: int
  defines "z \<equiv> fixed_zone off"
  assumes "100 < getFullYear z a"
  shows "buildMonthGrid z a = map (\<lambda>i. date_at z (grid_start z a + int i) 0) [0..<42]"
proof -
  let ?f = "new_Date z (getFullYear z a) (getMonth z a) 1" and ?d1 = "days_of_civil (getFullYear z a) (getMonth z a) 1"
  note f = first_of_month [OF assms(2) [unfolded z_def], folded z_def]
  have "js_rem (getDay z ?f + 6) 7 = (getDay z ?f + 6) mod 7" by (rule js_rem_nonneg) (simp_all add: getDay_def)
  also have "\<dots> = (?d1 + 10) mod 7" unfolding getDay_def f(1) mod_add_left_eq by (simp add: add.assoc)
  also have "\<dots> = (?d1 + 3) mod 7" using mod_add_self2 [of "?d1 + 3" 7] by (simp add: add.assoc)
  finally have k: "js_rem (getDay z ?f + 6) 7 = (?d1 + 3) mod 7" .
  obtain g where g_def: "g = setDate z ?f (1 - js_rem (getDay z ?f + 6) 7)" by blast
  have "days_of_civil (getFullYear z a) (getMonth z a) (1 - (?d1 + 3) mod 7) = ?d1 - (?d1 + 3) mod 7"
    using days_of_civil_add [of "getFullYear z a" "getMonth z a" 1 "- ((?d1 + 3) mod 7)"] by simp
  then have "g = date_at z (grid_start z a) 0"
    unfolding g_def setDate_def f k by (simp add: grid_start_def Let_def)
  then have gd: "local_day z g = grid_start z a" using local_day_at [of 0 off] by (simp add: z_def)
  have "(?d1 + 3) mod 7 < 7" by simp
  moreover have "days_of_civil (getFullYear z a) (getMonth z a - 1) 1 + 28 \<le> ?d1"
    using month_length [of "getFullYear z a" "getMonth z a - 1"] by simp
  ultimately have "days_of_civil (getFullYear z a) (getMonth z a - 1) 1 \<le> local_day z g"
    unfolding gd grid_start_def Let_def by linarith
  from year_before [OF this] have y: "\<not> (0 \<le> getFullYear z g \<and> getFullYear z g \<le> 99)"
    using assms(2) local_fields [of z a] by simp
  have "new_Date z (getFullYear z g) (getMonth z g) (getDate z g + int i) = date_at z (grid_start z a + int i) 0" for i
    using y days_of_civil_add [of "getFullYear z g" "getMonth z g" "getDate z g" "int i"] local_day_civil [of z g]
    by (auto simp: new_Date_def gd)
  then show ?thesis by (simp only: buildMonthGrid_def Let_def g_def [symmetric])
qed

text \<open>The grid of a month shows 42 days in a row at their local midnight, begins on a Monday, and contains
  every day of the month, in every zone without daylight saving.\<close>

theorem month_grid_complete:
  assumes "100 < getFullYear (fixed_zone off) a"
  shows "let z = fixed_zone off; g = buildMonthGrid z a
    in length g = 42 \<and> getDay z (g ! 0) = 1
      \<and> (\<forall>i < 42. local_day z (g ! i) = local_day z (g ! 0) + int i \<and> local_time z (g ! i) = 0)
      \<and> (\<forall>d. getFullYear z d = getFullYear z a \<and> getMonth z d = getMonth z a \<longrightarrow> (\<exists>i < 42. sameDay z (g ! i) d))"
proof -
  let ?z = "fixed_zone off" and ?g = "buildMonthGrid (fixed_zone off) a"
  let ?d1 = "days_of_civil (getFullYear ?z a) (getMonth ?z a) 1"
  have nth: "local_day ?z (?g ! i) = grid_start ?z a + int i \<and> local_time ?z (?g ! i) = 0" if "i < 42" for i
    using that by (simp add: month_grid_days [OF assms] local_day_at local_time_at)
  have "getDay ?z (?g ! 0) = 1"
    using nth [of 0] by (simp add: getDay_def grid_start_def Let_def) presburger
  moreover have "\<exists>i < 42. sameDay ?z (?g ! i) d" if d: "getFullYear ?z d = getFullYear ?z a" "getMonth ?z d = getMonth ?z a" for d
  proof -
    have "?d1 \<le> local_day ?z d" "local_day ?z d < ?d1 + 31"
      using local_fields [of ?z d] month_length [of "getFullYear ?z a" "getMonth ?z a"] unfolding d by linarith+
    moreover have "0 \<le> (?d1 + 3) mod 7" "(?d1 + 3) mod 7 < 7" by simp_all
    ultimately have b: "0 \<le> local_day ?z d - grid_start ?z a" "local_day ?z d - grid_start ?z a < 42"
      by (simp_all add: grid_start_def Let_def)
    show ?thesis
      using b nth [of "nat (local_day ?z d - grid_start ?z a)"]
      by (intro exI [of _ "nat (local_day ?z d - grid_start ?z a)"]) (simp add: sameDay_iff)
  qed
  moreover have "length ?g = 42" by (simp add: buildMonthGrid_def Let_def)
  ultimately show ?thesis using nth nth [of 0] by (simp add: Let_def)
qed

definition grid_witness :: "int list \<Rightarrow> bool" where
  "grid_witness g = (length g = 42 \<and> getDay (fixed_zone 7200000) (g ! 0) = 1)"

theorem month_grid_complete_witness: "grid_witness (buildMonthGrid (fixed_zone 7200000) 1711289700123)"
proof -
  have "100 < getFullYear (fixed_zone 7200000) 1711289700123" by code_simp
  from month_grid_complete [OF this] show ?thesis by (simp add: grid_witness_def Let_def)
qed

section \<open>Times of day\<close>

lemma padded_two: "0 \<le> n \<Longrightarrow> padded 2 n = two_digits (nat n)"
  by (simp add: padded_nat two_digits_def)

lemma int_or_zero_digits: "all_digits s \<Longrightarrow> int_or_zero s = int (digits_val s)"
proof -
  assume "all_digits s"
  then have "parse_int s = Num (of_nat (digits_val s))" by (rule parse_int_digits)
  then show ?thesis by (simp add: int_or_zero_def)
qed

lemma split_valid_time: "valid_time s \<Longrightarrow> split_on CHR '':'' s = [take 2 s, drop 3 s]"
  by (subst valid_time_shape(1), assumption) (simp add: split_on_sep split_on_no_sep valid_time_shape)

lemma time_parts_valid: "valid_time s \<Longrightarrow> time_parts s = (take 2 s, drop 3 s)"
  by (simp add: time_parts_def split_valid_time)

lemma combine_valid:
  "valid_time t \<Longrightarrow> combineDateTime z d t = Some (date_at z (local_day z d) (clock_minutes t * 60000))"
  by (simp add: combineDateTime_def split_valid_time int_or_zero_digits valid_time_shape setHours_def clock_minutes_def algebra_simps)

lemma valid_time_padded: "0 \<le> h \<Longrightarrow> h < 24 \<Longrightarrow> 0 \<le> m \<Longrightarrow> m < 60 \<Longrightarrow> valid_time (padded 2 h @ '':'' @ padded 2 m)"
  using valid_time_two_digits [of "nat h" "nat m"] by (simp add: padded_two)

lemma time_bounds: "0 \<le> getHours z d \<and> getHours z d < 24 \<and> 0 \<le> getMinutes z d \<and> getMinutes z d < 60"
proof -
  have "local_time z d div 3600000 \<le> 86399999 div 3600000"
    using local_time_bounds [of z d] by (intro zdiv_mono1) simp_all
  then show ?thesis using local_time_bounds [of z d] by (simp add: getHours_def getMinutes_def pos_imp_zdiv_nonneg_iff)
qed

lemma timeOf_valid: "valid_time (timeOf z d)"
  unfolding timeOf_def using time_bounds [of z d] by (intro valid_time_padded) auto

lemma valid_time_compose: "valid_time u \<Longrightarrow> valid_time v \<Longrightarrow> valid_time (take 2 u @ '':'' @ drop 3 v)"
  by (simp add: valid_time_def nth_append)

lemma default_times: "valid_time DEFAULT_START_TIME" "valid_time DEFAULT_END_TIME"
  by code_simp+

lemma step_time_valid: "valid_time v \<Longrightarrow> valid_time (step_time v delta)"
proof -
  assume v: "valid_time v"
  obtain w where w: "js_rem (js_rem (int_or_zero (take 2 v) * 60 + int_or_zero (drop 3 v) + delta) 1440 + 1440) 1440 = w" by blast
  have "- 1440 < js_rem x 1440" for x :: int
    by (cases "x = 0"; cases "0 < x") (auto simp: js_rem_def sgn_if intro: less_le_trans [of _ 0])
  from this [of "int_or_zero (take 2 v) * 60 + int_or_zero (drop 3 v) + delta"] w have "0 \<le> w" "w < 1440"
    by (auto simp: js_rem_nonneg)
  then show ?thesis
    using valid_time_padded [of "w div 60" "w mod 60"] by (simp add: step_time_def time_parts_valid [OF v] w Let_def)
qed

lemma stepper_valid: "valid_time v \<Longrightarrow> valid_time (stepper v e)"
proof (cases e)
  case (StepBy15 up)
  moreover assume "valid_time v"
  ultimately show ?thesis by (simp add: step_time_valid)
next
  case (PickHour k)
  assume v: "valid_time v"
  show ?thesis
  proof (cases "k < 24")
    case True
    then have u: "valid_time (two_digits k @ CHR '':'' # two_digits 0)" by (simp add: valid_time_two_digits)
    from valid_time_shape(1) [OF this] True have "take 2 (two_digits k @ CHR '':'' # two_digits 0) = two_digits k"
      by (simp add: two_digits_char)
    then have "valid_time (two_digits k @ '':'' @ drop 3 v)" using valid_time_compose [OF u v] by (simp only:)
    with True show ?thesis by (simp add: PickHour HOURS_TEXT_def time_parts_valid [OF v])
  qed (use v in \<open>simp add: PickHour HOURS_TEXT_def\<close>)
next
  case (PickMinute k)
  assume v: "valid_time v"
  show ?thesis
  proof (cases "k < length MINUTES_TEXT")
    case True
    then obtain m where m: "MINUTES_TEXT ! k = two_digits m" "m < 60"
      using nth_mem [OF True] by (auto simp: MINUTES_TEXT_def)
    have u: "valid_time (two_digits 0 @ CHR '':'' # two_digits m)" using m by (simp add: valid_time_two_digits)
    have "drop 3 (two_digits 0 @ CHR '':'' # two_digits m) = two_digits m" by (simp add: two_digits_char)
    then have "valid_time (take 2 v @ '':'' @ two_digits m)" using valid_time_compose [OF v u] by (simp only:)
    with True show ?thesis by (simp add: PickMinute m time_parts_valid [OF v])
  qed (use v in \<open>simp add: PickMinute\<close>)
qed

section \<open>The window stays in order\<close>

text \<open>What the language defines of \<open>Date.parse\<close> on the texts of \<open>toISOString\<close>.\<close>

definition parses_iso :: "js_env \<Rightarrow> bool" where
  "parses_iso env = (\<forall>ms. date_parse env (toISOString ms) = Some ms)"

definition iso_text :: "int option \<Rightarrow> string" where
  "iso_text d = (case d of None \<Rightarrow> [] | Some ms \<Rightarrow> toISOString ms)"

lemma toISOString_not_Nil [simp]: "toISOString ms \<noteq> []"
  by (auto simp: toISOString_def iso_date_def split: prod.splits)

lemma parse_iso_text: "parses_iso env \<Longrightarrow> parseISO env (iso_text d) = d"
  by (cases d) (simp_all add: parseISO_def iso_text_def parses_iso_def)

definition window_of :: "int option \<Rightarrow> int option \<Rightarrow> window_value" where
  "window_of st en = \<lparr>startISO = iso_text st, endISO = iso_text en\<rparr>"

lemma window_of_dates [simp]:
  "parses_iso env \<Longrightarrow> startDate env (window_of st en) = st" "parses_iso env \<Longrightarrow> endDate env (window_of st en) = en"
  by (simp_all add: startDate_def endDate_def window_of_def parse_iso_text)

lemma picker_times_valid: "valid_time (wp_startTime env z v)" "valid_time (wp_endTime env z v)"
  by (auto simp: wp_startTime_def wp_endTime_def timeOf_valid default_times split: option.splits)

definition on_day :: "zone \<Rightarrow> string \<Rightarrow> int \<Rightarrow> int" where
  "on_day z t d = date_at z (local_day z d) (clock_minutes t * 60000)"

lemma emit_valid:
  "valid_time t \<Longrightarrow> valid_time u \<Longrightarrow> emit_window z sd ed t u v = window_of (map_option (on_day z t) sd) (map_option (on_day z u) ed)"
  by (cases sd; cases ed) (simp_all add: emit_window_def emit_iso_def combine_valid window_of_def iso_text_def on_day_def)

lemma bumped_valid: "valid_time (bumpedTime z d)"
  unfolding bumpedTime_def Let_def using time_bounds by (intro valid_time_padded) auto

text \<open>A choice of days: none, a first day, or two days in order.\<close>

definition days_ordered :: "zone \<Rightarrow> int option \<Rightarrow> int option \<Rightarrow> bool" where
  "days_ordered z st en =
     (case (st, en) of (None, None) \<Rightarrow> True | (Some a, None) \<Rightarrow> True | (Some a, Some b) \<Rightarrow> local_day z a \<le> local_day z b | _ \<Rightarrow> False)"

definition picker_ordered :: "zone \<Rightarrow> window_picker \<Rightarrow> bool" where
  "picker_ordered z s = (\<exists>st en. wp_value s = window_of st en \<and> days_ordered z st en)"

lemma clock_ms: "valid_time t \<Longrightarrow> 0 \<le> clock_minutes t * 60000 \<and> clock_minutes t * 60000 < MS_PER_DAY"
  using clock_minutes_bounds [of t] by auto

lemma local_day_on_day: "keeps_days z \<Longrightarrow> valid_time t \<Longrightarrow> local_day z (on_day z t d) = local_day z d"
  using clock_ms [of t] by (simp add: on_day_def keeps_days_def)

lemma local_day_start: "keeps_days z \<Longrightarrow> local_day z (startOfDay z d) = local_day z d"
  by (simp add: startOfDay_def setHours_def keeps_days_def)

lemma before_start: "keeps_days z \<Longrightarrow> d < startOfDay z a \<longleftrightarrow> local_day z d < local_day z a"
  by (simp add: startOfDay_def setHours_def keeps_days_def not_le [symmetric])

lemma window_of_days:
  "parses_iso env \<Longrightarrow> startDay env z (window_of st en) = map_option (startOfDay z) st"
  "parses_iso env \<Longrightarrow> endDay env z (window_of st en) = map_option (startOfDay z) en"
  by (simp_all add: startDay_def endDay_def)

lemma pickDay_cases:
  assumes "parses_iso env" "keeps_days z"
  shows "pickDay env z d (window_of st en) =
    (let t = wp_startTime env z (window_of st en); u = wp_endTime env z (window_of st en)
     in case (st, en) of
       (Some a, None) \<Rightarrow>
         if d < startOfDay z a then window_of (Some (on_day z t d)) (Some (on_day z u a))
         else window_of (Some (on_day z t a))
           (Some (on_day z (if local_day z d = local_day z a \<and> on_day z u d \<le> on_day z t d then bumpedTime z (on_day z t d) else u) d))
     | _ \<Rightarrow> window_of (Some (on_day z t d)) None)"
proof -
  have same: "sameDay z d (startOfDay z a) \<longleftrightarrow> local_day z d = local_day z a" for a
    by (simp add: sameDay_iff local_day_start assms(2))
  show ?thesis
  proof (cases "\<exists>a. st = Some a \<and> en = None")
    case False
    then show ?thesis
      by (cases st; cases en)
         (simp_all add: pickDay_def window_of_days [OF assms(1)] emit_valid picker_times_valid Let_def)
  next
    case True
    then obtain a where a: "st = Some a" "en = None" by blast
    show ?thesis
      by (cases "local_day z d = local_day z a")
         (simp_all add: a pickDay_def window_of_days [OF assms(1)] emit_valid picker_times_valid same combine_valid bumped_valid
            on_day_def local_day_start assms(2) Let_def)
  qed
qed

lemma pickDay_ordered:
  assumes "parses_iso env" "keeps_days z" "days_ordered z st en"
  shows "\<exists>st' en'. pickDay env z d (window_of st en) = window_of st' en' \<and> days_ordered z st' en'"
proof -
  note pv = picker_times_valid [of env z "window_of st en"]
  show ?thesis
  proof (cases "\<exists>a. st = Some a \<and> en = None")
    case False
    then have "pickDay env z d (window_of st en) = window_of (Some (on_day z (wp_startTime env z (window_of st en)) d)) None"
      by (cases st; cases en) (simp_all add: pickDay_cases [OF assms(1,2)] Let_def)
    then show ?thesis by (intro exI conjI) (assumption, simp add: days_ordered_def)
  next
    case True
    then obtain a where a: "st = Some a" "en = None" by blast
    show ?thesis
    proof (cases "d < startOfDay z a")
      case True
      then have "pickDay env z d (window_of st en) =
          window_of (Some (on_day z (wp_startTime env z (window_of st en)) d)) (Some (on_day z (wp_endTime env z (window_of st en)) a))"
        by (simp add: pickDay_cases [OF assms(1,2)] Let_def a)
      moreover have "days_ordered z (Some (on_day z (wp_startTime env z (window_of st en)) d)) (Some (on_day z (wp_endTime env z (window_of st en)) a))"
        using True by (simp add: before_start days_ordered_def local_day_on_day assms(2) pv)
      ultimately show ?thesis by blast
    next
      case False
      let ?t = "wp_startTime env z (window_of st en)" and ?u0 = "wp_endTime env z (window_of st en)"
      obtain u where u_def: "u = (if local_day z d = local_day z a \<and> on_day z ?u0 d \<le> on_day z ?t d then bumpedTime z (on_day z ?t d) else ?u0)" by blast
      have u: "valid_time u" using pv(2) bumped_valid by (simp add: u_def)
      have "pickDay env z d (window_of st en) = window_of (Some (on_day z ?t a)) (Some (on_day z u d))"
        using False by (simp add: pickDay_cases [OF assms(1,2)] Let_def a u_def)
      moreover have "days_ordered z (Some (on_day z (wp_startTime env z (window_of st en)) a)) (Some (on_day z u d))"
        using False u by (simp add: before_start days_ordered_def local_day_on_day assms(2) pv)
      ultimately show ?thesis by blast
    qed
  qed
qed

lemma stepped_ordered:
  assumes "parses_iso env" "keeps_days z" "days_ordered z st en" "valid_time t" "valid_time u"
  shows "\<exists>st' en'. emit_window z (startDay env z (window_of st en)) (endDay env z (window_of st en)) t u v
      = window_of st' en' \<and> days_ordered z st' en'"
proof -
  have "emit_window z (startDay env z (window_of st en)) (endDay env z (window_of st en)) t u v
      = window_of (map_option (on_day z t) st) (map_option (on_day z u) en)"
    using assms by (cases st; cases en) (simp_all add: emit_valid window_of_days on_day_def local_day_start assms(2))
  moreover have "days_ordered z (map_option (on_day z t) st) (map_option (on_day z u) en)"
    using assms by (cases st; cases en) (simp_all add: days_ordered_def local_day_on_day assms(2))
  ultimately show ?thesis by blast
qed

lemma window_picker_step_ordered:
  assumes "parses_iso env" "keeps_days z" "picker_ordered z s"
  shows "picker_ordered z (window_picker_step env z fromNow s e)"
proof -
  obtain st en where v: "wp_value s = window_of st en" "days_ordered z st en" using assms(3) by (auto simp: picker_ordered_def)
  have none: "picker_ordered z (s\<lparr>wp_value := \<lparr>startISO = [], endISO = []\<rparr>, wp_hover := None\<rparr>)"
    unfolding picker_ordered_def by (rule exI [of _ None], rule exI [of _ None]) (simp add: window_of_def iso_text_def days_ordered_def)
  show ?thesis
  proof (cases e)
    case (CellClicked right i now)
    then show ?thesis
      using assms(3) pickDay_ordered [OF assms(1,2) v(2)] v(1) by (auto simp: picker_ordered_def split: option.splits)
  next
    case (StartStepped x)
    then show ?thesis
      using stepped_ordered [OF assms(1,2) v(2)] picker_times_valid stepper_valid by (auto simp: picker_ordered_def v(1))
  next
    case (EndStepped x)
    then show ?thesis
      using stepped_ordered [OF assms(1,2) v(2)] picker_times_valid stepper_valid by (auto simp: picker_ordered_def v(1))
  next
    case SelectionCleared
    then show ?thesis using assms(3) none by simp
  qed (use assms(3) in \<open>auto simp: picker_ordered_def split: option.splits\<close>)
qed

interpretation window_picker: machine "window_picker_step env z fromNow"
    "\<lambda>s. parses_iso env \<and> keeps_days z \<and> picker_ordered z s" for env z fromNow
  by unfold_locales (simp add: window_picker_step_ordered)

definition empty_picker :: "int \<Rightarrow> window_picker" where
  "empty_picker anchor = \<lparr>wp_value = \<lparr>startISO = [], endISO = []\<rparr>, wp_anchor = anchor, wp_hover = None\<rparr>"

lemma empty_picker_ordered: "picker_ordered z (empty_picker anchor)"
  unfolding picker_ordered_def
  by (rule exI [of _ None], rule exI [of _ None]) (simp add: window_of_def iso_text_def days_ordered_def empty_picker_def)

text \<open>C28. Whatever is clicked and stepped in a picker that was empty, no last day is chosen without a first, and the last day is
  never before the first one, in any zone that does not change its clock across a midnight.\<close>

theorem picker_days_in_order:
  assumes "parses_iso env" "keeps_days z"
  shows "let v = wp_value (run (window_picker_step env z fromNow) (empty_picker anchor) es)
    in case (startDate env v, endDate env v) of
         (None, en) \<Rightarrow> en = None | (Some a, None) \<Rightarrow> True | (Some a, Some b) \<Rightarrow> local_day z a \<le> local_day z b"
proof -
  have "picker_ordered z (run (window_picker_step env z fromNow) (empty_picker anchor) es)"
    using window_picker.run_inv [of env z "empty_picker anchor" fromNow es] assms empty_picker_ordered by blast
  then obtain st en where "wp_value (run (window_picker_step env z fromNow) (empty_picker anchor) es) = window_of st en" "days_ordered z st en"
    by (auto simp: picker_ordered_def)
  then show ?thesis by (cases st; cases en) (simp_all add: assms days_ordered_def Let_def)
qed

definition calendar_env :: js_env where
  "calendar_env = sample_env\<lparr>date_parse := iso_ms_parse\<rparr>"

lemma calendar_env_parses: "parses_iso calendar_env"
  by (simp add: parses_iso_def calendar_env_def iso_round_trip)

definition sample_picks :: "picker_input list" where
  "sample_picks = [NextMonth, CellClicked False 10 1711289700123, EndStepped (PickHour 20), CellClicked True 12 1711289700123, StartStepped (StepBy15 True)]"

theorem picker_days_in_order_witness:
  "let v = wp_value (run (window_picker_step calendar_env berlin_zone True) (empty_picker 1711289700123) sample_picks)
    in case (startDate calendar_env v, endDate calendar_env v) of
         (None, en) \<Rightarrow> en = None | (Some a, None) \<Rightarrow> True | (Some a, Some b) \<Rightarrow> local_day berlin_zone a \<le> local_day berlin_zone b"
  by (rule picker_days_in_order [OF calendar_env_parses berlin_keeps_days(1)])

text \<open>In Nuuk on 30 March 2024 a window from nine to five on that day is stepped to a start at a quarter past eleven in
  the evening, a time that is skipped: the start lands on the next day, and the last day is before the first.\<close>

lemma skipped_start_inverts_days:
  "let v = emit_window nuuk_zone (startDay calendar_env nuuk_zone v0) (endDay calendar_env nuuk_zone v0) ''23:15'' ''17:00'' v0
   in local_day nuuk_zone (the (endDate calendar_env v)) < local_day nuuk_zone (the (startDate calendar_env v))"
  if "v0 = \<lparr>startISO = ''2024-03-30T11:00:00.000Z'', endISO = ''2024-03-30T19:00:00.000Z''\<rparr>"
  unfolding that by code_simp

section \<open>The second click\<close>

lemma clock_padded: "0 \<le> h \<Longrightarrow> h < 24 \<Longrightarrow> 0 \<le> m \<Longrightarrow> m < 60 \<Longrightarrow> clock_minutes (padded 2 h @ '':'' @ padded 2 m) = h * 60 + m"
  using length_padded [of h 2] by (simp add: clock_minutes_def digits_padded)

lemma later_day: "keeps_days z \<Longrightarrow> local_day z a < local_day z b \<Longrightarrow> a < b"
  by (metis keeps_days_def not_le order.refl order.strict_trans1)

lemma clock_timeOf: "clock_minutes (timeOf z d) = getHours z d * 60 + getMinutes z d"
  unfolding timeOf_def using time_bounds [of z d] by (intro clock_padded) auto

lemma minute_of_day: "(getHours z d * 60 + getMinutes z d) * 60000 = local_time z d - local_time z d mod 60000"
proof -
  let ?t = "local_time z d"
  have "?t div 60000 = ?t div 3600000 * 60 + ?t div 60000 mod 60"
    using zdiv_zmult2_eq [of 60 ?t 60000] div_mult_mod_eq [of "?t div 60000" 60] by simp
  then show ?thesis by (simp add: getHours_def getMinutes_def minus_mod_eq_div_mult)
qed

text \<open>The time of an instant, read on its own day, is the instant to the minute.\<close>

lemma timeOf_on_day:
  assumes "steady_clock z"
  shows "local_of z (on_day z (timeOf z a) a) = local_of z a - local_of z a mod 60000"
proof -
  have "local_of z a = local_day z a * MS_PER_DAY + local_time z a" by (simp add: local_day_def local_time_def)
  moreover have "local_time z a mod 60000 = local_of z a mod 60000" by (simp add: local_time_def mod_mod_cancel)
  ultimately have "on_day z (timeOf z a) a = utc_of z (local_of z a - local_of z a mod 60000)"
    by (simp only: on_day_def date_at_def clock_timeOf minute_of_day add_diff_eq)
  then show ?thesis using assms by (simp add: steady_clock_def)
qed

lemma hour_to_the_minute: "getHours z a < 23 \<Longrightarrow> local_of z s = local_of z a - local_of z a mod 60000 \<Longrightarrow> getHours z s < 23"
proof -
  assume "getHours z a < 23" and s: "local_of z s = local_of z a - local_of z a mod 60000"
  let ?t = "local_time z a - local_time z a mod 60000"
  have t: "0 \<le> ?t" "?t \<le> local_time z a" using local_time_bounds [of z a] by (simp_all add: minus_mod_eq_div_mult pos_imp_zdiv_nonneg_iff)
  moreover have "local_of z s = local_day z a * MS_PER_DAY + ?t"
    unfolding s by (simp add: local_time_def mod_mod_cancel local_day_def)
  moreover have "?t < MS_PER_DAY" using t(2) local_time_bounds(2) [of z a] by linarith
  ultimately have "local_time z s = ?t" unfolding local_time_def [of z s] by (simp only: mod_mult_self3 mod_pos_pos_trivial t)
  moreover have "local_time z a < 23 * 3600000" using \<open>getHours z a < 23\<close> local_time_bounds [of z a] by (simp add: getHours_def)
  ultimately show "getHours z s < 23" using t(2) by (simp add: getHours_def)
qed

lemma bumped_later:
  assumes "keeps_days z" "steady_clock z" "valid_time t" "getHours z (on_day z t d) < 23"
  shows "on_day z t d < on_day z (bumpedTime z (on_day z t d)) d"
proof -
  let ?s = "on_day z t d" and ?D = "local_day z d"
  let ?lt = "local_time z ?s"
  obtain b where b: "b = addHours z ?s 1" by blast
  have D: "local_day z ?s = ?D" by (rule local_day_on_day [OF assms(1,3)])
  have r: "local_of z ?s = ?D * MS_PER_DAY + ?lt" unfolding D [symmetric] by (simp add: local_day_def local_time_def)
  have lt: "(getHours z ?s + 1) * 3600000 + ?lt mod 3600000 = ?lt + 3600000" by (simp add: getHours_def distrib_right)
  have "?lt + 3600000 < MS_PER_DAY" using assms(4) by (simp add: getHours_def)
  moreover have "b = date_at z ?D (?lt + 3600000)" by (simp only: b addHours_def setHour_def lt D)
  ultimately have day: "local_day z b = ?D" and up: "local_of z ?s + 3600000 \<le> local_of z b"
    using assms(1,2) local_time_bounds [of z ?s] by (simp_all add: keeps_days_def steady_clock_def date_at_def r add.assoc)
  have rb: "local_of z b = ?D * MS_PER_DAY + local_time z b" unfolding day [symmetric] by (simp add: local_day_def local_time_def)
  have "clock_minutes (bumpedTime z ?s) = getHours z b * 60 + getMinutes z b"
    unfolding bumpedTime_def Let_def b [symmetric] using time_bounds by (subst clock_padded) auto
  then have "on_day z (bumpedTime z ?s) d = utc_of z (local_of z b - local_time z b mod 60000)"
    by (simp only: on_day_def date_at_def minute_of_day rb add_diff_eq)
  moreover have "local_of z ?s < local_of z b - local_time z b mod 60000"
    using up pos_mod_bound [of 60000 "local_time z b"] by linarith
  ultimately show ?thesis using assms(2) by (simp add: steady_clock_def on_day_def date_at_def)
qed

lemma duration_window_of:
  "parses_iso env \<Longrightarrow> window_duration env (window_of (Some a) (Some b)) \<noteq> None \<longleftrightarrow> a < b"
  by (simp add: window_duration_def)

text \<open>C27. The second click always makes a window of positive length, whichever day it hits, unless it hits the first day and the
  window starts in the last hour of that day, in any zone that does not change its clock across a midnight.\<close>

theorem second_click_makes_window:
  assumes "parses_iso env" "keeps_days z" "steady_clock z" "local_day z d = local_day z a \<longrightarrow> getHours z a < 23"
  shows "window_duration env (pickDay env z d (window_of (Some a) None)) \<noteq> None"
proof -
  let ?t = "timeOf z a"
  have times: "wp_startTime env z (window_of (Some a) None) = ?t" "wp_endTime env z (window_of (Some a) None) = DEFAULT_END_TIME"
    by (simp_all add: wp_startTime_def wp_endTime_def assms(1))
  note v = timeOf_valid [of z a] default_times(2) bumped_valid
  note on_day = local_day_on_day [OF assms(2)]
  show ?thesis
  proof (cases "d < startOfDay z a")
    case True
    then have "local_day z (on_day z ?t d) < local_day z (on_day z DEFAULT_END_TIME a)"
      using v by (simp add: before_start assms(2) on_day)
    from later_day [OF assms(2) this] show ?thesis
      using True by (simp add: pickDay_cases [OF assms(1,2)] times Let_def duration_window_of [OF assms(1)] del: not_None_eq)
  next
    case False
    obtain u where u_def: "u = (if local_day z d = local_day z a \<and> on_day z DEFAULT_END_TIME d \<le> on_day z ?t d then bumpedTime z (on_day z ?t d) else DEFAULT_END_TIME)" by blast
    have pick: "pickDay env z d (window_of (Some a) None) = window_of (Some (on_day z ?t a)) (Some (on_day z u d))"
      using False by (simp add: pickDay_cases [OF assms(1,2)] times Let_def u_def)
    have u: "valid_time u" using v by (simp add: u_def)
    have "on_day z ?t a < on_day z u d"
    proof (cases "local_day z d = local_day z a")
      case True
      then have same: "on_day z ?t a = on_day z ?t d" by (simp add: on_day_def)
      have "getHours z (on_day z ?t d) < 23"
        using hour_to_the_minute [OF _ timeOf_on_day [OF assms(3)], of a] assms(4) True by (simp add: same)
      then show ?thesis using bumped_later [OF assms(2,3) v(1)] True by (auto simp: same u_def)
    next
      case False
      then have "local_day z (on_day z ?t a) < local_day z (on_day z u d)"
        using \<open>\<not> d < startOfDay z a\<close> v u by (simp add: before_start assms(2) on_day)
      then show ?thesis by (rule later_day [OF assms(2)])
    qed
    then show ?thesis unfolding pick by (simp add: duration_window_of [OF assms(1)] del: not_None_eq)
  qed
qed

theorem second_click_makes_window_witness:
  "window_duration calendar_env (pickDay calendar_env berlin_zone 1711839600000 (window_of (Some 1711908000000) None)) \<noteq> None"
  by (rule second_click_makes_window [OF calendar_env_parses berlin_keeps_days]) code_simp

text \<open>In Nuuk on 30 March 2024 the second click on the day of a window that starts at half past ten in the evening asks for an end
  at half past eleven, which is skipped: the end becomes half past midnight of the same day, before the start.\<close>

lemma skipped_end_inverts_window:
  "pickDay calendar_env nuuk_zone 1711764000000 \<lparr>startISO = ''2024-03-31T00:30:00.000Z'', endISO = []\<rparr>
     = \<lparr>startISO = ''2024-03-31T00:30:00.000Z'', endISO = ''2024-03-30T02:30:00.000Z''\<rparr>"
  by code_simp

text \<open>In the last hour the bumped end leaves the day and is put back on it: a window that starts at half past eleven in the
  evening ends half an hour after the midnight before.\<close>

theorem late_click_inverts_window:
  "pickDay calendar_env (fixed_zone 0) 1711238400000 (window_of (Some 1711323000000) None)
     = \<lparr>startISO = ''2024-03-24T23:30:00.000Z'', endISO = ''2024-03-24T00:30:00.000Z''\<rparr>"
  by code_simp

text \<open>A time that is stepped before a day is chosen is forgotten.\<close>

theorem time_before_day_forgotten:
  "window_picker_step env z fromNow (empty_picker anchor) (StartStepped e) = empty_picker anchor
   \<and> window_picker_step env z fromNow (empty_picker anchor) (EndStepped e) = empty_picker anchor"
  by (simp add: empty_picker_def startDay_def endDay_def startDate_def endDate_def parseISO_def emit_window_def emit_iso_def)

end
