(* ===== verification/UiState.thy ===== *)
theory UiState
  imports ClusterTypes
begin

text \<open>
  The small state holders of \<open>frontend/src/lib\<close>: the three-state sort of tables with its header, resizable
  drawers, the theme mode, the snackbar, debounced values, the guard against losing unsaved changes,
  and file names of exports. Each is a step function on its events; theory Prelude's machine locale gives
  the lifting to runs.
\<close>

section \<open>Sorting by a column (\<open>useTriStateSort\<close>, \<open>SortHeader\<close>)\<close>

datatype sort_dir = Asc | Desc

record 'c sort_state =
  sortCol :: "'c option"
  sortDir :: sort_dir

definition sort_start :: "'c sort_state" where
  "sort_start = \<lparr>sortCol = None, sortDir = Asc\<rparr>"

definition handleSort :: "'c sort_state \<Rightarrow> 'c \<Rightarrow> 'c sort_state" where
  "handleSort s col =
     (if sortCol s = Some col
      then (if sortDir s = Asc then s\<lparr>sortDir := Desc\<rparr> else s\<lparr>sortCol := None, sortDir := Asc\<rparr>)
      else s\<lparr>sortCol := Some col, sortDir := Asc\<rparr>)"

text \<open>What the header of a column shows: whether it is active, and the arrow.\<close>

definition SortHeader :: "'c \<Rightarrow> 'c option \<Rightarrow> sort_dir \<Rightarrow> bool \<times> sort_dir" where
  "SortHeader col active dir = (active = Some col, if active = Some col then dir else Asc)"

lemma sort_cycle:
  assumes "sortCol s \<noteq> Some c"
  shows "handleSort s c = \<lparr>sortCol = Some c, sortDir = Asc\<rparr>"
    "run handleSort s [c, c] = \<lparr>sortCol = Some c, sortDir = Desc\<rparr>"
    "run handleSort s [c, c, c] = sort_start"
  using assms by (auto simp: handleSort_def sort_start_def)

section \<open>Drawers (\<open>useDrawerResize\<close>)\<close>

text \<open>A drag is the pointer position and the width at its start; mouse and touch behave alike.\<close>

record drawer =
  dw_width :: rat
  dw_drag :: "(rat \<times> rat) option"

datatype drawer_event =
    PointerDown rat
  | PointerMove rat rat
  | PointerUp

definition drawer_start :: "rat \<Rightarrow> drawer" where
  "drawer_start initial = \<lparr>dw_width = initial, dw_drag = None\<rparr>"

fun drawer_step :: "rat \<Rightarrow> drawer \<Rightarrow> drawer_event \<Rightarrow> drawer" where
  "drawer_step mn d (PointerDown x) = d\<lparr>dw_drag := Some (x, dw_width d)\<rparr>"
| "drawer_step mn d (PointerMove x innerWidth) =
     (case dw_drag d of
        None \<Rightarrow> d
      | Some (startX, startWidth) \<Rightarrow>
          d\<lparr>dw_width := of_int (js_round (min (max (startWidth + (startX - x)) mn) (innerWidth * DRAWER_MAX_WIDTH_RATIO)))\<rparr>)"
| "drawer_step mn d PointerUp = d\<lparr>dw_drag := None\<rparr>"

text \<open>The window wins over the minimum: after a move the drawer is never wider than nine tenths of it,
  rounded, and at least the minimum if that fits.\<close>

lemma drawer_move_bounds:
  assumes "dw_drag d \<noteq> None"
  shows "dw_width (drawer_step mn d (PointerMove x w)) \<le> of_int (js_round (w * DRAWER_MAX_WIDTH_RATIO))"
    "mn \<le> w * DRAWER_MAX_WIDTH_RATIO \<Longrightarrow> of_int (js_round mn) \<le> dw_width (drawer_step mn d (PointerMove x w))"
  using assms by (auto intro!: js_round_mono)

section \<open>Theme (\<open>themeMode\<close>)\<close>

datatype theme_mode = ThLight | ThDark | ThSystem

record theme_state =
  tm_mode :: theme_mode
  tm_systemDark :: bool
  tm_stored :: "string option"

datatype theme_event =
    ThemeMounted bool
  | SystemChanged bool
  | SetMode theme_mode

fun mode_name :: "theme_mode \<Rightarrow> string" where
  "mode_name ThLight = ''light''"
| "mode_name ThDark = ''dark''"
| "mode_name ThSystem = ''system''"

definition stored_mode :: "string option \<Rightarrow> theme_mode option" where
  "stored_mode s =
     (if s = Some ''light'' then Some ThLight else if s = Some ''dark'' then Some ThDark
      else if s = Some ''system'' then Some ThSystem else None)"

definition theme_start :: "string option \<Rightarrow> theme_state" where
  "theme_start stored = \<lparr>tm_mode = ThDark, tm_systemDark = True, tm_stored = stored\<rparr>"

fun theme_step :: "theme_state \<Rightarrow> theme_event \<Rightarrow> theme_state" where
  "theme_step s (ThemeMounted mq) =
     s\<lparr>tm_mode := (case stored_mode (tm_stored s) of Some m \<Rightarrow> m | None \<Rightarrow> tm_mode s), tm_systemDark := mq\<rparr>"
| "theme_step s (SystemChanged mq) = s\<lparr>tm_systemDark := mq\<rparr>"
| "theme_step s (SetMode m) = s\<lparr>tm_mode := m, tm_stored := Some (mode_name m)\<rparr>"

definition resolvedMode :: "theme_state \<Rightarrow> theme_mode" where
  "resolvedMode s = (if tm_mode s = ThSystem then (if tm_systemDark s then ThDark else ThLight) else tm_mode s)"

lemma theme_survives_reload:
  "tm_mode (theme_step (theme_start (tm_stored (theme_step s (SetMode m)))) (ThemeMounted b)) = m"
  by (cases m) (simp_all add: theme_start_def stored_mode_def)

section \<open>Snackbar and debounced values\<close>

fun snackbar_step :: "snack_message option \<Rightarrow> snack_message option \<Rightarrow> snack_message option" where
  "snackbar_step cur (Some n) = Some n"
| "snackbar_step cur None = None"

text \<open>The value with its pending timer: a change restarts it, firing publishes the last change.\<close>

record 'v debounced =
  db_value :: 'v
  db_timer :: bool
  db_debounced :: 'v

datatype 'v debounce_event = ValueChanged 'v | DebounceFired

fun debounce_step :: "'v debounced \<Rightarrow> 'v debounce_event \<Rightarrow> 'v debounced" where
  "debounce_step s (ValueChanged v) = s\<lparr>db_value := v, db_timer := True\<rparr>"
| "debounce_step s DebounceFired =
     (if db_timer s then s\<lparr>db_debounced := db_value s, db_timer := False\<rparr> else s)"

lemma debounce_publishes_last:
  "db_debounced (run debounce_step s (map ValueChanged vs @ [ValueChanged v, DebounceFired])) = v"
  by simp

section \<open>Unsaved changes (\<open>useUnsavedChanges\<close>)\<close>

record unsaved =
  un_dirty :: bool
  un_pendingHref :: "string option"
  un_location :: "string option"

text \<open>A click on an anchor carries its \<open>href\<close>; the last event is a click elsewhere. Leaving by a link that
  is not held back navigates.\<close>

datatype unsaved_event =
    SetDirty bool
  | LinkClicked "string option"
  | DiscardClicked
  | CancelClicked

definition EXTERNAL_PREFIXES :: "string list" where
  "EXTERNAL_PREFIXES = [''http'', ''#'', ''mailto:'', ''tel:'', ''javascript:'', ''data:'', ''vbscript:'']"

definition passes_through :: "string option \<Rightarrow> bool" where
  "passes_through href =
     (case href of None \<Rightarrow> True | Some h \<Rightarrow> h = [] \<or> list_ex (\<lambda>p. starts_with p h) EXTERNAL_PREFIXES)"

fun unsaved_step :: "unsaved \<Rightarrow> unsaved_event \<Rightarrow> unsaved" where
  "unsaved_step s (SetDirty b) = s\<lparr>un_dirty := b\<rparr>"
| "unsaved_step s (LinkClicked href) =
     (if \<not> un_dirty s \<or> passes_through href then s\<lparr>un_location := (case href of None \<Rightarrow> un_location s | Some h \<Rightarrow> Some h)\<rparr>
      else s\<lparr>un_pendingHref := href\<rparr>)"
| "unsaved_step s DiscardClicked =
     (case un_pendingHref s of
        None \<Rightarrow> s\<lparr>un_dirty := False\<rparr>
      | Some h \<Rightarrow> s\<lparr>un_pendingHref := None, un_dirty := False, un_location := (if h = [] then un_location s else Some h)\<rparr>)"
| "unsaved_step s CancelClicked = s\<lparr>un_pendingHref := None\<rparr>"

definition beforeunload_prompts :: "unsaved \<Rightarrow> bool" where
  "beforeunload_prompts s = un_dirty s"

text \<open>While a form is dirty no internal link leaves the page; only confirming does, and then the form is
  no longer dirty.\<close>

lemma dirty_holds_links:
  assumes "un_dirty s" "un_location (unsaved_step s e) \<noteq> un_location s"
  shows "(e = DiscardClicked \<and> \<not> un_dirty (unsaved_step s e) \<and> un_location (unsaved_step s e) = un_pendingHref s)
     \<or> (\<exists>h. e = LinkClicked (Some h) \<and> passes_through (Some h))"
  using assms by (cases e) (auto split: option.splits if_splits)

section \<open>File names of exports (\<open>exportFile.ts\<close>)\<close>

text \<open>Runs of other characters become one dash; dashes at the ends go. The model lowers
  ASCII letters only; the two other characters that lower to ASCII letters, the Kelvin sign and the
  dotted capital I, are read as other characters.\<close>

fun slug :: "bool \<Rightarrow> string \<Rightarrow> string" where
  "slug dash [] = []"
| "slug dash (c # s) =
     (if is_lower c \<or> is_digit c then c # slug False s
      else if dash then slug True s else CHR ''-'' # slug True s)"

definition strip_dashes :: "string \<Rightarrow> string" where
  "strip_dashes s = rev (dropWhile (\<lambda>c. c = CHR ''-'') (rev (dropWhile (\<lambda>c. c = CHR ''-'') s)))"

definition slugifyForFilename :: "string \<Rightarrow> string" where
  "slugifyForFilename input =
     (let cleaned = strip_dashes (slug False (map to_lower_char input)) in if cleaned = [] then ''export'' else cleaned)"

definition download_name :: "string \<Rightarrow> string" where
  "download_name baseName = slugifyForFilename baseName @ ''.json''"

lemma slug_chars: "c \<in> set (slug d s) \<Longrightarrow> is_lower c \<or> is_digit c \<or> c = CHR ''-''"
  by (induction d s rule: slug.induct) (auto split: if_splits)

text \<open>A file name is never empty and never begins with a dash, and has only lower case letters, digits and
  dashes: no input can choose a directory or hide the file.\<close>

lemma slugify_safe:
  "slugifyForFilename s \<noteq> []" "hd (slugifyForFilename s) \<noteq> CHR ''-''"
  "c \<in> set (slugifyForFilename s) \<Longrightarrow> is_lower c \<or> is_digit c \<or> c = CHR ''-''"
proof -
  have sub: "set (strip_dashes t) \<subseteq> set t" for t
    by (auto simp: strip_dashes_def dest!: set_dropWhileD)
  have "hd (strip_dashes t) \<noteq> CHR ''-''" if "strip_dashes t \<noteq> []" for t
  proof -
    obtain u where u: "u = dropWhile (\<lambda>c. c = CHR ''-'') t" by blast
    obtain v where v: "rev u = takeWhile (\<lambda>c. c = CHR ''-'') (rev u) @ v" "strip_dashes t = rev v"
      unfolding strip_dashes_def u by (metis takeWhile_dropWhile_id)
    then have "u = strip_dashes t @ rev (takeWhile (\<lambda>c. c = CHR ''-'') (rev u))"
      by (metis rev_append rev_rev_ident)
    then have "hd u = hd (strip_dashes t)" "u \<noteq> []" using that by (metis hd_append2, auto)
    then show ?thesis using hd_dropWhile [of "\<lambda>c. c = CHR ''-''" t] u by auto
  qed
  then show "slugifyForFilename s \<noteq> []" "hd (slugifyForFilename s) \<noteq> CHR ''-''"
    by (auto simp: slugifyForFilename_def Let_def)
  show "is_lower c \<or> is_digit c \<or> c = CHR ''-''" if "c \<in> set (slugifyForFilename s)"
  proof (cases "strip_dashes (slug False (map to_lower_char s)) = []")
    case True
    with that have "c \<in> set ''export''" by (simp add: slugifyForFilename_def)
    then show ?thesis by (auto simp: is_lower_def)
  next
    case False
    with that have "c \<in> set (strip_dashes (slug False (map to_lower_char s)))" by (simp add: slugifyForFilename_def)
    with sub have "c \<in> set (slug False (map to_lower_char s))" by blast
    then show ?thesis by (rule slug_chars)
  qed
qed

end
