(* ===== verification/PodLogs.thy ===== *)
theory PodLogs
  imports Streams
begin

text \<open>
  \<open>usePodLogStream.ts\<close> and the logic of \<open>PodLogViewer.tsx\<close>: the live tail of a container with its
  buffer of lines waiting for an animation frame, the log of the previous instance, the search
  with its incremental cache of match positions, and the level of a line.

  Callbacks of a stream reach the hook only until it is aborted (\<open>streamPodLogs\<close> swallows what an
  aborted request still reports). A frame that was requested by an earlier stream may still fire; it
  runs the same \<open>flushBuffer\<close>.
\<close>

section \<open>The hook\<close>

definition INITIAL_TAIL :: nat where "INITIAL_TAIL = 250"
definition LOAD_MORE_INCREMENT :: nat where "LOAD_MORE_INCREMENT = 2000"
definition MAX_LINES :: nat where "MAX_LINES = 10000"

datatype log_mode = Live | Previous

record pod_logs =
  pd_mode :: log_mode
  pd_streamLines :: "string list"
  pd_streaming :: bool
  pd_streamError :: "string option"
  pd_stream :: bool
  pd_requested :: nat
  pd_tailLines :: nat
  pd_prevLines :: "string list"
  pd_prevLoading :: bool
  pd_prevError :: "string option"
  pd_canLoadMore :: bool
  pd_lineBuf :: "string list"

definition append_lines :: "string list \<Rightarrow> string list \<Rightarrow> string list" where
  "append_lines batch prev =
     (let next = prev @ batch in if MAX_LINES < length next then slice_last MAX_LINES next else next)"

definition flushBuffer :: "pod_logs \<Rightarrow> pod_logs" where
  "flushBuffer s =
     (if pd_lineBuf s = [] then s
      else s\<lparr>pd_lineBuf := [], pd_streamLines := append_lines (pd_lineBuf s) (pd_streamLines s)\<rparr>)"

definition pushLine :: "string \<Rightarrow> pod_logs \<Rightarrow> pod_logs" where
  "pushLine l s = s\<lparr>pd_lineBuf := pd_lineBuf s @ [l]\<rparr>"

text \<open>Abort the request and drop the buffer; then the new request for the last \<open>tail\<close> lines.\<close>

definition abort_stream :: "pod_logs \<Rightarrow> pod_logs" where
  "abort_stream s = s\<lparr>pd_stream := False, pd_lineBuf := []\<rparr>"

definition startStream :: "nat \<Rightarrow> pod_logs \<Rightarrow> pod_logs" where
  "startStream tail s =
     (abort_stream s)\<lparr>pd_stream := True, pd_requested := tail, pd_streamLines := [], pd_streaming := True,
        pd_streamError := None\<rparr>"

definition fetchPrevious :: "pod_logs \<Rightarrow> pod_logs" where
  "fetchPrevious s = s\<lparr>pd_prevLoading := True, pd_prevError := None\<rparr>"

text \<open>The two effects, when the mode or the tail changed.\<close>

definition stream_effect :: "pod_logs \<Rightarrow> pod_logs" where
  "stream_effect s =
     (if pd_mode s \<noteq> Live then (abort_stream s)\<lparr>pd_streaming := False\<rparr>
      else startStream (pd_tailLines s) s)"

definition previous_effect :: "pod_logs \<Rightarrow> pod_logs" where
  "previous_effect s = (if pd_mode s = Previous then fetchPrevious s else s)"

definition setMode :: "log_mode \<Rightarrow> pod_logs \<Rightarrow> pod_logs" where
  "setMode m s = (if m = pd_mode s then s else previous_effect (stream_effect (s\<lparr>pd_mode := m\<rparr>)))"

definition handleLoadMore :: "pod_logs \<Rightarrow> pod_logs" where
  "handleLoadMore s =
     (let next = pd_tailLines s + LOAD_MORE_INCREMENT
      in stream_effect (s\<lparr>pd_tailLines := next, pd_canLoadMore := (next < MAX_LINES)\<rparr>))"

definition clear :: "pod_logs \<Rightarrow> pod_logs" where
  "clear s =
     (let s1 = s\<lparr>pd_mode := Live, pd_tailLines := INITIAL_TAIL, pd_canLoadMore := True, pd_prevLines := [],
                 pd_streamLines := []\<rparr>
      in if pd_mode s = Live \<and> pd_tailLines s = INITIAL_TAIL then s1 else stream_effect s1)"

text \<open>The controls of the viewer: the mode buttons, the button for older lines (shown in live mode while
  more can be loaded), the retry button of the error banner and the change of the container, which
  gives the hook new functions, so that the effect runs again, and clears it. A result of an earlier
  fetch of the previous log is stored whenever it arrives.\<close>

datatype pod_event =
    StreamLine string
  | StreamError string
  | StreamDone
  | Frame
  | ClickMode log_mode
  | ClickLoadMore
  | ClickRetry
  | ChangeContainer
  | PrevLoaded string
  | PrevFailed string

fun pod_step :: "pod_logs \<Rightarrow> pod_event \<Rightarrow> pod_logs" where
  "pod_step s (StreamLine l) = (if pd_stream s then pushLine l s else s)"
| "pod_step s (StreamError m) =
     (if pd_stream s then s\<lparr>pd_streamError := Some m, pd_streaming := False, pd_stream := False\<rparr> else s)"
| "pod_step s StreamDone =
     (if pd_stream s then (flushBuffer s)\<lparr>pd_streaming := False, pd_stream := False\<rparr> else s)"
| "pod_step s Frame = flushBuffer s"
| "pod_step s (ClickMode m) = setMode m s"
| "pod_step s ClickLoadMore =
     (if pd_mode s = Live \<and> pd_streamLines s \<noteq> [] \<and> pd_canLoadMore s then handleLoadMore s else s)"
| "pod_step s ClickRetry =
     (if pd_mode s = Live then (if pd_streamError s \<noteq> None then startStream 0 s else s)
      else if pd_prevError s \<noteq> None then fetchPrevious s else s)"
| "pod_step s ChangeContainer = clear (previous_effect (stream_effect s))"
| "pod_step s (PrevLoaded raw) =
     s\<lparr>pd_prevLines := filter (\<lambda>l. 0 < length l) (split_on LF raw), pd_prevLoading := False\<rparr>"
| "pod_step s (PrevFailed m) = s\<lparr>pd_prevError := Some m, pd_prevLoading := False\<rparr>"

definition pod_start :: pod_logs where
  "pod_start = startStream INITIAL_TAIL
     \<lparr>pd_mode = Live, pd_streamLines = [], pd_streaming = False, pd_streamError = None, pd_stream = False,
      pd_requested = 0, pd_tailLines = INITIAL_TAIL, pd_prevLines = [], pd_prevLoading = False,
      pd_prevError = None, pd_canLoadMore = True, pd_lineBuf = []\<rparr>"

definition pod_lines :: "pod_logs \<Rightarrow> string list" where
  "pod_lines s = (if pd_mode s = Live then pd_streamLines s else pd_prevLines s)"

definition pod_isLoading :: "pod_logs \<Rightarrow> bool" where
  "pod_isLoading s =
     (if pd_mode s = Live then pd_streaming s \<and> length (pd_streamLines s) = 0 else pd_prevLoading s)"

section \<open>The live view\<close>

definition pod_inv :: "pod_logs \<Rightarrow> bool" where
  "pod_inv s =
     (length (pd_streamLines s) \<le> MAX_LINES
      \<and> (pd_canLoadMore s \<longleftrightarrow> pd_tailLines s < MAX_LINES) \<and> pd_tailLines s \<le> MAX_LINES + 250
      \<and> (pd_mode s = Previous \<longrightarrow> \<not> pd_stream s \<and> \<not> pd_streaming s \<and> pd_lineBuf s = [])
      \<and> (pd_streaming s \<longleftrightarrow> pd_stream s))"

lemma append_lines_bound [simp]: "length prev \<le> MAX_LINES \<Longrightarrow> length (append_lines b prev) \<le> MAX_LINES"
  by (simp add: append_lines_def Let_def)

interpretation tail: tail_buffer append_lines "\<lambda>b. b" MAX_LINES
  by unfold_locales (simp add: append_lines_def slice_last_short Let_def)

lemma tail_steps: "n < MAX_LINES \<Longrightarrow> n mod 2000 = 250 \<Longrightarrow> n + 2000 \<le> MAX_LINES + 250"
proof -
  assume n: "n < MAX_LINES" "n mod 2000 = 250"
  then have q: "2000 * (n div 2000) + 250 = n" using mult_div_mod_eq [of 2000 n] by simp
  then have "n div 2000 < 5" using n by (simp add: MAX_LINES_def)
  then have "n div 2000 \<le> 4" by simp
  then have "2000 * (n div 2000) \<le> 8000" by simp
  with q show ?thesis by (simp add: MAX_LINES_def)
qed

definition tail_ok :: "pod_logs \<Rightarrow> bool" where
  "tail_ok s = (pd_tailLines s mod 2000 = 250)"

lemma pod_step_inv: "pod_inv s \<and> tail_ok s \<Longrightarrow> pod_inv (pod_step s e) \<and> tail_ok (pod_step s e)"
proof (cases e)
  case ClickLoadMore
  assume "pod_inv s \<and> tail_ok s"
  then show ?thesis
    using ClickLoadMore tail_steps [of "pd_tailLines s"]
    by (auto simp: pod_inv_def tail_ok_def handleLoadMore_def stream_effect_def startStream_def abort_stream_def
        LOAD_MORE_INCREMENT_def Let_def)
next
  case ChangeContainer
  assume "pod_inv s \<and> tail_ok s"
  then show ?thesis
    using ChangeContainer
    by (auto simp: pod_inv_def tail_ok_def clear_def stream_effect_def previous_effect_def fetchPrevious_def
        startStream_def abort_stream_def INITIAL_TAIL_def MAX_LINES_def Let_def)
next
  case (ClickMode m)
  assume "pod_inv s \<and> tail_ok s"
  then show ?thesis
    using ClickMode
    by (auto simp: pod_inv_def tail_ok_def setMode_def stream_effect_def previous_effect_def fetchPrevious_def
        startStream_def abort_stream_def)
qed (auto simp: pod_inv_def tail_ok_def pushLine_def flushBuffer_def fetchPrevious_def startStream_def
       abort_stream_def)

interpretation pod_hook: machine pod_step "\<lambda>s. pod_inv s \<and> tail_ok s"
  by unfold_locales (rule pod_step_inv)

lemma pod_start_inv: "pod_inv pod_start \<and> tail_ok pod_start"
  by (simp add: pod_inv_def tail_ok_def pod_start_def startStream_def abort_stream_def INITIAL_TAIL_def MAX_LINES_def)

text \<open>Whatever the user and the server do, the view keeps at most 10000 lines, a request asks for at most
  10250, older lines are offered exactly while fewer than 10000 were asked for, and in previous mode no
  stream is open and nothing is buffered.\<close>

theorem pod_view_bounded:
  "let s = run pod_step pod_start es
   in length (pd_streamLines s) \<le> 10000 \<and> pd_tailLines s \<le> 10250
     \<and> (pd_canLoadMore s \<longleftrightarrow> pd_tailLines s < 10000)
     \<and> (pd_mode s = Previous \<longrightarrow> \<not> pd_stream s \<and> \<not> pd_streaming s \<and> pd_lineBuf s = [])"
  using pod_hook.run_inv [OF pod_start_inv, of es] by (auto simp: pod_inv_def Let_def MAX_LINES_def)

theorem pod_view_bounded_witness:
  "let s = run pod_step pod_start [StreamLine ''a'', Frame, ClickLoadMore, ClickMode Previous, StreamLine ''b'']
   in length (pd_streamLines s) \<le> 10000 \<and> pd_tailLines s \<le> 10250
     \<and> (pd_canLoadMore s \<longleftrightarrow> pd_tailLines s < 10000)
     \<and> (pd_mode s = Previous \<longrightarrow> \<not> pd_stream s \<and> \<not> pd_streaming s \<and> pd_lineBuf s = [])"
  by (rule pod_view_bounded)

text \<open>A stream that is not interrupted: lines and frames, in any order.\<close>

fun stream_line :: "pod_event \<Rightarrow> string list" where
  "stream_line (StreamLine l) = [l]"
| "stream_line _ = []"

definition in_stream :: "pod_event \<Rightarrow> bool" where
  "in_stream e = (e = Frame \<or> (\<exists>l. e = StreamLine l))"

lemma flush_shown:
  "length (pd_streamLines s) \<le> MAX_LINES \<Longrightarrow>
     pd_streamLines (flushBuffer s) = slice_last MAX_LINES (pd_streamLines s @ pd_lineBuf s)"
  by (auto simp: flushBuffer_def append_lines_def slice_last_short Let_def)

lemma flush_buffer [simp]: "pd_lineBuf (flushBuffer s) = []" "pd_stream (flushBuffer s) = pd_stream s"
  by (simp_all add: flushBuffer_def)

definition stream_shows :: "string list \<Rightarrow> pod_logs \<Rightarrow> bool" where
  "stream_shows ls s =
     (pd_stream s \<and> length (pd_streamLines s) \<le> MAX_LINES
      \<and> slice_last MAX_LINES (pd_streamLines s @ pd_lineBuf s) = slice_last MAX_LINES ls)"

lemma stream_shows_step:
  assumes "stream_shows ls s" "in_stream e"
  shows "stream_shows (ls @ stream_line e) (pod_step s e)"
proof -
  consider l where "e = StreamLine l" | "e = Frame" using assms(2) by (auto simp: in_stream_def)
  then show ?thesis
  proof cases
    case 1
    have "slice_last MAX_LINES ((pd_streamLines s @ pd_lineBuf s) @ [l]) = slice_last MAX_LINES (ls @ [l])"
      using assms(1) by (metis stream_shows_def slice_last_append)
    with 1 assms(1) show ?thesis by (simp add: stream_shows_def pushLine_def)
  next
    case 2
    then show ?thesis
      using assms(1) flush_shown [of s] by (simp add: stream_shows_def slice_last_short)
  qed
qed

lemma stream_shows_run:
  "stream_shows ls s \<Longrightarrow> list_all in_stream es \<Longrightarrow> stream_shows (ls @ concat (map stream_line es)) (run pod_step s es)"
proof (induction es arbitrary: ls s)
  case Nil
  then show ?case by simp
next
  case (Cons e es)
  then show ?case
    using stream_shows_step [of ls s e] Cons.IH [of "ls @ stream_line e" "pod_step s e"] by simp
qed

text \<open>When a stream ends, the view shows the last 10000 lines it delivered, in order, however the frames
  fell between them.\<close>

theorem pod_stream_shows_lines:
  assumes "list_all in_stream es"
  shows "pod_lines (run pod_step pod_start (es @ [StreamDone])) = slice_last 10000 (concat (map stream_line es))"
proof -
  have "stream_shows [] pod_start" by (simp add: stream_shows_def pod_start_def startStream_def abort_stream_def)
  from stream_shows_run [OF this assms]
  have shown: "stream_shows (concat (map stream_line es)) (run pod_step pod_start es)" by simp
  have "pd_mode (run pod_step s es) = pd_mode s" if "list_all in_stream es" for s es
    using that by (induction es arbitrary: s) (auto simp: in_stream_def pushLine_def flushBuffer_def)
  from this [OF assms, of pod_start] have "pd_mode (run pod_step pod_start es) = Live"
    by (simp add: pod_start_def startStream_def abort_stream_def)
  moreover have "pd_mode (flushBuffer s) = pd_mode s" for s by (simp add: flushBuffer_def)
  ultimately show ?thesis
    using shown flush_shown [of "run pod_step pod_start es"]
    by (simp add: stream_shows_def pod_lines_def MAX_LINES_def)
qed

theorem pod_stream_shows_lines_witness:
  "pod_lines (run pod_step pod_start ([StreamLine ''a'', Frame, Frame, StreamLine ''b''] @ [StreamDone]))
     = slice_last 10000 (concat (map stream_line [StreamLine ''a'', Frame, Frame, StreamLine ''b'']))"
  by (rule pod_stream_shows_lines) (simp add: in_stream_def)

end
