(* ===== verification/PodSearch.thy ===== *)
theory PodSearch
  imports PodLogs
begin

text \<open>
  The search of \<open>PodLogViewer.tsx\<close>: the positions of the matching lines, cached between renders, the
  cursor over them, and the level a line is colored with. Lower-casing covers ASCII letters.
\<close>

section \<open>Matching lines\<close>

fun str_includes :: "string \<Rightarrow> string \<Rightarrow> bool" where
  "str_includes p [] = (p = [])"
| "str_includes p (c # cs) = (starts_with p (c # cs) \<or> str_includes p cs)"

definition line_matches :: "string \<Rightarrow> string \<Rightarrow> bool" where
  "line_matches search line = str_includes (map to_lower_char search) (map to_lower_char line)"

text \<open>The three refs: positions found, lines scanned, the search they belong to.\<close>

record match_cache =
  mc_indices :: "nat list"
  mc_scanLen :: nat
  mc_search :: string

definition matchIndices :: "string \<Rightarrow> string list \<Rightarrow> match_cache \<Rightarrow> nat list \<times> match_cache" where
  "matchIndices search lines c =
     (if search = [] then ([], \<lparr>mc_indices = [], mc_scanLen = 0, mc_search = []\<rparr>)
      else
        let searchChanged = (mc_search c \<noteq> search);
            linesShrank = (length lines < mc_scanLen c);
            c1 = (if searchChanged \<or> linesShrank
                  then \<lparr>mc_indices = [], mc_scanLen = 0, mc_search = search\<rparr> else c);
            found = mc_indices c1
              @ filter (\<lambda>i. line_matches search (lines ! i)) [mc_scanLen c1..<length lines]
        in (found, c1\<lparr>mc_indices := found, mc_scanLen := length lines\<rparr>))"

definition matching :: "string \<Rightarrow> string list \<Rightarrow> nat list" where
  "matching search lines = filter (\<lambda>i. line_matches search (lines ! i)) [0..<length lines]"

text \<open>The cache describes a prefix of the lines.\<close>

definition cache_of :: "match_cache \<Rightarrow> string list \<Rightarrow> bool" where
  "cache_of c lines =
     (mc_search c \<noteq> [] \<longrightarrow> mc_scanLen c = length lines \<and> mc_indices c = matching (mc_search c) lines)"

lemma matching_append:
  "matching search (ls @ newer) =
     matching search ls @ filter (\<lambda>i. line_matches search ((ls @ newer) ! i)) [length ls..<length (ls @ newer)]"
proof -
  have "[0..<length (ls @ newer)] = [0..<length ls] @ [length ls..<length (ls @ newer)]"
    using upt_add_eq_append [of 0 "length ls" "length newer"] by simp
  moreover have "filter (\<lambda>i. line_matches search ((ls @ newer) ! i)) [0..<length ls] = matching search ls"
    unfolding matching_def by (rule filter_cong) (auto simp: nth_append)
  ultimately show ?thesis by (simp add: matching_def)
qed

lemma matchIndices_ok:
  assumes "cache_of c ls" "lines = ls @ newer \<or> length lines < length ls \<or> search \<noteq> mc_search c"
  shows "fst (matchIndices search lines c) = (if search = [] then [] else matching search lines)
     \<and> cache_of (snd (matchIndices search lines c)) lines"
proof (cases "search = []")
  case True
  then show ?thesis by (simp add: matchIndices_def cache_of_def)
next
  case False
  show ?thesis
  proof (cases "mc_search c \<noteq> search \<or> length lines < mc_scanLen c")
    case True
    with False show ?thesis by (simp add: matchIndices_def cache_of_def matching_def Let_def)
  next
    case stale: False
    then have "mc_scanLen c = length ls" "mc_indices c = matching search ls"
      using assms(1) False by (auto simp: cache_of_def)
    moreover from this stale have "lines = ls @ newer" using assms(2) by auto
    ultimately show ?thesis
      using False stale matching_append [of search ls newer]
      by (simp add: matchIndices_def cache_of_def Let_def)
  qed
qed

lemma matchIndices_search: "search \<noteq> [] \<Longrightarrow> mc_search (snd (matchIndices search lines c)) = search"
  by (simp add: matchIndices_def Let_def)

text \<open>C21. While the view only grows, is emptied or shrinks, or the search changes, every render highlights
  exactly the matching lines, in order, although it scans only the new ones.\<close>

theorem search_cache_exact:
  assumes "cache_of c ls" "lines = ls @ newer \<or> length lines < length ls \<or> search \<noteq> mc_search c" "search \<noteq> []"
  shows "fst (matchIndices search lines c) = matching search lines
     \<and> cache_of (snd (matchIndices search lines c)) lines"
  using matchIndices_ok [OF assms(1,2)] assms(3) by simp

theorem search_cache_exact_witness:
  "fst (matchIndices ''x'' [''a'', ''Xb'', ''x''] \<lparr>mc_indices = [1], mc_scanLen = 2, mc_search = ''x''\<rparr>)
     = matching ''x'' [''a'', ''Xb'', ''x'']
   \<and> cache_of (snd (matchIndices ''x'' [''a'', ''Xb'', ''x''] \<lparr>mc_indices = [1], mc_scanLen = 2, mc_search = ''x''\<rparr>))
       [''a'', ''Xb'', ''x'']"
  by (rule search_cache_exact [of _ "[''a'', ''Xb'']" _ "[''x'']"])
     (code_simp, simp_all)

lemma full_view_keeps_indices:
  assumes "cache_of c ls" "mc_search c = search" "search \<noteq> []" "length ls = MAX_LINES"
  shows "fst (matchIndices search (append_lines batch ls) c) = matching search ls"
proof -
  have "length (append_lines batch ls) = MAX_LINES"
    using assms(4) by (auto simp: append_lines_def Let_def)
  then show ?thesis
    using assms by (simp add: matchIndices_def cache_of_def Let_def)
qed

lemma matching_replicate: "\<not> line_matches s l \<Longrightarrow> matching s (replicate n l) = []"
  by (auto simp: matching_def filter_empty_conv)

text \<open>Once the view is full it slides: a batch drops as many lines as it adds, the length stays, and the
  code neither scans the new lines nor moves the old positions. The highlighted positions are then
  those of lines that are gone.\<close>

theorem search_cache_stale_when_full:
  "let ls = ''x'' # replicate (MAX_LINES - 1) ''a''; c = snd (matchIndices ''x'' ls \<lparr>mc_indices = [], mc_scanLen = 0, mc_search = []\<rparr>)
   in fst (matchIndices ''x'' (append_lines [''a''] ls) c) = [0] \<and> matching ''x'' (append_lines [''a''] ls) = []"
proof -
  let ?ls = "''x'' # replicate (MAX_LINES - 1) ''a''"
  let ?start = "\<lparr>mc_indices = [], mc_scanLen = 0, mc_search = []\<rparr>"
  let ?c = "snd (matchIndices ''x'' ?ls ?start)"
  have m: "line_matches ''x'' ''x''" "\<not> line_matches ''x'' ''a''" by code_simp+
  have len: "length ?ls = MAX_LINES" "Suc (MAX_LINES - 1) = MAX_LINES" by (simp_all add: MAX_LINES_def)
  have old: "matching ''x'' ?ls = [0]"
    using m matching_replicate [OF m(2), of "MAX_LINES - 1"]
    by (simp add: matching_def upt_conv_Cons map_Suc_upt [symmetric] filter_map comp_def del: upt_Suc)
  have "cache_of ?start []" by (simp add: cache_of_def)
  then have c: "cache_of ?c ?ls" by (intro matchIndices_ok [THEN conjunct2, of _ "[]"]) simp_all
  have cs: "mc_search ?c = ''x''" by (rule matchIndices_search) simp
  have "append_lines [''a''] ?ls = replicate MAX_LINES ''a''"
    using len by (simp add: append_lines_def slice_last_def Let_def replicate_append_same)
      (metis replicate_Suc)
  then show ?thesis
    using full_view_keeps_indices [OF c cs _ len(1), of "[''a'']"] old m(2)
    by (simp add: Let_def matching_replicate)
qed

section \<open>The cursor\<close>

text \<open>\<open>(cur + 1) % n\<close> and \<open>(cur - 1 + n) % n\<close>, with the sign of JavaScript's remainder.\<close>

definition js_mod :: "int \<Rightarrow> int \<Rightarrow> int" where
  "js_mod a b = sgn a * (\<bar>a\<bar> mod b)"

datatype jump = NextMatch | PrevMatch

definition jumpToMatch :: "jump \<Rightarrow> nat \<Rightarrow> int \<Rightarrow> int" where
  "jumpToMatch d n cur =
     (if n = 0 then cur
      else case d of NextMatch \<Rightarrow> js_mod (cur + 1) (int n) | PrevMatch \<Rightarrow> js_mod (cur - 1 + int n) (int n))"

definition cursor_on_search :: "nat \<Rightarrow> int" where
  "cursor_on_search n = (if 0 < n then 0 else -1)"

lemma js_mod_nonneg: "0 \<le> a \<Longrightarrow> 0 < b \<Longrightarrow> js_mod a b = a mod b"
  by (cases "a = 0") (simp_all add: js_mod_def)

text \<open>With matches present a jump lands on one of them, and from a match the two directions undo each other.\<close>

theorem jump_stays_on_matches:
  assumes "0 < n" "-1 \<le> cur" "cur < int n"
  shows "0 \<le> jumpToMatch d n cur \<and> jumpToMatch d n cur < int n
     \<and> (0 \<le> cur \<longrightarrow> jumpToMatch PrevMatch n (jumpToMatch NextMatch n cur) = cur
          \<and> jumpToMatch NextMatch n (jumpToMatch PrevMatch n cur) = cur)"
proof -
  have "jumpToMatch PrevMatch n (-1) = (int n - 2) mod int n" 
    if "2 \<le> n" using that by (simp add: jumpToMatch_def js_mod_nonneg)
  moreover have "jumpToMatch PrevMatch 1 (-1) = 0" by (simp add: jumpToMatch_def js_mod_def)
  moreover have "jumpToMatch NextMatch n cur = (cur + 1) mod int n"
    using assms by (simp add: jumpToMatch_def js_mod_nonneg)
  moreover have prev: "jumpToMatch PrevMatch n i = (i - 1 + int n) mod int n" if "0 \<le> i" for i
    using assms that by (simp add: jumpToMatch_def js_mod_nonneg)
  ultimately have range: "0 \<le> jumpToMatch d n cur \<and> jumpToMatch d n cur < int n"
    using assms by (cases d; cases "cur = -1"; cases "n = 1") auto
  moreover have "jumpToMatch PrevMatch n (jumpToMatch NextMatch n cur) = cur
      \<and> jumpToMatch NextMatch n (jumpToMatch PrevMatch n cur) = cur" if c: "0 \<le> cur"
  proof -
    have n: "jumpToMatch NextMatch n i = (i + 1) mod int n" if "0 \<le> i" for i
      using assms that by (simp add: jumpToMatch_def js_mod_nonneg)
    have "((cur + 1) mod int n - 1 + int n) mod int n = cur"
      using assms c by (cases "cur + 1 = int n") (simp_all add: zmod_minus1)
    moreover have "((cur - 1 + int n) mod int n + 1) mod int n = cur"
      using assms c by (cases "cur = 0") (simp_all add: zmod_minus1)
    ultimately show ?thesis using assms c by (simp add: n prev)
  qed
  ultimately show ?thesis by blast
qed

theorem jump_stays_on_matches_witness:
  "0 \<le> jumpToMatch PrevMatch 3 0 \<and> jumpToMatch PrevMatch 3 0 < int 3
     \<and> jumpToMatch PrevMatch 3 (jumpToMatch NextMatch 3 0) = 0
     \<and> jumpToMatch NextMatch 3 (jumpToMatch PrevMatch 3 0) = 0"
  using jump_stays_on_matches [of 3 0 PrevMatch] by simp

section \<open>Levels\<close>

text \<open>\<open>\b(w1|w2|...)\b\<close> without regard to case, for alternatives that begin and end with word characters.\<close>

fun word_at :: "bool \<Rightarrow> string \<Rightarrow> string \<Rightarrow> bool" where
  "word_at bound w [] = False"
| "word_at bound w (c # cs) =
     ((bound \<and> starts_with w (map to_lower_char (c # cs))
        \<and> (case drop (length w) (c # cs) of [] \<Rightarrow> True | d # ds \<Rightarrow> \<not> is_word d))
      \<or> word_at (\<not> is_word c) w cs)"

definition has_word :: "string list \<Rightarrow> string \<Rightarrow> bool" where
  "has_word ws s = list_ex (\<lambda>w. word_at True w s) ws"

datatype line_level = LevelError | LevelWarn | LevelInfo

definition detectLevel :: "string \<Rightarrow> line_level" where
  "detectLevel line =
     (if has_word [''error'', ''fatal'', ''panic'', ''exception'', ''fail'', ''failed'', ''failure'', ''crash''] line
      then LevelError
      else if has_word [''warn'', ''warning'', ''deprecat''] line then LevelWarn
      else LevelInfo)"

text \<open>The stem \<open>deprecat\<close> is followed by a word boundary in the pattern, so the words it is meant for are not
  found.\<close>

theorem deprecated_lines_not_flagged:
  "detectLevel ''API v1 is deprecated'' = LevelInfo \<and> detectLevel ''deprecation notice'' = LevelInfo
   \<and> detectLevel ''WARN: api'' = LevelWarn \<and> detectLevel ''request Failed'' = LevelError"
  by (intro conjI; code_simp)

end
