(* ===== verification/Tables.thy ===== *)
theory Tables
  imports UiState Formatters PodSearch "HOL-Library.Multiset" "HOL-Library.List_Lexorder"
begin

text \<open>
  The tables of workloads and nodes (\<open>components/cluster/WorkloadsTable.tsx\<close>, \<open>NodesTable.tsx\<close>): filters,
  stable sorting by a column, pages, the groups by zone and the state of the filter bar.

  \<open>collate\<close> is \<open>String.prototype.localeCompare\<close>, which depends on the browser's locale; what the proofs
  use of it is that it orders strings consistently.
\<close>

section \<open>Sorting with a comparator\<close>

text \<open>\<open>Array.prototype.sort(cmp)\<close>: for a consistent comparator the language asks for the stable sort, whose
  result does not depend on the algorithm.\<close>

fun cmp_insert :: "('a \<Rightarrow> 'a \<Rightarrow> rat) \<Rightarrow> 'a \<Rightarrow> 'a list \<Rightarrow> 'a list" where
  "cmp_insert cmp x [] = [x]"
| "cmp_insert cmp x (y # ys) = (if cmp x y \<le> 0 then x # y # ys else y # cmp_insert cmp x ys)"

definition js_sort :: "('a \<Rightarrow> 'a \<Rightarrow> rat) \<Rightarrow> 'a list \<Rightarrow> 'a list" where
  "js_sort cmp xs = foldr (cmp_insert cmp) xs []"

definition with_dir :: "sort_dir \<Rightarrow> ('a \<Rightarrow> 'a \<Rightarrow> rat) \<Rightarrow> 'a \<Rightarrow> 'a \<Rightarrow> rat" where
  "with_dir dir cmp a b = (if dir = Asc then cmp a b else - cmp a b)"

locale comparator =
  fixes cmp :: "'a \<Rightarrow> 'a \<Rightarrow> rat"
  assumes cmp_swap: "cmp a b \<le> 0 \<longleftrightarrow> 0 \<le> cmp b a"
    and cmp_trans: "cmp a b \<le> 0 \<Longrightarrow> cmp b c \<le> 0 \<Longrightarrow> cmp a c \<le> 0"
begin

lemma insert_mset: "mset (cmp_insert cmp x ys) = add_mset x (mset ys)"
  by (induction ys) auto

lemma insert_set [simp]: "set (cmp_insert cmp x ys) = insert x (set ys)"
  using insert_mset [of x ys] by (metis set_mset_add_mset_insert set_mset_mset)

lemma insert_sorted:
  "sorted_wrt (\<lambda>a b. cmp a b \<le> 0) ys \<Longrightarrow> sorted_wrt (\<lambda>a b. cmp a b \<le> 0) (cmp_insert cmp x ys)"
proof (induction ys)
  case (Cons y ys)
  have "cmp y x \<le> 0" if "\<not> cmp x y \<le> 0" using that cmp_swap [of y x] by simp
  with Cons show ?case using cmp_trans by auto
qed simp

lemma sort_mset: "mset (js_sort cmp xs) = mset xs"
  unfolding js_sort_def by (induction xs) (simp_all add: insert_mset)

lemma sort_sorted: "sorted_wrt (\<lambda>a b. cmp a b \<le> 0) (js_sort cmp xs)"
  unfolding js_sort_def by (induction xs) (simp_all add: insert_sorted)

text \<open>Elements that compare equal keep their order.\<close>

lemma insert_class:
  "filter (\<lambda>b. cmp a b = 0) (cmp_insert cmp x ys) =
     (if cmp a x = 0 then x # filter (\<lambda>b. cmp a b = 0) ys else filter (\<lambda>b. cmp a b = 0) ys)"
proof (induction ys)
  case (Cons y ys)
  have "cmp x y \<le> 0" if "cmp a x = 0" "cmp a y = 0"
    using that cmp_swap [of x a] cmp_trans [of x a y] by simp
  with Cons show ?case by auto
qed simp

lemma sort_stable: "filter (\<lambda>b. cmp a b = 0) (js_sort cmp xs) = filter (\<lambda>b. cmp a b = 0) xs"
  unfolding js_sort_def by (induction xs) (simp_all add: insert_class)

lemma reversed: "comparator (\<lambda>a b. - cmp a b)"
proof
  show "- cmp a b \<le> 0 \<longleftrightarrow> 0 \<le> - cmp b a" for a b using cmp_swap [of b a] by simp
  show "- cmp a c \<le> 0" if "- cmp a b \<le> 0" "- cmp b c \<le> 0" for a b c
    using that cmp_swap [of b a] cmp_swap [of c b] cmp_swap [of c a] cmp_trans [of c b a] by simp
qed

lemma directed: "comparator (with_dir dir cmp)"
proof (cases dir)
  case Asc
  then have "with_dir dir cmp = cmp" by (simp add: with_dir_def fun_eq_iff)
  then show ?thesis by (simp add: comparator_axioms)
next
  case Desc
  then have "with_dir dir cmp = (\<lambda>a b. - cmp a b)" by (simp add: with_dir_def fun_eq_iff)
  then show ?thesis using reversed by simp
qed

end

lemma comparator_key: "comparator cmp \<Longrightarrow> comparator (\<lambda>a b. cmp (f a) (f b))"
  by (simp add: comparator_def) blast

lemma comparator_diff: "comparator (\<lambda>a b. (k a :: rat) - k b)"
  by unfold_locales auto

section \<open>Workloads\<close>

datatype workload_col = ColNamespace | ColName | ColKind | ColReplicas | ColStatus

fun kind_name :: "workload_kind \<Rightarrow> string" where
  "kind_name Deployment = ''Deployment''"
| "kind_name StatefulSet = ''StatefulSet''"

fun status_name :: "workload_status \<Rightarrow> string" where
  "status_name WlRunning = ''running''"
| "status_name WlSleeping = ''sleeping''"
| "status_name WlPartial = ''partial''"

definition trimmed_list :: "string \<Rightarrow> string list" where
  "trimmed_list s = filter (\<lambda>x. x \<noteq> []) (map js_trim (split_on CHR '','' s))"

definition protectedNamespaces :: "guardrails option \<Rightarrow> string list" where
  "protectedNamespaces g = (case g of None \<Rightarrow> [] | Some gr \<Rightarrow> remdups (trimmed_list (gr_protectedNamespaces gr)))"

datatype protection = ProtAll | ProtProtected | ProtUnprotected

record workload_filters =
  wf_search :: string
  wf_ns :: string
  wf_status :: string
  wf_protection :: protection

definition no_filters :: workload_filters where
  "no_filters = \<lparr>wf_search = [], wf_ns = ''all'', wf_status = ''all'', wf_protection = ProtAll\<rparr>"

definition hasActiveFilters :: "workload_filters \<Rightarrow> bool" where
  "hasActiveFilters f = (wf_search f \<noteq> [] \<or> wf_ns f \<noteq> ''all'' \<or> wf_status f \<noteq> ''all'' \<or> wf_protection f \<noteq> ProtAll)"

definition name_matches :: "string \<Rightarrow> string \<Rightarrow> bool" where
  "name_matches search name = (search = [] \<or> str_includes (map to_lower_char search) (map to_lower_char name))"

definition workload_shown :: "string list \<Rightarrow> workload_filters \<Rightarrow> workload \<Rightarrow> bool" where
  "workload_shown protected f w =
     (\<not> (wf_ns f \<noteq> ''all'' \<and> wl_namespace w \<noteq> wf_ns f)
      \<and> \<not> (wf_status f \<noteq> ''all'' \<and> status_name (wl_status w) \<noteq> wf_status f)
      \<and> \<not> (wf_protection f = ProtProtected \<and> wl_namespace w \<notin> set protected)
      \<and> \<not> (wf_protection f = ProtUnprotected \<and> wl_namespace w \<in> set protected)
      \<and> name_matches (wf_search f) (wl_name w))"

fun workload_cmp :: "(string \<Rightarrow> string \<Rightarrow> rat) \<Rightarrow> workload_col \<Rightarrow> workload \<Rightarrow> workload \<Rightarrow> rat" where
  "workload_cmp collate ColNamespace a b = collate (wl_namespace a) (wl_namespace b)"
| "workload_cmp collate ColName a b = collate (wl_name a) (wl_name b)"
| "workload_cmp collate ColKind a b = collate (kind_name (wl_kind a)) (kind_name (wl_kind b))"
| "workload_cmp collate ColReplicas a b = of_int (wl_currentReplicas a) - of_int (wl_currentReplicas b)"
| "workload_cmp collate ColStatus a b = collate (status_name (wl_status a)) (status_name (wl_status b))"

definition sorted_workloads ::
  "(string \<Rightarrow> string \<Rightarrow> rat) \<Rightarrow> workload_col sort_state \<Rightarrow> workload list \<Rightarrow> workload list" where
  "sorted_workloads collate st ws =
     (case sortCol st of None \<Rightarrow> ws | Some c \<Rightarrow> js_sort (with_dir (sortDir st) (workload_cmp collate c)) ws)"

definition page_rows :: "nat \<Rightarrow> nat \<Rightarrow> 'a list \<Rightarrow> 'a list" where
  "page_rows page rowsPerPage xs = take rowsPerPage (drop (page * rowsPerPage) xs)"

definition namespaces :: "workload list \<Rightarrow> string list" where
  "namespaces ws = ''all'' # sort (remdups (map wl_namespace ws))"

definition unhealthy :: "workload \<Rightarrow> bool" where
  "unhealthy w = (wl_readyReplicas w < wl_currentReplicas w \<and> 0 < wl_currentReplicas w)"

definition row_count_text :: "nat \<Rightarrow> nat \<Rightarrow> string" where
  "row_count_text shown amount =
     (if shown = amount then show_nat amount @ '' workload'' @ (if amount \<noteq> 1 then ''s'' else '''')
      else ''Showing '' @ show_nat shown @ '' of '' @ show_nat amount @ '' workloads'')"

section \<open>The state of the workloads table\<close>

record workloads_view =
  wv_filters :: workload_filters
  wv_sort :: "workload_col sort_state"
  wv_page :: nat
  wv_rowsPerPage :: nat
  wv_selected :: "workload option"
  wv_urlStatus :: "string option"

definition validStatuses :: "string list" where
  "validStatuses = [''running'', ''sleeping'', ''partial'']"

definition status_from_url :: "string option \<Rightarrow> string" where
  "status_from_url s = (case s of None \<Rightarrow> ''all'' | Some t \<Rightarrow> if t \<in> set validStatuses then t else ''all'')"

definition workloads_start :: "string option \<Rightarrow> workloads_view" where
  "workloads_start urlStatus =
     \<lparr>wv_filters = no_filters\<lparr>wf_status := status_from_url urlStatus\<rparr>, wv_sort = sort_start, wv_page = 0,
      wv_rowsPerPage = 20, wv_selected = None, wv_urlStatus = urlStatus\<rparr>"

text \<open>Changing a filter runs the effect that goes back to the first page; \<open>UrlChanged\<close> is a navigation to the
  page with another query.\<close>

datatype workloads_event =
    FiltersSet workload_filters
  | UrlChanged "string option"
  | HeaderClicked workload_col
  | PageChanged nat
  | RowsPerPageChanged nat
  | RowClicked workload
  | DrawerClosed
  | FiltersCleared

definition set_filters :: "workload_filters \<Rightarrow> workloads_view \<Rightarrow> workloads_view" where
  "set_filters f s = (if wv_filters s = f then s else s\<lparr>wv_filters := f, wv_page := 0\<rparr>)"

fun workloads_step :: "workloads_view \<Rightarrow> workloads_event \<Rightarrow> workloads_view" where
  "workloads_step s (FiltersSet f) = set_filters f s"
| "workloads_step s (UrlChanged u) =
     set_filters ((wv_filters s)\<lparr>wf_status := status_from_url u\<rparr>) (s\<lparr>wv_urlStatus := u\<rparr>)"
| "workloads_step s (HeaderClicked c) = s\<lparr>wv_sort := handleSort (wv_sort s) c\<rparr>"
| "workloads_step s (PageChanged p) = s\<lparr>wv_page := p\<rparr>"
| "workloads_step s (RowsPerPageChanged n) = s\<lparr>wv_rowsPerPage := n, wv_page := 0\<rparr>"
| "workloads_step s (RowClicked w) = s\<lparr>wv_selected := Some w\<rparr>"
| "workloads_step s DrawerClosed = s\<lparr>wv_selected := None\<rparr>"
| "workloads_step s FiltersCleared = (set_filters no_filters s)\<lparr>wv_page := 0, wv_urlStatus := None\<rparr>"

definition shown_workloads ::
  "(string \<Rightarrow> string \<Rightarrow> rat) \<Rightarrow> guardrails option \<Rightarrow> workload list \<Rightarrow> workloads_view \<Rightarrow> workload list" where
  "shown_workloads collate g ws s =
     sorted_workloads collate (wv_sort s) (filter (workload_shown (protectedNamespaces g) (wv_filters s)) ws)"

definition workload_rows ::
  "(string \<Rightarrow> string \<Rightarrow> rat) \<Rightarrow> guardrails option \<Rightarrow> workload list \<Rightarrow> workloads_view \<Rightarrow> workload list" where
  "workload_rows collate g ws s = page_rows (wv_page s) (wv_rowsPerPage s) (shown_workloads collate g ws s)"

section \<open>Nodes\<close>

datatype node_col = NcName | NcAge | NcInstanceType | NcZone | NcPods | NcCpu | NcMem | NcStatus

fun node_status_name :: "node_status \<Rightarrow> string" where
  "node_status_name NodeActive = ''active''"
| "node_status_name NodeProtected = ''protected''"
| "node_status_name NodeWouldDrain = ''would-drain''"

text \<open>A difference with an unreadable creation time is NaN, which the sort takes as zero.\<close>

definition age_diff :: "js_env \<Rightarrow> node \<Rightarrow> node \<Rightarrow> rat" where
  "age_diff env a b =
     (case (date_parse env (nd_createdAt a), date_parse env (nd_createdAt b)) of
        (Some x, Some y) \<Rightarrow> of_int x - of_int y
      | _ \<Rightarrow> 0)"

fun node_cmp :: "js_env \<Rightarrow> (string \<Rightarrow> string \<Rightarrow> rat) \<Rightarrow> node_col \<Rightarrow> node \<Rightarrow> node \<Rightarrow> rat" where
  "node_cmp env collate NcName a b = collate (nd_name a) (nd_name b)"
| "node_cmp env collate NcAge a b = age_diff env a b"
| "node_cmp env collate NcInstanceType a b = collate (nd_instanceType a) (nd_instanceType b)"
| "node_cmp env collate NcZone a b = collate (nd_zone a) (nd_zone b)"
| "node_cmp env collate NcPods a b = of_int (nd_podCount a) - of_int (nd_podCount b)"
| "node_cmp env collate NcCpu a b =
     of_int (usage_pct (nd_cpuRequested a) (nd_cpuAllocatable a)) - of_int (usage_pct (nd_cpuRequested b) (nd_cpuAllocatable b))"
| "node_cmp env collate NcMem a b =
     of_int (usage_pct (nd_memRequested a) (nd_memAllocatable a)) - of_int (usage_pct (nd_memRequested b) (nd_memAllocatable b))"
| "node_cmp env collate NcStatus a b = collate (node_status_name (nd_status a)) (node_status_name (nd_status b))"

definition sortNodes :: "js_env \<Rightarrow> (string \<Rightarrow> string \<Rightarrow> rat) \<Rightarrow> node list \<Rightarrow> node_col \<Rightarrow> sort_dir \<Rightarrow> node list" where
  "sortNodes env collate nodes col dir = js_sort (with_dir dir (node_cmp env collate col)) nodes"

definition shown_nodes ::
  "js_env \<Rightarrow> (string \<Rightarrow> string \<Rightarrow> rat) \<Rightarrow> string \<Rightarrow> node_col sort_state \<Rightarrow> node list \<Rightarrow> node list" where
  "shown_nodes env collate search st nodes =
     (let filtered = filter (\<lambda>n. name_matches search (nd_name n)) nodes
      in case sortCol st of None \<Rightarrow> filtered | Some c \<Rightarrow> sortNodes env collate filtered c (sortDir st))"

record zone_stats =
  zs_nodes :: "node list"
  zs_totalPods :: int
  zs_cpuAllocatable :: int
  zs_cpuRequested :: int
  zs_memAllocatable :: int
  zs_memRequested :: int
  zs_cordoned :: nat

definition empty_zone :: zone_stats where
  "empty_zone = \<lparr>zs_nodes = [], zs_totalPods = 0, zs_cpuAllocatable = 0, zs_cpuRequested = 0, zs_memAllocatable = 0,
     zs_memRequested = 0, zs_cordoned = 0\<rparr>"

definition zone_key :: "node \<Rightarrow> string" where
  "zone_key n = (if nd_zone n = [] then ''(unknown)'' else nd_zone n)"

definition add_to_zone :: "node \<Rightarrow> zone_stats \<Rightarrow> zone_stats" where
  "add_to_zone n z =
     \<lparr>zs_nodes = zs_nodes z @ [n], zs_totalPods = zs_totalPods z + nd_podCount n,
      zs_cpuAllocatable = zs_cpuAllocatable z + nd_cpuAllocatable n, zs_cpuRequested = zs_cpuRequested z + nd_cpuRequested n,
      zs_memAllocatable = zs_memAllocatable z + nd_memAllocatable n, zs_memRequested = zs_memRequested z + nd_memRequested n,
      zs_cordoned = zs_cordoned z + (if nd_cordoned n then 1 else 0)\<rparr>"

definition add_node :: "node \<Rightarrow> (string \<times> zone_stats) list \<Rightarrow> (string \<times> zone_stats) list" where
  "add_node n zones =
     (let z = (case map_of zones (zone_key n) of Some z \<Rightarrow> z | None \<Rightarrow> empty_zone)
      in assoc_set (zone_key n) (add_to_zone n z) zones)"

definition zoneGroups :: "(string \<Rightarrow> string \<Rightarrow> rat) \<Rightarrow> bool \<Rightarrow> node list \<Rightarrow> (string \<times> zone_stats) list" where
  "zoneGroups collate groupByZone rows =
     (if \<not> groupByZone then []
      else js_sort (\<lambda>a b. collate (fst a) (fst b)) (fold add_node rows []))"

section \<open>What the tables show\<close>

lemma workload_cmp_eqs:
  "workload_cmp collate ColNamespace = (\<lambda>a b. collate (wl_namespace a) (wl_namespace b))"
  "workload_cmp collate ColName = (\<lambda>a b. collate (wl_name a) (wl_name b))"
  "workload_cmp collate ColKind = (\<lambda>a b. collate (kind_name (wl_kind a)) (kind_name (wl_kind b)))"
  "workload_cmp collate ColReplicas = (\<lambda>a b. of_int (wl_currentReplicas a) - of_int (wl_currentReplicas b))"
  "workload_cmp collate ColStatus = (\<lambda>a b. collate (status_name (wl_status a)) (status_name (wl_status b)))"
  by (simp_all add: fun_eq_iff)

lemma workload_cmp_comparator:
  assumes "comparator collate"
  shows "comparator (workload_cmp collate c)"
  using comparator_key [OF assms, of wl_namespace] comparator_key [OF assms, of wl_name]
    comparator_key [OF assms, of "\<lambda>w. kind_name (wl_kind w)"] comparator_key [OF assms, of "\<lambda>w. status_name (wl_status w)"]
    comparator_diff [of "\<lambda>w. of_int (wl_currentReplicas w)"]
  by (cases c) (simp_all only: workload_cmp_eqs)

interpretation replicas: comparator "workload_cmp collate ColReplicas" for collate
  by unfold_locales auto

interpretation pods: comparator "node_cmp env collate NcPods" for env collate
  by unfold_locales auto

lemma pages_partition: "0 < n \<Longrightarrow> length xs \<le> k * n \<Longrightarrow> concat (map (\<lambda>p. page_rows p n xs) [0..<k]) = xs"
proof (induction k arbitrary: xs)
  case (Suc k)
  have upt: "[1..<Suc k] = map Suc [0..<k]" by (simp only: map_Suc_upt One_nat_def)
  have "map (\<lambda>p. page_rows p n xs) [1..<Suc k] = map (\<lambda>p. page_rows p n (drop n xs)) [0..<k]"
    unfolding upt by (simp add: page_rows_def add.commute del: upt_Suc)
  then have "concat (map (\<lambda>p. page_rows p n xs) [1..<Suc k]) = drop n xs"
    using Suc.IH [of "drop n xs"] Suc.prems by simp
  moreover have "[0..<Suc k] = 0 # [1..<Suc k]" by (simp add: upt_rec)
  ultimately show ?case by (simp add: page_rows_def del: upt_Suc)
qed simp

text \<open>With any filters and any sort, the pages together show every matching workload exactly once, in the
  order of the column and the direction, workloads that compare equal in the order of the server.\<close>

theorem workload_table_exact:
  assumes "comparator collate" "0 < wv_rowsPerPage s" "length ws \<le> k * wv_rowsPerPage s"
  shows "let shown = concat (map (\<lambda>p. workload_rows collate g ws (s\<lparr>wv_page := p\<rparr>)) [0..<k]);
             wanted = filter (workload_shown (protectedNamespaces g) (wv_filters s)) ws
     in mset shown = mset wanted
      \<and> (\<forall>c. sortCol (wv_sort s) = Some c \<longrightarrow>
           sorted_wrt (\<lambda>a b. with_dir (sortDir (wv_sort s)) (workload_cmp collate c) a b \<le> 0) shown
           \<and> (\<forall>a. filter (\<lambda>b. workload_cmp collate c a b = 0) shown = filter (\<lambda>b. workload_cmp collate c a b = 0) wanted))
      \<and> (sortCol (wv_sort s) = None \<longrightarrow> shown = wanted)"
proof -
  let ?wanted = "filter (workload_shown (protectedNamespaces g) (wv_filters s)) ws"
  let ?shown = "shown_workloads collate g ws s"
  have cmp: "comparator (with_dir d (workload_cmp collate c))" for d c
    using comparator.directed [OF workload_cmp_comparator [OF assms(1)]] .
  have m: "mset ?shown = mset ?wanted"
    by (cases "sortCol (wv_sort s)") (simp_all add: shown_workloads_def sorted_workloads_def comparator.sort_mset [OF cmp])
  then have "length ?shown = length ?wanted" by (rule mset_eq_length)
  then have "length ?shown \<le> k * wv_rowsPerPage s" using assms(3) length_filter_le [of _ ws] le_trans by metis
  then have pages: "concat (map (\<lambda>p. workload_rows collate g ws (s\<lparr>wv_page := p\<rparr>)) [0..<k]) = ?shown"
    using pages_partition [OF assms(2)] by (simp add: workload_rows_def shown_workloads_def)
  have "filter (\<lambda>b. workload_cmp collate c a b = 0) ?shown = filter (\<lambda>b. workload_cmp collate c a b = 0) ?wanted"
    if "sortCol (wv_sort s) = Some c" for a c
    using comparator.sort_stable [OF cmp [of "sortDir (wv_sort s)" c], of a ?wanted] that
    by (cases "sortDir (wv_sort s)") (simp_all add: with_dir_def shown_workloads_def sorted_workloads_def)
  moreover have "sorted_wrt (\<lambda>a b. with_dir (sortDir (wv_sort s)) (workload_cmp collate c) a b \<le> 0) ?shown"
    if "sortCol (wv_sort s) = Some c" for c
    using comparator.sort_sorted [OF cmp] that by (simp add: shown_workloads_def sorted_workloads_def)
  moreover have "sortCol (wv_sort s) = None \<Longrightarrow> ?shown = ?wanted"
    by (simp add: shown_workloads_def sorted_workloads_def)
  ultimately show ?thesis using m by (simp add: pages)
qed

definition byte_collate :: "string \<Rightarrow> string \<Rightarrow> rat" where
  "byte_collate a b = (if a < b then -1 else if a = b then 0 else 1)"

interpretation bytes: comparator byte_collate
  by unfold_locales (auto simp: byte_collate_def split: if_splits)

definition sample_workload :: "string \<Rightarrow> int \<Rightarrow> workload" where
  "sample_workload n r = \<lparr>wl_namespace = ''shop'', wl_name = n, wl_kind = Deployment, wl_currentReplicas = r,
     wl_savedReplicas = None, wl_readyReplicas = r, wl_status = WlRunning\<rparr>"

theorem workload_table_exact_witness:
  "let s = (workloads_start None)\<lparr>wv_rowsPerPage := 2\<rparr>; ws = [sample_workload ''b'' 1, sample_workload ''a'' 2, sample_workload ''c'' 1];
       shown = concat (map (\<lambda>p. workload_rows byte_collate None ws (s\<lparr>wv_page := p\<rparr>)) [0..<2])
   in mset shown = mset ws \<and> shown = ws"
proof -
  have all: "filter (workload_shown (protectedNamespaces None) (wv_filters (workloads_start None)))
      [sample_workload ''b'' 1, sample_workload ''a'' 2, sample_workload ''c'' 1]
    = [sample_workload ''b'' 1, sample_workload ''a'' 2, sample_workload ''c'' 1]"
    by code_simp
  have "sortCol (wv_sort (workloads_start None)) = None" by (simp add: workloads_start_def sort_start_def)
  then show ?thesis
    using workload_table_exact [OF bytes.comparator_axioms, of "(workloads_start None)\<lparr>wv_rowsPerPage := 2\<rparr>"
        "[sample_workload ''b'' 1, sample_workload ''a'' 2, sample_workload ''c'' 1]" 2 None] all
    by (simp add: Let_def)
qed

section \<open>Zones\<close>

lemma add_node_groups: "add_node = group_into zone_key add_to_zone (\<lambda>_. empty_zone)"
  by (simp add: fun_eq_iff add_node_def group_into_def Let_def)

lemma zones_map_of:
  "map_of (fold add_node ns []) z =
     (if filter (\<lambda>n. zone_key n = z) ns = [] then None
      else Some (fold add_to_zone (filter (\<lambda>n. zone_key n = z) ns) empty_zone))"
  unfolding add_node_groups group_map_of by (auto split: list.split)

lemma zone_totals:
  "zs_nodes (fold add_to_zone ns z) = zs_nodes z @ ns"
  "zs_totalPods (fold add_to_zone ns z) = zs_totalPods z + sum_list (map nd_podCount ns)"
  "zs_cpuAllocatable (fold add_to_zone ns z) = zs_cpuAllocatable z + sum_list (map nd_cpuAllocatable ns)"
  "zs_cpuRequested (fold add_to_zone ns z) = zs_cpuRequested z + sum_list (map nd_cpuRequested ns)"
  "zs_memAllocatable (fold add_to_zone ns z) = zs_memAllocatable z + sum_list (map nd_memAllocatable ns)"
  "zs_memRequested (fold add_to_zone ns z) = zs_memRequested z + sum_list (map nd_memRequested ns)"
  "zs_cordoned (fold add_to_zone ns z) = zs_cordoned z + length (filter nd_cordoned ns)"
  by (induction ns arbitrary: z) (simp_all add: add_to_zone_def)

text \<open>Grouping by zone loses and invents nothing: every zone of a node is one group, its nodes are those of
  the zone in the order of the table, and its totals are theirs.\<close>

theorem zone_groups_exact:
  assumes "comparator collate"
  shows "let gs = zoneGroups collate True rows
     in distinct (map fst gs) \<and> set (map fst gs) = zone_key ` set rows
      \<and> (\<forall>(z, st) \<in> set gs. zs_nodes st = filter (\<lambda>n. zone_key n = z) rows
           \<and> zs_totalPods st = sum_list (map nd_podCount (zs_nodes st))
           \<and> zs_cpuRequested st = sum_list (map nd_cpuRequested (zs_nodes st))
           \<and> zs_memRequested st = sum_list (map nd_memRequested (zs_nodes st))
           \<and> zs_cordoned st = length (filter nd_cordoned (zs_nodes st)))"
proof -
  let ?m = "fold add_node rows []"
  have d: "distinct (map fst ?m)" by (simp add: add_node_groups group_distinct del: map_map)
  have cmp: "comparator (\<lambda>a b. collate (fst a) (fst b))" by (rule comparator_key [OF assms])
  have same: "mset (zoneGroups collate True rows) = mset ?m"
    by (simp add: zoneGroups_def comparator.sort_mset [OF cmp])
  then have sets: "set (zoneGroups collate True rows) = set ?m" by (metis set_mset_mset)
  have "mset (map fst (zoneGroups collate True rows)) = mset (map fst ?m)" by (simp add: same)
  then have "distinct (map fst (zoneGroups collate True rows))" using d mset_eq_imp_distinct_iff by blast
  moreover have "set (map fst ?m) = zone_key ` set rows" unfolding add_node_groups by (rule group_keys)
  moreover have "zs_nodes st = filter (\<lambda>n. zone_key n = z) rows
      \<and> zs_totalPods st = sum_list (map nd_podCount (zs_nodes st))
      \<and> zs_cpuRequested st = sum_list (map nd_cpuRequested (zs_nodes st))
      \<and> zs_memRequested st = sum_list (map nd_memRequested (zs_nodes st))
      \<and> zs_cordoned st = length (filter nd_cordoned (zs_nodes st))" if "(z, st) \<in> set ?m" for z st
  proof -
    have "st = fold add_to_zone (filter (\<lambda>n. zone_key n = z) rows) empty_zone"
      using that d zones_map_of [of rows z] by (simp split: if_splits)
    then show ?thesis by (simp add: zone_totals empty_zone_def)
  qed
  ultimately show ?thesis
    unfolding Let_def sets by (auto simp: sets)
qed

definition sample_node :: "string \<Rightarrow> string \<Rightarrow> int \<Rightarrow> node" where
  "sample_node n z p = \<lparr>nd_name = n, nd_instanceType = ''m5'', nd_zone = z, nd_podCount = p, nd_status = NodeActive,
     nd_protectionReason = None, nd_cpuAllocatable = 4000, nd_cpuRequested = 100, nd_memAllocatable = 8, nd_memRequested = 1,
     nd_createdAt = [], nd_cordoned = (p = 0), nd_labels = [], nd_taints = []\<rparr>"

definition sample_nodes :: "node list" where
  "sample_nodes = [sample_node ''a'' ''z1'' 3, sample_node ''b'' [] 0, sample_node ''c'' ''z1'' 4]"

theorem zone_groups_exact_witness:
  "let gs = zoneGroups byte_collate True sample_nodes
   in distinct (map fst gs) \<and> set (map fst gs) = zone_key ` set sample_nodes"
  using zone_groups_exact [OF bytes.comparator_axioms, of sample_nodes] by (simp only: Let_def simp_thms)

end
