(* ===== verification/Exceptions.thy ===== *)
theory Exceptions
  imports ExceptionPicker Tables QueryKeys ApiClient
begin

text \<open>
  The scheduled exceptions: the dialog that creates and edits one (\<open>components/policies/ExceptionDialog.tsx\<close>)
  with the picker of its window, the page around it (\<open>app/exceptions/page.tsx\<close>) with the cancellation, and the
  calendar strip that lists the exceptions by day (\<open>components/exceptions/ExceptionsCalendarStrip.tsx\<close>).

  The dialog is modal, its callbacks see the props of the latest render, and a mutation keeps running when it
  closes, as in \<open>PolicyForm\<close>.
\<close>

section \<open>The form\<close>

definition EMPTY_FORM :: exception_input where
  "EMPTY_FORM = \<lparr>xi_policyId = None, xi_exceptionType = StayAwake, xi_startsAt = [], xi_endsAt = [], xi_ticketRef = Some [],
     xi_reason = Some [], xi_sleepOnEnd = Some True, xi_namespaceFilter = Some [], xi_labelSelector = Some [],
     xi_workloadTargets = None\<rparr>"

definition loaded_exception :: "scheduled_exception \<Rightarrow> exception_input" where
  "loaded_exception ex = \<lparr>xi_policyId = ex_policyId ex, xi_exceptionType = ex_type ex, xi_startsAt = ex_startsAt ex,
     xi_endsAt = ex_endsAt ex, xi_ticketRef = Some (ex_ticketRef ex), xi_reason = Some (ex_reason ex),
     xi_sleepOnEnd = Some (ex_sleepOnEnd ex), xi_namespaceFilter = Some (ex_namespaceFilter ex),
     xi_labelSelector = Some (ex_labelSelector ex), xi_workloadTargets = None\<rparr>"

text \<open>A missing policy is absent or the number 0, both falsy.\<close>

definition no_policy :: "int option \<Rightarrow> bool" where
  "no_policy i = (i = None \<or> i = Some 0)"

definition showPolicyPicker :: "int option \<Rightarrow> scheduled_exception option \<Rightarrow> bool" where
  "showPolicyPicker defaultPolicyId existing = (no_policy defaultPolicyId \<and> existing = None)"

text \<open>Dates compare by their time values; an invalid date compares false with anything.\<close>

definition date_le :: "int option \<Rightarrow> int option \<Rightarrow> bool" where
  "date_le a b = (case (a, b) of (Some x, Some y) \<Rightarrow> x \<le> y | _ \<Rightarrow> False)"

definition exception_validate :: "js_env \<Rightarrow> int \<Rightarrow> exception_input \<Rightarrow> scheduled_exception option \<Rightarrow> string" where
  "exception_validate env now form existing =
     (if existing = None \<and> no_policy (xi_policyId form) then ''Policy is required''
      else if xi_startsAt form = [] then ''Start time is required''
      else if xi_endsAt form = [] then ''End time is required''
      else let st = date_parse env (xi_startsAt form); en = date_parse env (xi_endsAt form)
           in if date_le en st then ''End time must be after start time''
              else if existing = None \<and> date_le st (Some now) then ''Start time must be in the future''
              else [])"

definition or_empty :: "string option \<Rightarrow> string option" where
  "or_empty s = Some (case s of Some x \<Rightarrow> x | None \<Rightarrow> [])"

definition exception_payload :: "exception_input \<Rightarrow> exception_input" where
  "exception_payload form = form\<lparr>xi_ticketRef := or_empty (xi_ticketRef form), xi_reason := or_empty (xi_reason form),
     xi_namespaceFilter := or_empty (xi_namespaceFilter form), xi_labelSelector := or_empty (xi_labelSelector form),
     xi_workloadTargets := None\<rparr>"

definition exception_json :: "exception_input \<Rightarrow> json" where
  "exception_json p = JObj
     ([(''policyId'', case xi_policyId p of Some i \<Rightarrow> JNum (num_int i) | None \<Rightarrow> JNull),
       (''exceptionType'', JStr (case xi_exceptionType p of StayAwake \<Rightarrow> ''stay_awake'' | ForceSleep \<Rightarrow> ''force_sleep'')),
       (''startsAt'', JStr (xi_startsAt p)), (''endsAt'', JStr (xi_endsAt p)),
       (''ticketRef'', JStr (case xi_ticketRef p of Some s \<Rightarrow> s | None \<Rightarrow> [])),
       (''reason'', JStr (case xi_reason p of Some s \<Rightarrow> s | None \<Rightarrow> []))] @
      (case xi_sleepOnEnd p of Some b \<Rightarrow> [(''sleepOnEnd'', JBool b)] | None \<Rightarrow> []) @
      [(''namespaceFilter'', JStr (case xi_namespaceFilter p of Some s \<Rightarrow> s | None \<Rightarrow> [])),
       (''labelSelector'', JStr (case xi_labelSelector p of Some s \<Rightarrow> s | None \<Rightarrow> []))])"

definition exception_request :: "int option \<Rightarrow> exception_input \<Rightarrow> api_request" where
  "exception_request existing payload =
     (case existing of Some i \<Rightarrow> updateException i (exception_json payload) | None \<Rightarrow> createException (exception_json payload))"

section \<open>The page\<close>

text \<open>The effect of a sent exception remembers the time of the click.\<close>

datatype exception_effect =
    ExceptionSent "int option" exception_input int
  | CancelSent int
  | ExceptionKeyStale query_key
  | ExceptionNotified string snack_severity

record exception_page =
  xp_open :: bool
  xp_existing :: "scheduled_exception option"
  xp_form :: exception_input
  xp_anchor :: int
  xp_hover :: "int option"
  xp_error :: string
  xp_pending :: bool
  xp_toCancel :: "scheduled_exception option"
  xp_effects :: "exception_effect list"

datatype exception_field =
    PolicyChosen int | TypeChosen exception_type | TicketTyped string | ReasonTyped string | NamespacesTyped string
  | LabelsTyped string | SleepOnEndSwitched bool

fun set_exception_field :: "bool \<Rightarrow> exception_field \<Rightarrow> exception_input \<Rightarrow> exception_input" where
  "set_exception_field picker (PolicyChosen i) f =
     (if picker then f\<lparr>xi_policyId := (if i = 0 then None else Some i)\<rparr> else f)"
| "set_exception_field picker (TypeChosen t) f = f\<lparr>xi_exceptionType := t\<rparr>"
| "set_exception_field picker (TicketTyped s) f = f\<lparr>xi_ticketRef := Some s\<rparr>"
| "set_exception_field picker (ReasonTyped s) f = f\<lparr>xi_reason := Some s\<rparr>"
| "set_exception_field picker (NamespacesTyped s) f = f\<lparr>xi_namespaceFilter := Some s\<rparr>"
| "set_exception_field picker (LabelsTyped s) f = f\<lparr>xi_labelSelector := Some s\<rparr>"
| "set_exception_field picker (SleepOnEndSwitched b) f = f\<lparr>xi_sleepOnEnd := Some b\<rparr>"

datatype exception_event =
    ExNewClicked int
  | ExEditClicked scheduled_exception int
  | ExCloseClicked
  | ExEdited exception_field
  | ExPicker picker_input
  | ExSaveClicked int
  | ExSaved
  | ExSaveFailed "string option"
  | ExCancelAsked scheduled_exception
  | ExCancelConfirmed
  | ExCancelDismissed
  | ExCancelled
  | ExCancelFailed "string option"

text \<open>What \<open>ExceptionActions\<close> offers for an exception.\<close>

definition can_edit_exception :: "bool \<Rightarrow> scheduled_exception \<Rightarrow> bool" where
  "can_edit_exception canEdit ex = (canEdit \<and> ex_status ex = Pending)"

definition can_cancel_exception :: "bool \<Rightarrow> scheduled_exception \<Rightarrow> bool" where
  "can_cancel_exception canEdit ex = (canEdit \<and> (ex_status ex = Pending \<or> ex_status ex = Active))"

definition load_exception :: "int option \<Rightarrow> exception_page \<Rightarrow> exception_page" where
  "load_exception defaultPolicyId s =
     (if xp_open s
      then s\<lparr>xp_form := (case xp_existing s of Some ex \<Rightarrow> loaded_exception ex | None \<Rightarrow> EMPTY_FORM\<lparr>xi_policyId := defaultPolicyId\<rparr>),
             xp_error := []\<rparr>
      else s)"

definition open_exception :: "int option \<Rightarrow> scheduled_exception option \<Rightarrow> int \<Rightarrow> exception_page \<Rightarrow> exception_page" where
  "open_exception defaultPolicyId ex month s =
     load_exception defaultPolicyId (s\<lparr>xp_existing := ex, xp_open := True, xp_anchor := month, xp_hover := None\<rparr>)"

definition close_exception :: "exception_page \<Rightarrow> exception_page" where
  "close_exception s = s\<lparr>xp_open := False, xp_existing := None\<rparr>"

definition save_exception :: "js_env \<Rightarrow> int \<Rightarrow> exception_page \<Rightarrow> exception_page" where
  "save_exception env now s =
     (let msg = exception_validate env now (xp_form s) (xp_existing s)
      in if msg \<noteq> [] then s\<lparr>xp_error := msg\<rparr>
         else s\<lparr>xp_error := [], xp_pending := True, xp_effects := xp_effects s @
           [ExceptionSent (map_option ex_id (xp_existing s)) (exception_payload (xp_form s)) now]\<rparr>)"

definition exception_saved :: "exception_page \<Rightarrow> exception_page" where
  "exception_saved s = close_exception (s\<lparr>xp_pending := False, xp_effects := xp_effects s @
     [ExceptionKeyStale (exceptions_key None),
      ExceptionNotified (if xp_existing s \<noteq> None then ''Exception updated'' else ''Exception created'') SnackSuccess]\<rparr>)"

text \<open>The picker edits the two texts of the form; a window of a new exception may not begin before today.\<close>

definition picker_of :: "exception_page \<Rightarrow> window_picker" where
  "picker_of s = \<lparr>wp_value = \<lparr>startISO = xi_startsAt (xp_form s), endISO = xi_endsAt (xp_form s)\<rparr>, wp_anchor = xp_anchor s,
     wp_hover = xp_hover s\<rparr>"

definition with_picker :: "window_picker \<Rightarrow> exception_page \<Rightarrow> exception_page" where
  "with_picker w s = s\<lparr>xp_form := (xp_form s)\<lparr>xi_startsAt := startISO (wp_value w), xi_endsAt := endISO (wp_value w)\<rparr>,
     xp_anchor := wp_anchor w, xp_hover := wp_hover w\<rparr>"

fun exception_step :: "js_env \<Rightarrow> zone \<Rightarrow> bool \<Rightarrow> int option \<Rightarrow> exception_page \<Rightarrow> exception_event \<Rightarrow> exception_page" where
  "exception_step env z canEdit dp s (ExNewClicked month) =
     (if canEdit \<and> \<not> xp_open s \<and> xp_toCancel s = None then open_exception dp None month s else s)"
| "exception_step env z canEdit dp s (ExEditClicked ex month) =
     (if can_edit_exception canEdit ex \<and> \<not> xp_open s \<and> xp_toCancel s = None then open_exception dp (Some ex) month s else s)"
| "exception_step env z canEdit dp s ExCloseClicked = (if xp_open s then close_exception s else s)"
| "exception_step env z canEdit dp s (ExEdited f) =
     (if xp_open s then s\<lparr>xp_form := set_exception_field (showPolicyPicker dp (xp_existing s)) f (xp_form s)\<rparr> else s)"
| "exception_step env z canEdit dp s (ExPicker e) =
     (if xp_open s then with_picker (window_picker_step env z (xp_existing s = None) (picker_of s) e) s else s)"
| "exception_step env z canEdit dp s (ExSaveClicked now) =
     (if xp_open s \<and> \<not> xp_pending s then save_exception env now s else s)"
| "exception_step env z canEdit dp s ExSaved = (if xp_pending s then exception_saved s else s)"
| "exception_step env z canEdit dp s (ExSaveFailed err) =
     (if xp_pending s then s\<lparr>xp_pending := False, xp_error := formatError err\<rparr> else s)"
| "exception_step env z canEdit dp s (ExCancelAsked ex) =
     (if can_cancel_exception canEdit ex \<and> \<not> xp_open s then s\<lparr>xp_toCancel := Some ex\<rparr> else s)"
| "exception_step env z canEdit dp s ExCancelConfirmed =
     (case xp_toCancel s of
        Some ex \<Rightarrow> s\<lparr>xp_toCancel := None, xp_effects := xp_effects s @ [CancelSent (ex_id ex)]\<rparr>
      | None \<Rightarrow> s)"
| "exception_step env z canEdit dp s ExCancelDismissed = s\<lparr>xp_toCancel := None\<rparr>"
| "exception_step env z canEdit dp s ExCancelled =
     s\<lparr>xp_effects := xp_effects s @ [ExceptionKeyStale (exceptions_key None), ExceptionNotified ''Exception cancelled'' SnackSuccess]\<rparr>"
| "exception_step env z canEdit dp s (ExCancelFailed err) =
     s\<lparr>xp_effects := xp_effects s @ [ExceptionNotified (formatError err) SnackError]\<rparr>"

definition exception_page_start :: exception_page where
  "exception_page_start = \<lparr>xp_open = False, xp_existing = None, xp_form = EMPTY_FORM, xp_anchor = 0, xp_hover = None, xp_error = [],
     xp_pending = False, xp_toCancel = None, xp_effects = []\<rparr>"

section \<open>What is sent\<close>

definition iso_field :: "string \<Rightarrow> bool" where
  "iso_field s = (s = [] \<or> (\<exists>ms. s = toISOString ms))"

definition iso_value :: "window_value \<Rightarrow> bool" where
  "iso_value v = (iso_field (startISO v) \<and> iso_field (endISO v))"

lemma emit_iso_field: "emit_iso z d t = Some s \<Longrightarrow> iso_field s"
  by (auto simp: emit_iso_def iso_field_def split: option.splits)

lemma emit_window_iso: "iso_value v \<Longrightarrow> iso_value (emit_window z sd ed t u v)"
  by (auto simp: emit_window_def iso_value_def emit_iso_field split: option.splits)

lemma pickDay_iso: "iso_value v \<Longrightarrow> iso_value (pickDay env z d v)"
  by (auto simp: pickDay_def Let_def emit_window_iso split: option.splits)

lemma picker_step_iso:
  assumes "iso_value (wp_value s)"
  shows "iso_value (wp_value (window_picker_step env z fromNow s e))"
proof (cases e)
  case SelectionCleared
  then show ?thesis using assms by (simp add: iso_value_def iso_field_def)
qed (use assms in \<open>auto simp: pickDay_iso emit_window_iso split: option.splits\<close>)

text \<open>A new exception the backend can run: it has a policy and a window that begins after the click.\<close>

definition runnable :: "exception_input \<Rightarrow> int \<Rightarrow> bool" where
  "runnable p now =
     (\<exists>a b i. xi_startsAt p = toISOString a \<and> xi_endsAt p = toISOString b \<and> now < a \<and> a < b \<and> xi_policyId p = Some i \<and> i \<noteq> 0)"

lemma validated_new:
  assumes "parses_iso env" "iso_field (xi_startsAt f)" "iso_field (xi_endsAt f)" "exception_validate env now f None = []"
  shows "runnable (exception_payload f) now"
proof -
  have "xi_startsAt f \<noteq> []" "xi_endsAt f \<noteq> []" "\<not> no_policy (xi_policyId f)"
    using assms(4) by (auto simp: exception_validate_def split: if_splits)
  then obtain a b i where f: "xi_startsAt f = toISOString a" "xi_endsAt f = toISOString b" "xi_policyId f = Some i" "i \<noteq> 0"
    using assms(2,3) by (auto simp: iso_field_def no_policy_def)
  have "\<not> date_le (Some b) (Some a)" "\<not> date_le (Some a) (Some now)"
    using assms(1,4) f by (auto simp: exception_validate_def parses_iso_def Let_def split: if_splits)
  then have "now < a" "a < b" by (simp_all add: date_le_def)
  then show ?thesis unfolding runnable_def
    by (intro exI [of _ a] exI [of _ b] exI [of _ i]) (simp add: f exception_payload_def)
qed

text \<open>What the events of a session asked for; each comes with the permission to edit at its time. A dialog that is open when
  the permission is lost stays open and may still send.\<close>

definition new_asked :: "(bool \<times> exception_event) set \<Rightarrow> bool" where
  "new_asked E = (\<exists>m. (True, ExNewClicked m) \<in> E)"

definition edit_asked :: "(bool \<times> exception_event) set \<Rightarrow> int \<Rightarrow> bool" where
  "edit_asked E i = (\<exists>ex m. (True, ExEditClicked ex m) \<in> E \<and> ex_status ex = Pending \<and> ex_id ex = i)"

definition cancel_asked :: "(bool \<times> exception_event) set \<Rightarrow> int \<Rightarrow> bool" where
  "cancel_asked E i = (\<exists>ex. (True, ExCancelAsked ex) \<in> E \<and> ex_status ex \<in> {Pending, Active} \<and> ex_id ex = i)"

definition justified :: "(bool \<times> exception_event) set \<Rightarrow> exception_effect \<Rightarrow> bool" where
  "justified E eff =
     (case eff of
        ExceptionSent None p now \<Rightarrow> new_asked E \<and> runnable p now
      | ExceptionSent (Some i) p now \<Rightarrow> edit_asked E i \<and> xi_workloadTargets p = None
      | CancelSent i \<Rightarrow> cancel_asked E i
      | _ \<Rightarrow> True)"

definition exception_inv :: "(bool \<times> exception_event) set \<Rightarrow> exception_page \<Rightarrow> bool" where
  "exception_inv E s =
     ((\<forall>ex. xp_existing s = Some ex \<longrightarrow> edit_asked E (ex_id ex))
      \<and> (\<forall>ex. xp_toCancel s = Some ex \<longrightarrow> cancel_asked E (ex_id ex))
      \<and> (xp_open s \<and> xp_existing s = None \<longrightarrow> new_asked E \<and> iso_field (xi_startsAt (xp_form s)) \<and> iso_field (xi_endsAt (xp_form s)))
      \<and> (\<forall>eff \<in> set (xp_effects s). justified E eff))"

lemma empty_form_iso: "iso_field (xi_startsAt EMPTY_FORM)" "iso_field (xi_endsAt EMPTY_FORM)"
  by (simp_all add: EMPTY_FORM_def iso_field_def)

lemma open_exception_inv:
  assumes "exception_inv E s" "existing = None \<Longrightarrow> new_asked E" "\<And>ex. existing = Some ex \<Longrightarrow> edit_asked E (ex_id ex)"
  shows "exception_inv E (open_exception dp existing month s)"
  using assms empty_form_iso by (cases existing) (auto simp: exception_inv_def open_exception_def load_exception_def)

lemma save_exception_inv:
  assumes "parses_iso env" "exception_inv E s" "xp_open s"
  shows "exception_inv E (save_exception env now s)"
proof (cases "exception_validate env now (xp_form s) (xp_existing s) = []")
  case True
  have "justified E (ExceptionSent (map_option ex_id (xp_existing s)) (exception_payload (xp_form s)) now)"
  proof (cases "xp_existing s")
    case None
    then show ?thesis
      using assms True validated_new [OF assms(1)] by (simp add: justified_def exception_inv_def)
  next
    case (Some ex)
    have "edit_asked E (ex_id ex)" using assms(2) Some by (auto simp: exception_inv_def)
    then show ?thesis by (simp add: Some justified_def exception_payload_def)
  qed
  then show ?thesis using assms True by (auto simp: save_exception_def exception_inv_def)
next
  case False
  then show ?thesis using assms by (auto simp: save_exception_def exception_inv_def Let_def)
qed

lemma with_picker_inv:
  assumes "exception_inv E s" "xp_existing s = None \<longrightarrow> iso_value (wp_value w)"
  shows "exception_inv E (with_picker w s)"
  using assms by (auto simp: exception_inv_def with_picker_def iso_value_def)

lemma set_field_dates: "xi_startsAt (set_exception_field p f x) = xi_startsAt x" "xi_endsAt (set_exception_field p f x) = xi_endsAt x"
  by (cases f; simp)+

lemma exception_step_inv:
  assumes "parses_iso env" "exception_inv E s" "(canEdit, e) \<in> E"
  shows "exception_inv E (exception_step env z canEdit dp s e)"
proof (cases e)
  case (ExNewClicked m)
  then have "canEdit \<Longrightarrow> new_asked E" using assms(3) by (auto simp: new_asked_def)
  then show ?thesis using ExNewClicked assms(2) open_exception_inv [OF assms(2), of None] by simp
next
  case (ExEditClicked ex m)
  have "edit_asked E (ex_id ex)" if "can_edit_exception canEdit ex"
    using assms(3) that ExEditClicked by (auto simp: edit_asked_def can_edit_exception_def)
  then show ?thesis
    using ExEditClicked assms open_exception_inv [OF assms(2), of "Some ex"] by simp
next
  case (ExPicker pe)
  have "iso_value (wp_value (window_picker_step env z True (picker_of s) pe))" if "xp_open s" "xp_existing s = None"
    using assms(2) that by (intro picker_step_iso) (simp add: exception_inv_def picker_of_def iso_value_def)
  then show ?thesis using ExPicker assms(2) by (auto intro!: with_picker_inv)
next
  case (ExSaveClicked now)
  then show ?thesis using assms save_exception_inv by simp
next
  case (ExCancelAsked ex)
  then have "can_cancel_exception canEdit ex \<Longrightarrow> cancel_asked E (ex_id ex)"
    using assms(3) by (auto simp: cancel_asked_def can_cancel_exception_def)
  then show ?thesis using ExCancelAsked assms(2) by (auto simp: exception_inv_def)
next
  case ExCancelConfirmed
  then show ?thesis using assms(2) by (auto simp: exception_inv_def justified_def split: option.splits)
next
  case ExSaved
  then show ?thesis using assms(2) by (auto simp: exception_inv_def exception_saved_def close_exception_def justified_def)
next
  case ExCloseClicked
  then show ?thesis using assms(2) by (auto simp: exception_inv_def close_exception_def)
next
  case (ExEdited f)
  then show ?thesis using assms(2) by (auto simp: exception_inv_def set_field_dates)
qed (use assms(2) in \<open>auto simp: exception_inv_def justified_def\<close>)

text \<open>A session: each event with the permission to edit at its time.\<close>

definition exception_session_step :: "js_env \<Rightarrow> zone \<Rightarrow> int option \<Rightarrow> exception_page \<Rightarrow> bool \<times> exception_event \<Rightarrow> exception_page" where
  "exception_session_step env z dp s ce = exception_step env z (fst ce) dp s (snd ce)"

interpretation exception_page: guarded_machine "exception_session_step env z dp" "\<lambda>s. parses_iso env \<and> exception_inv E s" "\<lambda>e. e \<in> E"
  for env z dp E
  by unfold_locales (simp add: exception_session_step_def exception_step_inv)

text \<open>C24. Whatever is clicked, picked and typed on the page of exceptions, while the permission to edit comes and goes: a new
  exception is only sent after a click on its button with the permission, with a policy and with a window that begins after
  the click that sends it and ends after it begins; a change is only sent for an exception whose edit was clicked with the
  permission while it was pending, and leaves its workloads alone; and a cancellation only for one that was pending or active
  when its cancellation was asked with the permission.\<close>

theorem sent_exceptions_justified:
  assumes "parses_iso env" "eff \<in> set (xp_effects (run (exception_session_step env z dp) exception_page_start es))"
  shows "justified (set es) eff"
proof -
  have "exception_inv (set es) exception_page_start"
    by (simp add: exception_inv_def exception_page_start_def)
  then show ?thesis
    using exception_page.run_inv [of env "set es" exception_page_start es z dp] assms
    by (auto simp: exception_inv_def list_all_iff)
qed

definition sample_exception :: scheduled_exception where
  "sample_exception = \<lparr>ex_id = 5, ex_policyId = Some 7, ex_type = StayAwake, ex_startsAt = ''2024-03-24T23:30:00.000Z'',
     ex_endsAt = ''2024-03-25T00:30:00.000Z'', ex_ticketRef = ''CHG-1'', ex_reason = [], ex_sleepOnEnd = True, ex_namespaceFilter = [],
     ex_labelSelector = [], ex_status = Pending, ex_startExecutionId = None, ex_endExecutionId = None, ex_cancelledAt = None,
     ex_cancelReason = [], ex_createdBy = ''ann'', ex_createdAt = ''2024-03-20T10:00:00.000Z'',
     ex_updatedAt = ''2024-03-20T10:00:00.000Z'', ex_workloadTargets = []\<rparr>"

definition sample_exception_session :: "(bool \<times> exception_event) list" where
  "sample_exception_session = [(True, ExEditClicked sample_exception 1711289700123), (True, ExEdited (ReasonTyped ''release'')),
     (False, ExSaveClicked 1711289700123)]"

theorem sent_exceptions_justified_witness:
  "justified (set sample_exception_session) (ExceptionSent (Some 5) (exception_payload ((loaded_exception sample_exception)\<lparr>xi_reason := Some ''release''\<rparr>)) 1711289700123)"
proof -
  have "ExceptionSent (Some 5) (exception_payload ((loaded_exception sample_exception)\<lparr>xi_reason := Some ''release''\<rparr>)) 1711289700123
    \<in> set (xp_effects (run (exception_session_step calendar_env (fixed_zone 3600000) None) exception_page_start sample_exception_session))"
    by code_simp
  then show ?thesis using sent_exceptions_justified [OF calendar_env_parses] by blast
qed

end
