(* ===== verification/CalendarStrip.thy ===== *)
theory CalendarStrip
  imports ExceptionPicker Tables
begin

text \<open>
  \<open>components/exceptions/ExceptionsCalendarStrip.tsx\<close>: the exceptions of the page as rows of a calendar. Those
  within a day are gathered by day, each longer one has a row of its own, and the rows are sorted by date. Completed and
  cancelled exceptions are kept apart, folded away under \<open>History\<close>, and one exception at a time is opened.
\<close>

section \<open>Labels\<close>

definition midnight :: "zone \<Rightarrow> int \<Rightarrow> int" where
  "midnight z d = new_Date z (getFullYear z d) (getMonth z d) (getDate z d)"

text \<open>\<open>longDate\<close> is \<open>toLocaleDateString\<close> with a weekday, in the locale of the browser.\<close>

definition dayLabel :: "zone \<Rightarrow> (int \<Rightarrow> string) \<Rightarrow> int \<Rightarrow> int \<Rightarrow> string" where
  "dayLabel z longDate today d =
     (let diff = js_round (of_int (midnight z d - midnight z today) / 86400000)
      in if diff = 0 then ''Today'' else if diff = 1 then ''Tomorrow'' else if diff = - 1 then ''Yesterday'' else longDate d)"

definition durationLabel :: "js_env \<Rightarrow> string \<Rightarrow> string \<Rightarrow> string" where
  "durationLabel env startsAt endsAt =
     (case (date_parse env startsAt, date_parse env endsAt) of
        (Some a, Some b) \<Rightarrow>
          (let ms = b - a; hours = ms div 3600000
           in if 24 \<le> hours
              then let days = hours div 24; rem = js_rem hours 24
                   in if 0 < rem then show_int days @ ''d '' @ show_int rem @ ''h'' else show_int days @ ''d''
              else let mins = js_rem ms 3600000 div 60000
                   in if 0 < mins then show_int hours @ ''h '' @ show_int mins @ ''m'' else show_int hours @ ''h'')
      | _ \<Rightarrow> ''NaNh'')"

definition dayKey :: "zone \<Rightarrow> int \<Rightarrow> string" where
  "dayKey z d = show_int (getFullYear z d) @ ''-'' @ padded 2 (getMonth z d + 1) @ ''-'' @ padded 2 (getDate z d)"

text \<open>The key of an invalid date, and \<open>new Date(key + 'T00:00:00')\<close>: the language reads years of four digits.\<close>

definition dayKey_of :: "zone \<Rightarrow> int option \<Rightarrow> string" where
  "dayKey_of z d = (case d of Some x \<Rightarrow> dayKey z x | None \<Rightarrow> ''NaN-NaN-NaN'')"

definition local_midnight :: "zone \<Rightarrow> string \<Rightarrow> int option" where
  "local_midnight z k =
     (let num = (\<lambda>i n. int (digits_val (take n (drop i k))))
      in if length k = 10 \<and> all_digits (take 4 k) then Some (date_at z (days_of_civil (num 0 4) (num 5 2 - 1) (num 8 2)) 0) else None)"

section \<open>The rows\<close>

definition ex_start :: "js_env \<Rightarrow> scheduled_exception \<Rightarrow> int option" where "ex_start env ex = date_parse env (ex_startsAt ex)"
definition ex_end :: "js_env \<Rightarrow> scheduled_exception \<Rightarrow> int option" where "ex_end env ex = date_parse env (ex_endsAt ex)"

definition isMultiDay :: "js_env \<Rightarrow> zone \<Rightarrow> scheduled_exception \<Rightarrow> bool" where
  "isMultiDay env z ex =
     (case (ex_start env ex, ex_end env ex) of (Some s, Some e) \<Rightarrow> startOfDay z s < startOfDay z e | _ \<Rightarrow> False)"

datatype calendar_row =
    DayRow "int option" string "scheduled_exception list"
  | SpanRow scheduled_exception "int option" "int option"

definition day_of :: "js_env \<Rightarrow> zone \<Rightarrow> scheduled_exception \<Rightarrow> string" where
  "day_of env z ex = dayKey_of z (map_option (startOfDay z) (ex_start env ex))"

definition push_exception :: "scheduled_exception \<Rightarrow> scheduled_exception list \<Rightarrow> scheduled_exception list" where
  "push_exception ex exs = exs @ [ex]"

type_synonym strip_groups = "(string \<times> scheduled_exception list) list \<times> calendar_row list"

definition strip_add :: "js_env \<Rightarrow> zone \<Rightarrow> scheduled_exception \<Rightarrow> strip_groups \<Rightarrow> strip_groups" where
  "strip_add env z ex = (\<lambda>(singles, spans).
     if isMultiDay env z ex
     then (singles, spans @ [SpanRow ex (map_option (startOfDay z) (ex_start env ex)) (map_option (startOfDay z) (ex_end env ex))])
     else (group_into (day_of env z) push_exception (\<lambda>_. []) ex singles, spans))"

definition row_date :: "calendar_row \<Rightarrow> int option" where
  "row_date r = (case r of DayRow d k exs \<Rightarrow> d | SpanRow ex s e \<Rightarrow> s)"

text \<open>A comparator that answers NaN counts as answering 0.\<close>

definition row_cmp :: "calendar_row \<Rightarrow> calendar_row \<Rightarrow> rat" where
  "row_cmp a b = (case (row_date a, row_date b) of (Some x, Some y) \<Rightarrow> of_int (x - y) | _ \<Rightarrow> 0)"

definition buildRows :: "js_env \<Rightarrow> zone \<Rightarrow> scheduled_exception list \<Rightarrow> calendar_row list" where
  "buildRows env z exs =
     (let (singles, spans) = fold (strip_add env z) exs ([], [])
      in js_sort row_cmp (map (\<lambda>(k, es). DayRow (local_midnight z k) k es) singles @ spans))"

section \<open>The strip\<close>

definition is_past :: "scheduled_exception \<Rightarrow> bool" where
  "is_past ex = (ex_status ex = Completed \<or> ex_status ex = Cancelled)"

definition currentRows :: "js_env \<Rightarrow> zone \<Rightarrow> scheduled_exception list \<Rightarrow> calendar_row list" where
  "currentRows env z exs = buildRows env z (filter (\<lambda>ex. \<not> is_past ex) exs)"

definition pastRows :: "js_env \<Rightarrow> zone \<Rightarrow> scheduled_exception list \<Rightarrow> calendar_row list" where
  "pastRows env z exs = buildRows env z (filter is_past exs)"

record strip =
  st_historyOpen :: bool
  st_expandedId :: "int option"

datatype strip_event = HistoryClicked | BlockClicked int

fun strip_step :: "strip \<Rightarrow> strip_event \<Rightarrow> strip" where
  "strip_step s HistoryClicked = s\<lparr>st_historyOpen := \<not> st_historyOpen s\<rparr>"
| "strip_step s (BlockClicked i) = s\<lparr>st_expandedId := (if st_expandedId s = Some i then None else Some i)\<rparr>"

definition row_exceptions :: "calendar_row \<Rightarrow> scheduled_exception list" where
  "row_exceptions r = (case r of DayRow d k exs \<Rightarrow> exs | SpanRow ex s e \<Rightarrow> [ex])"

text \<open>The panels that are open below a list of rows.\<close>

definition open_details :: "strip \<Rightarrow> calendar_row list \<Rightarrow> scheduled_exception list" where
  "open_details s rows = filter (\<lambda>ex. st_expandedId s = Some (ex_id ex)) (concat (map row_exceptions rows))"

definition row_today :: "zone \<Rightarrow> int \<Rightarrow> calendar_row \<Rightarrow> bool" where
  "row_today z now r = (case r of DayRow d k exs \<Rightarrow> k = dayKey z now | SpanRow ex s e \<Rightarrow> False)"

section \<open>Every exception has its place\<close>

lemma strip_groups:
  "fold (strip_add env z) exs (m, sp) =
     (fold (group_into (day_of env z) push_exception (\<lambda>_. [])) (filter (\<lambda>ex. \<not> isMultiDay env z ex) exs) m,
      sp @ map (\<lambda>ex. SpanRow ex (map_option (startOfDay z) (ex_start env ex)) (map_option (startOfDay z) (ex_end env ex)))
        (filter (isMultiDay env z) exs))"
  by (induction exs arbitrary: m sp) (simp_all add: strip_add_def)

lemma push_all: "fold push_exception ys acc = acc @ ys"
  by (induction ys arbitrary: acc) (simp_all add: push_exception_def)

lemma mset_filter_split: "(\<And>x. \<not> (P x \<and> Q x)) \<Longrightarrow> mset (filter P xs) + mset (filter Q xs) = mset (filter (\<lambda>x. P x \<or> Q x) xs)"
  by (induction xs) auto

lemma mset_groups:
  "distinct ks \<Longrightarrow> mset (concat (map (\<lambda>k. filter (\<lambda>x. f x = k) xs) ks)) = mset (filter (\<lambda>x. f x \<in> set ks) xs)"
proof (induction ks)
  case (Cons k ks)
  then have "mset (filter (\<lambda>x. f x = k) xs) + mset (filter (\<lambda>x. f x \<in> set ks) xs) = mset (filter (\<lambda>x. f x = k \<or> f x \<in> set ks) xs)"
    by (intro mset_filter_split) auto
  with Cons show ?case by simp
qed simp

lemma grouped_by_day:
  fixes env z
  assumes "(k, es) \<in> set (fold (group_into (day_of env z) push_exception (\<lambda>_. [])) xs [])"
  shows "es = filter (\<lambda>ex. day_of env z ex = k) xs \<and> es \<noteq> []"
proof -
  have "map_of (fold (group_into (day_of env z) push_exception (\<lambda>_. [])) xs []) k = Some es"
    using assms by (intro map_of_is_SomeI group_distinct) simp_all
  then show ?thesis unfolding group_map_of by (auto simp: push_all push_exception_def split: list.splits)
qed

text \<open>The key of a day reads back as the start of that day.\<close>

lemma four_digit_year: "1000 \<le> y \<Longrightarrow> y \<le> 9999 \<Longrightarrow> length (show_int y) = 4"
proof -
  assume y: "1000 \<le> y" "y \<le> 9999"
  then have n: "1000 \<le> nat y" "nat y < 10000" by auto
  have "\<not> n < 10 \<and> \<not> n div 10 < 10 \<and> \<not> n div 10 div 10 < 10 \<and> n div 10 div 10 div 10 < 10" if "1000 \<le> n" "n < 10000" for n :: nat
    using that by (simp add: div_mult2_eq [symmetric] not_less div_less_iff_less_mult less_eq_div_iff_mult_less_eq)
  from this [OF n] have "\<not> nat y < 10" "\<not> nat y div 10 < 10" "\<not> nat y div 10 div 10 < 10" "nat y div 10 div 10 div 10 < 10" by blast+
  then show ?thesis
    using y show_nat.simps [of "nat y"] show_nat.simps [of "nat y div 10"] show_nat.simps [of "nat y div 10 div 10"]
      show_nat.simps [of "nat y div 10 div 10 div 10"] by (simp add: show_int_def)
qed

lemma day_key_read:
  assumes "1000 \<le> getFullYear z d" "getFullYear z d \<le> 9999"
  shows "local_midnight z (dayKey z d) = Some (startOfDay z d)"
proof -
  have f: "0 \<le> getMonth z d" "getMonth z d \<le> 11" "1 \<le> getDate z d" "getDate z d \<le> 31"
    using local_fields [of z d] month_length [of "getFullYear z d" "getMonth z d"] by auto
  have y: "length (show_int (getFullYear z d)) = 4" "all_digits (show_int (getFullYear z d))"
    "int (digits_val (show_int (getFullYear z d))) = getFullYear z d"
    using four_digit_year assms by (simp_all add: show_int_def)
  have m: "length (padded 2 (getMonth z d + 1)) = 2" "int (digits_val (padded 2 (getMonth z d + 1))) = getMonth z d + 1"
    and k: "length (padded 2 (getDate z d)) = 2" "int (digits_val (padded 2 (getDate z d))) = getDate z d"
    using f by (simp_all add: length_padded digits_padded)
  have "local_midnight z (dayKey z d) = Some (date_at z (days_of_civil (getFullYear z d) (getMonth z d) (getDate z d)) 0)"
    using y m k by (simp add: local_midnight_def dayKey_def Let_def)
  then show ?thesis by (simp add: local_day_civil startOfDay_def setHours_def)
qed

lemma js_sort_cong: "\<forall>a \<in> set xs. \<forall>b \<in> set xs. cmp a b = cmp' a b \<Longrightarrow> js_sort cmp xs = js_sort cmp' xs"
proof (induction xs)
  case (Cons x xs)
  have ins: "\<forall>y \<in> set ys. c x y = c' x y \<Longrightarrow> cmp_insert c x ys = cmp_insert c' x ys" for c c' :: "'a \<Rightarrow> 'a \<Rightarrow> rat" and ys
    by (induction ys) auto
  have sub: "set (cmp_insert c y ys) = insert y (set ys)" for c :: "'a \<Rightarrow> 'a \<Rightarrow> rat" and y ys
    by (induction ys) auto
  have "set (js_sort cmp' xs) = set xs" by (induction xs) (simp_all add: js_sort_def sub)
  then show ?case using Cons ins [of "js_sort cmp' xs" cmp cmp'] by (simp add: js_sort_def)
qed (simp add: js_sort_def)

text \<open>On rows with a date the comparison is by date, a comparator.\<close>

interpretation by_date: comparator "\<lambda>a b. of_int (the (row_date a) - the (row_date b))"
  by unfold_locales auto

lemma rows_sorted:
  assumes "\<forall>r \<in> set rows. row_date r \<noteq> None"
  shows "mset (js_sort row_cmp rows) = mset rows" "sorted_wrt (\<lambda>a b. the (row_date a) \<le> the (row_date b)) (js_sort row_cmp rows)"
proof -
  have "js_sort row_cmp rows = js_sort (\<lambda>a b. of_int (the (row_date a) - the (row_date b))) rows"
    using assms by (intro js_sort_cong) (auto simp: row_cmp_def split: option.splits)
  then show "mset (js_sort row_cmp rows) = mset rows" "sorted_wrt (\<lambda>a b. the (row_date a) \<le> the (row_date b)) (js_sort row_cmp rows)"
    using by_date.sort_mset [of rows] by_date.sort_sorted [of rows] by simp_all
qed

text \<open>What the backend sends: both dates are readable, and their years have four digits.\<close>

definition readable_dates :: "js_env \<Rightarrow> zone \<Rightarrow> scheduled_exception \<Rightarrow> bool" where
  "readable_dates env z ex =
     (case (ex_start env ex, ex_end env ex) of
        (Some a, Some b) \<Rightarrow> 1000 \<le> getFullYear z a \<and> getFullYear z a \<le> 9999
      | _ \<Rightarrow> False)"

text \<open>A row is right when it shows its exceptions on their day, and a longer one from its first day to its last.\<close>

definition row_right :: "js_env \<Rightarrow> zone \<Rightarrow> calendar_row \<Rightarrow> bool" where
  "row_right env z r =
     (case r of
        DayRow d k exs \<Rightarrow> exs \<noteq> [] \<and> list_all (\<lambda>ex. \<not> isMultiDay env z ex \<and> d = map_option (startOfDay z) (ex_start env ex)
          \<and> map_option (dayKey z) d = Some k) exs
      | SpanRow ex s e \<Rightarrow> isMultiDay env z ex \<and> s = map_option (startOfDay z) (ex_start env ex)
          \<and> e = map_option (startOfDay z) (ex_end env ex))"

lemma day_of_readable:
  assumes "readable_dates env (fixed_zone off) ex"
  obtains a where "ex_start env ex = Some a" "day_of env (fixed_zone off) ex = dayKey (fixed_zone off) (startOfDay (fixed_zone off) a)"
    "local_midnight (fixed_zone off) (day_of env (fixed_zone off) ex) = Some (startOfDay (fixed_zone off) a)"
proof -
  let ?z = "fixed_zone off"
  obtain a where a: "ex_start env ex = Some a" "1000 \<le> getFullYear ?z a" "getFullYear ?z a \<le> 9999"
    using assms by (auto simp: readable_dates_def split: option.splits)
  have y: "getFullYear ?z (startOfDay ?z a) = getFullYear ?z a" by (simp add: getFullYear_def local_day_start fixed_zone_keeps_days)
  have d: "day_of env ?z ex = dayKey ?z (startOfDay ?z a)" by (simp add: day_of_def dayKey_of_def a)
  have s: "startOfDay ?z (startOfDay ?z a) = startOfDay ?z a" by (simp add: startOfDay_def setHours_def local_day_at)
  show ?thesis
    using that [OF a(1) d] day_key_read [of ?z "startOfDay ?z a"] a(2,3) by (simp add: y d s)
qed

lemma day_row_right:
  assumes "\<forall>ex \<in> set xs. readable_dates env (fixed_zone off) ex" "\<forall>ex \<in> set xs. \<not> isMultiDay env (fixed_zone off) ex"
    "(k, es) \<in> set (fold (group_into (day_of env (fixed_zone off)) push_exception (\<lambda>_. [])) xs [])"
  shows "row_right env (fixed_zone off) (DayRow (local_midnight (fixed_zone off) k) k es) \<and> local_midnight (fixed_zone off) k \<noteq> None"
proof -
  let ?z = "fixed_zone off"
  have es: "es = filter (\<lambda>ex. day_of env ?z ex = k) xs" "es \<noteq> []" using grouped_by_day [OF assms(3)] by auto
  have one: "\<exists>a. ex_start env ex = Some a \<and> k = dayKey ?z (startOfDay ?z a) \<and> local_midnight ?z k = Some (startOfDay ?z a)"
    if "ex \<in> set es" for ex
  proof -
    have ex: "ex \<in> set xs" "day_of env ?z ex = k" using that es(1) by auto
    from assms(1) ex(1) have "readable_dates env ?z ex" by blast
    then obtain a where "ex_start env ex = Some a" "day_of env ?z ex = dayKey ?z (startOfDay ?z a)"
      "local_midnight ?z (day_of env ?z ex) = Some (startOfDay ?z a)" by (rule day_of_readable)
    then show ?thesis unfolding ex(2) by blast
  qed
  have "local_midnight ?z k \<noteq> None" using one [of "hd es"] es(2) by auto
  moreover have "\<not> isMultiDay env ?z ex \<and> local_midnight ?z k = map_option (startOfDay ?z) (ex_start env ex)
      \<and> map_option (dayKey ?z) (local_midnight ?z k) = Some k" if "ex \<in> set es" for ex
    using one [OF that] that es(1) assms(2) by auto
  ultimately show ?thesis using es(2) unfolding row_right_def list_all_iff calendar_row.case by blast
qed

definition row_keys :: "calendar_row list \<Rightarrow> string list" where
  "row_keys rows = concat (map (\<lambda>r. case r of DayRow d k exs \<Rightarrow> [k] | SpanRow ex s e \<Rightarrow> []) rows)"

lemma day_parts:
  "concat (map row_exceptions (map (\<lambda>(k, es). DayRow (g k) k es) m)) = concat (map snd m)"
  "row_keys (map (\<lambda>(k, es). DayRow (g k) k es) m) = map fst m"
  by (induction m) (auto simp: row_keys_def row_exceptions_def)

lemma span_parts:
  "concat (map row_exceptions (map (\<lambda>ex. SpanRow ex (p ex) (q ex)) xs)) = xs"
  "row_keys (map (\<lambda>ex. SpanRow ex (p ex) (q ex)) xs) = []"
  by (induction xs) (simp_all add: row_keys_def row_exceptions_def)

lemma concat_mset: "mset rs = mset rs' \<Longrightarrow> mset (concat (map f rs)) = mset (concat (map f rs'))"
  by (simp add: mset_concat mset_map [symmetric] sum_mset_sum_list [symmetric] del: mset_map) (metis mset_map)

lemma build_rows:
  assumes "\<forall>ex \<in> set exs. readable_dates env (fixed_zone off) ex"
  shows "mset (concat (map row_exceptions (buildRows env (fixed_zone off) exs))) = mset exs"
    "sorted_wrt (\<lambda>a b. the (row_date a) \<le> the (row_date b)) (buildRows env (fixed_zone off) exs)"
    "list_all (\<lambda>r. row_right env (fixed_zone off) r \<and> row_date r \<noteq> None) (buildRows env (fixed_zone off) exs)"
    "distinct (row_keys (buildRows env (fixed_zone off) exs))"
proof -
  let ?z = "fixed_zone off" and ?xs = "filter (\<lambda>ex. \<not> isMultiDay env (fixed_zone off) ex) exs"
    and ?ys = "filter (isMultiDay env (fixed_zone off)) exs"
  let ?m = "fold (group_into (day_of env ?z) push_exception (\<lambda>_. [])) ?xs []"
  let ?days = "map (\<lambda>(k, es). DayRow (local_midnight ?z k) k es) ?m"
    and ?spans = "map (\<lambda>ex. SpanRow ex (map_option (startOfDay ?z) (ex_start env ex)) (map_option (startOfDay ?z) (ex_end env ex))) ?ys"
  have b: "buildRows env ?z exs = js_sort row_cmp (?days @ ?spans)" by (simp add: buildRows_def strip_groups)
  have right: "\<forall>r \<in> set (?days @ ?spans). row_right env ?z r \<and> row_date r \<noteq> None"
  proof -
    have "row_right env ?z r \<and> row_date r \<noteq> None" if "r \<in> set ?days" for r
    proof -
      from that obtain k es where k: "(k, es) \<in> set ?m" "r = DayRow (local_midnight ?z k) k es" by auto
      have "\<forall>ex \<in> set ?xs. readable_dates env ?z ex" "\<forall>ex \<in> set ?xs. \<not> isMultiDay env ?z ex" using assms by simp_all
      from day_row_right [OF this k(1)] show ?thesis by (simp add: k(2) row_date_def)
    qed
    moreover have "row_right env ?z r \<and> row_date r \<noteq> None" if "r \<in> set ?spans" for r
      using that assms by (auto simp: row_right_def row_date_def readable_dates_def split: option.splits)
    ultimately show ?thesis by auto
  qed
  then have dates: "\<forall>r \<in> set (?days @ ?spans). row_date r \<noteq> None" by blast
  have s: "mset (buildRows env ?z exs) = mset (?days @ ?spans)"
    unfolding b by (rule rows_sorted(1) [OF dates])
  show "sorted_wrt (\<lambda>a b. the (row_date a) \<le> the (row_date b)) (buildRows env ?z exs)"
    unfolding b by (rule rows_sorted(2) [OF dates])
  have "set (buildRows env ?z exs) = set (?days @ ?spans)" using s by (rule mset_eq_setD)
  then show "list_all (\<lambda>r. row_right env ?z r \<and> row_date r \<noteq> None) (buildRows env ?z exs)"
    using right unfolding list_all_iff by blast
  have keys: "distinct (map fst ?m)" "set (map fst ?m) = day_of env ?z ` set ?xs"
    by (intro group_distinct, simp) (rule group_keys)
  have "map snd ?m = map (\<lambda>k. filter (\<lambda>ex. day_of env ?z ex = k) ?xs) (map fst ?m)"
    using grouped_by_day [of _ _ env ?z ?xs] by (auto simp: list.map_comp)
  then have "mset (concat (map snd ?m)) = mset (filter (\<lambda>ex. day_of env ?z ex \<in> set (map fst ?m)) ?xs)"
    using mset_groups [OF keys(1), of "day_of env ?z" ?xs] by (simp only:)
  also have "filter (\<lambda>ex. day_of env ?z ex \<in> set (map fst ?m)) ?xs = ?xs"
    unfolding keys(2) by (rule filter_True) blast
  finally have "mset (concat (map row_exceptions (?days @ ?spans))) = mset ?xs + mset ?ys"
    by (simp only: map_append concat_append mset_append day_parts span_parts)
  also have "\<dots> = mset exs" by (induction exs) auto
  finally show "mset (concat (map row_exceptions (buildRows env ?z exs))) = mset exs" unfolding concat_mset [OF s] .
  have "mset (row_keys (buildRows env ?z exs)) = mset (row_keys (?days @ ?spans))" unfolding row_keys_def by (rule concat_mset [OF s])
  also have "row_keys (?days @ ?spans) = map fst ?m"
    using day_parts(2) [of "local_midnight ?z" ?m] span_parts(2) [of _ _ ?ys] by (simp add: row_keys_def)
  finally show "distinct (row_keys (buildRows env ?z exs))" using keys(1) mset_eq_imp_distinct_iff by blast
qed

text \<open>The strip shows every exception of the page exactly once, those that are over under the history and the others
  above it; its rows come in the order of their dates; a row of one day shows exceptions that begin and end on that day, a
  longer exception stands alone between its first and its last day; and no day has two rows.\<close>

theorem strip_lists_exceptions:
  assumes "\<forall>ex \<in> set exs. readable_dates env (fixed_zone off) ex"
  shows "let cur = currentRows env (fixed_zone off) exs; old = pastRows env (fixed_zone off) exs
    in mset (concat (map row_exceptions cur)) + mset (concat (map row_exceptions old)) = mset exs
      \<and> list_all (\<lambda>r. list_all (\<lambda>ex. \<not> is_past ex) (row_exceptions r)) cur \<and> list_all (\<lambda>r. list_all is_past (row_exceptions r)) old
      \<and> list_all (\<lambda>rows. sorted_wrt (\<lambda>a b. the (row_date a) \<le> the (row_date b)) rows
          \<and> list_all (\<lambda>r. row_right env (fixed_zone off) r \<and> row_date r \<noteq> None) rows \<and> distinct (row_keys rows)) [cur, old]"
proof -
  let ?z = "fixed_zone off"
  have c: "\<forall>ex \<in> set (filter (\<lambda>ex. \<not> is_past ex) exs). readable_dates env ?z ex"
    and o: "\<forall>ex \<in> set (filter is_past exs). readable_dates env ?z ex" using assms by simp_all
  note cur = build_rows [OF c, folded currentRows_def] and old = build_rows [OF o, folded pastRows_def]
  have "list_all (\<lambda>r. list_all (\<lambda>ex. \<not> is_past ex) (row_exceptions r)) (currentRows env ?z exs)"
    "list_all (\<lambda>r. list_all is_past (row_exceptions r)) (pastRows env ?z exs)"
    using mset_eq_setD [OF cur(1)] mset_eq_setD [OF old(1)] by (auto simp: list_all_iff)
  moreover have "mset (filter (\<lambda>ex. \<not> is_past ex) exs) + mset (filter is_past exs) = mset exs"
    by (simp add: mset_filter_split)
  ultimately show ?thesis unfolding Let_def using cur old by simp
qed

definition sample_strip :: "scheduled_exception list" where
  "sample_strip = map (\<lambda>(i, a, b, st). \<lparr>ex_id = i, ex_policyId = Some 7, ex_type = StayAwake, ex_startsAt = a, ex_endsAt = b,
     ex_ticketRef = [], ex_reason = [], ex_sleepOnEnd = True, ex_namespaceFilter = [], ex_labelSelector = [], ex_status = st,
     ex_startExecutionId = None, ex_endExecutionId = None, ex_cancelledAt = None, ex_cancelReason = [], ex_createdBy = ''ann'',
     ex_createdAt = a, ex_updatedAt = a, ex_workloadTargets = []\<rparr>)
     [(1, ''2024-03-25T09:00:00.000Z'', ''2024-03-25T17:00:00.000Z'', Pending), (2, ''2024-03-23T22:00:00.000Z'', ''2024-03-24T02:00:00.000Z'', Active),
      (3, ''2024-03-20T08:00:00.000Z'', ''2024-03-20T09:00:00.000Z'', Completed), (4, ''2024-03-25T11:00:00.000Z'', ''2024-03-25T12:30:00.000Z'', Pending)]"

definition strip_ids :: "calendar_row list \<Rightarrow> int list list" where
  "strip_ids rows = map (\<lambda>r. map ex_id (row_exceptions r)) rows"

theorem strip_lists_exceptions_witness:
  "mset (concat (map row_exceptions (currentRows calendar_env (fixed_zone 3600000) sample_strip)))
     + mset (concat (map row_exceptions (pastRows calendar_env (fixed_zone 3600000) sample_strip))) = mset sample_strip
   \<and> strip_ids (currentRows calendar_env (fixed_zone 3600000) sample_strip) = [[2], [1, 4]]"
proof -
  have "\<forall>ex \<in> set sample_strip. readable_dates calendar_env (fixed_zone 3600000) ex" by code_simp
  from strip_lists_exceptions [OF this]
  have "mset (concat (map row_exceptions (currentRows calendar_env (fixed_zone 3600000) sample_strip)))
     + mset (concat (map row_exceptions (pastRows calendar_env (fixed_zone 3600000) sample_strip))) = mset sample_strip"
    unfolding Let_def by (rule conjunct1)
  moreover have "strip_ids (currentRows calendar_env (fixed_zone 3600000) sample_strip) = [[2], [1, 4]]" by code_simp
  ultimately show ?thesis by blast
qed

end
