(* ===== verification/Retry.thy ===== *)
theory Retry
  imports Prelude
begin

text \<open>
  Reconnecting: the waiting times of the three stream hooks (\<open>useClusterStream.ts\<close>,
  \<open>useObservabilityStream.ts\<close>, \<open>useExecutionLogs.ts\<close>), in milliseconds, and the cancellable wait
  of \<open>streamRetry.ts\<close>. \<open>Math.random()\<close> is an argument between 0 and 1.
\<close>

section \<open>Delays\<close>

definition CLUSTER_BASE_MS :: rat where "CLUSTER_BASE_MS = 1000"
definition CLUSTER_MAX_MS :: rat where "CLUSTER_MAX_MS = 15000"
definition OBS_BASE_MS :: rat where "OBS_BASE_MS = 5000"
definition OBS_MAX_MS :: rat where "OBS_MAX_MS = 30000"
definition LOGS_BASE_MS :: rat where "LOGS_BASE_MS = 1000"
definition LOGS_MAX_MS :: rat where "LOGS_MAX_MS = 15000"

text \<open>\<open>Math.pow(2, n - 1)\<close> of a count \<open>n\<close> that may be zero.\<close>

definition pow2_pred :: "nat \<Rightarrow> rat" where
  "pow2_pred n = (if n = 0 then 1 / 2 else 2 ^ (n - 1))"

text \<open>\<open>nextDelay\<close> of the cluster stream.\<close>

definition nextDelay :: "nat \<Rightarrow> rat \<Rightarrow> rat" where
  "nextDelay failCount random =
     (let base = min (CLUSTER_BASE_MS * pow2_pred failCount) CLUSTER_MAX_MS
      in base + random * (1 / 10) * base)"

definition reconnectDelay :: "nat \<Rightarrow> rat" where
  "reconnectDelay failCount = min OBS_MAX_MS (OBS_BASE_MS * pow2_pred failCount)"

text \<open>The delay of \<open>scheduleReconnect\<close>.\<close>

definition logsDelay :: "nat \<Rightarrow> rat \<Rightarrow> rat" where
  "logsDelay retries random =
     (let delay = min (LOGS_BASE_MS * 2 ^ retries) LOGS_MAX_MS;
          jitter = random * (1 / 10) * delay
      in delay + jitter)"

text \<open>The \<open>n\<close>-th wait of each hook, without jitter, is a capped doubling.\<close>

interpretation cluster_backoff: capped_backoff "\<lambda>n. nextDelay (Suc n) 0" CLUSTER_BASE_MS CLUSTER_MAX_MS
  by unfold_locales
     (simp_all add: CLUSTER_BASE_MS_def CLUSTER_MAX_MS_def nextDelay_def pow2_pred_def min.commute)

interpretation obs_backoff: capped_backoff "\<lambda>n. reconnectDelay (Suc n)" OBS_BASE_MS OBS_MAX_MS
  by unfold_locales (simp_all add: OBS_BASE_MS_def OBS_MAX_MS_def reconnectDelay_def pow2_pred_def)

interpretation logs_backoff: capped_backoff "\<lambda>n. logsDelay n 0" LOGS_BASE_MS LOGS_MAX_MS
  by unfold_locales (simp_all add: LOGS_BASE_MS_def LOGS_MAX_MS_def logsDelay_def min.commute)

lemma nextDelay_jitter: "nextDelay n r = nextDelay n 0 * (1 + r / 10)"
  by (simp add: nextDelay_def Let_def algebra_simps)

lemma logsDelay_jitter: "logsDelay n r = logsDelay n 0 * (1 + r / 10)"
  by (simp add: logsDelay_def Let_def algebra_simps)

lemma jitter_bounds:
  fixes d :: rat
  assumes "b \<le> d" "d \<le> c" "0 \<le> b" "0 \<le> r" "r < 1"
  shows "b \<le> d * (1 + r / 10)" "d * (1 + r / 10) \<le> c * (11 / 10)"
proof -
  have "d * 1 \<le> d * (1 + r / 10)" using assms by (intro mult_left_mono) auto
  with assms show "b \<le> d * (1 + r / 10)" by simp
  show "d * (1 + r / 10) \<le> c * (11 / 10)" using assms by (intro mult_mono) auto
qed

lemma delay_bounds:
  assumes "0 \<le> r" "r < 1"
  shows "1000 \<le> nextDelay (Suc n) r \<and> nextDelay (Suc n) r \<le> 16500
    \<and> 5000 \<le> reconnectDelay (Suc n) \<and> reconnectDelay (Suc n) \<le> 30000
    \<and> 1000 \<le> logsDelay n r \<and> logsDelay n r \<le> 16500
    \<and> reconnectDelay (Suc n) \<le> reconnectDelay (Suc (Suc n))
    \<and> (4 \<le> n \<longrightarrow> nextDelay (Suc n) 0 = 15000 \<and> reconnectDelay (Suc n) = 30000 \<and> logsDelay n 0 = 15000)"
proof -
  have "1000 \<le> nextDelay (Suc n) r" "nextDelay (Suc n) r \<le> 16500"
    using jitter_bounds [of 1000 "nextDelay (Suc n) 0" 15000 r] assms nextDelay_jitter [of "Suc n" r]
      cluster_backoff.base_le_delay [of n] cluster_backoff.delay_le_cap [of n]
    by (simp_all add: CLUSTER_BASE_MS_def CLUSTER_MAX_MS_def)
  moreover have "1000 \<le> logsDelay n r" "logsDelay n r \<le> 16500"
    using jitter_bounds [of 1000 "logsDelay n 0" 15000 r] assms logsDelay_jitter [of n r]
      logs_backoff.base_le_delay [of n] logs_backoff.delay_le_cap [of n]
    by (simp_all add: LOGS_BASE_MS_def LOGS_MAX_MS_def)
  moreover have "5000 \<le> reconnectDelay (Suc n)" "reconnectDelay (Suc n) \<le> 30000"
    using obs_backoff.base_le_delay [of n] obs_backoff.delay_le_cap [of n]
    by (simp_all add: OBS_BASE_MS_def OBS_MAX_MS_def)
  moreover have "reconnectDelay (Suc n) \<le> reconnectDelay (Suc (Suc n))"
    using obs_backoff.delay_mono [of n "Suc n"] by simp
  moreover have "nextDelay (Suc n) 0 = 15000" "reconnectDelay (Suc n) = 30000" "logsDelay n 0 = 15000"
    if "4 \<le> n"
    using cluster_backoff.delay_saturates [OF _ that] obs_backoff.delay_saturates [OF _ that]
      logs_backoff.delay_saturates [OF _ that]
    by (simp_all add: CLUSTER_BASE_MS_def CLUSTER_MAX_MS_def OBS_BASE_MS_def OBS_MAX_MS_def
        LOGS_BASE_MS_def LOGS_MAX_MS_def)
  ultimately show ?thesis by blast
qed

text \<open>Every wait of every hook lies between its base and its cap, jitter of a tenth included, waits never
  get shorter from one failure to the next, and from the sixth failure on they stay at the cap.\<close>

theorem retry_delays_bounded:
  assumes "0 \<le> r" "r < 1"
  shows "1000 \<le> nextDelay (Suc n) r \<and> nextDelay (Suc n) r \<le> 16500
    \<and> 5000 \<le> reconnectDelay (Suc n) \<and> reconnectDelay (Suc n) \<le> 30000
    \<and> 1000 \<le> logsDelay n r \<and> logsDelay n r \<le> 16500
    \<and> reconnectDelay (Suc n) \<le> reconnectDelay (Suc (Suc n))
    \<and> (4 \<le> n \<longrightarrow> nextDelay (Suc n) 0 = 15000 \<and> reconnectDelay (Suc n) = 30000 \<and> logsDelay n 0 = 15000)"
  by (rule delay_bounds [OF assms])

theorem retry_delays_bounded_witness:
  "1000 \<le> nextDelay (Suc 7) (1 / 2) \<and> nextDelay (Suc 7) (1 / 2) \<le> 16500
    \<and> 5000 \<le> reconnectDelay (Suc 7) \<and> reconnectDelay (Suc 7) \<le> 30000
    \<and> 1000 \<le> logsDelay 7 (1 / 2) \<and> logsDelay 7 (1 / 2) \<le> 16500
    \<and> reconnectDelay (Suc 7) \<le> reconnectDelay (Suc (Suc 7))
    \<and> nextDelay (Suc 7) 0 = 15000 \<and> reconnectDelay (Suc 7) = 30000 \<and> logsDelay 7 0 = 15000"
  using retry_delays_bounded [of "1 / 2" 7] by simp

section \<open>The cancellable wait (\<open>waitForStreamRetry\<close>)\<close>

text \<open>The promise, its timer and its abort listener. Both callbacks are the same \<open>finish\<close>; one that
  was removed is not called.\<close>

record retry_wait =
  rw_aborted :: bool
  rw_timer :: "rat option"
  rw_listener :: bool
  rw_resolved :: bool

datatype wait_event = TimerFires | SignalAborts

definition waitForStreamRetry :: "rat \<Rightarrow> bool \<Rightarrow> retry_wait" where
  "waitForStreamRetry delayMs aborted =
     (if aborted
      then \<lparr>rw_aborted = True, rw_timer = None, rw_listener = False, rw_resolved = True\<rparr>
      else \<lparr>rw_aborted = False, rw_timer = Some delayMs, rw_listener = True, rw_resolved = False\<rparr>)"

definition finish :: "retry_wait \<Rightarrow> retry_wait" where
  "finish w = w\<lparr>rw_timer := None, rw_listener := False, rw_resolved := True\<rparr>"

fun wait_step :: "retry_wait \<Rightarrow> wait_event \<Rightarrow> retry_wait" where
  "wait_step w TimerFires = (if rw_timer w \<noteq> None then finish w else w)"
| "wait_step w SignalAborts =
     (let w' = w\<lparr>rw_aborted := True\<rparr> in if rw_listener w then finish w' else w')"

definition wait_inv :: "retry_wait \<Rightarrow> bool" where
  "wait_inv w =
     ((rw_timer w \<noteq> None \<longleftrightarrow> \<not> rw_resolved w) \<and> (rw_listener w \<longleftrightarrow> \<not> rw_resolved w)
      \<and> (rw_aborted w \<longrightarrow> rw_resolved w))"

interpretation wait: absorbing_machine wait_step wait_inv rw_resolved
proof unfold_locales
  fix w e
  assume "wait_inv w"
  then show "wait_inv (wait_step w e)"
    by (cases e) (auto simp: wait_inv_def finish_def Let_def)
next
  fix w e
  assume "wait_inv w" "rw_resolved w"
  then show "rw_resolved (wait_step w e)"
    by (cases e) (auto simp: finish_def Let_def)
qed

text \<open>The wait resolves as soon as the timer fires or the signal aborts, stays resolved, and then leaves
  neither a timer nor a listener behind; before that both are in place.\<close>

theorem retry_wait_resolves_cleanly:
  "let w = run wait_step (waitForStreamRetry ms aborted) es
   in rw_resolved w = (aborted \<or> es \<noteq> [])
      \<and> (rw_resolved w = (rw_timer w = None)) \<and> (rw_resolved w = (\<not> rw_listener w))"
proof -
  let ?w0 = "waitForStreamRetry ms aborted"
  have start: "wait_inv ?w0" "rw_resolved ?w0 = aborted"
    by (auto simp: waitForStreamRetry_def wait_inv_def)
  have first: "rw_resolved (wait_step ?w0 e)" for e
    by (cases e) (auto simp: waitForStreamRetry_def finish_def Let_def)
  have "rw_resolved (run wait_step ?w0 es) = (aborted \<or> es \<noteq> [])"
    using start first wait.step_inv [OF start(1)]
    by (cases es) (auto intro: wait.final_run)
  then show ?thesis
    using wait.run_inv [OF start(1), of es] by (auto simp: wait_inv_def Let_def)
qed

end
