(* ===== verification/StreamLoop.thy ===== *)
theory StreamLoop
  imports Streams Retry
begin

text \<open>
  The connection loop of the two server-sent-event hooks, \<open>useClusterStream.ts\<close> and
  \<open>useObservabilityStream.ts\<close>. Both run the same loop: connect, read chunks, hand every
  \<open>data:\<close> line to the hook, and after a failure wait and connect again until the effect is cleaned
  up. They differ in the delays, in what they do with a message and in one early exit; these are the
  arguments of the shared step.

  Every failure reaches the same \<open>catch\<close>: a rejected fetch, a response that is not ok or has no body,
  a read that throws, and the end of the body (after which the code throws itself).
\<close>

section \<open>The loop\<close>

datatype phase = Fetching | Reading | Waiting rat | Stopped

record 'd conn =
  cn_phase :: phase
  cn_failCount :: nat
  cn_connectedAt :: int
  cn_buf :: string
  cn_disconnected :: bool
  cn_data :: 'd

text \<open>\<open>Date.now()\<close> is an argument where the code asks for it, and so is the draw of \<open>Math.random()\<close>, one
  of the 53-bit fractions.\<close>

datatype net_event =
    Opened int
  | Failed int nat bool
  | Chunk int string
  | WaitOver
  | Unmount

definition draw :: "nat \<Rightarrow> rat" where
  "draw k = of_nat (k mod 2 ^ 53) / 2 ^ 53"

lemma draw_bounds: "0 \<le> draw k" "draw k < 1"
proof -
  have "of_nat (k mod 2 ^ 53) < (of_nat (2 ^ 53) :: rat)"
    unfolding of_nat_less_iff by simp
  then show "draw k < 1" by (simp add: draw_def del: power_numeral)
qed (simp add: draw_def)

record 'd hook =
  hk_max :: rat
  hk_delay :: "nat \<Rightarrow> rat \<Rightarrow> rat"
  hk_abort_exit :: bool
  hk_message :: "int \<Rightarrow> string \<Rightarrow> 'd \<Rightarrow> 'd option"

text \<open>One line of the body: a message that the hook accepts also clears the disconnected mark; one on
  which it throws is skipped.\<close>

definition sse_deliver :: "'d hook \<Rightarrow> int \<Rightarrow> string \<Rightarrow> 'd conn \<Rightarrow> 'd conn" where
  "sse_deliver h now line c =
     (if starts_with ''data: '' line then
        (case hk_message h now (drop 6 line) (cn_data c) of
           Some d \<Rightarrow> c\<lparr>cn_data := d, cn_disconnected := False\<rparr>
         | None \<Rightarrow> c)
      else c)"

definition sse_read :: "'d hook \<Rightarrow> int \<Rightarrow> 'd conn \<Rightarrow> string \<Rightarrow> 'd conn" where
  "sse_read h now c chunk =
     (let (lines, buf) = feed (cn_buf c) chunk
      in fold (sse_deliver h now) lines (c\<lparr>cn_buf := buf\<rparr>))"

text \<open>The \<open>catch\<close> block.\<close>

definition sse_fail :: "'d hook \<Rightarrow> int \<Rightarrow> nat \<Rightarrow> bool \<Rightarrow> 'd conn \<Rightarrow> 'd conn" where
  "sse_fail h now k abort_error c =
     (if hk_abort_exit h \<and> abort_error then c\<lparr>cn_phase := Stopped\<rparr>
      else
        let stable = (cn_connectedAt c \<noteq> 0 \<and> hk_max h \<le> of_int (now - cn_connectedAt c));
            n = Suc (if stable then 0 else cn_failCount c)
        in c\<lparr>cn_failCount := n, cn_disconnected := True, cn_phase := Waiting (hk_delay h n (draw k))\<rparr>)"

fun sse_step :: "'d hook \<Rightarrow> 'd conn \<Rightarrow> net_event \<Rightarrow> 'd conn" where
  "sse_step h c (Opened now) =
     (if cn_phase c = Fetching then c\<lparr>cn_phase := Reading, cn_connectedAt := now, cn_buf := []\<rparr> else c)"
| "sse_step h c (Chunk now chunk) = (if cn_phase c = Reading then sse_read h now c chunk else c)"
| "sse_step h c (Failed now k abort_error) =
     (if cn_phase c = Fetching \<or> cn_phase c = Reading then sse_fail h now k abort_error c else c)"
| "sse_step h c WaitOver =
     (case cn_phase c of Waiting d \<Rightarrow> c\<lparr>cn_phase := Fetching, cn_connectedAt := 0\<rparr> | _ \<Rightarrow> c)"
| "sse_step h c Unmount = c\<lparr>cn_phase := Stopped\<rparr>"

definition sse_init :: "'d \<Rightarrow> 'd conn" where
  "sse_init d = \<lparr>cn_phase = Fetching, cn_failCount = 0, cn_connectedAt = 0, cn_buf = [],
     cn_disconnected = False, cn_data = d\<rparr>"

section \<open>What the loop guarantees\<close>

text \<open>The limits of a hook's waits.\<close>

definition hook_limits :: "'d hook \<Rightarrow> rat \<Rightarrow> rat \<Rightarrow> bool" where
  "hook_limits h lo hi = (\<forall>n r. 0 \<le> r \<longrightarrow> r < 1 \<longrightarrow> lo \<le> hk_delay h (Suc n) r \<and> hk_delay h (Suc n) r \<le> hi)"

definition conn_inv :: "rat \<Rightarrow> rat \<Rightarrow> 'd conn \<Rightarrow> bool" where
  "conn_inv lo hi c =
     (LF \<notin> set (cn_buf c) \<and>
      (case cn_phase c of
         Waiting d \<Rightarrow> lo \<le> d \<and> d \<le> hi \<and> 0 < cn_failCount c \<and> cn_disconnected c
       | _ \<Rightarrow> True))"

lemma deliver_simps [simp]:
  "cn_phase (sse_deliver h now l c) = cn_phase c"
  "cn_buf (sse_deliver h now l c) = cn_buf c"
  "cn_failCount (sse_deliver h now l c) = cn_failCount c"
  by (auto simp: sse_deliver_def split: option.split)

lemma deliver_all_simps [simp]:
  "cn_phase (fold (sse_deliver h now) ls c) = cn_phase c"
  "cn_buf (fold (sse_deliver h now) ls c) = cn_buf c"
  by (induction ls arbitrary: c) simp_all

lemma sse_read_inv: "cn_phase c = Reading \<Longrightarrow> conn_inv lo hi (sse_read h now c chunk)"
proof -
  assume "cn_phase c = Reading"
  moreover have "LF \<notin> set (last (split_on LF (cn_buf c @ chunk)))"
    using last_in_set [OF split_on_not_Nil] split_on_pieces by blast
  ultimately show ?thesis by (simp add: sse_read_def feed_def conn_inv_def Let_def)
qed

lemma sse_step_inv: "hook_limits h lo hi \<Longrightarrow> conn_inv lo hi c \<Longrightarrow> conn_inv lo hi (sse_step h c e)"
proof (cases e)
  case (Failed now k a)
  assume "hook_limits h lo hi" "conn_inv lo hi c"
  then show ?thesis
    using Failed draw_bounds [of k]
    by (auto simp: sse_fail_def conn_inv_def hook_limits_def Let_def)
next
  case (Chunk now chunk)
  assume "conn_inv lo hi c"
  then show ?thesis using Chunk sse_read_inv by auto
qed (auto simp: conn_inv_def split: phase.splits)

text \<open>What every accepted message keeps of the data, the loop keeps.\<close>

lemma sse_step_data:
  assumes "\<And>now t d d'. hk_message h now t d = Some d' \<Longrightarrow> P d \<Longrightarrow> P d'" "P (cn_data c)"
  shows "P (cn_data (sse_step h c e))"
proof -
  have del: "P (cn_data c) \<Longrightarrow> P (cn_data (sse_deliver h now l c))" for now l c
    using assms(1) by (auto simp: sse_deliver_def split: option.split)
  have "P (cn_data c) \<Longrightarrow> P (cn_data (fold (sse_deliver h now) ls c))" for now ls c
    by (induction ls arbitrary: c) (simp_all add: del)
  with assms(2) show ?thesis
    by (cases e) (auto simp: sse_read_def sse_fail_def Let_def split: phase.splits prod.splits)
qed

text \<open>A stopped loop does nothing more.\<close>

lemma sse_stopped: "cn_phase c = Stopped \<Longrightarrow> sse_step h c e = c"
  by (cases e) auto

lemma sse_stopped_run: "cn_phase c = Stopped \<Longrightarrow> run (sse_step h) c es = c"
  by (induction es) (simp_all add: sse_stopped)

text \<open>The reading phase is a line reader.\<close>

lemma sse_deliver_buf: "sse_deliver h now l (c\<lparr>cn_buf := b\<rparr>) = (sse_deliver h now l c)\<lparr>cn_buf := b\<rparr>"
  by (simp add: sse_deliver_def split: option.split)

interpretation sse: line_reader "\<lambda>c chunk. sse_step h c (Chunk now chunk)" cn_buf
    "\<lambda>b c. c\<lparr>cn_buf := b\<rparr>" "sse_deliver h now" "\<lambda>c. cn_phase c = Reading"
  for h :: "'d hook" and now :: int
  by unfold_locales (simp_all add: sse_read_def sse_deliver_buf)

lemma run_chunks:
  "run (sse_step h) c (map (Chunk now) cs) = run (\<lambda>c chunk. sse_step h c (Chunk now chunk)) c cs"
  by (induction cs arbitrary: c) simp_all

section \<open>The cluster stream (\<open>useClusterStream.ts\<close>)\<close>

text \<open>The hook keeps the overview in the query cache; the cast after \<open>JSON.parse\<close> checks nothing.\<close>

definition cluster_hook :: "json option hook" where
  "cluster_hook =
     \<lparr>hk_max = CLUSTER_MAX_MS, hk_delay = nextDelay, hk_abort_exit = True,
      hk_message = (\<lambda>now text cache. map_option Some (json_parse text))\<rparr>"

definition cluster_step :: "json option conn \<Rightarrow> net_event \<Rightarrow> json option conn" where
  "cluster_step = sse_step cluster_hook"

lemma cluster_limits: "hook_limits cluster_hook 1000 16500"
  using delay_bounds by (auto simp: hook_limits_def cluster_hook_def)

interpretation cluster_conn: absorbing_machine cluster_step "conn_inv 1000 16500" "\<lambda>c. cn_phase c = Stopped"
  by unfold_locales (auto simp: cluster_step_def sse_step_inv cluster_limits sse_stopped)

text \<open>The value the cache ends with: the last line that carries a value.\<close>

definition sse_value :: "string \<Rightarrow> json list" where
  "sse_value line =
     (if starts_with ''data: '' line then (case json_parse (drop 6 line) of Some v \<Rightarrow> [v] | None \<Rightarrow> []) else [])"

lemma deliver_cluster:
  "cn_data (sse_deliver cluster_hook now l c) = (if sse_value l = [] then cn_data c else Some (last (sse_value l)))"
  by (auto simp: sse_deliver_def sse_value_def cluster_hook_def split: option.split)

lemma fold_deliver_cluster:
  "cn_data (fold (sse_deliver cluster_hook now) ls c) =
     (let vs = concat (map sse_value ls) in if vs = [] then cn_data c else Some (last vs))"
  by (induction ls arbitrary: c) (auto simp: deliver_cluster Let_def simp del: concat_eq_Nil_conv)

text \<open>However the body is cut, the cache ends with the last complete \<open>data:\<close> line that parses; comments,
  other fields and malformed lines leave it alone.\<close>

theorem cluster_stream_last_value:
  "cn_data (run cluster_step (sse_init None) (Opened t # map (Chunk now) cs)) =
     (let vs = concat (map sse_value (butlast (split_on LF (concat cs)))) in if vs = [] then None else Some (last vs))"
proof -
  let ?c = "(sse_init None)\<lparr>cn_phase := Reading, cn_connectedAt := t, cn_buf := []\<rparr>"
  have "run cluster_step (sse_init None) (Opened t # map (Chunk now) cs)
      = run (sse_step cluster_hook) ?c (map (Chunk now) cs)"
    by (simp add: cluster_step_def sse_init_def)
  also have "\<dots> = (let ls = split_on LF (concat cs)
      in (fold (sse_deliver cluster_hook now) (butlast ls) ?c)\<lparr>cn_buf := last ls\<rparr>)"
    unfolding run_chunks by (subst sse.read_chunks) simp_all
  finally show ?thesis by (simp add: Let_def fold_deliver_cluster sse_init_def del: concat_eq_Nil_conv)
qed

text \<open>Whatever happens to the connection, a waiting loop waits between 1 and 16.5 seconds and shows the
  disconnected mark; once the effect is cleaned up nothing changes the state any more.\<close>

theorem cluster_loop_safe:
  "let c = run cluster_step (sse_init d) es
   in (\<forall>w. cn_phase c = Waiting w \<longrightarrow> 1000 \<le> w \<and> w \<le> 16500 \<and> cn_disconnected c)
     \<and> (Unmount \<in> set es \<longrightarrow> run cluster_step c es' = c)"
proof -
  let ?c = "run cluster_step (sse_init d) es"
  have "conn_inv 1000 16500 (sse_init d)" by (simp add: conn_inv_def sse_init_def)
  then have "conn_inv 1000 16500 ?c" by (rule cluster_conn.run_inv)
  moreover have "Unmount \<in> set es \<Longrightarrow> run cluster_step ?c es' = ?c"
    unfolding cluster_step_def by (auto simp: in_set_conv_decomp sse_stopped_run)
  ultimately show ?thesis by (auto simp: conn_inv_def Let_def)
qed

theorem cluster_loop_safe_witness:
  "let c = run cluster_step (sse_init None) [Opened 5, Failed 7 0 False, Unmount]
   in (\<forall>w. cn_phase c = Waiting w \<longrightarrow> 1000 \<le> w \<and> w \<le> 16500 \<and> cn_disconnected c)
     \<and> (Unmount \<in> set [Opened 5, Failed 7 0 False, Unmount] \<longrightarrow> run cluster_step c [WaitOver, Opened 9] = c)"
  by (rule cluster_loop_safe)

end
