(* ===== verification/ObsStream.thy ===== *)
theory ObsStream
  imports StreamLoop
begin

text \<open>
  \<open>useObservabilityStream.ts\<close> with the payload types of \<open>observability-types.ts\<close>: the live metrics,
  their history, the recent calls, the threshold alerts and the clean-up of old alerts.

  \<open>parse\<close> is \<open>JSON.parse\<close> followed by the cast to the payload interface, \<open>None\<close> when the text is not
  JSON (the code then throws before it has changed anything, and skips the event). A text that is JSON but no payload, which
  the service never sends, is outside the model: the code would take over its snapshot before it throws. The timestamp of an alert is held as its time
  value: the code prints it with \<open>toISOString\<close> and reads the same instant back.
\<close>

section \<open>The payload\<close>

record metric_snapshot =
  ms_id :: int
  ms_timestamp :: string
  httpRequestRate :: jsnum
  httpLatencyP50Ms :: jsnum
  httpLatencyP95Ms :: jsnum
  httpLatencyP99Ms :: jsnum
  httpErrorRate :: jsnum
  k8sGetRate :: jsnum
  k8sPatchRate :: jsnum
  k8sDeleteRate :: jsnum
  k8sLatencyP50Ms :: jsnum
  k8sLatencyP99Ms :: jsnum
  policySuccessCount :: jsnum
  policyFailedCount :: jsnum
  policyInterruptedCount :: jsnum
  wsActiveConnections :: jsnum
  cacheHitRate :: jsnum
  schedulerEvalRate :: jsnum
  schedulerEvalDurationMs :: jsnum
  workloadsScaledCount :: jsnum
  scaleOperationDurationMs :: jsnum
  schedulerPanics :: jsnum
  auditDrops :: jsnum
  rateLimitHits :: jsnum
  totalErrorRate :: jsnum
  dbPoolOpen :: jsnum
  dbPoolInUse :: jsnum
  dbPoolIdle :: jsnum
  activeSessions :: jsnum
  activePolicies :: jsnum
  k8sErrorRate :: jsnum

datatype threshold_status = StOk | StWarn | StCrit

datatype call_category = CatHttp | CatK8s | CatStore | CatInternal | CatWs

record river_component_metrics =
  rc_component :: string
  rc_rpsIn :: jsnum
  rc_rpsOut :: jsnum
  rc_latencyMs :: jsnum
  rc_errorRate :: jsnum
  rc_status :: threshold_status

record river_link_metrics =
  rl_source :: string
  rl_target :: string
  rl_rps :: jsnum
  rl_latencyMs :: jsnum
  rl_errorRate :: jsnum
  rl_category :: call_category

record observability_threshold =
  th_id :: int
  th_panelKey :: string
  th_warnVal :: jsnum
  th_critVal :: jsnum

record api_call =
  ac_id :: string
  ac_timestamp :: string
  ac_method :: string
  ac_path :: string
  ac_statusCode :: int
  ac_durationMs :: jsnum
  ac_component :: string
  ac_goFunc :: string
  ac_category :: call_category

record stream_payload =
  pl_snapshot :: metric_snapshot
  pl_components :: "river_component_metrics list"
  pl_links :: "river_link_metrics list"
  pl_thresholds :: "observability_threshold list"
  pl_recentCalls :: "api_call list option"

datatype severity = SevWarning | SevCritical

record incident_event =
  ie_id :: string
  ie_severity :: severity
  ie_message :: string
  ie_time :: int
  ie_panelKey :: string

section \<open>The state of the hook\<close>

definition HISTORY_SIZE :: nat where "HISTORY_SIZE = 60"
definition EVENT_TTL_MS :: int where "EVENT_TTL_MS = 10000"
definition MAX_EVENTS :: nat where "MAX_EVENTS = 5"
definition MAX_CALLS :: nat where "MAX_CALLS = 50"

record obs_state =
  os_latest :: "stream_payload option"
  os_history :: "metric_snapshot list"
  os_events :: "incident_event list"
  os_recentCalls :: "api_call list"
  os_prevThresholds :: "(string \<times> threshold_status) list"

definition obs_init :: obs_state where
  "obs_init = \<lparr>os_latest = None, os_history = [], os_events = [], os_recentCalls = [], os_prevThresholds = []\<rparr>"

section \<open>Threshold crossings\<close>

definition checks :: "metric_snapshot \<Rightarrow> (string \<times> jsnum \<times> string) list" where
  "checks snap =
     [(''http_rate'', httpRequestRate snap, ''HTTP Request Rate''),
      (''latency_p99'', httpLatencyP99Ms snap, ''P99 Latency''),
      (''k8s_api'', div_by (k8sGetRate snap + k8sPatchRate snap + k8sDeleteRate snap) 60, ''K8s API Calls''),
      (''error_rate'', totalErrorRate snap, ''Error Rate''),
      (''cache_hit'', cacheHitRate snap, ''Cache Hit Rate''),
      (''ws_connections'', wsActiveConnections snap, ''WS Connections'')]"

text \<open>\<open>new Map(thresholds.map(t => [t.panelKey, t]))\<close>: of two entries with one key the later one counts.\<close>

definition thresholdMap :: "observability_threshold list \<Rightarrow> (string \<times> observability_threshold) list" where
  "thresholdMap ts = fold (\<lambda>t. assoc_set (th_panelKey t) t) ts []"

definition threshold_status_of :: "string \<Rightarrow> jsnum \<Rightarrow> observability_threshold \<Rightarrow> threshold_status" where
  "threshold_status_of panelKey v t =
     (if panelKey = ''cache_hit''
      then (if v < th_critVal t then StCrit else if v < th_warnVal t then StWarn else StOk)
      else (if th_critVal t \<le> v then StCrit else if th_warnVal t \<le> v then StWarn else StOk))"

definition incident :: "int \<Rightarrow> string \<Rightarrow> jsnum \<Rightarrow> string \<Rightarrow> threshold_status \<Rightarrow> incident_event" where
  "incident now panelKey v label st =
     \<lparr>ie_id = panelKey @ ''-'' @ show_int now,
      ie_severity = (if st = StCrit then SevCritical else SevWarning),
      ie_message = label @ '': '' @ to_fixed1 v @ '' exceeded ''
        @ (if st = StCrit then ''critical'' else ''warning'') @ '' threshold'',
      ie_time = now, ie_panelKey = panelKey\<rparr>"

text \<open>The body of the loop over the checks; the accumulator is \<open>newEvents\<close> with the remembered states.\<close>

definition check_panel :: "int \<Rightarrow> (string \<times> observability_threshold) list \<Rightarrow> string \<times> jsnum \<times> string
    \<Rightarrow> incident_event list \<times> (string \<times> threshold_status) list
    \<Rightarrow> incident_event list \<times> (string \<times> threshold_status) list" where
  "check_panel now tm chk acc =
     (case (chk, acc) of ((panelKey, v, label), (newEvents, prevs)) \<Rightarrow>
       (case map_of tm panelKey of
          None \<Rightarrow> (newEvents, prevs)
        | Some t \<Rightarrow>
            (let st = threshold_status_of panelKey v t;
                 prev = map_of prevs panelKey
             in (if st \<noteq> StOk \<and> Some st \<noteq> prev
                 then newEvents @ [incident now panelKey v label st] else newEvents,
                 assoc_set panelKey st prevs))))"

definition checkThresholdCrossing ::
    "int \<Rightarrow> metric_snapshot \<Rightarrow> observability_threshold list \<Rightarrow> obs_state \<Rightarrow> obs_state" where
  "checkThresholdCrossing now snap thresholds s =
     (let (newEvents, prevs) =
            fold (check_panel now (thresholdMap thresholds)) (checks snap) ([], os_prevThresholds s)
      in s\<lparr>os_prevThresholds := prevs,
           os_events := (if newEvents \<noteq> [] then take MAX_EVENTS (newEvents @ os_events s) else os_events s)\<rparr>)"

section \<open>A message\<close>

definition push_history :: "stream_payload \<Rightarrow> metric_snapshot list \<Rightarrow> metric_snapshot list" where
  "push_history p prev =
     (let next = prev @ [pl_snapshot p]
      in if HISTORY_SIZE < length next then slice_last HISTORY_SIZE next else next)"

definition push_calls :: "api_call list \<Rightarrow> api_call list \<Rightarrow> api_call list" where
  "push_calls calls prev =
     (let seen = map ac_id prev;
          fresh = filter (\<lambda>c. ac_id c \<notin> set seen) calls
      in if fresh = [] then prev else take MAX_CALLS (fresh @ prev))"

definition obs_payload :: "int \<Rightarrow> stream_payload \<Rightarrow> obs_state \<Rightarrow> obs_state" where
  "obs_payload now p s =
     (let s1 = s\<lparr>os_latest := Some p, os_history := push_history p (os_history s)\<rparr>;
          s2 = (case pl_recentCalls p of
                  None \<Rightarrow> s1
                | Some calls \<Rightarrow>
                    if calls \<noteq> [] then s1\<lparr>os_recentCalls := push_calls calls (os_recentCalls s1)\<rparr> else s1)
      in checkThresholdCrossing now (pl_snapshot p) (pl_thresholds p) s2)"

definition obs_hook :: "(string \<Rightarrow> stream_payload option) \<Rightarrow> obs_state hook" where
  "obs_hook parse =
     \<lparr>hk_max = OBS_MAX_MS, hk_delay = (\<lambda>n r. reconnectDelay n), hk_abort_exit = False,
      hk_message = (\<lambda>now text s. map_option (\<lambda>p. obs_payload now p s) (parse text))\<rparr>"

section \<open>The hook\<close>

text \<open>Beside the connection: the two-second clean-up of old alerts, and the runtime configuration that is
  fetched every 30 seconds (\<open>None\<close> for a failed request); results after the clean-up are dropped.\<close>

record 'cfg obs_conn =
  oc_conn :: "obs_state conn"
  oc_config :: "'cfg option"
  oc_active :: bool

datatype 'cfg obs_event =
    Net net_event
  | TtlTick int
  | ConfigFetched "'cfg option"

definition ttl_cleanup :: "int \<Rightarrow> obs_state \<Rightarrow> obs_state" where
  "ttl_cleanup now s =
     (let cutoff = now - EVENT_TTL_MS
      in s\<lparr>os_events := filter (\<lambda>e. cutoff < ie_time e) (os_events s)\<rparr>)"

fun obs_step :: "(string \<Rightarrow> stream_payload option) \<Rightarrow> 'cfg obs_conn \<Rightarrow> 'cfg obs_event \<Rightarrow> 'cfg obs_conn" where
  "obs_step parse h (Net e) =
     h\<lparr>oc_conn := sse_step (obs_hook parse) (oc_conn h) e, oc_active := (oc_active h \<and> e \<noteq> Unmount)\<rparr>"
| "obs_step parse h (TtlTick now) =
     (if oc_active h
      then h\<lparr>oc_conn := (oc_conn h)\<lparr>cn_data := ttl_cleanup now (cn_data (oc_conn h))\<rparr>\<rparr> else h)"
| "obs_step parse h (ConfigFetched r) =
     (case r of Some cfg \<Rightarrow> (if oc_active h then h\<lparr>oc_config := Some cfg\<rparr> else h) | None \<Rightarrow> h)"

definition obs_start :: "'cfg obs_conn" where
  "obs_start = \<lparr>oc_conn = sse_init obs_init, oc_config = None, oc_active = True\<rparr>"

section \<open>What the view holds\<close>

interpretation history: tail_buffer push_history "\<lambda>p. [pl_snapshot p]" HISTORY_SIZE
  by unfold_locales (simp add: push_history_def slice_last_short Let_def)

lemma checks_only [simp]:
  "os_history (checkThresholdCrossing now snap ts s) = os_history s"
  "os_latest (checkThresholdCrossing now snap ts s) = os_latest s"
  "os_recentCalls (checkThresholdCrossing now snap ts s) = os_recentCalls s"
  by (simp_all add: checkThresholdCrossing_def split: prod.split)

lemma obs_payload_history: "os_history (obs_payload now p s) = push_history p (os_history s)"
  by (simp add: obs_payload_def Let_def split: option.split)

lemma obs_payload_latest: "os_latest (obs_payload now p s) = Some p"
  by (simp add: obs_payload_def Let_def split: option.split)

lemma obs_payload_calls:
  "os_recentCalls (obs_payload now p s) =
     (case pl_recentCalls p of None \<Rightarrow> os_recentCalls s
      | Some calls \<Rightarrow> if calls \<noteq> [] then push_calls calls (os_recentCalls s) else os_recentCalls s)"
  by (simp add: obs_payload_def Let_def split: option.split)

lemma push_calls_distinct:
  "distinct (map ac_id calls) \<Longrightarrow> distinct (map ac_id prev) \<Longrightarrow> distinct (map ac_id (push_calls calls prev))"
  by (auto simp: push_calls_def Let_def distinct_map_filter simp flip: take_map intro!: distinct_take
      dest!: in_set_takeD)

lemma push_calls_bound: "length prev \<le> MAX_CALLS \<Longrightarrow> length (push_calls calls prev) \<le> MAX_CALLS"
  by (auto simp: push_calls_def Let_def min_def)

text \<open>The server numbers its calls: a payload does not repeat an identifier.\<close>

definition calls_numbered :: "(string \<Rightarrow> stream_payload option) \<Rightarrow> bool" where
  "calls_numbered parse =
     (\<forall>t p cs. parse t = Some p \<longrightarrow> pl_recentCalls p = Some cs \<longrightarrow> distinct (map ac_id cs))"

definition obs_inv :: "obs_state \<Rightarrow> bool" where
  "obs_inv s =
     (length (os_history s) \<le> HISTORY_SIZE \<and> length (os_events s) \<le> MAX_EVENTS
      \<and> length (os_recentCalls s) \<le> MAX_CALLS \<and> distinct (map ac_id (os_recentCalls s)))"

lemma obs_payload_events:
  "length (os_events s) \<le> MAX_EVENTS \<Longrightarrow> length (os_events (obs_payload now p s)) \<le> MAX_EVENTS"
  by (auto simp: obs_payload_def checkThresholdCrossing_def Let_def split: option.split prod.split)

lemma obs_payload_inv:
  "(\<And>cs. pl_recentCalls p = Some cs \<Longrightarrow> distinct (map ac_id cs)) \<Longrightarrow> obs_inv s \<Longrightarrow> obs_inv (obs_payload now p s)"
  using history.push_bound [of "os_history s" p] obs_payload_events [of s now p]
  by (auto simp: obs_inv_def obs_payload_history obs_payload_calls push_calls_bound push_calls_distinct
      split: option.split)

lemma ttl_inv: "obs_inv s \<Longrightarrow> obs_inv (ttl_cleanup now s)"
  by (auto simp: obs_inv_def ttl_cleanup_def Let_def intro: le_trans [OF length_filter_le])

definition obs_conn_inv :: "'cfg obs_conn \<Rightarrow> bool" where
  "obs_conn_inv h =
     (conn_inv 5000 30000 (oc_conn h) \<and> obs_inv (cn_data (oc_conn h))
      \<and> (oc_active h \<longleftrightarrow> cn_phase (oc_conn h) \<noteq> Stopped))"

lemma obs_limits: "hook_limits (obs_hook parse) 5000 30000"
  using delay_bounds by (auto simp: hook_limits_def obs_hook_def)

text \<open>What every message and every clean-up keeps of the view, every event keeps.\<close>

lemma obs_step_data:
  assumes "\<And>now p d. P d \<Longrightarrow> P (obs_payload now p d)" "\<And>now d. P d \<Longrightarrow> P (ttl_cleanup now d)" "P (cn_data (oc_conn h))"
  shows "P (cn_data (oc_conn (obs_step parse h e)))"
proof (cases e)
  case (Net n)
  have "P (cn_data (sse_step (obs_hook parse) (oc_conn h) n))"
    by (rule sse_step_data [where P = P]) (use assms in \<open>auto simp: obs_hook_def\<close>)
  then show ?thesis by (simp add: Net)
next
  case (TtlTick now)
  then show ?thesis using assms by simp
next
  case (ConfigFetched r)
  then show ?thesis using assms(3) by (simp split: option.split)
qed

lemma obs_step_inv:
  assumes "calls_numbered parse" "obs_conn_inv h"
  shows "obs_conn_inv (obs_step parse h e)"
proof (cases e)
  case (Net n)
  let ?c = "sse_step (obs_hook parse) (oc_conn h) n"
  have "obs_inv (cn_data ?c)"
  proof (rule sse_step_data)
    show "obs_inv (cn_data (oc_conn h))" using assms(2) by (simp add: obs_conn_inv_def)
    fix now t d d'
    assume "hk_message (obs_hook parse) now t d = Some d'" "obs_inv d"
    then show "obs_inv d'"
      using assms(1) by (auto simp: obs_hook_def calls_numbered_def intro: obs_payload_inv)
  qed
  moreover have "conn_inv 5000 30000 ?c"
    using assms(2) by (intro sse_step_inv obs_limits) (simp add: obs_conn_inv_def)
  moreover have "cn_phase ?c = Stopped \<longleftrightarrow> cn_phase (oc_conn h) = Stopped \<or> n = Unmount"
    by (cases n) (auto simp: sse_read_def sse_fail_def obs_hook_def Let_def split: phase.splits prod.splits)
  ultimately show ?thesis
    using Net assms(2) by (auto simp: obs_conn_inv_def)
next
  case (TtlTick now)
  then show ?thesis
    using assms(2) by (cases "cn_phase (oc_conn h)") (auto simp: obs_conn_inv_def ttl_inv conn_inv_def)
next
  case (ConfigFetched r)
  then show ?thesis using assms(2) by (auto simp: obs_conn_inv_def split: option.split)
qed

lemma obs_start_inv: "obs_conn_inv obs_start"
  by (simp add: obs_conn_inv_def obs_start_def conn_inv_def sse_init_def obs_inv_def obs_init_def)

text \<open>A parser for concrete runs: any text is an empty payload.\<close>

definition sample_snapshot :: metric_snapshot where
  "sample_snapshot =
     \<lparr>ms_id = 1, ms_timestamp = [], httpRequestRate = Num 80, httpLatencyP50Ms = Num 0, httpLatencyP95Ms = Num 0,
      httpLatencyP99Ms = Num 0, httpErrorRate = Num 0, k8sGetRate = Num 0, k8sPatchRate = Num 0, k8sDeleteRate = Num 0,
      k8sLatencyP50Ms = Num 0, k8sLatencyP99Ms = Num 0, policySuccessCount = Num 0, policyFailedCount = Num 0,
      policyInterruptedCount = Num 0, wsActiveConnections = Num 0, cacheHitRate = Num (3 / 10), schedulerEvalRate = Num 0,
      schedulerEvalDurationMs = Num 0, workloadsScaledCount = Num 0, scaleOperationDurationMs = Num 0,
      schedulerPanics = Num 0, auditDrops = Num 0, rateLimitHits = Num 0, totalErrorRate = Num 0, dbPoolOpen = Num 0,
      dbPoolInUse = Num 0, dbPoolIdle = Num 0, activeSessions = Num 0, activePolicies = Num 0, k8sErrorRate = Num 0\<rparr>"

definition sample_thresholds :: "observability_threshold list" where
  "sample_thresholds = [\<lparr>th_id = 1, th_panelKey = ''http_rate'', th_warnVal = Num 50, th_critVal = Num 100\<rparr>,
     \<lparr>th_id = 2, th_panelKey = ''cache_hit'', th_warnVal = Num (8 / 10), th_critVal = Num (5 / 10)\<rparr>]"

definition sample_payload :: stream_payload where
  "sample_payload = \<lparr>pl_snapshot = sample_snapshot, pl_components = [], pl_links = [],
     pl_thresholds = sample_thresholds, pl_recentCalls = None\<rparr>"

definition sample_parse :: "string \<Rightarrow> stream_payload option" where
  "sample_parse text = (if text = ''{}'' then Some sample_payload else None)"

lemma sample_parse_numbered: "calls_numbered sample_parse"
  by (auto simp: calls_numbered_def sample_parse_def sample_payload_def)

interpretation obs_machine: machine "obs_step parse" "\<lambda>h. calls_numbered parse \<and> obs_conn_inv h"
  for parse :: "string \<Rightarrow> stream_payload option"
  by unfold_locales (blast intro: obs_step_inv)

lemma obs_run_inv:
  "calls_numbered parse \<Longrightarrow> obs_conn_inv h \<Longrightarrow> obs_conn_inv (run (obs_step parse) h es)"
  using obs_machine.run_inv by blast

text \<open>C18. After any sequence of network events, clean-ups and configuration fetches the view holds at most 60
  snapshots, 5 alerts and 50 calls with distinct identifiers, and a waiting loop waits 5 to 30 seconds.\<close>

theorem obs_view_bounded:
  assumes "calls_numbered parse"
  shows "let c = oc_conn (run (obs_step parse) obs_start es); s = cn_data c
    in length (os_history s) \<le> 60 \<and> length (os_events s) \<le> 5 \<and> length (os_recentCalls s) \<le> 50
     \<and> distinct (map ac_id (os_recentCalls s))
     \<and> (\<forall>w. cn_phase c = Waiting w \<longrightarrow> 5000 \<le> w \<and> w \<le> 30000 \<and> cn_disconnected c)"
  using obs_run_inv [OF assms obs_start_inv, of es]
  by (auto simp: obs_conn_inv_def conn_inv_def obs_inv_def Let_def
      HISTORY_SIZE_def MAX_EVENTS_def MAX_CALLS_def)

theorem obs_view_bounded_witness:
  "let c = oc_conn (run (obs_step sample_parse) obs_start [Net (Opened 1), Net (Chunk 2 (''data: {}'' @ [LF]))]); s = cn_data c
    in length (os_history s) \<le> 60 \<and> length (os_events s) \<le> 5 \<and> length (os_recentCalls s) \<le> 50
     \<and> distinct (map ac_id (os_recentCalls s))
     \<and> (\<forall>w. cn_phase c = Waiting w \<longrightarrow> 5000 \<le> w \<and> w \<le> 30000 \<and> cn_disconnected c)"
  by (rule obs_view_bounded [OF sample_parse_numbered])

section \<open>Alerts\<close>

lemma assoc_set_same: "map_of xs k = Some v \<Longrightarrow> assoc_set k v xs = xs"
  by (induction xs) (auto split: if_splits)

definition panel_settled :: "(string \<times> observability_threshold) list \<Rightarrow> (string \<times> threshold_status) list
    \<Rightarrow> string \<times> jsnum \<times> string \<Rightarrow> bool" where
  "panel_settled tm prevs chk =
     (case chk of (panelKey, v, label) \<Rightarrow>
        (case map_of tm panelKey of None \<Rightarrow> True
         | Some t \<Rightarrow> map_of prevs panelKey = Some (threshold_status_of panelKey v t)))"

lemma check_panel_settles: "panel_settled tm (snd (check_panel now tm chk acc)) chk"
  by (cases chk; cases acc) (simp add: check_panel_def panel_settled_def Let_def split: option.split)

lemma check_panel_other:
  "fst chk \<noteq> fst chk' \<Longrightarrow> panel_settled tm (snd acc) chk' \<Longrightarrow> panel_settled tm (snd (check_panel now tm chk acc)) chk'"
  by (cases chk; cases acc; cases chk') (simp add: check_panel_def panel_settled_def Let_def split: option.splits)

lemma check_all_settle:
  "distinct (map fst chks) \<Longrightarrow> chk \<in> set chks \<or> (panel_settled tm (snd acc) chk \<and> fst chk \<notin> fst ` set chks)
     \<Longrightarrow> panel_settled tm (snd (fold (check_panel now tm) chks acc)) chk"
proof (induction chks arbitrary: acc)
  case Nil
  then show ?case by simp
next
  case (Cons k chks)
  then have "chk \<in> set chks \<or> (panel_settled tm (snd (check_panel now tm k acc)) chk \<and> fst chk \<notin> fst ` set chks)"
    using check_panel_settles [of tm now k acc] check_panel_other [of k chk tm acc now] by auto
  then show ?case using Cons by simp
qed

lemma settled_no_event:
  "panel_settled tm (snd acc) chk \<Longrightarrow> check_panel now tm chk acc = acc"
  by (cases chk; cases acc)
     (auto simp: check_panel_def panel_settled_def Let_def assoc_set_same split: option.splits)

lemma settled_no_events:
  "\<forall>chk \<in> set chks. panel_settled tm (snd acc) chk \<Longrightarrow> fold (check_panel now tm) chks acc = acc"
  by (induction chks) (simp_all add: settled_no_event)

lemma checks_distinct: "distinct (map fst (checks snap))"
  by (simp add: checks_def)

text \<open>An alert is raised when a panel changes its state, not while it stays there: the same figures seen
  again, at any later time, raise nothing and leave the view as it is.\<close>

theorem alerts_raised_once:
  "checkThresholdCrossing now' snap ts (checkThresholdCrossing now snap ts s) = checkThresholdCrossing now snap ts s"
proof -
  obtain evs prevs where f: "fold (check_panel now (thresholdMap ts)) (checks snap) ([], os_prevThresholds s) = (evs, prevs)"
    by fastforce
  then have "\<forall>chk \<in> set (checks snap). panel_settled (thresholdMap ts) prevs chk"
    using check_all_settle [OF checks_distinct, where acc = "([], os_prevThresholds s)"] by (metis snd_conv)
  then have "fold (check_panel now' (thresholdMap ts)) (checks snap) ([], prevs) = ([], prevs)"
    by (intro settled_no_events) simp
  then show ?thesis by (simp add: checkThresholdCrossing_def f)
qed

text \<open>The history is the last sixty snapshots received, in order.\<close>

theorem history_is_last_sixty:
  "os_history (fold (\<lambda>(now, p). obs_payload now p) msgs obs_init) = slice_last 60 (map (pl_snapshot \<circ> snd) msgs)"
proof -
  have "os_history (fold (\<lambda>(now, p). obs_payload now p) msgs s) = fold push_history (map snd msgs) (os_history s)" for s
    by (induction msgs arbitrary: s) (auto simp: obs_payload_history)
  then show ?thesis
    using history.pushes [of "[]" "map snd msgs"]
    by (simp add: obs_init_def HISTORY_SIZE_def comp_def)
qed

text \<open>The alert of the cache hit rate says that the value exceeded its threshold when it fell below it.\<close>

theorem cache_alert_wording:
  "map ie_message (os_events (checkThresholdCrossing 0 sample_snapshot sample_thresholds obs_init)) =
     [''HTTP Request Rate: 80.0 exceeded warning threshold'', ''Cache Hit Rate: 0.3 exceeded critical threshold'']"
  by code_simp

end
