(* ===== verification/RiversGraph.thy ===== *)
theory RiversGraph
  imports ObsStream "HOL-Library.While_Combinator"
begin

text \<open>
  The diagram of the system in \<open>components/observability/ApiRivers.tsx\<close>: its components and links, the two
  breadth-first searches, the links reached from a traced component, the critical path and the rates of the stream.
  The subtitle, the Go file and the label and signature of a link are only printed and left out. A \<open>Map\<close> is a
  function to options, a \<open>Set\<close> the list of its elements in the order of insertion.
\<close>

section \<open>Components and links\<close>

datatype component_kind = KEntry | KMiddleware | KHandler | KCore | KInfra | KExternal

datatype port_side = PLeft | PRight | PTop | PBottom

record system_component =
  sc_id :: string
  sc_label :: string
  sc_kind :: component_kind
  sc_col :: nat
  sc_row :: nat
  sc_hCol :: nat
  sc_hRow :: rat

record internal_link =
  lk_id :: string
  lk_source :: string
  lk_sourcePort :: port_side
  lk_targetPort :: port_side
  lk_hSourcePort :: port_side
  lk_hTargetPort :: port_side
  lk_target :: string
  lk_rps :: rat
  lk_latencyMs :: rat
  lk_category :: call_category

definition river_box :: "string \<Rightarrow> string \<Rightarrow> component_kind \<Rightarrow> nat \<Rightarrow> nat \<Rightarrow> nat \<Rightarrow> rat \<Rightarrow> system_component" where
  "river_box i l k c r hc hr = \<lparr>sc_id = i, sc_label = l, sc_kind = k, sc_col = c, sc_row = r, sc_hCol = hc, sc_hRow = hr\<rparr>"

definition river_link ::
    "string \<Rightarrow> string \<Rightarrow> port_side \<Rightarrow> port_side \<Rightarrow> port_side \<Rightarrow> port_side \<Rightarrow> string \<Rightarrow> rat \<Rightarrow> rat \<Rightarrow> call_category \<Rightarrow> internal_link" where
  "river_link i s sp tp hs ht t r lat cat = \<lparr>lk_id = i, lk_source = s, lk_sourcePort = sp, lk_targetPort = tp, lk_hSourcePort = hs,
     lk_hTargetPort = ht, lk_target = t, lk_rps = r, lk_latencyMs = lat, lk_category = cat\<rparr>"

definition COMPONENTS :: "system_component list" where
  "COMPONENTS =
     [river_box ''browser'' ''Browser'' KEntry 0 0 0 (18 / 10),
      river_box ''chi'' ''Chi Router'' KMiddleware 0 1 1 1,
      river_box ''auth'' ''Auth MW'' KMiddleware 1 1 1 (26 / 10),
      river_box ''api-handlers'' ''API Handlers'' KHandler 0 2 2 (5 / 10),
      river_box ''ws-handler'' ''WS Handler'' KHandler 1 2 2 2,
      river_box ''sse-handler'' ''SSE Stream'' KHandler 2 2 2 (34 / 10),
      river_box ''scheduler'' ''Scheduler'' KCore 0 3 3 0,
      river_box ''scaler'' ''Scaler'' KCore 1 3 3 (15 / 10),
      river_box ''broker'' ''WS Broker'' KCore 2 3 3 (28 / 10),
      river_box ''audit'' ''Audit Writer'' KCore 3 3 3 (38 / 10),
      river_box ''k8s-client'' ''K8s Client'' KInfra 0 4 4 (5 / 10),
      river_box ''store'' ''Store'' KInfra 1 4 4 (22 / 10),
      river_box ''cache'' ''Cluster Cache'' KInfra 2 4 4 (36 / 10),
      river_box ''k8s-api'' ''K8s API'' KExternal 0 5 5 (5 / 10),
      river_box ''postgres'' ''PostgreSQL'' KExternal 1 5 5 (22 / 10)]"

definition ALL_LINKS :: "internal_link list" where
  "ALL_LINKS =
     [river_link ''browser-chi'' ''browser'' PBottom PTop PRight PLeft ''chi'' 120 2 CatHttp,
      river_link ''chi-auth'' ''chi'' PRight PLeft PBottom PTop ''auth'' 120 1 CatInternal,
      river_link ''auth-api'' ''auth'' PBottom PTop PRight PLeft ''api-handlers'' 80 1 CatHttp,
      river_link ''auth-ws'' ''auth'' PBottom PTop PRight PLeft ''ws-handler'' 5 1 CatWs,
      river_link ''auth-sse'' ''auth'' PBottom PTop PRight PLeft ''sse-handler'' 8 1 CatHttp,
      river_link ''api-scheduler'' ''api-handlers'' PBottom PTop PRight PLeft ''scheduler'' 2 1 CatInternal,
      river_link ''api-audit'' ''api-handlers'' PBottom PTop PBottom PLeft ''audit'' 15 0 CatInternal,
      river_link ''api-k8s'' ''api-handlers'' PBottom PTop PRight PLeft ''k8s-client'' 25 12 CatK8s,
      river_link ''api-store'' ''api-handlers'' PBottom PTop PBottom PLeft ''store'' 60 4 CatStore,
      river_link ''scheduler-scaler'' ''scheduler'' PRight PLeft PBottom PTop ''scaler'' 1 2 CatInternal,
      river_link ''scheduler-broker'' ''scheduler'' PBottom PTop PBottom PTop ''broker'' 30 0 CatInternal,
      river_link ''scheduler-store'' ''scheduler'' PBottom PTop PRight PLeft ''store'' 10 3 CatStore,
      river_link ''scaler-k8s'' ''scaler'' PBottom PTop PRight PLeft ''k8s-client'' 40 18 CatK8s,
      river_link ''scaler-store'' ''scaler'' PBottom PTop PRight PLeft ''store'' 20 3 CatStore,
      river_link ''ws-broker'' ''ws-handler'' PBottom PTop PRight PLeft ''broker'' 5 0 CatWs,
      river_link ''sse-cache'' ''sse-handler'' PBottom PTop PRight PLeft ''cache'' 8 0 CatInternal,
      river_link ''audit-store'' ''audit'' PBottom PTop PRight PBottom ''store'' 15 2 CatStore,
      river_link ''k8s-api-call'' ''k8s-client'' PBottom PTop PRight PLeft ''k8s-api'' 65 35 CatK8s,
      river_link ''cache-k8s'' ''cache'' PBottom PTop PRight PLeft ''k8s-api'' 12 50 CatK8s,
      river_link ''store-pg'' ''store'' PBottom PTop PRight PLeft ''postgres'' 90 2 CatStore]"

definition COMP_MAP :: "string \<Rightarrow> system_component option" where
  "COMP_MAP i = map_of (map (\<lambda>c. (sc_id c, c)) COMPONENTS) i"

definition LINK_MAP :: "string \<Rightarrow> internal_link option" where
  "LINK_MAP i = map_of (map (\<lambda>l. (lk_id l, l)) ALL_LINKS) i"

section \<open>Searching\<close>

text \<open>The inner loop of both searches: the targets of \<open>cid\<close> that have no entry get one and join the queue.\<close>

definition visit :: "'v \<Rightarrow> string \<Rightarrow> internal_link \<Rightarrow> (string \<rightharpoonup> 'v) \<times> string list \<Rightarrow> (string \<rightharpoonup> 'v) \<times> string list" where
  "visit v cid l = (\<lambda>(m, q). if lk_source l \<noteq> cid \<or> m (lk_target l) \<noteq> None then (m, q) else (m(lk_target l \<mapsto> v), q @ [lk_target l]))"

definition visit_all :: "'v \<Rightarrow> string \<Rightarrow> internal_link list \<Rightarrow> (string \<rightharpoonup> 'v) \<Rightarrow> string list \<Rightarrow> (string \<rightharpoonup> 'v) \<times> string list" where
  "visit_all v cid links m q = fold (visit v cid) links (m, q)"

definition linked :: "internal_link list \<Rightarrow> (string \<times> string) set" where
  "linked links = set (map (\<lambda>l. (lk_source l, lk_target l)) links)"

lemma visit_all_spec:
  obtains news where "visit_all v cid links m q = ((\<lambda>x. if x \<in> set news then Some v else m x), q @ news)" "distinct news"
    "set news = {t. (cid, t) \<in> linked links \<and> m t = None}"
proof -
  have "\<exists>news. fold (visit v cid) links (m, q) = ((\<lambda>x. if x \<in> set news then Some v else m x), q @ news) \<and> distinct news
      \<and> set news = {t. (cid, t) \<in> linked links \<and> m t = None}"
  proof (induction links arbitrary: m q)
    case Nil
    then show ?case by (intro exI [of _ "[]"]) (simp add: linked_def)
  next
    case (Cons l ls)
    show ?case
    proof (cases "lk_source l \<noteq> cid \<or> m (lk_target l) \<noteq> None")
      case True
      obtain news where n: "fold (visit v cid) ls (m, q) = ((\<lambda>x. if x \<in> set news then Some v else m x), q @ news)" "distinct news"
        "set news = {t. (cid, t) \<in> linked ls \<and> m t = None}" using Cons.IH by blast
      have "visit v cid l (m, q) = (m, q)" using True by (auto simp: visit_def)
      moreover have "{t. (cid, t) \<in> linked (l # ls) \<and> m t = None} = {t. (cid, t) \<in> linked ls \<and> m t = None}"
        using True by (auto simp: linked_def)
      ultimately show ?thesis using n by (intro exI [of _ news]) simp
    next
      case False
      let ?t = "lk_target l"
      obtain news where n: "fold (visit v cid) ls (m(?t \<mapsto> v), q @ [?t]) = ((\<lambda>x. if x \<in> set news then Some v else (m(?t \<mapsto> v)) x), (q @ [?t]) @ news)"
        "distinct news" "set news = {t. (cid, t) \<in> linked ls \<and> (m(?t \<mapsto> v)) t = None}" using Cons.IH by blast
      have "set (?t # news) = {t. (cid, t) \<in> linked (l # ls) \<and> m t = None}" using n(3) False by (auto simp: linked_def)
      moreover have "distinct (?t # news)" using n(2,3) by auto
      moreover have "fold (visit v cid) (l # ls) (m, q) = ((\<lambda>x. if x \<in> set (?t # news) then Some v else m x), q @ (?t # news))"
        using n(1) False by (simp add: visit_def [of v cid l] fun_eq_iff)
      ultimately show ?thesis by blast
    qed
  qed
  then show ?thesis using that unfolding visit_all_def by blast
qed

definition undiscovered :: "internal_link list \<Rightarrow> (string \<rightharpoonup> 'v) \<Rightarrow> nat" where
  "undiscovered links m = card (lk_target ` set links - dom m)"

lemma visit_all_measure:
  assumes "visit_all v cid links m q = (m', q')"
  shows "length q' + undiscovered links m' = length q + undiscovered links m"
proof -
  obtain news where n: "visit_all v cid links m q = ((\<lambda>x. if x \<in> set news then Some v else m x), q @ news)" "distinct news"
    "set news = {t. (cid, t) \<in> linked links \<and> m t = None}" by (rule visit_all_spec)
  have d: "m' = (\<lambda>x. if x \<in> set news then Some v else m x)" "q' = q @ news" using assms n(1) by simp_all
  have "lk_target ` set links - dom m' = (lk_target ` set links - dom m) - set news" unfolding d(1) by (auto simp: dom_def)
  moreover have sub: "set news \<subseteq> lk_target ` set links - dom m" using n(3) by (auto simp: linked_def)
  ultimately have "undiscovered links m' = undiscovered links m - length news"
    unfolding undiscovered_def using n(2) by (simp add: card_Diff_subset distinct_card)
  moreover have "length news \<le> undiscovered links m"
    unfolding undiscovered_def distinct_card [OF n(2), symmetric] using sub by (intro card_mono) simp_all
  ultimately show ?thesis by (simp add: d(2))
qed

function bfs_depths :: "internal_link list \<Rightarrow> string list \<Rightarrow> (string \<rightharpoonup> nat) \<Rightarrow> (string \<rightharpoonup> nat)" where
  "bfs_depths links [] m = m"
| "bfs_depths links (cid # q) m =
     (let (m', q') = visit_all (Suc (the (m cid))) cid links m q in bfs_depths links q' m')"
  by pat_completeness auto

termination
  by (relation "measure (\<lambda>(links, q, m). length q + undiscovered links m)") (auto dest: visit_all_measure [OF sym])

definition bfsDepthMap :: "internal_link list \<Rightarrow> string \<Rightarrow> (string \<rightharpoonup> nat)" where
  "bfsDepthMap links startId = bfs_depths links [startId] [startId \<mapsto> 0]"

text \<open>The parent of the start is the empty text.\<close>

function bfs_parents :: "internal_link list \<Rightarrow> string \<Rightarrow> string list \<Rightarrow> (string \<rightharpoonup> string) \<Rightarrow> (string \<rightharpoonup> string)" where
  "bfs_parents links endId [] m = m"
| "bfs_parents links endId (cid # q) m =
     (if cid = endId then m
      else let (m', q') = visit_all cid cid links m q in bfs_parents links endId q' m')"
  by pat_completeness auto

termination
  by (relation "measure (\<lambda>(links, e, q, m). length q + undiscovered links m)") (auto dest: visit_all_measure [OF sym])

text \<open>\<open>while (cur) { path.unshift(cur); cur = parent.get(cur)! }\<close>: nothing in the loop itself makes it end. An entry
  that is missing is \<open>undefined\<close> and ends it, as the empty text does.\<close>

partial_function (option) climb :: "(string \<rightharpoonup> string) \<Rightarrow> string \<Rightarrow> string list \<Rightarrow> string list option" where
  [code]: "climb parent cur path =
     (if cur = [] then Some path
      else case parent cur of Some p \<Rightarrow> climb parent p (cur # path) | None \<Rightarrow> Some (cur # path))"

definition bfsPathTo :: "internal_link list \<Rightarrow> string \<Rightarrow> string \<Rightarrow> string list option" where
  "bfsPathTo links startId endId =
     (let parent = bfs_parents links endId [startId] [startId \<mapsto> []]
      in if parent endId = None then Some [] else climb parent endId [])"

section \<open>The searches are breadth first\<close>

text \<open>The state of a search from \<open>s\<close>: \<open>m\<close> holds depths of real paths; the queue is in order of depth, and
  within one level of its head; whatever left the queue is no deeper, and its targets are entered one level below at most.\<close>

definition bfs_inv :: "internal_link list \<Rightarrow> string \<Rightarrow> string list \<Rightarrow> (string \<rightharpoonup> nat) \<Rightarrow> bool" where
  "bfs_inv links s q m =
     (m s = Some 0 \<and> (\<forall>c d. m c = Some d \<longrightarrow> (s, c) \<in> linked links ^^ d) \<and> set q \<subseteq> dom m \<and> distinct q
      \<and> sorted (map (\<lambda>c. the (m c)) q) \<and> (\<forall>x \<in> set q. the (m x) \<le> Suc (the (m (hd q))))
      \<and> (\<forall>c \<in> dom m - set q. \<forall>c'. (c, c') \<in> linked links \<longrightarrow> (\<exists>d'. m c' = Some d' \<and> d' \<le> Suc (the (m c))))
      \<and> (\<forall>c \<in> dom m - set q. \<forall>x \<in> set q. the (m c) \<le> the (m x)))"

lemma bfs_inv_start: "bfs_inv links s [s] [s \<mapsto> 0]"
  by (auto simp: bfs_inv_def)

lemma bfs_inv_step:
  assumes inv: "bfs_inv links s (c # r) m" and step: "visit_all (Suc (the (m c))) c links m r = (m', q')"
  shows "bfs_inv links s q' m'" "m \<subseteq>\<^sub>m m'"
proof -
  obtain news where n: "visit_all (Suc (the (m c))) c links m r = ((\<lambda>x. if x \<in> set news then Some (Suc (the (m c))) else m x), r @ news)"
    "distinct news" "set news = {t. (c, t) \<in> linked links \<and> m t = None}" by (rule visit_all_spec)
  have m': "m' = (\<lambda>x. if x \<in> set news then Some (Suc (the (m c))) else m x)" and q': "q' = r @ news" using step n(1) by simp_all
  have i: "m s = Some 0" "\<And>c d. m c = Some d \<Longrightarrow> (s, c) \<in> linked links ^^ d" "set (c # r) \<subseteq> dom m" "distinct (c # r)"
    "sorted (map (\<lambda>c. the (m c)) (c # r))" "\<And>x. x \<in> set (c # r) \<Longrightarrow> the (m x) \<le> Suc (the (m c))"
    "\<And>a b. a \<in> dom m - set (c # r) \<Longrightarrow> (a, b) \<in> linked links \<Longrightarrow> \<exists>d'. m b = Some d' \<and> d' \<le> Suc (the (m a))"
    "\<And>a x. a \<in> dom m - set (c # r) \<Longrightarrow> x \<in> set (c # r) \<Longrightarrow> the (m a) \<le> the (m x)"
    using inv unfolding bfs_inv_def list.sel by blast+
  have new: "x \<in> set news \<Longrightarrow> m x = None" for x using n(3) by blast
  have old: "x \<in> dom m \<Longrightarrow> m' x = m x" for x using new [of x] unfolding m' by (auto simp: dom_def)
  have nv: "x \<in> set news \<Longrightarrow> m' x = Some (Suc (the (m c)))" for x unfolding m' by simp
  have dm': "dom m' = dom m \<union> set news" unfolding m' by (auto simp: dom_def)
  have cd: "c \<in> dom m" using i(3) by simp
  have rd: "x \<in> set r \<Longrightarrow> x \<in> dom m" for x using i(3) by auto
  show "m \<subseteq>\<^sub>m m'" unfolding map_le_def using old by auto
  have paths: "(s, x) \<in> linked links ^^ d" if "m' x = Some d" for x d
  proof (cases "x \<in> set news")
    case True
    obtain dc where "m c = Some dc" using cd by blast
    then have "(s, c) \<in> linked links ^^ dc" using i(2) by blast
    moreover have "(c, x) \<in> linked links" using True n(3) by blast
    ultimately show ?thesis using that nv [OF True] \<open>m c = Some dc\<close> by auto
  next
    case False
    then show ?thesis using that i(2) unfolding m' by simp
  qed
  have le: "the (m c) \<le> the (m x)" if "x \<in> set r" for x using i(5) that by simp
  have srt: "sorted (map (\<lambda>x. the (m' x)) q')"
  proof -
    have "map (\<lambda>x. the (m' x)) r = map (\<lambda>x. the (m x)) r" by (rule map_cong [OF refl]) (simp add: old rd)
    moreover have "map (\<lambda>x. the (m' x)) news = replicate (length news) (Suc (the (m c)))"
      using nv by (intro replicate_eqI) auto
    ultimately have "map (\<lambda>x. the (m' x)) q' = map (\<lambda>x. the (m x)) r @ replicate (length news) (Suc (the (m c)))"
      by (simp only: q' map_append)
    then show ?thesis using i(5,6) by (auto simp: sorted_append)
  qed
  have lo: "the (m c) \<le> the (m' x)" if "x \<in> set q'" for x
    using that le [of x] old [of x] rd [of x] nv [of x] unfolding q' by auto
  have hi: "the (m' x) \<le> Suc (the (m c))" if "x \<in> set q'" for x
    using that i(6) [of x] old [of x] rd [of x] nv [of x] unfolding q' by auto
  have band: "the (m' x) \<le> Suc (the (m' (hd q')))" if "x \<in> set q'" for x
    using hi [OF that] lo [of "hd q'"] that by (cases q') auto
  have out: "x \<in> dom m - set (c # r) \<or> x = c" if "x \<in> dom m' - set q'" for x using that unfolding dm' q' by auto
  have succ: "\<exists>d'. m' b = Some d' \<and> d' \<le> Suc (the (m' a))" if "a \<in> dom m' - set q'" "(a, b) \<in> linked links" for a b
    using out [OF that(1)]
  proof
    assume a: "a \<in> dom m - set (c # r)"
    from i(7) [OF a that(2)] obtain d' where d': "m b = Some d'" "d' \<le> Suc (the (m a))" by blast
    then show ?thesis using old [of b] old [of a] a by (auto simp: dom_def)
  next
    assume a: "a = c"
    show ?thesis
    proof (cases "m b")
      case None
      then have "b \<in> set news" using n(3) that(2) a by blast
      then show ?thesis using nv old [OF cd] a by simp
    next
      case (Some d)
      then have b: "b \<in> dom m" by blast
      have "d \<le> Suc (the (m c))"
      proof (cases "b \<in> set (c # r)")
        case True
        then show ?thesis using i(6) [OF True] Some by simp
      next
        case False
        then show ?thesis using i(8) [of b c] b Some by simp
      qed
      then show ?thesis using old [OF b] old [OF cd] a Some by simp
    qed
  qed
  have below: "the (m' a) \<le> the (m' x)" if "a \<in> dom m' - set q'" "x \<in> set q'" for a x
    using out [OF that(1)]
  proof
    assume a: "a \<in> dom m - set (c # r)"
    then have "the (m a) \<le> the (m c)" using i(8) [OF a, of c] by simp
    then show ?thesis using lo [OF that(2)] old [of a] a by auto
  qed (use lo [OF that(2)] old [OF cd] in simp)
  have "set q' \<subseteq> dom m'" using rd unfolding q' dm' by auto
  moreover have "distinct q'" using i(4) n(2) rd new unfolding q' by auto
  moreover have "m' s = Some 0" using old [of s] i(1) by auto
  ultimately show "bfs_inv links s q' m'" unfolding bfs_inv_def using paths srt band succ below by blast
qed

lemma bfs_depths_result:
  assumes "bfs_inv links s q m"
  shows "bfs_inv links s [] (bfs_depths links q m) \<and> m \<subseteq>\<^sub>m bfs_depths links q m"
  using assms
proof (induction links q m rule: bfs_depths.induct)
  case (2 links c q m)
  obtain m' q' where v: "visit_all (Suc (the (m c))) c links m q = (m', q')" by (cases "visit_all (Suc (the (m c))) c links m q") auto
  note s = bfs_inv_step [OF "2.prems" v]
  have "bfs_inv links s [] (bfs_depths links q' m') \<and> m' \<subseteq>\<^sub>m bfs_depths links q' m'" using "2.IH" [OF v [symmetric] refl s(1)] .
  then show ?case using s(2) v by (auto intro: map_le_trans)
qed simp

text \<open>With nothing left in the queue the depths are the distances.\<close>

lemma bfs_exact:
  assumes "bfs_inv links s [] m" "(s, c) \<in> linked links ^^ n"
  shows "\<exists>d. m c = Some d \<and> d \<le> n"
  using assms(2)
proof (induction n arbitrary: c)
  case 0
  then show ?case using assms(1) by (auto simp: bfs_inv_def)
next
  case (Suc n)
  then obtain b where b: "(s, b) \<in> linked links ^^ n" "(b, c) \<in> linked links" by auto
  then obtain d where d: "m b = Some d" "d \<le> n" using Suc.IH by blast
  then obtain d' where "m c = Some d'" "d' \<le> Suc d" using assms(1) b(2) unfolding bfs_inv_def by fastforce
  then show ?case using d(2) by auto
qed

definition distance :: "internal_link list \<Rightarrow> string \<Rightarrow> string \<Rightarrow> nat \<Rightarrow> bool" where
  "distance links s c d = ((s, c) \<in> linked links ^^ d \<and> (\<forall>n < d. (s, c) \<notin> linked links ^^ n))"

lemma bfs_distance:
  assumes "bfs_inv links s [] m"
  shows "m c = Some d \<longleftrightarrow> distance links s c d"
proof
  assume c: "m c = Some d"
  then have "(s, c) \<in> linked links ^^ d" using assms by (auto simp: bfs_inv_def)
  then show "distance links s c d" unfolding distance_def using bfs_exact [OF assms, of c] c by fastforce
next
  assume d: "distance links s c d"
  then obtain d' where d': "m c = Some d'" "d' \<le> d" using bfs_exact [OF assms, of c d] by (auto simp: distance_def)
  then have "(s, c) \<in> linked links ^^ d'" using assms by (auto simp: bfs_inv_def)
  then show "m c = Some d" using d d' by (auto simp: distance_def nat_less_le)
qed

lemma bfs_depth_map: "bfsDepthMap links s c = Some d \<longleftrightarrow> distance links s c d"
  unfolding bfsDepthMap_def using bfs_depths_result [OF bfs_inv_start] by (intro bfs_distance) blast

section \<open>The path to a component\<close>

lemma dom_None: "dom p = dom m \<Longrightarrow> p t = None \<longleftrightarrow> m t = None"
  using domIff [of t p] domIff [of t m] by auto

lemma dom_Some: "dom p = dom m \<Longrightarrow> m t = Some v \<Longrightarrow> \<exists>u. p t = Some u"
  using dom_None [of p m t] by auto

text \<open>The parents and the (unrecorded) depths of the same search: the parent of a component is one level above it.\<close>

definition parents_inv :: "internal_link list \<Rightarrow> string \<Rightarrow> (string \<rightharpoonup> string) \<Rightarrow> (string \<rightharpoonup> nat) \<Rightarrow> bool" where
  "parents_inv links s p m =
     (dom p = dom m \<and> p s = Some [] \<and> m s = Some 0
      \<and> (\<forall>c b. c \<noteq> s \<longrightarrow> p c = Some b \<longrightarrow> (b, c) \<in> linked links \<and> (\<exists>d. m b = Some d \<and> m c = Some (Suc d))))"

lemma parents_inv_step:
  assumes "parents_inv links s p m" "c \<in> dom m" "visit_all c c links p q = (p', q1)" "visit_all (Suc (the (m c))) c links m q = (m', q2)"
  shows "parents_inv links s p' m'" "set q1 = set q2"
proof -
  have nd: "p t = None \<longleftrightarrow> m t = None" for t by (rule dom_None [OF conjunct1 [OF assms(1) [unfolded parents_inv_def]]])
  obtain n1 where n1: "visit_all c c links p q = ((\<lambda>x. if x \<in> set n1 then Some c else p x), q @ n1)" "distinct n1"
    "set n1 = {t. (c, t) \<in> linked links \<and> p t = None}" by (rule visit_all_spec)
  obtain n2 where n2: "visit_all (Suc (the (m c))) c links m q = ((\<lambda>x. if x \<in> set n2 then Some (Suc (the (m c))) else m x), q @ n2)" "distinct n2"
    "set n2 = {t. (c, t) \<in> linked links \<and> m t = None}" by (rule visit_all_spec)
  have e: "set n1 = set n2" using n1(3) n2(3) nd by simp
  have p': "p' = (\<lambda>x. if x \<in> set n2 then Some c else p x)" "q1 = q @ n1" using assms(3) n1(1) e by simp_all
  have m': "m' = (\<lambda>x. if x \<in> set n2 then Some (Suc (the (m c))) else m x)" "q2 = q @ n2" using assms(4) n2(1) by simp_all
  show "set q1 = set q2" by (simp add: p'(2) m'(2) e)
  have s: "s \<notin> set n2" "c \<notin> set n2" using assms(1,2) n2(3) by (auto simp: parents_inv_def)
  obtain dc where dc: "m c = Some dc" using assms(2) by blast
  have "dom p' = dom m'" using nd unfolding p'(1) m'(1) dom_def by (intro Collect_cong) (simp del: not_None_eq)
  moreover have "(b, x) \<in> linked links \<and> (\<exists>d. m' b = Some d \<and> m' x = Some (Suc d))" if "x \<noteq> s" "p' x = Some b" for x b
  proof (cases "x \<in> set n2")
    case True
    then have "b = c" "(c, x) \<in> linked links" using that(2) n2(3) unfolding p'(1) by auto
    then show ?thesis using True s(2) dc unfolding m'(1) by simp
  next
    case False
    then have "p x = Some b" using that(2) unfolding p'(1) by simp
    with assms(1) that(1) obtain d where d: "(b, x) \<in> linked links" "m b = Some d" "m x = Some (Suc d)" unfolding parents_inv_def by blast
    then have "b \<notin> set n2" unfolding n2(3) by simp
    then show ?thesis using d False unfolding m'(1) by simp
  qed
  ultimately show "parents_inv links s p' m'" using assms(1) s unfolding parents_inv_def by (simp add: p'(1) m'(1))
qed

lemma visit_all_queue:
  assumes "dom p = dom m" "visit_all v c links p q = (p', q1)" "visit_all w c links m q = (m', q2)"
  shows "q1 = q2"
proof -
  have "fold (visit v c) ls (p, q) = (p', q1) \<Longrightarrow> fold (visit w c) ls (m, q) = (m', q2) \<Longrightarrow> dom p = dom m \<Longrightarrow> q1 = q2" for ls p m q
  proof (induction ls arbitrary: p m q)
    case (Cons l ls)
    have same: "p (lk_target l) = None \<longleftrightarrow> m (lk_target l) = None" by (rule dom_None [OF Cons.prems(3)])
    have "dom (p(lk_target l \<mapsto> v)) = dom (m(lk_target l \<mapsto> w))" using Cons.prems(3) by simp
    note new = Cons.IH [OF _ _ this]
    show ?case
    proof (cases "lk_source l \<noteq> c \<or> m (lk_target l) \<noteq> None")
      case True
      then have "visit v c l (p, q) = (p, q)" "visit w c l (m, q) = (m, q)" using same by (auto simp: visit_def)
      then show ?thesis using Cons.prems Cons.IH by simp
    next
      case False
      then have "visit v c l (p, q) = (p(lk_target l \<mapsto> v), q @ [lk_target l])" "visit w c l (m, q) = (m(lk_target l \<mapsto> w), q @ [lk_target l])"
        using same by (simp_all add: visit_def)
      then show ?thesis using Cons.prems(1,2) by (intro new [of "q @ [lk_target l]"]) (simp_all only: fold_simps)
    qed
  qed simp
  then show ?thesis using assms unfolding visit_all_def by blast
qed

lemma bfs_parents_result:
  assumes "parents_inv links s p m" "bfs_inv links s q m"
  shows "\<exists>m'. parents_inv links s (bfs_parents links e q p) m'
    \<and> (\<forall>d. m' e = Some d \<longleftrightarrow> distance links s e d)"
  using assms
proof (induction links e q p arbitrary: m rule: bfs_parents.induct)
  case (1 links e p)
  then show ?case using bfs_distance [OF "1.prems"(2)] by (intro exI [of _ m]) simp
next
  case (2 links e c q p)
  have cd: "c \<in> dom m" using "2.prems"(2) by (auto simp: bfs_inv_def)
  show ?case
  proof (cases "c = e")
    case True
    note r = bfs_depths_result [OF "2.prems"(2)]
    have "m e = bfs_depths links (c # q) m e" using conjunct2 [OF r] cd unfolding True map_le_def by blast
    then have "m e = Some d \<longleftrightarrow> distance links s e d" for d using bfs_distance [OF conjunct1 [OF r]] by simp
    then show ?thesis using "2.prems"(1) True by auto
  next
    case False
    obtain p' q1 where v: "visit_all c c links p q = (p', q1)" by (cases "visit_all c c links p q") auto
    obtain m' q2 where w: "visit_all (Suc (the (m c))) c links m q = (m', q2)" by (cases "visit_all (Suc (the (m c))) c links m q") auto
    have "q1 = q2" using "2.prems"(1) visit_all_queue [OF _ v w] by (simp add: parents_inv_def)
    then have "bfs_inv links s q1 m'" using bfs_inv_step(1) [OF "2.prems"(2) w] by simp
    moreover have "parents_inv links s p' m'" by (rule parents_inv_step(1) [OF "2.prems"(1) cd v w])
    ultimately show ?thesis using "2.IH" [OF False v [symmetric] refl] False v by simp
  qed
qed

text \<open>A path of links, and the climb from a component of depth \<open>d\<close>.\<close>

definition link_path :: "internal_link list \<Rightarrow> string \<Rightarrow> string \<Rightarrow> string list \<Rightarrow> bool" where
  "link_path links s e path =
     (path \<noteq> [] \<and> hd path = s \<and> last path = e \<and> successively (\<lambda>a b. (a, b) \<in> linked links) path)"

lemma link_path_snoc: "link_path links s b path \<Longrightarrow> (b, c) \<in> linked links \<Longrightarrow> link_path links s c (path @ [c])"
  by (simp add: link_path_def successively_append_iff)

lemma climb_path:
  assumes "parents_inv links s p m" "[] \<notin> dom m" "m c = Some d"
  shows "\<exists>path. climb p c acc = Some (path @ acc) \<and> link_path links s c path \<and> length path = Suc d"
  using assms(3)
proof (induction d arbitrary: c acc)
  case 0
  have "c = s"
  proof (rule ccontr)
    assume "c \<noteq> s"
    moreover obtain b where "p c = Some b" using dom_Some [OF conjunct1 [OF assms(1) [unfolded parents_inv_def]] 0] by blast
    ultimately have "\<exists>d. m c = Some (Suc d)" using assms(1) unfolding parents_inv_def by blast
    then show False using 0 by simp
  qed
  moreover have "c \<noteq> []" "p s = Some []" using 0 assms(1,2) by (auto simp: parents_inv_def)
  ultimately show ?case by (intro exI [of _ "[s]"]) (simp add: climb.simps [of p s] climb.simps [of p "[]"] link_path_def)
next
  case (Suc d)
  have c: "c \<noteq> s" "c \<noteq> []" using Suc.prems assms(1,2) by (auto simp: parents_inv_def)
  obtain b where pb: "p c = Some b" using dom_Some [OF conjunct1 [OF assms(1) [unfolded parents_inv_def]] Suc.prems] by blast
  then have "(b, c) \<in> linked links \<and> (\<exists>d. m b = Some d \<and> m c = Some (Suc d))" using assms(1) c(1) unfolding parents_inv_def by blast
  then have b: "p c = Some b" "(b, c) \<in> linked links" "m b = Some d" using pb Suc.prems by auto
  obtain path where "climb p b (c # acc) = Some (path @ c # acc)" "link_path links s b path" "length path = Suc d"
    using Suc.IH [OF b(3)] by blast
  then show ?case using b c(2) link_path_snoc by (intro exI [of _ "path @ [c]"]) (simp add: climb.simps [of p c])
qed

text \<open>C25. Searching for a path between two components always comes to an end, whatever the links are and however many
  cycles they have: the result is empty exactly when the target cannot be reached, and otherwise it is a path of links from
  the start to the target, and no path is shorter.\<close>

theorem bfs_path_shortest:
  assumes "startId \<noteq> []" "\<forall>l \<in> set links. lk_target l \<noteq> []"
  shows "\<exists>path. bfsPathTo links startId endId = Some path
    \<and> (if path = [] then (startId, endId) \<notin> (linked links)\<^sup>* else link_path links startId endId path \<and> distance links startId endId (length path - 1))"
proof -
  have "parents_inv links startId [startId \<mapsto> []] [startId \<mapsto> 0]" by (simp add: parents_inv_def)
  from bfs_parents_result [OF this bfs_inv_start] obtain m
    where m: "parents_inv links startId (bfs_parents links endId [startId] [startId \<mapsto> []]) m"
      "\<And>d. m endId = Some d \<longleftrightarrow> distance links startId endId d" by blast
  let ?p = "bfs_parents links endId [startId] [startId \<mapsto> []]"
  have names: "[] \<notin> dom m"
  proof
    assume "[] \<in> dom m"
    then obtain b where b: "?p [] = Some b" using m(1) unfolding parents_inv_def by blast
    have "\<forall>c b. c \<noteq> startId \<longrightarrow> ?p c = Some b \<longrightarrow> (b, c) \<in> linked links \<and> (\<exists>d. m b = Some d \<and> m c = Some (Suc d))"
      using m(1) unfolding parents_inv_def by (elim conjE)
    from this [rule_format, OF assms(1) [symmetric] b] have "(b, []) \<in> linked links" by (rule conjunct1)
    then show False using assms(2) by (auto simp: linked_def)
  qed
  note d = dom_None [OF conjunct1 [OF m(1) [unfolded parents_inv_def]], of endId]
  show ?thesis
  proof (cases "m endId")
    case None
    have "(startId, endId) \<notin> (linked links)\<^sup>*"
    proof
      assume "(startId, endId) \<in> (linked links)\<^sup>*"
      then obtain n where "(startId, endId) \<in> linked links ^^ n" by (auto dest: rtrancl_imp_relpow)
      then obtain k where "(startId, endId) \<in> linked links ^^ k" "\<And>j. (startId, endId) \<in> linked links ^^ j \<Longrightarrow> k \<le> j"
        using exists_least_iff [of "\<lambda>n. (startId, endId) \<in> linked links ^^ n"] not_less by blast
      then have "distance links startId endId k" unfolding distance_def by force
      then show False using m(2) None by simp
    qed
    moreover have "?p endId = None" using d None by simp
    ultimately show ?thesis by (simp add: bfsPathTo_def)
  next
    case (Some n)
    obtain path where path: "climb ?p endId [] = Some (path @ [])" "link_path links startId endId path" "length path = Suc n"
      using climb_path [OF m(1) names Some] by blast
    have "?p endId \<noteq> None" using d Some by simp
    then have "bfsPathTo links startId endId = Some path" using path(1) by (simp add: bfsPathTo_def Let_def del: not_None_eq)
    moreover have "path \<noteq> []" "distance links startId endId (length path - 1)" using path(3) m(2) Some by auto
    ultimately show ?thesis using path(2) by auto
  qed
qed

theorem bfs_path_shortest_witness:
  "bfsPathTo ALL_LINKS ''browser'' ''postgres'' = Some [''browser'', ''chi'', ''auth'', ''api-handlers'', ''store'', ''postgres'']
   \<and> distance ALL_LINKS ''browser'' ''postgres'' 5"
proof -
  have p: "bfsPathTo ALL_LINKS ''browser'' ''postgres'' = Some [''browser'', ''chi'', ''auth'', ''api-handlers'', ''store'', ''postgres'']"
    by code_simp
  have "list_all (\<lambda>l. lk_target l \<noteq> []) ALL_LINKS" by code_simp
  then have "\<forall>l \<in> set ALL_LINKS. lk_target l \<noteq> []" by (simp only: list_all_iff)
  from bfs_path_shortest [OF _ this, of "''browser''" "''postgres''"] show ?thesis by (simp add: p numeral_eq_Suc)
qed

section \<open>The links of a trace\<close>

text \<open>\<open>result.add(x)\<close>\<close>

definition set_add :: "'a \<Rightarrow> 'a list \<Rightarrow> 'a list" where
  "set_add x xs = (if x \<in> set xs then xs else xs @ [x])"

function trace_links :: "internal_link list \<Rightarrow> string list \<Rightarrow> string list \<Rightarrow> string list \<Rightarrow> string list" where
  "trace_links links [] visited result = result"
| "trace_links links (cid # q) visited result =
     (if cid \<in> set visited then trace_links links q visited result
      else let out = filter (\<lambda>l. lk_source l = cid) links
           in trace_links links (q @ map lk_target out) (set_add cid visited) (fold set_add (map lk_id out) result))"
  by pat_completeness auto

termination
proof (relation "measures [\<lambda>(links, q, v, r). card (set q \<union> lk_target ` set links - set v), \<lambda>(links, q, v, r). length q]")
  fix links :: "internal_link list" and cid :: string and q visited result :: "string list"
  assume "cid \<in> set visited"
  then have "set (cid # q) \<union> lk_target ` set links - set visited = set q \<union> lk_target ` set links - set visited" by auto
  then show "((links, q, visited, result), (links, cid # q, visited, result))
      \<in> measures [\<lambda>(links, q, v, r). card (set q \<union> lk_target ` set links - set v), \<lambda>(links, q, v, r). length q]" by simp
next
  fix links :: "internal_link list" and cid :: string and q visited result :: "string list" and x
  assume new: "cid \<notin> set visited" and x: "x = filter (\<lambda>l. lk_source l = cid) links"
  have "set (q @ map lk_target x) \<union> lk_target ` set links - set (set_add cid visited) \<subset> set (cid # q) \<union> lk_target ` set links - set visited"
    using new by (auto simp: set_add_def x)
  then show "((links, q @ map lk_target x, set_add cid visited, fold set_add (map lk_id x) result), (links, cid # q, visited, result))
      \<in> measures [\<lambda>(links, q, v, r). card (set q \<union> lk_target ` set links - set v), \<lambda>(links, q, v, r). length q]"
    by (simp add: psubset_card_mono)
qed simp

definition tracedLinks :: "internal_link list \<Rightarrow> bool \<Rightarrow> string option \<Rightarrow> string list" where
  "tracedLinks links traceMode traceCompId =
     (case traceCompId of
        Some c \<Rightarrow> if traceMode \<and> c \<noteq> [] then trace_links links [c] [] [] else []
      | None \<Rightarrow> [])"

lemma set_set_add [simp]: "set (set_add x xs) = insert x (set xs)"
  by (auto simp: set_add_def)

lemma set_add_all: "set (fold set_add xs ys) = set xs \<union> set ys"
  by (induction xs arbitrary: ys) auto

lemma trace_links_exact:
  assumes "\<forall>c \<in> set visited \<union> set q. (s, c) \<in> (linked links)\<^sup>*" "s \<in> set visited \<union> set q"
    "\<forall>l \<in> set links. lk_source l \<in> set visited \<longrightarrow> lk_target l \<in> set visited \<union> set q"
    "set result = lk_id ` {l \<in> set links. lk_source l \<in> set visited}"
  shows "set (trace_links links q visited result) = lk_id ` {l \<in> set links. (s, lk_source l) \<in> (linked links)\<^sup>*}"
  using assms
proof (induction links q visited result rule: trace_links.induct)
  case (1 links visited result)
  have "c \<in> set visited" if "(s, c) \<in> (linked links)\<^sup>*" for c
    using that
  proof (induction rule: rtrancl_induct)
    case base
    then show ?case using 1(2) by simp
  next
    case (step b c)
    then show ?case using 1(3) by (auto simp: linked_def)
  qed
  then have "lk_source l \<in> set visited \<longleftrightarrow> (s, lk_source l) \<in> (linked links)\<^sup>*" for l using 1(1) by auto
  then have "{l \<in> set links. lk_source l \<in> set visited} = {l \<in> set links. (s, lk_source l) \<in> (linked links)\<^sup>*}" by blast
  then show ?case using 1(4) by (simp only: trace_links.simps)
next
  case (2 links cid q visited result)
  show ?case
  proof (cases "cid \<in> set visited")
    case True
    then show ?thesis using 2 by (auto simp: insert_absorb)
  next
    case False
    let ?out = "filter (\<lambda>l. lk_source l = cid) links"
    have reach: "(s, lk_target l) \<in> (linked links)\<^sup>*" if "l \<in> set ?out" for l
      using that 2(3) by (auto simp: linked_def intro: rtrancl_into_rtrancl)
    have "set (trace_links links (q @ map lk_target ?out) (set_add cid visited) (fold set_add (map lk_id ?out) result))
        = lk_id ` {l \<in> set links. (s, lk_source l) \<in> (linked links)\<^sup>*}"
    proof (rule 2(2) [OF False refl])
      show "\<forall>c \<in> set (set_add cid visited) \<union> set (q @ map lk_target ?out). (s, c) \<in> (linked links)\<^sup>*" using 2(3) reach by auto
      show "s \<in> set (set_add cid visited) \<union> set (q @ map lk_target ?out)" using 2(4) by auto
      show "\<forall>l \<in> set links. lk_source l \<in> set (set_add cid visited) \<longrightarrow> lk_target l \<in> set (set_add cid visited) \<union> set (q @ map lk_target ?out)"
        using 2(5) by auto
      show "set (fold set_add (map lk_id ?out) result) = lk_id ` {l \<in> set links. lk_source l \<in> set (set_add cid visited)}"
        using 2(6) by (auto simp: set_add_all)
    qed
    then show ?thesis using False by (simp add: Let_def)
  qed
qed

text \<open>Tracing a component lights exactly the links that data leaving it can come to: those whose source it reaches,
  directly or over other components, also around a cycle.\<close>

theorem trace_exact:
  "set (tracedLinks links traceMode traceCompId) =
     (case traceCompId of
        Some c \<Rightarrow> if traceMode \<and> c \<noteq> [] then lk_id ` {l \<in> set links. (c, lk_source l) \<in> (linked links)\<^sup>*} else {}
      | None \<Rightarrow> {})"
proof -
  have "set (trace_links links [c] [] []) = lk_id ` {l \<in> set links. (c, lk_source l) \<in> (linked links)\<^sup>*}" for c
    by (rule trace_links_exact) simp_all
  then show ?thesis by (simp add: tracedLinks_def del: trace_links.simps split: option.split)
qed

end
