(* ===== verification/MetricHistory.thy ===== *)
theory MetricHistory
  imports ObsStream Dates
begin

text \<open>
  \<open>observabilityHistory.ts\<close>: stored and live samples joined within the selected range, and the overlay of
  the previous half of the range; with the time ranges of \<open>observability-types.ts\<close>.
\<close>

section \<open>Ranges\<close>

datatype time_range = R1m | R5m | R15m | R1h | R6h | R1d | R3d

definition TIME_RANGE_OPTIONS :: "(string \<times> time_range) list" where
  "TIME_RANGE_OPTIONS =
     [(''1m'', R1m), (''5m'', R5m), (''15m'', R15m), (''1h'', R1h), (''6h'', R6h), (''1d'', R1d), (''3d'', R3d)]"

fun TIME_RANGE_MS :: "time_range \<Rightarrow> int" where
  "TIME_RANGE_MS R1m = 60000"
| "TIME_RANGE_MS R5m = 5 * 60000"
| "TIME_RANGE_MS R15m = 15 * 60000"
| "TIME_RANGE_MS R1h = 60 * 60000"
| "TIME_RANGE_MS R6h = 6 * 60 * 60000"
| "TIME_RANGE_MS R1d = 24 * 60 * 60000"
| "TIME_RANGE_MS R3d = 3 * 24 * 60 * 60000"

section \<open>Joining stored and live samples\<close>

text \<open>One round of the loop; a timestamp that is not a date compares false and is left out.\<close>

definition add_sample :: "js_env \<Rightarrow> int \<Rightarrow> int \<Rightarrow> metric_snapshot \<Rightarrow> (int \<times> metric_snapshot) list \<Rightarrow> (int \<times> metric_snapshot) list" where
  "add_sample env startMs endMs snapshot samples =
     (case date_parse env (ms_timestamp snapshot) of
        None \<Rightarrow> samples
      | Some timestamp \<Rightarrow>
          if startMs \<le> timestamp \<and> timestamp \<le> endMs then assoc_set timestamp snapshot samples else samples)"

definition mergeMetricHistory ::
  "js_env \<Rightarrow> metric_snapshot list option \<Rightarrow> metric_snapshot list \<Rightarrow> time_range \<Rightarrow> int \<Rightarrow> metric_snapshot list" where
  "mergeMetricHistory env stored live r endMs =
     (let startMs = endMs - TIME_RANGE_MS r;
          samples = fold (add_sample env startMs endMs) ((case stored of Some s \<Rightarrow> s | None \<Rightarrow> []) @ live) []
      in map snd (sort_key fst samples))"

text \<open>A point of a series; an unreadable timestamp has no position.\<close>

definition metricSeries :: "js_env \<Rightarrow> metric_snapshot list \<Rightarrow> (metric_snapshot \<Rightarrow> jsnum) \<Rightarrow> (int option \<times> jsnum) list" where
  "metricSeries env history v = map (\<lambda>s. (date_parse env (ms_timestamp s), v s)) history"

definition previousPeriodSeries :: "js_env \<Rightarrow> metric_snapshot list \<Rightarrow> (metric_snapshot \<Rightarrow> jsnum) \<Rightarrow> (rat \<times> jsnum) list" where
  "previousPeriodSeries env history v =
     (if length history \<le> 30 then []
      else case (date_parse env (ms_timestamp (hd history)), date_parse env (ms_timestamp (last history))) of
             (Some start, Some end_) \<Rightarrow>
               (let halfSpan = of_int (end_ - start) / 2 :: rat
                in if halfSpan \<le> 0 then []
                   else concat (map (\<lambda>p. case fst p of
                          Some t \<Rightarrow> if of_int t < of_int start + halfSpan then [(of_int t + halfSpan, snd p)] else []
                        | None \<Rightarrow> []) (metricSeries env history v)))
           | _ \<Rightarrow> [])"

section \<open>What the join contains\<close>

definition sample_in :: "js_env \<Rightarrow> int \<Rightarrow> int \<Rightarrow> metric_snapshot \<Rightarrow> int \<Rightarrow> bool" where
  "sample_in env a b s t = (date_parse env (ms_timestamp s) = Some t \<and> a \<le> t \<and> t \<le> b)"

text \<open>The last sample of the list at a time.\<close>

definition last_at :: "js_env \<Rightarrow> int \<Rightarrow> int \<Rightarrow> metric_snapshot list \<Rightarrow> int \<Rightarrow> metric_snapshot \<Rightarrow> bool" where
  "last_at env a b zs t s = (\<exists>xs ys. zs = xs @ s # ys \<and> sample_in env a b s t \<and> (\<forall>z \<in> set ys. \<not> sample_in env a b z t))"

lemma last_at_snoc:
  "last_at env a b (zs @ [z]) t s \<longleftrightarrow> (if sample_in env a b z t then s = z else last_at env a b zs t s)"
proof
  assume "last_at env a b (zs @ [z]) t s"
  then obtain xs ys where *: "zs @ [z] = xs @ s # ys" "sample_in env a b s t" "\<forall>z \<in> set ys. \<not> sample_in env a b z t"
    by (auto simp: last_at_def)
  show "if sample_in env a b z t then s = z else last_at env a b zs t s"
  proof (cases ys rule: rev_cases)
    case Nil
    with * show ?thesis by auto
  next
    case (snoc ys' y)
    with * show ?thesis by (auto simp: last_at_def)
  qed
next
  assume "if sample_in env a b z t then s = z else last_at env a b zs t s"
  then show "last_at env a b (zs @ [z]) t s"
    by (cases "sample_in env a b z t") (force simp: last_at_def)+
qed

lemma add_sample_map_of:
  "map_of (add_sample env a b z m) t = (if sample_in env a b z t then Some z else map_of m t)"
  by (auto simp: add_sample_def sample_in_def split: option.split)

lemma samples_distinct: "distinct (map fst m) \<Longrightarrow> distinct (map fst (fold (add_sample env a b) zs m))"
proof (induction zs arbitrary: m)
  case (Cons z zs)
  have "distinct (map fst (add_sample env a b z m))"
    using Cons.prems by (auto simp: add_sample_def intro: distinct_assoc_set split: option.split)
  with Cons.IH show ?case by simp
qed simp

lemma samples_last: "map_of (fold (add_sample env a b) zs []) t = Some s \<longleftrightarrow> last_at env a b zs t s"
proof (induction zs arbitrary: s rule: rev_induct)
  case (snoc z zs)
  then show ?case by (auto simp: add_sample_map_of last_at_snoc)
qed (simp add: last_at_def)

text \<open>The joined history is in strict order of time and holds, for every instant of the range that has a
  sample, exactly the last one given: a live sample replaces a stored one of the same instant.\<close>

theorem merged_history_exact:
  "let zs = (case stored of Some s \<Rightarrow> s | None \<Rightarrow> []) @ live; a = endMs - TIME_RANGE_MS r;
       h = mergeMetricHistory env stored live r endMs
   in sorted_wrt (<) (map (\<lambda>s. the (date_parse env (ms_timestamp s))) h)
      \<and> set h = {s. \<exists>t. last_at env a endMs zs t s}"
proof -
  obtain zs where zs: "zs = (case stored of Some s \<Rightarrow> s | None \<Rightarrow> []) @ live" by blast
  obtain a where a: "a = endMs - TIME_RANGE_MS r" by blast
  obtain m where m: "m = fold (add_sample env a endMs) zs []" by blast
  have d: "distinct (map fst m)" unfolding m by (rule samples_distinct) simp
  have lookup: "(t, s) \<in> set m \<longleftrightarrow> last_at env a endMs zs t s" for t s
    using samples_last [of env a endMs zs t s] d by (simp add: m)
  have time: "date_parse env (ms_timestamp s) = Some t" if "(t, s) \<in> set m" for t s
    using that by (auto simp: lookup last_at_def sample_in_def)
  have "map (\<lambda>s. the (date_parse env (ms_timestamp s))) (map snd (sort_key fst m)) = map fst (sort_key fst m)"
    using time by auto
  moreover have "sorted_wrt (<) (map fst (sort_key fst m))"
    using d by (simp add: strict_sorted_iff distinct_map)
  moreover have "snd ` set m = {s. \<exists>t. last_at env a endMs zs t s}"
    using lookup by force
  moreover have "mergeMetricHistory env stored live r endMs = map snd (sort_key fst m)"
    by (simp only: mergeMetricHistory_def m zs a Let_def)
  ultimately show ?thesis
    by (simp add: zs [symmetric] a [symmetric] del: map_map)
qed

text \<open>The overlay never leaves the second half of the range.\<close>

lemma previous_period_in_span:
  assumes "(x, y) \<in> set (previousPeriodSeries env h v)"
    "date_parse env (ms_timestamp (hd h)) = Some a" "date_parse env (ms_timestamp (last h)) = Some b"
    "\<forall>s \<in> set h. \<exists>t. date_parse env (ms_timestamp s) = Some t \<and> a \<le> t"
  shows "of_int (a + b) / 2 \<le> x" "x < of_int b"
proof -
  obtain s t where st: "s \<in> set h" "date_parse env (ms_timestamp s) = Some t" "x = of_int t + of_int (b - a) / 2"
      "of_int t < (of_int a + of_int (b - a) / 2 :: rat)"
    using assms(1-3)
    by (auto simp: previousPeriodSeries_def metricSeries_def Let_def simp del: of_int_diff
        split: if_splits option.splits intro: sym)
  then have "a \<le> t" using assms(4) by force
  then have "of_int a \<le> (of_int t :: rat)" by simp
  with st(3,4) show "of_int (a + b) / 2 \<le> x" "x < of_int b" by (simp_all add: field_simps)
qed

end
