(* ===== verification/ComponentInfo.thy ===== *)
theory ComponentInfo
  imports MetricHistory Formatters
begin

text \<open>
  \<open>observability-components.ts\<close>: what the component pages show, keyed by component and by panel, with
  the lookups of the page (\<open>ComponentDetail.tsx\<close>). A metric is its label, unit and reader.
\<close>

section \<open>The table\<close>

datatype link_direction = LinkIn | LinkOut

record component_info =
  in_id :: string
  in_label :: string
  in_description :: string
  in_goFile :: string
  in_metrics :: "(string \<times> string \<times> (metric_snapshot \<Rightarrow> jsnum)) list"
  in_relatedLinks :: "(link_direction \<times> string \<times> call_category) list"

definition info_router :: component_info where
  "info_router = \<lparr>in_id = ''router'', in_label = ''Chi Router'',
     in_description = ''HTTP routing, request ID generation, logging middleware. Entry point for all API traffic.'',
     in_goFile = ''internal/api/router.go'',
     in_metrics = [(''Request Rate'', ''req/s'', httpRequestRate),
       (''P50 Latency'', ''ms'', httpLatencyP50Ms),
       (''P99 Latency'', ''ms'', httpLatencyP99Ms),
       (''Error Rate'', ''/s'', httpErrorRate)],
     in_relatedLinks = [(LinkOut, ''auth'', CatHttp)]\<rparr>"

definition info_auth :: component_info where
  "info_auth = \<lparr>in_id = ''auth'', in_label = ''Auth Middleware'',
     in_description = ''Session validation, CSRF protection, RBAC enforcement. Rejects unauthenticated requests.'',
     in_goFile = ''internal/middleware/session.go'',
     in_metrics = [(''Throughput'', ''req/s'', httpRequestRate),
       (''Active Sessions'', '''', activeSessions),
       (''Rate Limit Hits'', '''', rateLimitHits)],
     in_relatedLinks = [(LinkIn, ''router'', CatHttp),
       (LinkOut, ''handlers'', CatHttp)]\<rparr>"

definition info_handlers :: component_info where
  "info_handlers = \<lparr>in_id = ''handlers'', in_label = ''API Handlers'',
     in_description = ''REST endpoint logic for policies, cluster state, users, guardrails, and audit logs.'',
     in_goFile = ''internal/api/'',
     in_metrics = [(''Request Rate'', ''req/s'', httpRequestRate),
       (''Latency'', ''ms'', httpLatencyP50Ms),
       (''Error Rate'', ''/s'', httpErrorRate),
       (''Audit Drops'', '''', auditDrops)],
     in_relatedLinks = [(LinkIn, ''auth'', CatHttp),
       (LinkOut, ''scheduler'', CatInternal),
       (LinkOut, ''store'', CatStore),
       (LinkOut, ''ws-broker'', CatWs)]\<rparr>"

definition info_scheduler :: component_info where
  "info_scheduler = \<lparr>in_id = ''scheduler'', in_label = ''Policy Scheduler'',
     in_description = ''Evaluation loop running on a configurable tick interval. Evaluates policies, triggers sleep/wake.'',
     in_goFile = ''internal/scheduler/scheduler.go'',
     in_metrics = [(''Eval Rate'', ''/min'', schedulerEvalRate),
       (''Eval Duration'', ''ms'', schedulerEvalDurationMs),
       (''Panics'', '''', schedulerPanics)],
     in_relatedLinks = [(LinkIn, ''handlers'', CatInternal),
       (LinkOut, ''scaler'', CatInternal),
       (LinkOut, ''ws-broker'', CatWs)]\<rparr>"

definition info_scaler :: component_info where
  "info_scaler = \<lparr>in_id = ''scaler'', in_label = ''Scaler'',
     in_description = ''Performs the actual workload scaling '' @ em_dash @ '' sets replica counts on Deployments and StatefulSets.'',
     in_goFile = ''internal/scaler/'',
     in_metrics = [(''Workloads Scaled'', '''', workloadsScaledCount),
       (''Scale Duration'', ''ms'', scaleOperationDurationMs)],
     in_relatedLinks = [(LinkIn, ''scheduler'', CatInternal),
       (LinkOut, ''k8s-client'', CatK8s)]\<rparr>"

definition info_k8s_client :: component_info where
  "info_k8s_client = \<lparr>in_id = ''k8s-client'', in_label = ''K8s Client'',
     in_description = ''client-go wrapper for Kubernetes API calls. Handles GET/PATCH/DELETE on Deployments, StatefulSets, Nodes.'',
     in_goFile = ''internal/k8s/client.go'',
     in_metrics = [(''GET Rate'', ''/min'', k8sGetRate),
       (''PATCH Rate'', ''/min'', k8sPatchRate),
       (''DELETE Rate'', ''/min'', k8sDeleteRate),
       (''P50 Latency'', ''ms'', k8sLatencyP50Ms),
       (''Error Rate'', ''/min'', k8sErrorRate)],
     in_relatedLinks = [(LinkIn, ''scaler'', CatK8s),
       (LinkOut, ''store'', CatStore)]\<rparr>"

definition info_store :: component_info where
  "info_store = \<lparr>in_id = ''store'', in_label = ''Store (GORM)'',
     in_description = ''PostgreSQL persistence layer. Connection pool of 10. Handles policies, executions, audit logs, snapshots.'',
     in_goFile = ''internal/store/store.go'',
     in_metrics = [(''Pool In Use'', '''', dbPoolInUse),
       (''Pool Open'', '''', dbPoolOpen),
       (''Audit Drops'', '''', auditDrops),
       (''Cache Hit Rate'', ''%'', cacheHitRate)],
     in_relatedLinks = [(LinkIn, ''handlers'', CatStore),
       (LinkIn, ''k8s-client'', CatStore)]\<rparr>"

definition info_ws_broker :: component_info where
  "info_ws_broker = \<lparr>in_id = ''ws-broker'', in_label = ''WS Broker'',
     in_description = ''Pub/sub event broker for WebSocket connections. Streams execution logs to connected clients.'',
     in_goFile = ''internal/api/ws.go'',
     in_metrics = [(''Active Connections'', '''', wsActiveConnections)],
     in_relatedLinks = [(LinkIn, ''scheduler'', CatWs),
       (LinkIn, ''handlers'', CatWs),
       (LinkOut, ''handlers'', CatWs)]\<rparr>"

definition info_http_rate :: component_info where
  "info_http_rate = \<lparr>in_id = ''router'', in_label = ''HTTP Request Rate'',
     in_description = ''Aggregate HTTP request throughput across all endpoints.'',
     in_goFile = ''internal/api/router.go'',
     in_metrics = [(''Request Rate'', ''req/s'', httpRequestRate),
       (''Error Rate'', ''/s'', httpErrorRate)],
     in_relatedLinks = []\<rparr>"

definition info_latency_p99 :: component_info where
  "info_latency_p99 = \<lparr>in_id = ''handlers'', in_label = ''HTTP Latency'',
     in_description = ''Request latency at P50, P95, and P99 percentiles.'',
     in_goFile = ''internal/api/'',
     in_metrics = [(''P50'', ''ms'', httpLatencyP50Ms),
       (''P95'', ''ms'', httpLatencyP95Ms),
       (''P99'', ''ms'', httpLatencyP99Ms)],
     in_relatedLinks = []\<rparr>"

definition info_policy_executions :: component_info where
  "info_policy_executions = \<lparr>in_id = ''scheduler'', in_label = ''Policy Executions'',
     in_description = ''Policy execution outcomes '' @ em_dash @ '' success, failed, interrupted.'',
     in_goFile = ''internal/scheduler/'',
     in_metrics = [(''Success'', '''', policySuccessCount),
       (''Failed'', '''', policyFailedCount),
       (''Interrupted'', '''', policyInterruptedCount)],
     in_relatedLinks = []\<rparr>"

definition info_k8s_api :: component_info where
  "info_k8s_api = \<lparr>in_id = ''k8s-client'', in_label = ''K8s API Calls'',
     in_description = ''Kubernetes API call rates by verb.'',
     in_goFile = ''internal/k8s/client.go'',
     in_metrics = [(''GET'', ''/min'', k8sGetRate),
       (''PATCH'', ''/min'', k8sPatchRate),
       (''DELETE'', ''/min'', k8sDeleteRate)],
     in_relatedLinks = []\<rparr>"

definition info_ws_connections :: component_info where
  "info_ws_connections = \<lparr>in_id = ''ws-broker'', in_label = ''WebSocket Connections'',
     in_description = ''Active WebSocket connections for log streaming.'',
     in_goFile = ''internal/api/ws.go'',
     in_metrics = [(''Active'', '''', wsActiveConnections)],
     in_relatedLinks = []\<rparr>"

definition info_cache_hit :: component_info where
  "info_cache_hit = \<lparr>in_id = ''store'', in_label = ''Cache Hit Rate'',
     in_description = ''Cluster cache effectiveness. Lower rates mean more rebuilds.'',
     in_goFile = ''internal/k8s/cache.go'',
     in_metrics = [(''Hit Rate'', ''%'', cacheHitRate)],
     in_relatedLinks = []\<rparr>"

definition info_scheduler_health :: component_info where
  "info_scheduler_health = \<lparr>in_id = ''scheduler'', in_label = ''Scheduler Health'',
     in_description = ''Scheduler evaluation rate and duration.'',
     in_goFile = ''internal/scheduler/'',
     in_metrics = [(''Eval Rate'', ''/min'', schedulerEvalRate),
       (''Eval Duration'', ''ms'', schedulerEvalDurationMs),
       (''Panics'', '''', schedulerPanics)],
     in_relatedLinks = []\<rparr>"

definition info_error_rate :: component_info where
  "info_error_rate = \<lparr>in_id = ''router'', in_label = ''Error Rate'',
     in_description = ''Combined error rate across HTTP 5xx, scheduler panics, and audit drops.'',
     in_goFile = '''',
     in_metrics = [(''Total Errors'', ''/s'', totalErrorRate),
       (''HTTP Errors'', ''/s'', httpErrorRate),
       (''Panics'', '''', schedulerPanics),
       (''Audit Drops'', '''', auditDrops)],
     in_relatedLinks = []\<rparr>"

definition COMPONENT_INFO :: "(string \<times> component_info) list" where
  "COMPONENT_INFO =
     [(''router'', info_router),
      (''auth'', info_auth),
      (''handlers'', info_handlers),
      (''scheduler'', info_scheduler),
      (''scaler'', info_scaler),
      (''k8s-client'', info_k8s_client),
      (''store'', info_store),
      (''ws-broker'', info_ws_broker),
      (''http_rate'', info_http_rate),
      (''latency_p99'', info_latency_p99),
      (''policy_executions'', info_policy_executions),
      (''k8s_api'', info_k8s_api),
      (''ws_connections'', info_ws_connections),
      (''cache_hit'', info_cache_hit),
      (''scheduler_health'', info_scheduler_health),
      (''error_rate'', info_error_rate)]"

definition RIVER_COMPONENTS :: "string list" where
  "RIVER_COMPONENTS =
     [''router'', ''auth'', ''handlers'', ''scheduler'', ''scaler'', ''k8s-client'', ''store'', ''ws-broker'']"

section \<open>The page of a component\<close>

text \<open>The status the page shows: that of the first measured component with the entry's id; \<open>None\<close> is the
  page for an unknown component.\<close>

definition component_status :: "string \<Rightarrow> stream_payload option \<Rightarrow> threshold_status option" where
  "component_status component latest =
     map_option (\<lambda>info. case latest of
         None \<Rightarrow> StOk
       | Some p \<Rightarrow> (case filter (\<lambda>c. rc_component c = in_id info) (pl_components p) of [] \<Rightarrow> StOk | c # _ \<Rightarrow> rc_status c))
       (map_of COMPONENT_INFO component)"

section \<open>Consistency\<close>

lemmas info_defs = info_router_def info_auth_def info_handlers_def info_scheduler_def info_scaler_def
  info_k8s_client_def info_store_def info_ws_broker_def info_http_rate_def info_latency_p99_def
  info_policy_executions_def info_k8s_api_def info_ws_connections_def info_cache_hit_def
  info_scheduler_health_def info_error_rate_def

definition links_of :: "string \<Rightarrow> (link_direction \<times> string \<times> call_category) list" where
  "links_of c = (case map_of COMPONENT_INFO c of Some i \<Rightarrow> in_relatedLinks i | None \<Rightarrow> [])"

text \<open>Every river component has an entry under its own id, every entry belongs to a river component, every
  link leads to one, every incoming link is an outgoing link of its source, and every panel that can
  raise an alert has a page.\<close>

lemma component_table_consistent:
  "list_all (\<lambda>c. case map_of COMPONENT_INFO c of Some i \<Rightarrow> in_id i = c | None \<Rightarrow> False) RIVER_COMPONENTS"
  "list_all (\<lambda>(k, i). List.member RIVER_COMPONENTS (in_id i)
     \<and> list_all (\<lambda>(d, t, c). List.member RIVER_COMPONENTS t) (in_relatedLinks i)) COMPONENT_INFO"
  "list_all (\<lambda>c. list_all (\<lambda>(d, t, cat). d = LinkOut \<or> List.member (links_of t) (LinkOut, c, cat)) (links_of c)) RIVER_COMPONENTS"
  by code_simp+

lemma alert_panels_have_pages: "\<forall>(panelKey, v, l) \<in> set (checks snap). map_of COMPONENT_INFO panelKey \<noteq> None"
  by (simp add: checks_def COMPONENT_INFO_def)

text \<open>One outgoing link has no counterpart: the broker's link to the handlers.\<close>

lemma broker_link_one_sided:
  "List.member (links_of ''ws-broker'') (LinkOut, ''handlers'', CatWs)
   \<and> \<not> List.member (links_of ''handlers'') (LinkIn, ''ws-broker'', CatWs)"
  by code_simp

end
