(* ===== verification/RiversLive.thy ===== *)
theory RiversLive
  imports RiversGraph ComponentInfo
begin

text \<open>
  What the diagram of \<open>components/observability/ApiRivers.tsx\<close> computes from its links and from the stream: the critical
  path, the links of a scenario, the status and the rates shown at components and links, and the shock waves of alerts.
  \<open>RIVER_LINKS\<close> are the links the service sends (\<open>internal/observability/payload.go\<close>).
\<close>

section \<open>The critical path\<close>

definition link_between :: "internal_link list \<Rightarrow> string \<Rightarrow> string \<Rightarrow> internal_link option" where
  "link_between links a b = List.find (\<lambda>l. lk_source l = a \<and> lk_target l = b) links"

definition path_links :: "internal_link list \<Rightarrow> string list \<Rightarrow> internal_link option list" where
  "path_links links path = map (\<lambda>(a, b). link_between links a b) (zip path (tl path))"

definition path_latency :: "internal_link list \<Rightarrow> string list \<Rightarrow> rat" where
  "path_latency links path = sum_list (map (\<lambda>l. case l of Some k \<Rightarrow> lk_latencyMs k | None \<Rightarrow> 0) (path_links links path))"

text \<open>The loop over the external components, with \<open>maxLatency\<close> and \<open>slowestPath\<close>; \<open>None\<close> is a search that does not return.\<close>

fun slowest_loop :: "internal_link list \<Rightarrow> system_component list \<Rightarrow> rat \<Rightarrow> string list \<Rightarrow> (rat \<times> string list) option" where
  "slowest_loop links [] maxLatency slowestPath = Some (maxLatency, slowestPath)"
| "slowest_loop links (e # es) maxLatency slowestPath =
     (case bfsPathTo links ''browser'' (sc_id e) of
        None \<Rightarrow> None
      | Some path \<Rightarrow>
          if length path < 2 then slowest_loop links es maxLatency slowestPath
          else let cumLatency = path_latency links path
               in if maxLatency < cumLatency then slowest_loop links es cumLatency path
                  else slowest_loop links es maxLatency slowestPath)"

definition slowest_path :: "internal_link list \<Rightarrow> system_component list \<Rightarrow> (rat \<times> string list) option" where
  "slowest_path links comps = slowest_loop links (filter (\<lambda>c. sc_kind c = KExternal) comps) 0 []"

definition computeCriticalPath :: "internal_link list \<Rightarrow> system_component list \<Rightarrow> string list option" where
  "computeCriticalPath links comps =
     map_option (\<lambda>(m, path). fold (\<lambda>l ids. case l of Some k \<Rightarrow> set_add (lk_id k) ids | None \<Rightarrow> ids) (path_links links path) [])
       (slowest_path links comps)"

text \<open>The path the diagram marks as critical is not the slowest: among the paths with fewest links it takes the one
  found first. It marks the direct reads of the cluster with 51 ms, while the scaling of workloads takes 60 ms on its way
  to the same component.\<close>

theorem critical_path_not_slowest:
  "computeCriticalPath ALL_LINKS COMPONENTS = Some [''browser-chi'', ''chi-auth'', ''auth-api'', ''api-k8s'', ''k8s-api-call'']
   \<and> map_option fst (slowest_path ALL_LINKS COMPONENTS) = Some 51
   \<and> link_path ALL_LINKS ''browser'' ''k8s-api''
       [''browser'', ''chi'', ''auth'', ''api-handlers'', ''scheduler'', ''scaler'', ''k8s-client'', ''k8s-api'']
   \<and> path_latency ALL_LINKS [''browser'', ''chi'', ''auth'', ''api-handlers'', ''scheduler'', ''scaler'', ''k8s-client'', ''k8s-api''] = 60"
proof -
  have "computeCriticalPath ALL_LINKS COMPONENTS = Some [''browser-chi'', ''chi-auth'', ''auth-api'', ''api-k8s'', ''k8s-api-call'']"
    "map_option fst (slowest_path ALL_LINKS COMPONENTS) = Some 51"
    "path_latency ALL_LINKS [''browser'', ''chi'', ''auth'', ''api-handlers'', ''scheduler'', ''scaler'', ''k8s-client'', ''k8s-api''] = 60"
    by code_simp+
  moreover have "list_all (\<lambda>e. e \<in> set (map (\<lambda>l. (lk_source l, lk_target l)) ALL_LINKS))
      [(''browser'', ''chi''), (''chi'', ''auth''), (''auth'', ''api-handlers''), (''api-handlers'', ''scheduler''),
       (''scheduler'', ''scaler''), (''scaler'', ''k8s-client''), (''k8s-client'', ''k8s-api'')]" by code_simp
  ultimately show ?thesis by (simp add: link_path_def linked_def)
qed

section \<open>Scenarios\<close>

datatype flow_scenario = Idle | PageLoad | SleepExecution | WakeExecution | WsStream | AllFlows

definition execution_steps :: "string list list" where
  "execution_steps = [[''browser-chi''], [''chi-auth''], [''auth-api''], [''api-scheduler'', ''api-audit''],
     [''scheduler-scaler'', ''scheduler-store'', ''scheduler-broker''], [''scaler-k8s'', ''scaler-store''],
     [''k8s-api-call'', ''store-pg'', ''audit-store'']]"

fun SCENARIO_STEPS :: "flow_scenario \<Rightarrow> string list list" where
  "SCENARIO_STEPS Idle = []"
| "SCENARIO_STEPS PageLoad = [[''browser-chi''], [''chi-auth''], [''auth-api'', ''auth-sse''],
     [''api-store'', ''api-k8s'', ''sse-cache''], [''store-pg'', ''k8s-api-call'', ''cache-k8s'']]"
| "SCENARIO_STEPS SleepExecution = execution_steps"
| "SCENARIO_STEPS WakeExecution = execution_steps"
| "SCENARIO_STEPS WsStream = [[''browser-chi''], [''chi-auth''], [''auth-ws''], [''ws-broker''],
     [''scheduler-broker'', ''scheduler-scaler''], [''scaler-k8s'', ''scaler-store''], [''k8s-api-call'', ''store-pg'']]"
| "SCENARIO_STEPS AllFlows = [map lk_id ALL_LINKS]"

definition SCENARIO_FLAT :: "flow_scenario \<Rightarrow> string list" where
  "SCENARIO_FLAT s = concat (SCENARIO_STEPS s)"

definition litLinks :: "flow_scenario \<Rightarrow> string list" where
  "litLinks s = fold set_add (SCENARIO_FLAT s) []"

definition effectiveLinks :: "bool \<Rightarrow> string option \<Rightarrow> flow_scenario \<Rightarrow> string list" where
  "effectiveLinks traceMode traceCompId s =
     (if traceMode \<and> traceCompId \<notin> {None, Some []} then tracedLinks ALL_LINKS traceMode traceCompId else litLinks s)"

definition breadcrumbPath :: "bool \<Rightarrow> string option \<Rightarrow> string list option" where
  "breadcrumbPath traceMode traceCompId =
     (case traceCompId of
        Some c \<Rightarrow> if traceMode \<and> c \<noteq> [] then bfsPathTo ALL_LINKS ''browser'' c else Some []
      | None \<Rightarrow> Some [])"

definition connectedLinks :: "string option \<Rightarrow> string list" where
  "connectedLinks hoveredComp =
     (case hoveredComp of
        Some c \<Rightarrow> if c = [] then [] else map lk_id (filter (\<lambda>l. lk_source l = c \<or> lk_target l = c) ALL_LINKS)
      | None \<Rightarrow> [])"

text \<open>Every scenario names links of the diagram.\<close>

lemma scenarios_of_diagram: "set (SCENARIO_FLAT s) \<subseteq> set (map lk_id ALL_LINKS)"
proof -
  have "list_all (\<lambda>i. i \<in> set (map lk_id ALL_LINKS)) (SCENARIO_FLAT s)"
    by (cases s; simp only:; code_simp)
  then show ?thesis by (auto simp: list_all_iff)
qed

section \<open>Live data\<close>

definition componentStatusMap :: "stream_payload option \<Rightarrow> (string \<times> threshold_status) list" where
  "componentStatusMap latest =
     (case latest of Some p \<Rightarrow> fold (\<lambda>c. assoc_set (rc_component c) (rc_status c)) (pl_components p) [] | None \<Rightarrow> [])"

definition liveRpsMap :: "stream_payload option \<Rightarrow> (string \<times> jsnum \<times> jsnum) list" where
  "liveRpsMap latest =
     (case latest of
        Some p \<Rightarrow> fold (\<lambda>l. assoc_set (rl_source l @ ''-'' @ rl_target l) (rl_rps l, rl_latencyMs l)) (pl_links p) []
      | None \<Rightarrow> [])"

text \<open>\<open>liveRpsMap[l.id]?.rps ?? l.rps\<close> and the same for the latency.\<close>

definition live_rps :: "(string \<times> jsnum \<times> jsnum) list \<Rightarrow> internal_link \<Rightarrow> jsnum" where
  "live_rps m l = (case map_of m (lk_id l) of Some (r, t) \<Rightarrow> r | None \<Rightarrow> Num (lk_rps l))"

definition live_latency :: "(string \<times> jsnum \<times> jsnum) list \<Rightarrow> internal_link \<Rightarrow> jsnum" where
  "live_latency m l = (case map_of m (lk_id l) of Some (r, t) \<Rightarrow> t | None \<Rightarrow> Num (lk_latencyMs l))"

text \<open>Labels of the other ends are given by \<open>COMP_MAP\<close>.\<close>

definition comp_label :: "string \<Rightarrow> string option" where
  "comp_label i = map_option sc_label (COMP_MAP i)"

definition computeCompPreviewData ::
    "(string \<times> jsnum \<times> jsnum) list \<Rightarrow> string
      \<Rightarrow> (string option \<times> jsnum \<times> call_category) list \<times> (string option \<times> jsnum \<times> call_category) list" where
  "computeCompPreviewData m c =
     (map (\<lambda>l. (comp_label (lk_source l), live_rps m l, lk_category l)) (filter (\<lambda>l. lk_target l = c) ALL_LINKS),
      map (\<lambda>l. (comp_label (lk_target l), live_rps m l, lk_category l)) (filter (\<lambda>l. lk_source l = c) ALL_LINKS))"

datatype system_status = Healthy | Warning | Critical

definition systemStatus :: "stream_payload option \<Rightarrow> system_status" where
  "systemStatus latest =
     (case latest of
        None \<Rightarrow> Healthy
      | Some p \<Rightarrow> let statuses = map rc_status (pl_components p)
                  in if StCrit \<in> set statuses then Critical else if StWarn \<in> set statuses then Warning else Healthy)"

definition statusIndicatorColor :: "threshold_status option \<Rightarrow> string" where
  "statusIndicatorColor s = (if s = Some StCrit then ''#EF4444'' else if s = Some StWarn then ''#FBBF24'' else ''#22C55E'')"

definition formatReqS :: "jsnum option \<Rightarrow> string" where
  "formatReqS rps =
     (case rps of
        None \<Rightarrow> []
      | Some r \<Rightarrow> if Num 1000 \<le> r then to_fixed1 (div_by r 1000) @ ''k req/s'' else show_num (jsnum_round r) @ '' req/s'')"

section \<open>Which parts of the diagram are live\<close>

text \<open>The links the service reports, in the order of the handler.\<close>

definition RIVER_LINKS :: "(string \<times> string) list" where
  "RIVER_LINKS =
     [(''router'', ''auth''), (''auth'', ''handlers''), (''handlers'', ''scheduler''), (''handlers'', ''store''),
      (''handlers'', ''ws-broker''), (''scheduler'', ''scaler''), (''scaler'', ''k8s-client''), (''k8s-client'', ''store''),
      (''scheduler'', ''ws-broker''), (''ws-broker'', ''handlers'')]"

definition reported :: "stream_payload \<Rightarrow> bool" where
  "reported p = (map (\<lambda>l. (rl_source l, rl_target l)) (pl_links p) = RIVER_LINKS \<and> map rc_component (pl_components p) = RIVER_COMPONENTS)"

lemma assoc_fold_keys:
  "map_of (fold (\<lambda>x. assoc_set (k x) (v x)) xs m) key \<noteq> None \<longleftrightarrow> key \<in> set (map k xs) \<or> map_of m key \<noteq> None"
  by (induction xs arbitrary: m) auto

text \<open>C38. Of the twenty links of the diagram only the one from the scheduler to the scaler ever shows a rate of the stream,
  and of its fifteen components only five a status: the service names the others differently, and the identifier of a link
  is in general not its source and target. All other rates are the constants of the source, and all other components stay
  green.\<close>

theorem diagram_mostly_static:
  assumes "reported p"
  shows "map lk_id (filter (\<lambda>l. map_of (liveRpsMap (Some p)) (lk_id l) \<noteq> None) ALL_LINKS) = [''scheduler-scaler'']
    \<and> map sc_id (filter (\<lambda>c. map_of (componentStatusMap (Some p)) (sc_id c) \<noteq> None) COMPONENTS)
      = [''auth'', ''scheduler'', ''scaler'', ''k8s-client'', ''store'']
    \<and> list_all (\<lambda>l. lk_id l = ''scheduler-scaler'' \<or> live_rps (liveRpsMap (Some p)) l = Num (lk_rps l)) ALL_LINKS"
proof -
  have "map (\<lambda>l. rl_source l @ ''-'' @ rl_target l) (pl_links p) = map (\<lambda>(s, t). s @ ''-'' @ t) (map (\<lambda>l. (rl_source l, rl_target l)) (pl_links p))"
    by simp
  then have keys: "map (\<lambda>l. rl_source l @ ''-'' @ rl_target l) (pl_links p) = map (\<lambda>(s, t). s @ ''-'' @ t) RIVER_LINKS"
    using assms by (simp only: reported_def)
  have l: "map_of (liveRpsMap (Some p)) k \<noteq> None \<longleftrightarrow> k \<in> set (map (\<lambda>(s, t). s @ ''-'' @ t) RIVER_LINKS)" for k
    unfolding liveRpsMap_def option.case assoc_fold_keys keys by simp
  have c: "map_of (componentStatusMap (Some p)) k \<noteq> None \<longleftrightarrow> k \<in> set RIVER_COMPONENTS" for k
    using assms unfolding componentStatusMap_def option.case assoc_fold_keys reported_def by simp
  have s: "map lk_id (filter (\<lambda>l. lk_id l \<in> set (map (\<lambda>(s, t). s @ ''-'' @ t) RIVER_LINKS)) ALL_LINKS) = [''scheduler-scaler'']"
    "map sc_id (filter (\<lambda>c. sc_id c \<in> set RIVER_COMPONENTS) COMPONENTS) = [''auth'', ''scheduler'', ''scaler'', ''k8s-client'', ''store'']"
    by code_simp+
  have "lk_id l = ''scheduler-scaler'' \<or> live_rps (liveRpsMap (Some p)) l = Num (lk_rps l)" if "l \<in> set ALL_LINKS" for l
  proof (cases "map_of (liveRpsMap (Some p)) (lk_id l)")
    case None
    then show ?thesis by (simp add: live_rps_def)
  next
    case (Some r)
    then have "lk_id l \<in> set (map lk_id (filter (\<lambda>l. lk_id l \<in> set (map (\<lambda>(s, t). s @ ''-'' @ t) RIVER_LINKS)) ALL_LINKS))"
      using that l [of "lk_id l"] by simp
    then show ?thesis unfolding s(1) by simp
  qed
  then show ?thesis using s unfolding l c list_all_iff by blast
qed

definition reported_sample :: stream_payload where
  "reported_sample = sample_payload\<lparr>
     pl_links := map (\<lambda>(s, t). \<lparr>rl_source = s, rl_target = t, rl_rps = Num 7, rl_latencyMs = Num 1, rl_errorRate = Num 0, rl_category = CatHttp\<rparr>) RIVER_LINKS,
     pl_components := map (\<lambda>c. \<lparr>rc_component = c, rc_rpsIn = Num 7, rc_rpsOut = Num 7, rc_latencyMs = Num 1, rc_errorRate = Num 0, rc_status = StCrit\<rparr>) RIVER_COMPONENTS\<rparr>"

theorem diagram_mostly_static_witness:
  "map lk_id (filter (\<lambda>l. map_of (liveRpsMap (Some reported_sample)) (lk_id l) \<noteq> None) ALL_LINKS) = [''scheduler-scaler'']"
proof -
  have "reported reported_sample" by code_simp
  from diagram_mostly_static [OF this] show ?thesis by (rule conjunct1)
qed

text \<open>A double click on a component opens \<open>/observability/<id>\<close>, which exists for the entries of the catalogue.\<close>

lemma diagram_pages_missing:
  "map sc_id (filter (\<lambda>c. map_of COMPONENT_INFO (sc_id c) = None) COMPONENTS) =
     [''browser'', ''chi'', ''api-handlers'', ''ws-handler'', ''sse-handler'', ''broker'', ''audit'', ''cache'', ''k8s-api'', ''postgres'']"
  by code_simp

section \<open>Alerts\<close>

text \<open>The watcher of alerts remembers how many there were, and takes those from that index on.\<close>

definition event_component :: "incident_event \<Rightarrow> system_component option" where
  "event_component ev = List.find (\<lambda>c. sc_id c = ie_panelKey ev \<or> sc_label c = ie_panelKey ev) COMPONENTS"

definition watch_events :: "nat \<Rightarrow> incident_event list \<Rightarrow> nat \<times> system_component list" where
  "watch_events prevLen events =
     (if length events \<le> prevLen then (length events, [])
      else (length events, List.map_filter event_component (drop prevLen events)))"

definition ALERT_PANELS :: "string list" where
  "ALERT_PANELS = [''http_rate'', ''latency_p99'', ''k8s_api'', ''error_rate'', ''cache_hit'', ''ws_connections'']"

lemma panels_not_components: "list_all (\<lambda>k. List.find (\<lambda>c. sc_id c = k \<or> sc_label c = k) COMPONENTS = None) ALERT_PANELS"
  by code_simp

definition alerts_of_panels :: "obs_state \<Rightarrow> bool" where
  "alerts_of_panels s = (\<forall>e \<in> set (os_events s). ie_panelKey e \<in> set ALERT_PANELS)"

lemma check_panel_alerts:
  "fst chk \<in> K \<Longrightarrow> ie_panelKey ` set (fst acc) \<subseteq> K \<Longrightarrow> ie_panelKey ` set (fst (check_panel now tm chk acc)) \<subseteq> K"
  by (cases chk; cases acc) (auto simp: check_panel_def incident_def Let_def split: option.splits)

lemma check_panels_alerts:
  "fst ` set chks \<subseteq> K \<Longrightarrow> ie_panelKey ` set (fst acc) \<subseteq> K \<Longrightarrow> ie_panelKey ` set (fst (fold (check_panel now tm) chks acc)) \<subseteq> K"
  by (induction chks arbitrary: acc) (simp_all add: check_panel_alerts)

lemma crossing_alerts: "alerts_of_panels s \<Longrightarrow> alerts_of_panels (checkThresholdCrossing now snap ts s)"
proof -
  assume s: "alerts_of_panels s"
  let ?r = "fold (check_panel now (thresholdMap ts)) (checks snap) ([], os_prevThresholds s)"
  have "fst ` set (checks snap) \<subseteq> set ALERT_PANELS" by (simp add: checks_def ALERT_PANELS_def)
  then have "ie_panelKey ` set (fst ?r) \<subseteq> set ALERT_PANELS" by (rule check_panels_alerts) simp
  then show ?thesis using s
    by (cases ?r) (auto simp: alerts_of_panels_def checkThresholdCrossing_def dest: in_set_takeD)
qed

lemma payload_alerts: "alerts_of_panels s \<Longrightarrow> alerts_of_panels (obs_payload now p s)"
  unfolding obs_payload_def Let_def by (intro crossing_alerts) (auto simp: alerts_of_panels_def split: option.split)

definition diagram_inv :: "'cfg obs_conn \<Rightarrow> bool" where
  "diagram_inv h = alerts_of_panels (cn_data (oc_conn h))"

lemma ttl_alerts: "alerts_of_panels s \<Longrightarrow> alerts_of_panels (ttl_cleanup now s)"
  by (simp add: alerts_of_panels_def ttl_cleanup_def Let_def)

lemma diagram_step_inv: "diagram_inv h \<Longrightarrow> diagram_inv (obs_step parse h e)"
  unfolding diagram_inv_def by (rule obs_step_data [where P = alerts_of_panels]) (simp_all add: payload_alerts ttl_alerts)

interpretation diagram: machine "obs_step parse" "\<lambda>h :: 'cfg obs_conn. diagram_inv h"
  for parse :: "string \<Rightarrow> stream_payload option"
  by unfold_locales (rule diagram_step_inv)

text \<open>C39. No alert of the stream ever sends a shock wave over the diagram: whatever the stream delivers, in any order with
  clean-ups and reconnects, and however many alerts the watcher has seen, the panel that raised an alert is the identifier
  of a metric, never the identifier or the label of a component.\<close>

theorem alerts_send_no_shock:
  "snd (watch_events prevLen (os_events (cn_data (oc_conn (run (obs_step parse) obs_start es))))) = []"
proof -
  have "diagram_inv (run (obs_step parse) obs_start es)"
    by (rule diagram.run_inv) (simp add: diagram_inv_def obs_start_def sse_init_def obs_init_def alerts_of_panels_def)
  moreover have "k \<in> set ALERT_PANELS \<Longrightarrow> List.find (\<lambda>c. sc_id c = k \<or> sc_label c = k) COMPONENTS = None" for k
    using panels_not_components unfolding list_all_iff by blast
  ultimately have "event_component e = None"
    if "e \<in> set (os_events (cn_data (oc_conn (run (obs_step parse) obs_start es))))" for e
    using that by (simp add: diagram_inv_def alerts_of_panels_def event_component_def)
  then show ?thesis by (auto simp: watch_events_def map_filter_def filter_empty_conv dest: in_set_dropD)
qed

end
