(* ===== verification/RiversView.thy ===== *)
theory RiversView
  imports RiversLive
begin

text \<open>
  The diagram of \<open>components/observability/ApiRivers.tsx\<close> on the screen: lanes, boxes and the curves between them in both
  layouts, dragging and its storage, and the controls; and its map \<open>RiversMinimap.tsx\<close> and \<open>RiversControls.tsx\<close>. The
  text of an SVG path is kept as its points.
\<close>

section \<open>Lanes and boxes\<close>

datatype layout_mode = Vertical | Horizontal

type_synonym point = "rat \<times> rat"

record box =
  bx_x :: rat
  bx_y :: rat
  bx_w :: rat
  bx_h :: rat

definition BOX_W :: rat where "BOX_W = 132"
definition BOX_H :: rat where "BOX_H = 55"
definition LANE_GAP :: rat where "LANE_GAP = 8"
definition V_CANVAS_W :: rat where "V_CANVAS_W = 1260"
definition V_CANVAS_H :: rat where "V_CANVAS_H = 820"
definition TIER_Y :: "rat list" where "TIER_Y = [30, 145, 270, 400, 540, 670]"
definition H_GAP :: rat where "H_GAP = 36"
definition CORE_H_GAP :: rat where "CORE_H_GAP = 80"
definition TIER_SIZES :: "nat list" where "TIER_SIZES = [1, 2, 3, 4, 3, 2]"
definition H_CANVAS_W :: rat where "H_CANVAS_W = 1360"
definition H_CANVAS_H :: rat where "H_CANVAS_H = 620"
definition H_COL_X :: "rat list" where "H_COL_X = [50, 240, 440, 660, 920, 1170]"
definition H_ROW_HEIGHT :: rat where "H_ROW_HEIGHT = 115"
definition H_ROW_TOP :: rat where "H_ROW_TOP = 50"

definition tierX :: "nat \<Rightarrow> nat \<Rightarrow> nat \<Rightarrow> rat" where
  "tierX tierSize pos tier =
     (let gap = (if tier = 3 then CORE_H_GAP else H_GAP);
          totalW = of_nat tierSize * BOX_W + (of_nat tierSize - 1) * gap;
          startX = (V_CANVAS_W - totalW) / 2
      in startX + of_nat pos * (BOX_W + gap))"

definition hColX :: "nat \<Rightarrow> rat" where "hColX col = H_COL_X ! col"
definition hRowY :: "rat \<Rightarrow> rat" where "hRowY row = H_ROW_TOP + row * H_ROW_HEIGHT"

definition vLaneBounds :: "nat \<Rightarrow> rat \<times> rat" where
  "vLaneBounds tier =
     (let tierTop = TIER_Y ! tier; tierBot = tierTop + BOX_H;
          prevBot = (if 0 < tier then TIER_Y ! (tier - 1) + BOX_H else 0);
          nextTop = (if tier < length TIER_Y - 1 then TIER_Y ! (tier + 1) else V_CANVAS_H);
          ly = (if tier = 0 then 8 else (prevBot + tierTop) / 2 + LANE_GAP / 2);
          ly' = (if tier = length TIER_Y - 1 then V_CANVAS_H - 8 else (tierBot + nextTop) / 2 - LANE_GAP / 2)
      in (ly, ly' - ly))"

definition hLaneBounds :: "nat \<Rightarrow> rat \<times> rat" where
  "hLaneBounds col =
     (let colLeft = H_COL_X ! col; colRight = colLeft + BOX_W;
          prevRight = (if 0 < col then H_COL_X ! (col - 1) + BOX_W else 0);
          nextLeft = (if col < length H_COL_X - 1 then H_COL_X ! (col + 1) else H_CANVAS_W);
          lx = (if col = 0 then 8 else (prevRight + colLeft) / 2 + LANE_GAP / 2);
          rx = (if col = length H_COL_X - 1 then H_CANVAS_W - 8 else (colRight + nextLeft) / 2 - LANE_GAP / 2)
      in (lx, rx - lx))"

definition compRectBase :: "system_component \<Rightarrow> layout_mode \<Rightarrow> box" where
  "compRectBase c mode =
     (case mode of
        Vertical \<Rightarrow> \<lparr>bx_x = tierX (TIER_SIZES ! sc_row c) (sc_col c) (sc_row c), bx_y = TIER_Y ! sc_row c, bx_w = BOX_W, bx_h = BOX_H\<rparr>
      | Horizontal \<Rightarrow> \<lparr>bx_x = hColX (sc_hCol c), bx_y = hRowY (sc_hRow c), bx_w = BOX_W, bx_h = BOX_H\<rparr>)"

text \<open>The offsets by component, in the order in which they were first dragged.\<close>

type_synonym drag_offsets = "(string \<times> point) list"

definition compRect :: "system_component \<Rightarrow> drag_offsets \<Rightarrow> layout_mode \<Rightarrow> box" where
  "compRect c offsets mode =
     (let base = compRectBase c mode
      in case map_of offsets (sc_id c) of
           Some (dx, dy) \<Rightarrow> base\<lparr>bx_x := bx_x base + dx, bx_y := bx_y base + dy\<rparr>
         | None \<Rightarrow> base)"

definition portPoint :: "system_component \<Rightarrow> port_side \<Rightarrow> drag_offsets \<Rightarrow> layout_mode \<Rightarrow> point" where
  "portPoint c side offsets mode =
     (let r = compRect c offsets mode
      in case side of
           PRight \<Rightarrow> (bx_x r + bx_w r, bx_y r + bx_h r / 2)
         | PLeft \<Rightarrow> (bx_x r, bx_y r + bx_h r / 2)
         | PTop \<Rightarrow> (bx_x r + bx_w r / 2, bx_y r)
         | PBottom \<Rightarrow> (bx_x r + bx_w r / 2, bx_y r + bx_h r))"

text \<open>\<open>M s C a, b, t\<close>; \<open>None\<close> is the empty text.\<close>

definition cubic :: "port_side \<Rightarrow> port_side \<Rightarrow> point \<Rightarrow> point \<Rightarrow> point \<times> point \<times> point \<times> point" where
  "cubic sp tp s t =
     (let dx = fst t - fst s; dy = snd t - snd s
      in if sp = PBottom \<and> tp = PTop
         then let midY = snd s + dy / 2 in (s, (fst s, midY), (fst t, midY), t)
         else if sp = PRight \<and> tp = PLeft
         then if \<bar>dy\<bar> < 15
              then let cpx = fst s + dx / 2 in (s, (cpx, snd s), (cpx, snd t), t)
              else let bend = min (\<bar>dx\<bar> * 35 / 100) 100 in (s, (fst s + bend, snd s), (fst t - bend, snd t), t)
         else if sp = PBottom \<and> tp = PLeft
         then let midY = snd s + \<bar>dy\<bar> * 6 / 10 in (s, (fst s, midY), (fst s, snd t), t)
         else if sp = PRight \<and> tp = PBottom
         then let midX = fst s + \<bar>dx\<bar> * 6 / 10 in (s, (midX, snd s), (fst t, snd s), t)
         else let midY = snd s + dy / 2 in (s, (fst s, midY), (fst t, midY), t))"

definition rivers_buildPath :: "internal_link \<Rightarrow> drag_offsets \<Rightarrow> layout_mode \<Rightarrow> (point \<times> point \<times> point \<times> point) option" where
  "rivers_buildPath link offsets mode =
     (case (COMP_MAP (lk_source link), COMP_MAP (lk_target link)) of
        (Some src, Some tgt) \<Rightarrow>
          let sp = (if mode = Vertical then lk_sourcePort link else lk_hSourcePort link);
              tp = (if mode = Vertical then lk_targetPort link else lk_hTargetPort link)
          in Some (cubic sp tp (portPoint src sp offsets mode) (portPoint tgt tp offsets mode))
      | _ \<Rightarrow> None)"

definition strokeW :: "jsnum \<Rightarrow> jsnum" where
  "strokeW rps = js_max (Num (3 / 2)) (js_min (Num 6) (div_by rps 22))"

fun kindBorder :: "component_kind \<Rightarrow> string" where
  "kindBorder KEntry = ''#3B82F6''"
| "kindBorder KMiddleware = ''#6366F1''"
| "kindBorder KHandler = ''#10B981''"
| "kindBorder KCore = ''#F59E0B''"
| "kindBorder KInfra = ''#6B7280''"
| "kindBorder KExternal = ''#A855F7''"

fun kindBg :: "component_kind \<Rightarrow> bool \<Rightarrow> string" where
  "kindBg KEntry dark = (if dark then ''#1E3A5F'' else ''#DBEAFE'')"
| "kindBg KMiddleware dark = (if dark then ''#312E81'' else ''#E0E7FF'')"
| "kindBg KHandler dark = (if dark then ''#064E3B'' else ''#D1FAE5'')"
| "kindBg KCore dark = (if dark then ''#78350F'' else ''#FEF3C7'')"
| "kindBg KInfra dark = (if dark then ''#1F2937'' else ''#F3F4F6'')"
| "kindBg KExternal dark = (if dark then ''#3B0764'' else ''#F3E8FF'')"

fun rivers_CATEGORY_COLORS :: "call_category \<Rightarrow> string" where
  "rivers_CATEGORY_COLORS CatHttp = ''#60A5FA''"
| "rivers_CATEGORY_COLORS CatK8s = ''#A78BFA''"
| "rivers_CATEGORY_COLORS CatStore = ''#34D399''"
| "rivers_CATEGORY_COLORS CatInternal = ''#94A3B8''"
| "rivers_CATEGORY_COLORS CatWs = ''#FBBF24''"

definition inside :: "box \<Rightarrow> layout_mode \<Rightarrow> nat \<Rightarrow> bool" where
  "inside b mode lane =
     (case mode of
        Vertical \<Rightarrow> 16 \<le> bx_x b \<and> bx_x b + bx_w b \<le> V_CANVAS_W - 16
          \<and> fst (vLaneBounds lane) \<le> bx_y b \<and> bx_y b + bx_h b \<le> fst (vLaneBounds lane) + snd (vLaneBounds lane)
      | Horizontal \<Rightarrow> 12 \<le> bx_y b \<and> bx_y b + bx_h b \<le> H_CANVAS_H - 12
          \<and> fst (hLaneBounds lane) \<le> bx_x b \<and> bx_x b + bx_w b \<le> fst (hLaneBounds lane) + snd (hLaneBounds lane))"

definition apart :: "box \<Rightarrow> box \<Rightarrow> bool" where
  "apart a b = (bx_x a + bx_w a \<le> bx_x b \<or> bx_x b + bx_w b \<le> bx_x a \<or> bx_y a + bx_h a \<le> bx_y b \<or> bx_y b + bx_h b \<le> bx_y a)"

text \<open>The lanes are named after the kinds, in this order.\<close>

fun lane_of :: "component_kind \<Rightarrow> nat" where
  "lane_of KEntry = 0"
| "lane_of KMiddleware = 1"
| "lane_of KHandler = 2"
| "lane_of KCore = 3"
| "lane_of KInfra = 4"
| "lane_of KExternal = 5"

definition pairwise_apart :: "box list \<Rightarrow> bool" where
  "pairwise_apart bs = list_all (\<lambda>i. list_all (\<lambda>j. apart (bs ! i) (bs ! j)) [0..<i]) [0..<length bs]"

text \<open>In both layouts, with nothing dragged, every component stands in the lane of its kind, within the canvas, and no
  two components overlap.\<close>

theorem diagram_boxes_apart:
  "list_all (\<lambda>mode. list_all (\<lambda>c. inside (compRectBase c mode) mode (lane_of (sc_kind c))) COMPONENTS
     \<and> pairwise_apart (map (\<lambda>c. compRect c [] mode) COMPONENTS)) [Vertical, Horizontal]"
  by code_simp

section \<open>The controls\<close>

record drag =
  dg_id :: string
  dg_startX :: rat
  dg_startY :: rat
  dg_origDx :: rat
  dg_origDy :: rat

text \<open>\<open>rv_storage\<close> is what the local storage of the browser holds under the key of each layout.\<close>

record rivers_ui =
  rv_layout :: layout_mode
  rv_scenario :: flow_scenario
  rv_speed :: rat
  rv_density :: rat
  rv_hoveredComp :: "string option"
  rv_hoveredLink :: "string option"
  rv_traceMode :: bool
  rv_traceCompId :: "string option"
  rv_zoom :: rat
  rv_fullscreen :: bool
  rv_clickedLink :: "string option"
  rv_clickPosition :: point
  rv_offsets :: drag_offsets
  rv_drag :: "drag option"
  rv_storage :: "layout_mode \<Rightarrow> drag_offsets option"

definition ZOOM_STEP :: rat where "ZOOM_STEP = 1 / 4"
definition ZOOM_MIN :: rat where "ZOOM_MIN = 1 / 4"
definition ZOOM_MAX :: rat where "ZOOM_MAX = 3"

text \<open>The buttons of a \<open>ToggleButtonGroup\<close> report null when the chosen one is clicked again; a drag ends with whether the
  browser could store the offsets; the two sliders stay between their ends.\<close>

datatype rivers_event =
    LayoutChosen layout_mode
  | ScenarioChosen flow_scenario
  | TraceToggled
  | TraceCleared
  | CompClicked string
  | CrumbClicked string
  | LinkClicked string point
  | PopoverClosed
  | PopoverTraced string
  | Wheeled bool rat
  | ZoomedIn
  | ZoomedOut
  | ZoomedReset
  | FullscreenToggled
  | SpeedChosen rat
  | DensityChosen rat
  | DragStarted string rat rat
  | DragMoved rat rat
  | DragEnded bool
  | LayoutReset
  | CompEntered string
  | CompLeft
  | LinkEntered string
  | LinkLeft

definition stored_offsets :: "rivers_ui \<Rightarrow> layout_mode \<Rightarrow> drag_offsets" where
  "stored_offsets s mode = (case rv_storage s mode of Some off \<Rightarrow> off | None \<Rightarrow> [])"

definition handleDragStart :: "rivers_ui \<Rightarrow> string \<Rightarrow> rat \<Rightarrow> rat \<Rightarrow> rivers_ui" where
  "handleDragStart s c x y =
     (if rv_traceMode s then s
      else let (odx, ody) = (case map_of (rv_offsets s) c of Some o' \<Rightarrow> o' | None \<Rightarrow> (0, 0))
           in s\<lparr>rv_drag := Some \<lparr>dg_id = c, dg_startX = x, dg_startY = y, dg_origDx = odx, dg_origDy = ody\<rparr>\<rparr>)"

definition handleDragMove :: "rivers_ui \<Rightarrow> rat \<Rightarrow> rat \<Rightarrow> rivers_ui" where
  "handleDragMove s x y =
     (case rv_drag s of
        None \<Rightarrow> s
      | Some d \<Rightarrow> s\<lparr>rv_offsets := assoc_set (dg_id d) (dg_origDx d + (x - dg_startX d), dg_origDy d + (y - dg_startY d)) (rv_offsets s)\<rparr>)"

definition handleDragEnd :: "rivers_ui \<Rightarrow> bool \<Rightarrow> rivers_ui" where
  "handleDragEnd s saved =
     (case rv_drag s of
        None \<Rightarrow> s
      | Some d \<Rightarrow> s\<lparr>rv_drag := None,
          rv_storage := (if saved then (rv_storage s)(rv_layout s := Some (rv_offsets s)) else rv_storage s)\<rparr>)"

definition handleWheel :: "rivers_ui \<Rightarrow> bool \<Rightarrow> rat \<Rightarrow> rivers_ui" where
  "handleWheel s modifier deltaY =
     (if \<not> modifier then s
      else let delta = (if 0 < deltaY then - (1 / 10) else 1 / 10)
           in s\<lparr>rv_zoom := max (1 / 4) (min 3 (rv_zoom s + delta))\<rparr>)"

fun rivers_step :: "rivers_ui \<Rightarrow> rivers_event \<Rightarrow> rivers_ui" where
  "rivers_step s (LayoutChosen mode) =
     (if mode = rv_layout s then s else s\<lparr>rv_layout := mode, rv_offsets := stored_offsets s mode\<rparr>)"
| "rivers_step s (ScenarioChosen sc) = (if sc = rv_scenario s then s else s\<lparr>rv_scenario := sc, rv_traceCompId := None\<rparr>)"
| "rivers_step s TraceToggled = s\<lparr>rv_traceMode := \<not> rv_traceMode s, rv_traceCompId := None\<rparr>"
| "rivers_step s TraceCleared = s\<lparr>rv_traceCompId := None\<rparr>"
| "rivers_step s (CompClicked c) =
     (if rv_traceMode s then s\<lparr>rv_traceCompId := (if rv_traceCompId s = Some c then None else Some c)\<rparr> else s)"
| "rivers_step s (CrumbClicked c) =
     (if rv_traceMode s \<and> rv_traceCompId s \<noteq> None then s\<lparr>rv_traceCompId := Some c\<rparr> else s)"
| "rivers_step s (LinkClicked l p) = s\<lparr>rv_clickedLink := Some l, rv_clickPosition := p\<rparr>"
| "rivers_step s PopoverClosed = s\<lparr>rv_clickedLink := None\<rparr>"
| "rivers_step s (PopoverTraced c) =
     (if rv_clickedLink s \<noteq> None then s\<lparr>rv_traceMode := True, rv_traceCompId := Some c, rv_clickedLink := None\<rparr> else s)"
| "rivers_step s (Wheeled modifier deltaY) = handleWheel s modifier deltaY"
| "rivers_step s ZoomedIn = s\<lparr>rv_zoom := min (rv_zoom s + ZOOM_STEP) ZOOM_MAX\<rparr>"
| "rivers_step s ZoomedOut = s\<lparr>rv_zoom := max (rv_zoom s - ZOOM_STEP) ZOOM_MIN\<rparr>"
| "rivers_step s ZoomedReset = s\<lparr>rv_zoom := 1\<rparr>"
| "rivers_step s FullscreenToggled = s\<lparr>rv_fullscreen := \<not> rv_fullscreen s\<rparr>"
| "rivers_step s (SpeedChosen v) = s\<lparr>rv_speed := max (1 / 4) (min 5 v)\<rparr>"
| "rivers_step s (DensityChosen v) = s\<lparr>rv_density := max (1 / 10) (min 3 v)\<rparr>"
| "rivers_step s (DragStarted c x y) = handleDragStart s c x y"
| "rivers_step s (DragMoved x y) = handleDragMove s x y"
| "rivers_step s (DragEnded saved) = handleDragEnd s saved"
| "rivers_step s LayoutReset =
     (if rv_offsets s \<noteq> [] then s\<lparr>rv_offsets := [], rv_storage := (rv_storage s)(rv_layout s := None)\<rparr> else s)"
| "rivers_step s (CompEntered c) = (if rv_drag s = None then s\<lparr>rv_hoveredComp := Some c\<rparr> else s)"
| "rivers_step s CompLeft = (if rv_drag s = None then s\<lparr>rv_hoveredComp := None\<rparr> else s)"
| "rivers_step s (LinkEntered l) = s\<lparr>rv_hoveredLink := Some l\<rparr>"
| "rivers_step s LinkLeft = s\<lparr>rv_hoveredLink := None\<rparr>"

text \<open>The page opens in the vertical layout, with what is stored for it.\<close>

definition rivers_open :: "(layout_mode \<Rightarrow> drag_offsets option) \<Rightarrow> rivers_ui" where
  "rivers_open storage = \<lparr>rv_layout = Vertical, rv_scenario = AllFlows, rv_speed = 1, rv_density = 1, rv_hoveredComp = None,
     rv_hoveredLink = None, rv_traceMode = False, rv_traceCompId = None, rv_zoom = 1, rv_fullscreen = False,
     rv_clickedLink = None, rv_clickPosition = (0, 0),
     rv_offsets = (case storage Vertical of Some off \<Rightarrow> off | None \<Rightarrow> []), rv_drag = None, rv_storage = storage\<rparr>"

definition rivers_inv :: "rivers_ui \<Rightarrow> bool" where
  "rivers_inv s =
     (1 / 4 \<le> rv_zoom s \<and> rv_zoom s \<le> 3 \<and> 1 / 4 \<le> rv_speed s \<and> rv_speed s \<le> 5 \<and> 1 / 10 \<le> rv_density s \<and> rv_density s \<le> 3
      \<and> (rv_traceCompId s \<noteq> None \<longrightarrow> rv_traceMode s)
      \<and> (rv_drag s = None \<longrightarrow> rv_offsets s = stored_offsets s (rv_layout s)))"

lemma rivers_step_inv: "rivers_inv s \<Longrightarrow> e \<noteq> DragEnded False \<Longrightarrow> rivers_inv (rivers_step s e)"
proof (cases e)
  case (DragStarted c x y)
  assume "rivers_inv s"
  then show ?thesis by (auto simp: DragStarted rivers_inv_def handleDragStart_def split: prod.split option.split)
next
  case (DragMoved x y)
  assume "rivers_inv s"
  then show ?thesis by (auto simp: DragMoved rivers_inv_def handleDragMove_def split: option.split)
next
  case (DragEnded saved)
  assume "rivers_inv s" "e \<noteq> DragEnded False"
  then show ?thesis by (auto simp: DragEnded rivers_inv_def handleDragEnd_def stored_offsets_def split: option.splits)
next
  case (Wheeled m d)
  assume "rivers_inv s"
  then show ?thesis by (auto simp: Wheeled rivers_inv_def handleWheel_def stored_offsets_def Let_def max_def min_def)
next
  case ZoomedIn
  assume "rivers_inv s"
  then show ?thesis by (auto simp: ZoomedIn rivers_inv_def stored_offsets_def ZOOM_STEP_def ZOOM_MAX_def max_def min_def)
next
  case ZoomedOut
  assume "rivers_inv s"
  then show ?thesis by (auto simp: ZoomedOut rivers_inv_def stored_offsets_def ZOOM_STEP_def ZOOM_MIN_def max_def min_def)
qed (auto simp: rivers_inv_def stored_offsets_def max_def min_def)

interpretation rivers: guarded_machine rivers_step rivers_inv "\<lambda>e. e \<noteq> DragEnded False"
  by unfold_locales (simp add: rivers_step_inv)

lemma rivers_open_inv: "rivers_inv (rivers_open storage)"
  by (simp add: rivers_inv_def rivers_open_def stored_offsets_def)

text \<open>C36. Boxes stay where they were dragged: after any session in which the browser could store what it was given, and with no
  drag going on, opening the page again and choosing the layout shows every component in the same place. On the way the
  zoom stays between a quarter and three, and a component is only traced in trace mode.\<close>

theorem positions_survive_reload:
  assumes "list_all (\<lambda>e. e \<noteq> DragEnded False) es" "s = run rivers_step (rivers_open storage) es" "rv_drag s = None"
    "again = rivers_step (rivers_open (rv_storage s)) (LayoutChosen (rv_layout s))"
  shows "compRect c (rv_offsets again) (rv_layout again) = compRect c (rv_offsets s) (rv_layout s)
    \<and> 1 / 4 \<le> rv_zoom s \<and> rv_zoom s \<le> 3 \<and> (rv_traceMode s \<or> rv_traceCompId s = None)"
proof -
  have "rivers_inv s" unfolding assms(2) by (rule rivers.run_inv [OF rivers_open_inv assms(1)])
  then show ?thesis using assms(3,4) by (cases "rv_layout s") (auto simp: rivers_inv_def stored_offsets_def rivers_open_def)
qed

definition sample_drag :: "rivers_event list" where
  "sample_drag = [LayoutChosen Horizontal, DragStarted ''chi'' 300 200, DragMoved 310 190, DragMoved 320 150, DragEnded True]"

definition box_at :: "box \<Rightarrow> point" where "box_at b = (bx_x b, bx_y b)"

theorem positions_survive_reload_witness:
  "let s = run rivers_step (rivers_open (\<lambda>_. None)) sample_drag;
       again = rivers_step (rivers_open (rv_storage s)) (LayoutChosen (rv_layout s)); chi = the (COMP_MAP ''chi'')
   in compRect chi (rv_offsets again) (rv_layout again) = compRect chi (rv_offsets s) (rv_layout s)
     \<and> box_at (compRect chi (rv_offsets s) (rv_layout s)) = (260, 115)"
proof -
  have "list_all (\<lambda>e. e \<noteq> DragEnded False) sample_drag" "rv_drag (run rivers_step (rivers_open (\<lambda>_. None)) sample_drag) = None"
    "box_at (compRect (the (COMP_MAP ''chi'')) (rv_offsets (run rivers_step (rivers_open (\<lambda>_. None)) sample_drag))
       (rv_layout (run rivers_step (rivers_open (\<lambda>_. None)) sample_drag))) = (260, 115)" by code_simp+
  then show ?thesis unfolding Let_def
    using positions_survive_reload [OF _ refl _ refl, of sample_drag "\<lambda>_. None" "the (COMP_MAP ''chi'')"] by blast
qed

lemma dragging:
  assumes "rv_drag s = Some d"
  shows "rv_drag (run rivers_step s (map (\<lambda>(x, y). DragMoved x y) ps)) = Some d
    \<and> rv_layout (run rivers_step s (map (\<lambda>(x, y). DragMoved x y) ps)) = rv_layout s
    \<and> (\<forall>c. c \<noteq> dg_id d \<longrightarrow> map_of (rv_offsets (run rivers_step s (map (\<lambda>(x, y). DragMoved x y) ps))) c = map_of (rv_offsets s) c)"
  using assms
proof (induction ps arbitrary: s)
  case (Cons p ps)
  obtain x y where p: "p = (x, y)" by (cases p) auto
  let ?s = "handleDragMove s x y"
  have "rv_drag ?s = Some d" "rv_layout ?s = rv_layout s" "c \<noteq> dg_id d \<Longrightarrow> map_of (rv_offsets ?s) c = map_of (rv_offsets s) c" for c
    using Cons.prems by (auto simp: handleDragMove_def)
  then show ?case using Cons.IH [of ?s] by (simp add: p)
qed simp

text \<open>A dragged component follows the pointer: from wherever it was picked up, over any moves, it is displaced by what the
  pointer moved in all, and no other component moves.\<close>

theorem drag_follows_pointer:
  assumes "\<not> rv_traceMode s" "s' = run rivers_step s (DragStarted i x0 y0 # map (\<lambda>(x, y). DragMoved x y) (ps @ [(x, y)]))"
  shows "box_at (compRect c (rv_offsets s') (rv_layout s')) =
    (let (bx, by') = box_at (compRect c (rv_offsets s) (rv_layout s)) in if sc_id c = i then (bx + (x - x0), by' + (y - y0)) else (bx, by'))"
proof -
  obtain odx ody where o': "(odx, ody) = (case map_of (rv_offsets s) i of Some o' \<Rightarrow> o' | None \<Rightarrow> (0, 0))"
    by (cases "case map_of (rv_offsets s) i of Some o' \<Rightarrow> o' | None \<Rightarrow> (0, 0)") auto
  let ?d = "\<lparr>dg_id = i, dg_startX = x0, dg_startY = y0, dg_origDx = odx, dg_origDy = ody\<rparr>"
  let ?s0 = "s\<lparr>rv_drag := Some ?d\<rparr>" and ?t = "run rivers_step (s\<lparr>rv_drag := Some ?d\<rparr>) (map (\<lambda>(x, y). DragMoved x y) ps)"
  have start: "rivers_step s (DragStarted i x0 y0) = ?s0"
    using assms(1) o' by (cases "map_of (rv_offsets s) i") (auto simp: handleDragStart_def)
  note t = dragging [of ?s0 ?d ps, simplified]
  have s': "s' = ?t\<lparr>rv_offsets := assoc_set i (odx + (x - x0), ody + (y - y0)) (rv_offsets ?t)\<rparr>"
    unfolding assms(2) using t start by (simp add: run_def handleDragMove_def)
  show ?thesis
  proof (cases "sc_id c = i")
    case True
    then show ?thesis using t o' by (cases "map_of (rv_offsets s) i") (auto simp: s' compRect_def box_at_def Let_def)
  next
    case False
    then show ?thesis using t by (auto simp: s' compRect_def box_at_def Let_def split: option.split)
  qed
qed

theorem drag_follows_pointer_witness:
  "box_at (compRect (the (COMP_MAP ''chi'')) (rv_offsets (run rivers_step (rivers_open (\<lambda>_. None))
     (DragStarted ''chi'' 300 200 # map (\<lambda>(x, y). DragMoved x y) ([(350, 250)] @ [(320, 150)])))) Vertical)
   = (let (bx, by') = box_at (compRect (the (COMP_MAP ''chi'')) [] Vertical) in (bx + 20, by' - 50))"
proof -
  have "\<not> rv_traceMode (rivers_open (\<lambda>_. None))" by code_simp
  from drag_follows_pointer [OF this refl, of "the (COMP_MAP ''chi'')" "''chi''" 300 200 "[(350, 250)]" 320 150]
  have "box_at (compRect (the (COMP_MAP ''chi'')) (rv_offsets (run rivers_step (rivers_open (\<lambda>_. None))
     (DragStarted ''chi'' 300 200 # map (\<lambda>(x, y). DragMoved x y) ([(350, 250)] @ [(320, 150)]))))
     (rv_layout (run rivers_step (rivers_open (\<lambda>_. None)) (DragStarted ''chi'' 300 200 # map (\<lambda>(x, y). DragMoved x y) ([(350, 250)] @ [(320, 150)])))))
   = (let (bx, by') = box_at (compRect (the (COMP_MAP ''chi'')) (rv_offsets (rivers_open (\<lambda>_. None))) (rv_layout (rivers_open (\<lambda>_. None))))
      in if sc_id (the (COMP_MAP ''chi'')) = ''chi'' then (bx + (320 - 300), by' + (150 - 200)) else (bx, by'))" .
  moreover have "rv_layout (run rivers_step (rivers_open (\<lambda>_. None)) (DragStarted ''chi'' 300 200 # map (\<lambda>(x, y). DragMoved x y) ([(350, 250)] @ [(320, 150)]))) = Vertical"
    "rv_layout (rivers_open (\<lambda>_. None)) = Vertical" "rv_offsets (rivers_open (\<lambda>_. None)) = []" "sc_id (the (COMP_MAP ''chi'')) = ''chi''" by code_simp+
  ultimately show ?thesis by (simp add: Let_def split: prod.split)
qed

section \<open>The minimap\<close>

text \<open>The scrolled element: the browser keeps its position within the content.\<close>

record scroll_box =
  sb_left :: rat
  sb_top :: rat
  sb_clientWidth :: rat
  sb_clientHeight :: rat
  sb_scrollWidth :: rat
  sb_scrollHeight :: rat

definition scrollTo :: "rat \<Rightarrow> rat \<Rightarrow> scroll_box \<Rightarrow> scroll_box" where
  "scrollTo left tp el = el\<lparr>sb_left := max 0 (min left (sb_scrollWidth el - sb_clientWidth el)),
     sb_top := max 0 (min tp (sb_scrollHeight el - sb_clientHeight el))\<rparr>"

definition MINIMAP_WIDTH :: rat where "MINIMAP_WIDTH = 180"
definition computeScale :: "rat \<Rightarrow> rat" where "computeScale canvasWidth = MINIMAP_WIDTH / canvasWidth"

definition computeMinimapHeight :: "rat \<Rightarrow> rat \<Rightarrow> int" where
  "computeMinimapHeight canvasWidth canvasHeight = js_round (canvasHeight * computeScale canvasWidth)"

definition readViewport :: "scroll_box \<Rightarrow> rat \<Rightarrow> box" where
  "readViewport el scale = \<lparr>bx_x = sb_left el * scale, bx_y = sb_top el * scale, bx_w = sb_clientWidth el * scale, bx_h = sb_clientHeight el * scale\<rparr>"

definition scrollToPosition :: "scroll_box \<Rightarrow> rat \<Rightarrow> rat \<Rightarrow> rat \<Rightarrow> scroll_box" where
  "scrollToPosition el minimapX minimapY scale =
     (let diagramX = minimapX / scale; diagramY = minimapY / scale
      in scrollTo (diagramX - sb_clientWidth el / 2) (diagramY - sb_clientHeight el / 2) el)"

definition minimap_node :: "rat \<Rightarrow> box \<Rightarrow> box" where
  "minimap_node scale b = \<lparr>bx_x = bx_x b * scale, bx_y = bx_y b * scale, bx_w = max (bx_w b * scale) 2, bx_h = max (bx_h b * scale) 2\<rparr>"

text \<open>Every scroll event makes the map read the viewport again.\<close>

record minimap =
  mm_visible :: bool
  mm_dragging :: bool
  mm_element :: scroll_box
  mm_viewport :: box

datatype minimap_event = MapPressed rat rat | MapMoved rat rat | MapReleased | MapClosed | ContentScrolled rat rat | ElementResized rat rat

definition updateViewport :: "rat \<Rightarrow> minimap \<Rightarrow> minimap" where
  "updateViewport scale m = m\<lparr>mm_viewport := readViewport (mm_element m) scale\<rparr>"

fun minimap_step :: "rat \<Rightarrow> minimap \<Rightarrow> minimap_event \<Rightarrow> minimap" where
  "minimap_step scale m (MapPressed x y) =
     (if mm_visible m then updateViewport scale (m\<lparr>mm_dragging := True, mm_element := scrollToPosition (mm_element m) x y scale\<rparr>) else m)"
| "minimap_step scale m (MapMoved x y) =
     (if mm_visible m \<and> mm_dragging m then updateViewport scale (m\<lparr>mm_element := scrollToPosition (mm_element m) x y scale\<rparr>) else m)"
| "minimap_step scale m MapReleased = m\<lparr>mm_dragging := False\<rparr>"
| "minimap_step scale m MapClosed = m\<lparr>mm_visible := False\<rparr>"
| "minimap_step scale m (ContentScrolled left tp) = updateViewport scale (m\<lparr>mm_element := scrollTo left tp (mm_element m)\<rparr>)"
| "minimap_step scale m (ElementResized w h) =
     updateViewport scale (m\<lparr>mm_element := (mm_element m)\<lparr>sb_clientWidth := w, sb_clientHeight := h\<rparr>\<rparr>)"

text \<open>A click on the minimap brings the clicked point into the middle: unless the end of the diagram is in the way, the
  frame on the map is then centered at the click.\<close>

theorem minimap_click_centers:
  assumes "0 < canvasWidth" "scale = computeScale canvasWidth" "mm_visible m"
    "0 \<le> x / scale - sb_clientWidth (mm_element m) / 2"
    "x / scale + sb_clientWidth (mm_element m) / 2 \<le> sb_scrollWidth (mm_element m)"
    "0 \<le> y / scale - sb_clientHeight (mm_element m) / 2"
    "y / scale + sb_clientHeight (mm_element m) / 2 \<le> sb_scrollHeight (mm_element m)"
  shows "let v = mm_viewport (minimap_step scale m (MapPressed x y)) in bx_x v + bx_w v / 2 = x \<and> bx_y v + bx_h v / 2 = y"
proof -
  have s: "0 < scale" using assms(1,2) by (simp add: computeScale_def MINIMAP_WIDTH_def)
  have clamp: "max 0 (min (u / scale - w / 2) (W - w)) = u / scale - w / 2" if "0 \<le> u / scale - w / 2" "u / scale + w / 2 \<le> W" for u w W :: rat
    using that by (simp add: max_def min_def)
  have mid: "(u / scale - w / 2) * scale + w * scale / 2 = u" for u w using s by (simp add: field_simps)
  have "mm_element (minimap_step scale m (MapPressed x y)) = (mm_element m)\<lparr>sb_left := x / scale - sb_clientWidth (mm_element m) / 2,
      sb_top := y / scale - sb_clientHeight (mm_element m) / 2\<rparr>"
    using assms(3) clamp [OF assms(4,5)] clamp [OF assms(6,7)]
    by (simp add: updateViewport_def scrollToPosition_def scrollTo_def Let_def)
  moreover have "mm_viewport (minimap_step scale m (MapPressed x y)) = readViewport (mm_element (minimap_step scale m (MapPressed x y))) scale"
    using assms(3) by (simp add: updateViewport_def)
  ultimately show ?thesis by (simp add: readViewport_def mid Let_def del: minimap_step.simps)
qed

theorem minimap_click_centers_witness:
  "let m = \<lparr>mm_visible = True, mm_dragging = False, mm_element = \<lparr>sb_left = 0, sb_top = 0, sb_clientWidth = 630, sb_clientHeight = 410,
        sb_scrollWidth = 1260, sb_scrollHeight = 820\<rparr>, mm_viewport = \<lparr>bx_x = 0, bx_y = 0, bx_w = 90, bx_h = 60\<rparr>\<rparr>;
       v = mm_viewport (minimap_step (computeScale 1260) m (MapPressed 90 50)) in bx_x v + bx_w v / 2 = 90 \<and> bx_y v + bx_h v / 2 = 50"
  unfolding Let_def by (rule minimap_click_centers [of 1260, unfolded Let_def]) (simp_all add: computeScale_def MINIMAP_WIDTH_def)

end
