(* ===== verification/RiversParticles.thy ===== *)
theory RiversParticles
  imports RiversView
begin

text \<open>
  The particles that flow along the links of the diagram in \<open>components/observability/ApiRivers.tsx\<close>, the bursts of a change
  of scenario and the shock waves, frame by frame. \<open>Math.random()\<close> is a sequence of numbers and a position in it. The
  point at a length of an SVG path is a parameter, and the angle of a burst is given by its cosine and sine.
\<close>

section \<open>Colors\<close>

definition hex_value :: "char \<Rightarrow> nat" where
  "hex_value c =
     (if is_digit c then digit_val c else if CHR ''a'' \<le> c \<and> c \<le> CHR ''f'' then of_char c - 87
      else if CHR ''A'' \<le> c \<and> c \<le> CHR ''F'' then of_char c - 55 else 0)"

text \<open>\<open>parseInt(s, 16)\<close> of two hexadecimal digits, as all colors of the program have them.\<close>

definition parse_hex :: "string \<Rightarrow> int" where
  "parse_hex s = foldl (\<lambda>n c. 16 * n + int (hex_value c)) 0 s"

definition hexToRgb :: "string \<Rightarrow> int \<times> int \<times> int" where
  "hexToRgb hex =
     (let h = (if starts_with ''#'' hex then tl hex else hex)
      in (parse_hex (take 2 h), parse_hex (take 2 (drop 2 h)), parse_hex (take 2 (drop 4 h))))"

definition hex_char :: "nat \<Rightarrow> char" where
  "hex_char d = (if d < 10 then digit_char d else char_of (87 + d))"

text \<open>\<open>v.toString(16).padStart(2, '0')\<close> for a number up to 255.\<close>

definition hex2 :: "int \<Rightarrow> string" where
  "hex2 v = [hex_char (nat v div 16), hex_char (nat v mod 16)]"

definition channel :: "int \<Rightarrow> int" where
  "channel v = max 0 (min 255 v)"

definition rgbToHex :: "int \<Rightarrow> int \<Rightarrow> int \<Rightarrow> string" where
  "rgbToHex r g b = CHR ''#'' # concat (map hex2 [channel r, channel g, channel b])"

definition offset_of :: "rat \<Rightarrow> int" where "offset_of random = js_round (random * 30 - 15)"

type_synonym randoms = "nat \<Rightarrow> rat"

definition shiftColor :: "randoms \<Rightarrow> nat \<Rightarrow> string \<Rightarrow> string \<times> nat" where
  "shiftColor rnd k hex =
     (case hexToRgb hex of (r, g, b) \<Rightarrow>
        (rgbToHex (r + offset_of (rnd k)) (g + offset_of (rnd (k + 1))) (b + offset_of (rnd (k + 2))), k + 3))"

section \<open>Particles\<close>

record particle =
  pa_link :: nat
  pa_progress :: rat
  pa_speed :: rat
  pa_color :: string
  pa_radius :: rat
  pa_opacity :: rat
  pa_trail :: "point list"
  pa_burst :: "(point \<times> point) option"

text \<open>A burst has its direction and its place.\<close>

record shockwave =
  sw_x :: rat
  sw_y :: rat
  sw_radius :: rat
  sw_opacity :: rat

definition MAX_PARTICLES :: nat where "MAX_PARTICLES = 800"
definition TRAIL_LEN :: nat where "TRAIL_LEN = 12"

record canvas =
  cv_particles :: "particle list"
  cv_shockwaves :: "shockwave list"
  cv_spawnAcc :: nat
  cv_count :: nat
  cv_pos :: nat

text \<open>What a frame sees of the controls, with the rates of the links.\<close>

record flow =
  fl_links :: "string list"
  fl_rate :: "internal_link \<Rightarrow> rat"
  fl_speed :: rat
  fl_density :: rat

definition spawn :: "randoms \<Rightarrow> flow \<Rightarrow> nat \<Rightarrow> nat \<Rightarrow> bool \<Rightarrow> particle \<times> nat" where
  "spawn rnd fl k li isAmbient =
     (let link = ALL_LINKS ! li
      in if isAmbient
         then let (col, k1) = shiftColor rnd k (rivers_CATEGORY_COLORS (lk_category link))
              in (\<lparr>pa_link = li, pa_progress = 0, pa_speed = 3 / 1000, pa_color = col, pa_radius = 1, pa_opacity = 15 / 100,
                   pa_trail = [], pa_burst = None\<rparr>, k1)
         else let base = max (3 / 1000) (fl_rate fl link / 120 * (7 / 1000)) * fl_speed fl;
                  (col, k1) = shiftColor rnd (k + 1) (rivers_CATEGORY_COLORS (lk_category link))
              in (\<lparr>pa_link = li, pa_progress = 0, pa_speed = base + rnd k * (2 / 1000), pa_color = col,
                   pa_radius = 18 / 10 + rnd k1 * (12 / 10), pa_opacity = 8 / 10 + rnd (k1 + 1) * (2 / 10),
                   pa_trail = [], pa_burst = None\<rparr>, k1 + 2))"

definition spawn_chance :: "flow \<Rightarrow> internal_link \<Rightarrow> rat" where
  "spawn_chance fl link =
     (if lk_id link \<in> set (fl_links fl) then fl_rate fl link / 120 * (2 / 10) * fl_density fl else 2 / 1000 * fl_density fl)"

text \<open>The random test is drawn before the number of particles is looked at.\<close>

definition spawn_link :: "randoms \<Rightarrow> flow \<Rightarrow> nat \<Rightarrow> canvas \<Rightarrow> canvas" where
  "spawn_link rnd fl i s =
     (let link = ALL_LINKS ! i; isActive = lk_id link \<in> set (fl_links fl); k = cv_pos s
      in if rnd k < spawn_chance fl link \<and> length (cv_particles s) < MAX_PARTICLES
         then let (p, k') = spawn rnd fl (k + 1) i (\<not> isActive) in s\<lparr>cv_particles := cv_particles s @ [p], cv_pos := k'\<rparr>
         else s\<lparr>cv_pos := k + 1\<rparr>)"

definition spawn_frame :: "randoms \<Rightarrow> flow \<Rightarrow> canvas \<Rightarrow> canvas" where
  "spawn_frame rnd fl s =
     (let s1 = s\<lparr>cv_spawnAcc := cv_spawnAcc s + 1\<rparr>
      in if 2 \<le> cv_spawnAcc s1
         then fold (spawn_link rnd fl) [0..<length ALL_LINKS] (s1\<lparr>cv_spawnAcc := 0\<rparr>)
         else s1)"

definition alive :: "particle \<Rightarrow> bool" where
  "alive p = (case pa_burst p of Some b \<Rightarrow> 0 < pa_opacity p | None \<Rightarrow> pa_progress p < 1)"

text \<open>The length of a trail is at most one above its limit before the first point is dropped.\<close>

definition push_trail :: "point \<Rightarrow> point list \<Rightarrow> point list" where
  "push_trail q tr = (let t = tr @ [q] in if TRAIL_LEN < length t then tl t else t)"

definition move_particle :: "(nat \<Rightarrow> rat \<Rightarrow> point option) \<Rightarrow> particle \<Rightarrow> particle" where
  "move_particle point_at p =
     (case pa_burst p of
        Some ((c, s), (x, y)) \<Rightarrow> p\<lparr>pa_burst := Some ((c, s), (x + c * pa_speed p, y + s * pa_speed p)), pa_opacity := pa_opacity p - 15 / 1000\<rparr>
      | None \<Rightarrow>
          let p1 = p\<lparr>pa_progress := pa_progress p + pa_speed p\<rparr>
          in case point_at (pa_link p) (pa_progress p1) of
               None \<Rightarrow> p1
             | Some q \<Rightarrow> p1\<lparr>pa_trail := push_trail q (pa_trail p1)\<rparr>)"

definition age_wave :: "shockwave \<Rightarrow> shockwave" where
  "age_wave w = w\<lparr>sw_radius := sw_radius w + 15 / 10, sw_opacity := sw_opacity w - 5 / 1000\<rparr>"

definition wave_shown :: "shockwave \<Rightarrow> bool" where
  "wave_shown w = (\<not> (sw_opacity w \<le> 0 \<or> 80 < sw_radius w))"

definition animate_frame :: "randoms \<Rightarrow> (nat \<Rightarrow> rat \<Rightarrow> point option) \<Rightarrow> flow \<Rightarrow> canvas \<Rightarrow> canvas" where
  "animate_frame rnd point_at fl s =
     (let s1 = spawn_frame rnd fl s; ps = map (move_particle point_at) (filter alive (cv_particles s1))
      in s1\<lparr>cv_particles := ps, cv_shockwaves := filter wave_shown (map age_wave (cv_shockwaves s1)), cv_count := length ps\<rparr>)"

text \<open>The components at the ends of the lit links, once each, and twenty bursts from the middle of each of them.\<close>

definition active_components :: "string list \<Rightarrow> string list" where
  "active_components ids =
     fold (\<lambda>i acc. case LINK_MAP i of Some l \<Rightarrow> set_add (lk_target l) (set_add (lk_source l) acc) | None \<Rightarrow> acc) ids []"

definition burst_particle :: "randoms \<Rightarrow> (nat \<Rightarrow> point) \<Rightarrow> system_component \<Rightarrow> box \<Rightarrow> nat \<Rightarrow> particle \<times> nat" where
  "burst_particle rnd direction comp' r k =
     (let (col, k1) = shiftColor rnd (k + 1) (kindBorder (sc_kind comp'))
      in (\<lparr>pa_link = 0, pa_progress = 0, pa_speed = 2 / 100 + rnd k * (3 / 100), pa_color = col, pa_radius = 15 / 10,
           pa_opacity = 6 / 10, pa_trail = [], pa_burst = Some (direction k1, (bx_x r + bx_w r / 2, bx_y r + bx_h r / 2))\<rparr>, k1 + 1))"

fun bursts :: "randoms \<Rightarrow> (nat \<Rightarrow> point) \<Rightarrow> system_component \<Rightarrow> box \<Rightarrow> nat \<Rightarrow> nat \<Rightarrow> particle list \<times> nat" where
  "bursts rnd direction c r 0 k = ([], k)"
| "bursts rnd direction c r (Suc n) k =
     (let (p, k1) = burst_particle rnd direction c r k; (ps, k2) = bursts rnd direction c r n k1 in (p # ps, k2))"

definition burst_component ::
    "randoms \<Rightarrow> (nat \<Rightarrow> point) \<Rightarrow> drag_offsets \<Rightarrow> layout_mode \<Rightarrow> string \<Rightarrow> canvas \<Rightarrow> canvas" where
  "burst_component rnd direction offsets mode cid s =
     (case COMP_MAP cid of
        None \<Rightarrow> s
      | Some c \<Rightarrow> let (ps, k) = bursts rnd direction c (compRect c offsets mode) 20 (cv_pos s)
                  in s\<lparr>cv_particles := cv_particles s @ ps, cv_pos := k\<rparr>)"

definition spawnBurstParticles ::
    "randoms \<Rightarrow> (nat \<Rightarrow> point) \<Rightarrow> drag_offsets \<Rightarrow> layout_mode \<Rightarrow> string list \<Rightarrow> canvas \<Rightarrow> canvas" where
  "spawnBurstParticles rnd direction offsets mode ids s =
     fold (burst_component rnd direction offsets mode) (active_components ids) s"

text \<open>\<open>handleScenarioChange\<close> runs in the closure of the last render: \<open>ids\<close> are the links lit before the change.\<close>

definition scenario_changed ::
    "randoms \<Rightarrow> (nat \<Rightarrow> point) \<Rightarrow> drag_offsets \<Rightarrow> layout_mode \<Rightarrow> string list \<Rightarrow> canvas \<Rightarrow> canvas" where
  "scenario_changed rnd direction offsets mode ids s =
     (let s1 = spawnBurstParticles rnd direction offsets mode ids s
      in s1\<lparr>cv_particles := filter (\<lambda>p. pa_burst p \<noteq> None) (cv_particles s1)\<rparr>)"

definition shock_of :: "drag_offsets \<Rightarrow> layout_mode \<Rightarrow> system_component \<Rightarrow> shockwave" where
  "shock_of offsets mode c =
     (let r = compRect c offsets mode
      in \<lparr>sw_x = bx_x r + bx_w r / 2, sw_y = bx_y r + bx_h r / 2, sw_radius = 10, sw_opacity = 4 / 10\<rparr>)"

text \<open>The events of the canvas; the controls may change between frames, and the loop then starts anew.\<close>

datatype canvas_event =
    Frame flow
  | LoopRestarted
  | ScenarioChanged drag_offsets layout_mode "string list"
  | LayoutChanged
  | ShocksAdded drag_offsets layout_mode "system_component list"

fun canvas_step :: "randoms \<Rightarrow> (nat \<Rightarrow> point) \<Rightarrow> (nat \<Rightarrow> rat \<Rightarrow> point option) \<Rightarrow> canvas \<Rightarrow> canvas_event \<Rightarrow> canvas" where
  "canvas_step rnd direction point_at s (Frame fl) = animate_frame rnd point_at fl s"
| "canvas_step rnd direction point_at s LoopRestarted = s\<lparr>cv_spawnAcc := 0\<rparr>"
| "canvas_step rnd direction point_at s (ScenarioChanged offsets mode ids) = scenario_changed rnd direction offsets mode ids s"
| "canvas_step rnd direction point_at s LayoutChanged = s\<lparr>cv_particles := []\<rparr>"
| "canvas_step rnd direction point_at s (ShocksAdded offsets mode cs) =
     s\<lparr>cv_shockwaves := cv_shockwaves s @ map (shock_of offsets mode) cs\<rparr>"

definition canvas_start :: canvas where
  "canvas_start = \<lparr>cv_particles = [], cv_shockwaves = [], cv_spawnAcc = 0, cv_count = 0, cv_pos = 0\<rparr>"

section \<open>How many particles there are\<close>

definition flowing :: "particle list \<Rightarrow> particle list" where
  "flowing ps = filter (\<lambda>p. pa_burst p = None) ps"

definition burst_fresh :: "rat \<Rightarrow> particle \<Rightarrow> bool" where
  "burst_fresh top_opacity p = (pa_burst p = None \<or> pa_opacity p \<le> top_opacity)"

definition canvas_inv :: "canvas \<Rightarrow> bool" where
  "canvas_inv s =
     (length (flowing (cv_particles s)) \<le> MAX_PARTICLES
      \<and> (\<forall>p \<in> set (cv_particles s). length (pa_trail p) \<le> TRAIL_LEN \<and> burst_fresh (6 / 10) p))"

lemma spawn_plain: "pa_burst (fst (spawn rnd fl k i amb)) = None \<and> pa_trail (fst (spawn rnd fl k i amb)) = []"
  by (simp add: spawn_def Let_def split: prod.split)

text \<open>A frame only adds particles of the links, and none once there are as many as allowed.\<close>

lemma spawn_link_adds:
  obtains "cv_particles (spawn_link rnd fl i s) = cv_particles s"
  | p where "cv_particles (spawn_link rnd fl i s) = cv_particles s @ [p]" "pa_burst p = None" "pa_trail p = []" "length (cv_particles s) < MAX_PARTICLES"
proof (cases "rnd (cv_pos s) < spawn_chance fl (ALL_LINKS ! i) \<and> length (cv_particles s) < MAX_PARTICLES")
  case True
  let ?r = "spawn rnd fl (cv_pos s + 1) i (lk_id (ALL_LINKS ! i) \<notin> set (fl_links fl))"
  have "cv_particles (spawn_link rnd fl i s) = cv_particles s @ [fst ?r]"
    using True by (simp add: spawn_link_def Let_def split: prod.split)
  then show ?thesis by (rule that(2)) (simp_all add: spawn_plain True [THEN conjunct2])
next
  case False
  then have "cv_particles (spawn_link rnd fl i s) = cv_particles s" by (auto simp: spawn_link_def Let_def)
  then show ?thesis by (rule that(1))
qed

definition spawned :: "particle list \<Rightarrow> particle list \<Rightarrow> bool" where
  "spawned ps qs =
     (\<exists>new. qs = ps @ new \<and> (\<forall>p \<in> set new. pa_burst p = None \<and> pa_trail p = []) \<and> (new = [] \<or> length qs \<le> MAX_PARTICLES))"

lemma spawned_refl: "spawned ps ps"
  by (auto simp: spawned_def)

lemma spawned_snoc: "spawned ps qs \<Longrightarrow> pa_burst p = None \<Longrightarrow> pa_trail p = [] \<Longrightarrow> length qs < MAX_PARTICLES \<Longrightarrow> spawned ps (qs @ [p])"
  unfolding spawned_def by (elim exE conjE) (auto intro!: exI [of _ "new @ [p]" for new])

lemma spawn_frame_spawned: "spawned (cv_particles s) (cv_particles (spawn_frame rnd fl s))"
proof -
  have "spawned ps (cv_particles s) \<Longrightarrow> spawned ps (cv_particles (fold (spawn_link rnd fl) is s))" for ps "is" s
  proof (induction "is" arbitrary: s)
    case (Cons i "is")
    have "spawned ps (cv_particles (spawn_link rnd fl i s))"
      by (rule spawn_link_adds [of rnd fl i s]) (simp_all add: Cons.prems spawned_snoc)
    then show ?case using Cons.IH by simp
  qed simp
  then show ?thesis by (simp add: spawn_frame_def Let_def spawned_refl)
qed

lemma move_keeps: "pa_burst (move_particle f p) = None \<longleftrightarrow> pa_burst p = None"
  by (auto simp: move_particle_def Let_def split: option.split prod.split)

lemma move_trail: "length (pa_trail p) \<le> TRAIL_LEN \<Longrightarrow> length (pa_trail (move_particle f p)) \<le> TRAIL_LEN"
  by (auto simp: move_particle_def push_trail_def Let_def split: option.split prod.split)

lemma move_fresh: "burst_fresh a p \<Longrightarrow> burst_fresh (a - 15 / 1000) (move_particle f p)"
  by (auto simp: burst_fresh_def move_particle_def Let_def split: option.split prod.split)

lemma frame_particles:
  "cv_particles (animate_frame rnd f fl s) = map (move_particle f) (filter alive (cv_particles (spawn_frame rnd fl s)))"
  by (simp add: animate_frame_def Let_def)

lemma flowing_filter: "length (flowing (map (move_particle f) (filter P ps))) \<le> length (flowing ps)"
  by (induction ps) (auto simp: flowing_def move_keeps)

lemma flowing_spawned: "spawned ps qs \<Longrightarrow> length (flowing ps) \<le> MAX_PARTICLES \<Longrightarrow> length (flowing qs) \<le> MAX_PARTICLES"
  unfolding spawned_def flowing_def using length_filter_le [of "\<lambda>p. pa_burst p = None" qs]
  by (elim exE conjE disjE) (auto simp del: length_filter_le)

lemma spawned_member: "spawned ps qs \<Longrightarrow> p \<in> set qs \<Longrightarrow> p \<in> set ps \<or> pa_burst p = None \<and> pa_trail p = []"
  by (auto simp: spawned_def)

lemma burst_particle_fresh:
  "pa_burst (fst (burst_particle rnd direction c r k)) \<noteq> None \<and> pa_trail (fst (burst_particle rnd direction c r k)) = []
    \<and> pa_opacity (fst (burst_particle rnd direction c r k)) = 6 / 10"
  by (simp add: burst_particle_def Let_def split: prod.split)

lemma bursts_fresh: "p \<in> set (fst (bursts rnd direction c r n k)) \<Longrightarrow> pa_burst p \<noteq> None \<and> pa_trail p = [] \<and> pa_opacity p = 6 / 10"
proof (induction n arbitrary: k)
  case (Suc n)
  let ?b = "burst_particle rnd direction c r k"
  have "fst (bursts rnd direction c r (Suc n) k) = fst ?b # fst (bursts rnd direction c r n (snd ?b))"
    by (simp split: prod.split)
  then have "p = fst ?b \<or> p \<in> set (fst (bursts rnd direction c r n (snd ?b)))" using Suc.prems by simp
  then show ?case using Suc.IH burst_particle_fresh by blast
qed simp

definition with_bursts :: "particle list \<Rightarrow> particle list \<Rightarrow> bool" where
  "with_bursts ps qs = (\<exists>new. qs = ps @ new \<and> (\<forall>p \<in> set new. pa_burst p \<noteq> None \<and> pa_trail p = [] \<and> pa_opacity p = 6 / 10))"

lemma burst_component_adds: "with_bursts ps (cv_particles s) \<Longrightarrow> with_bursts ps (cv_particles (burst_component rnd direction off mode cid s))"
proof (cases "COMP_MAP cid")
  case (Some c)
  assume "with_bursts ps (cv_particles s)"
  then obtain new where new: "cv_particles s = ps @ new" "\<forall>p \<in> set new. pa_burst p \<noteq> None \<and> pa_trail p = [] \<and> pa_opacity p = 6 / 10"
    unfolding with_bursts_def by blast
  let ?b = "bursts rnd direction c (compRect c off mode) 20 (cv_pos s)"
  have "cv_particles (burst_component rnd direction off mode cid s) = ps @ (new @ fst ?b)"
    by (simp add: burst_component_def Some new(1) split: prod.split)
  moreover have "\<forall>p \<in> set (new @ fst ?b). pa_burst p \<noteq> None \<and> pa_trail p = [] \<and> pa_opacity p = 6 / 10" using new(2) bursts_fresh by auto
  ultimately show ?thesis unfolding with_bursts_def by blast
qed (simp add: burst_component_def)

lemma spawnBurst_adds: "with_bursts (cv_particles s) (cv_particles (spawnBurstParticles rnd direction off mode ids s))"
proof -
  have "with_bursts ps (cv_particles s) \<Longrightarrow> with_bursts ps (cv_particles (fold (burst_component rnd direction off mode) cs s))" for ps cs s
    by (induction cs arbitrary: s) (simp_all add: burst_component_adds)
  moreover have "with_bursts (cv_particles s) (cv_particles s)" by (simp add: with_bursts_def)
  ultimately show ?thesis by (simp add: spawnBurstParticles_def)
qed

lemma animate_frame_inv: "canvas_inv s \<Longrightarrow> canvas_inv (animate_frame rnd f fl s)"
proof -
  assume s: "canvas_inv s"
  let ?qs = "cv_particles (spawn_frame rnd fl s)"
  note sp = spawn_frame_spawned [of s rnd fl]
  have "length (flowing ?qs) \<le> MAX_PARTICLES" using flowing_spawned [OF sp] s by (simp add: canvas_inv_def)
  then have "length (flowing (cv_particles (animate_frame rnd f fl s))) \<le> MAX_PARTICLES"
    unfolding frame_particles using flowing_filter le_trans by blast
  moreover have "length (pa_trail p) \<le> TRAIL_LEN \<and> burst_fresh (6 / 10) p" if "p \<in> set (cv_particles (animate_frame rnd f fl s))" for p
  proof -
    from that obtain q where q: "p = move_particle f q" "q \<in> set ?qs" unfolding frame_particles by auto
    then have "length (pa_trail q) \<le> TRAIL_LEN" "burst_fresh (6 / 10) q"
      using spawned_member [OF sp q(2)] s by (auto simp: canvas_inv_def burst_fresh_def)
    then show ?thesis using move_trail [of q f] move_fresh [of "6 / 10" q f] q(1) by (auto simp: burst_fresh_def)
  qed
  ultimately show ?thesis by (simp add: canvas_inv_def)
qed

lemma canvas_step_inv: "canvas_inv s \<Longrightarrow> canvas_inv (canvas_step rnd direction f s e)"
proof (cases e)
  case (Frame fl)
  assume "canvas_inv s"
  then show ?thesis by (simp add: Frame animate_frame_inv)
next
  case (ScenarioChanged off mode ids)
  assume s: "canvas_inv s"
  obtain new where "cv_particles (spawnBurstParticles rnd direction off mode ids s) = cv_particles s @ new"
    "\<forall>p \<in> set new. pa_burst p \<noteq> None \<and> pa_trail p = [] \<and> pa_opacity p = 6 / 10"
    using spawnBurst_adds [of s rnd direction off mode ids] unfolding with_bursts_def by blast
  then have "list_all (\<lambda>p. length (pa_trail p) \<le> TRAIL_LEN \<and> burst_fresh (6 / 10) p)
      (cv_particles (spawnBurstParticles rnd direction off mode ids s))"
    using s by (auto simp: canvas_inv_def burst_fresh_def list_all_iff)
  moreover have "flowing (cv_particles (scenario_changed rnd direction off mode ids s)) = []"
    by (auto simp: flowing_def scenario_changed_def Let_def filter_empty_conv)
  ultimately show ?thesis by (simp add: ScenarioChanged canvas_inv_def scenario_changed_def Let_def list_all_iff)
qed (auto simp: canvas_inv_def flowing_def)

interpretation canvas: machine "canvas_step rnd direction f" canvas_inv
  for rnd direction f
  by unfold_locales (rule canvas_step_inv)

lemma canvas_start_inv: "canvas_inv canvas_start"
  by (simp add: canvas_inv_def canvas_start_def flowing_def)

lemma frames_fade:
  assumes "canvas_inv s" "\<forall>p \<in> set (cv_particles s). burst_fresh a p"
  shows "\<forall>p \<in> set (cv_particles (run (canvas_step rnd direction f) s (map Frame fls))). burst_fresh (a - of_nat (length fls) * (15 / 1000)) p"
  using assms
proof (induction fls arbitrary: s a)
  case (Cons fl fls)
  have "burst_fresh (a - 15 / 1000) p" if "p \<in> set (cv_particles (animate_frame rnd f fl s))" for p
  proof -
    from that obtain q where q: "p = move_particle f q" "q \<in> set (cv_particles (spawn_frame rnd fl s))" unfolding frame_particles by auto
    then have "burst_fresh a q" using spawned_member [OF spawn_frame_spawned q(2)] Cons.prems(2) by (auto simp: burst_fresh_def)
    then show ?thesis using move_fresh q(1) by simp
  qed
  then have "\<forall>p \<in> set (cv_particles (run (canvas_step rnd direction f) (animate_frame rnd f fl s) (map Frame fls))).
    burst_fresh (a - 15 / 1000 - of_nat (length fls) * (15 / 1000)) p"
    using animate_frame_inv [OF Cons.prems(1)] by (intro Cons.IH) blast+
  moreover have "a - 15 / 1000 - of_nat (length fls) * (15 / 1000) = a - of_nat (length (fl # fls)) * (15 / 1000 :: rat)"
    by (simp add: field_simps)
  ultimately show ?case by (simp only: list.map run_simps canvas_step.simps)
qed simp

lemma last_frame:
  assumes "\<forall>p \<in> set (cv_particles s). burst_fresh 0 p" "canvas_inv s"
  shows "\<forall>p \<in> set (cv_particles (animate_frame rnd f fl s)). pa_burst p = None"
proof
  fix p
  assume "p \<in> set (cv_particles (animate_frame rnd f fl s))"
  then obtain q where q: "p = move_particle f q" "q \<in> set (cv_particles (spawn_frame rnd fl s))" "alive q" unfolding frame_particles by auto
  have "pa_burst q = None"
    using spawned_member [OF spawn_frame_spawned q(2)] assms(1) q(3) by (auto simp: burst_fresh_def alive_def split: option.splits)
  then show "pa_burst p = None" using q(1) move_keeps by simp
qed

text \<open>C35. Whatever scenarios, layouts and alerts come between the frames, at most 800 particles flow along the links, each with
  a trail of at most twelve points; and the bursts of a change of scenario, which no limit holds back, are gone after
  forty-one frames, so that then there are at most 800 particles in all.\<close>

theorem particles_bounded:
  assumes "length fls = 40" "s = run (canvas_step rnd direction f) canvas_start es" "s' = run (canvas_step rnd direction f) s (map Frame (fls @ [fl]))"
  shows "length (flowing (cv_particles s)) \<le> 800 \<and> list_all (\<lambda>p. length (pa_trail p) \<le> 12) (cv_particles s)
    \<and> list_all (\<lambda>p. pa_burst p = None) (cv_particles s') \<and> length (cv_particles s') \<le> 800"
proof -
  have s: "canvas_inv s" unfolding assms(2) by (rule canvas.run_inv [OF canvas_start_inv])
  let ?t = "run (canvas_step rnd direction f) s (map Frame fls)"
  have "\<forall>p \<in> set (cv_particles ?t). burst_fresh (6 / 10 - of_nat (length fls) * (15 / 1000)) p"
    using s by (intro frames_fade) (auto simp: canvas_inv_def)
  then have t: "\<forall>p \<in> set (cv_particles ?t). burst_fresh 0 p" by (simp add: assms(1))
  have ti: "canvas_inv ?t" by (rule canvas.run_inv [OF s])
  have s': "s' = animate_frame rnd f fl ?t" unfolding assms(3) by (simp add: run_def)
  then have "\<forall>p \<in> set (cv_particles s'). pa_burst p = None" using last_frame [OF t ti] by simp
  moreover have "canvas_inv s'" unfolding s' by (rule animate_frame_inv [OF ti])
  ultimately show ?thesis using s by (auto simp: canvas_inv_def flowing_def list_all_iff MAX_PARTICLES_def TRAIL_LEN_def cong: filter_cong)
qed

definition example_flow :: flow where
  "example_flow = \<lparr>fl_links = [''browser-chi''], fl_rate = \<lambda>l. 120, fl_speed = 1, fl_density = 1\<rparr>"

definition example_canvas :: "canvas_event list \<Rightarrow> canvas" where
  "example_canvas es = run (canvas_step (\<lambda>i. 0) (\<lambda>k. (1, 0)) (\<lambda>i t. Some (t, t))) canvas_start es"

lemma particles_bounded_witness:
  "let s = example_canvas [ScenarioChanged [] Vertical [''browser-chi'']];
       s' = example_canvas (ScenarioChanged [] Vertical [''browser-chi''] # map Frame (replicate 41 example_flow))
   in length (flowing (cv_particles s)) \<le> 800 \<and> list_all (\<lambda>p. length (pa_trail p) \<le> 12) (cv_particles s)
    \<and> list_all (\<lambda>p. pa_burst p = None) (cv_particles s') \<and> length (cv_particles s') \<le> 800"
proof -
  have r: "replicate 41 example_flow = replicate 40 example_flow @ [example_flow]"
    using replicate_append_same [of 40 example_flow] by (simp add: eval_nat_numeral)
  show ?thesis unfolding Let_def
    by (rule particles_bounded [of "replicate 40 example_flow" _ "\<lambda>i. 0" "\<lambda>k. (1, 0)" "\<lambda>i t. Some (t, t)" "[ScenarioChanged [] Vertical [''browser-chi'']]"])
      (simp_all only: r example_canvas_def length_replicate refl run_simps)
qed

section \<open>Shifted colors\<close>

lemma hex_char_value: "d < 16 \<Longrightarrow> hex_value (hex_char d) = d"
proof -
  have "\<forall>d \<in> set [0..<16]. hex_value (hex_char d) = d" by code_simp
  then show "d < 16 \<Longrightarrow> hex_value (hex_char d) = d" by simp
qed

lemma parse_hex2: "0 \<le> v \<Longrightarrow> v \<le> 255 \<Longrightarrow> parse_hex (hex2 v) = v"
proof -
  assume v: "0 \<le> v" "v \<le> 255"
  then have "nat v div 16 < 16" "nat v mod 16 < 16" by auto
  then have "parse_hex (hex2 v) = 16 * int (nat v div 16) + int (nat v mod 16)"
    by (simp add: parse_hex_def hex2_def hex_char_value)
  also have "\<dots> = int (nat v)" by (metis mult_div_mod_eq of_nat_add of_nat_mult of_nat_numeral)
  finally show ?thesis using v by simp
qed

lemma channel_range: "0 \<le> channel v" "channel v \<le> 255"
  by (auto simp: channel_def)

lemma hexToRgb_rgbToHex: "hexToRgb (rgbToHex r g b) = (channel r, channel g, channel b)"
proof -
  have "length (hex2 v) = 2" for v by (simp add: hex2_def)
  then show ?thesis
    by (simp add: hexToRgb_def rgbToHex_def parse_hex2 channel_range)
qed

lemma offset_small: "0 \<le> x \<Longrightarrow> x < 1 \<Longrightarrow> \<bar>offset_of x\<bar> \<le> 15"
  by (simp add: offset_of_def js_round_def abs_le_iff) linarith

text \<open>The color of a particle is read back from its hexadecimal form as three channels between 0 and 255, each within 15
  of the channel of the category's color it was shifted from.\<close>

theorem shifted_color_near:
  assumes "\<And>i. 0 \<le> rnd i \<and> rnd i < 1"
    and "hexToRgb hex = (r, g, b)" "0 \<le> r \<and> r \<le> 255" "0 \<le> g \<and> g \<le> 255" "0 \<le> b \<and> b \<le> 255"
    and "hexToRgb (fst (shiftColor rnd k hex)) = (r', g', b')"
  shows "list_all (\<lambda>(c, c'). 0 \<le> c' \<and> c' \<le> 255 \<and> \<bar>c' - c\<bar> \<le> 15) [(r, r'), (g, g'), (b, b')]"
proof -
  have near: "\<bar>channel (c + offset_of (rnd i)) - c\<bar> \<le> 15" if "0 \<le> c \<and> c \<le> 255" for c i
    using offset_small [of "rnd i"] assms(1) [of i] that by (auto simp: channel_def abs_le_iff)
  show ?thesis using assms(3-6) near channel_range by (auto simp: shiftColor_def assms(2) hexToRgb_rgbToHex)
qed

lemma shifted_color_near_witness:
  "list_all (\<lambda>(c, c'). 0 \<le> c' \<and> c' \<le> 255 \<and> \<bar>c' - c\<bar> \<le> 15) [(249 :: int, 234), (115, 100), (22, 7)]"
  by (rule shifted_color_near [of "\<lambda>i. 0" "''#f97316''" 249 115 22 0 234 100 7]) (simp_all, code_simp+)

end
