(* ===== verification/StatusBar.thy ===== *)
theory StatusBar
  imports MetricHistory
begin

text \<open>
  The header of the metrics page (\<open>components/observability/StatusHeader.tsx\<close>): freshness and uptime labels, the figures
  with their trends, flashes and sparklines, and the alert badge. Colors are the slots of the theme.
\<close>

datatype theme_color =
    ErrorMain | WarningMain | SuccessMain | PrimaryMain | InfoMain | Grey500 | TextPrimary | TextSecondary | TextDisabled

definition LATENCY_AMBER_THRESHOLD :: jsnum where "LATENCY_AMBER_THRESHOLD = Num 200"
definition LATENCY_RED_THRESHOLD :: jsnum where "LATENCY_RED_THRESHOLD = Num 500"
definition DB_POOL_FALLBACK_MAX :: jsnum where "DB_POOL_FALLBACK_MAX = Num 10"
definition SPARKLINE_SAMPLE_COUNT :: nat where "SPARKLINE_SAMPLE_COUNT = 20"
definition TREND_LOOKBACK_TICKS :: nat where "TREND_LOOKBACK_TICKS = 5"
definition TREND_THRESHOLD_PERCENT :: jsnum where "TREND_THRESHOLD_PERCENT = Num 5"
definition STALE_AMBER_SECONDS :: jsnum where "STALE_AMBER_SECONDS = Num 10"
definition STALE_RED_SECONDS :: jsnum where "STALE_RED_SECONDS = Num 30"

section \<open>Numbers in text\<close>

text \<open>\<open>x.toFixed(d)\<close>, the larger neighbor on a tie, by magnitude.\<close>

fun to_fixed :: "nat \<Rightarrow> jsnum \<Rightarrow> string" where
  "to_fixed d NaN = ''NaN''"
| "to_fixed d (Num r) =
     (let n = nat \<lfloor>\<bar>r\<bar> * 10 ^ d + 1 / 2\<rfloor>
      in (if r < 0 then ''-'' else []) @ show_nat (n div 10 ^ d)
         @ (if d = 0 then [] else CHR ''.'' # pad_start d (CHR ''0'') (show_nat (n mod 10 ^ d))))"

text \<open>Division by a number that the callers have found to differ from zero.\<close>

fun js_divide :: "jsnum \<Rightarrow> jsnum \<Rightarrow> jsnum" where
  "js_divide (Num a) (Num b) = Num (a / b)"
| "js_divide _ _ = NaN"

fun js_abs :: "jsnum \<Rightarrow> jsnum" where
  "js_abs (Num a) = Num \<bar>a\<bar>"
| "js_abs NaN = NaN"

section \<open>Age and uptime\<close>

text \<open>Whole seconds since an instant, at least zero; \<open>None\<close> stands for NaN.\<close>

definition seconds_since :: "js_env \<Rightarrow> int \<Rightarrow> string \<Rightarrow> int option" where
  "seconds_since env now ts = map_option (\<lambda>t. max 0 ((now - t) div 1000)) (date_parse env ts)"

definition num_of :: "int option \<Rightarrow> jsnum" where
  "num_of n = (case n of None \<Rightarrow> NaN | Some i \<Rightarrow> num_int i)"

text \<open>\<open>LastUpdatedIndicator\<close> shows the age of the sample its reference held when it was rendered; its effect then takes the
  sample of this rendering.\<close>

definition render_updated :: "js_env \<Rightarrow> string option \<Rightarrow> int \<Rightarrow> metric_snapshot option \<Rightarrow> jsnum option \<times> string option" where
  "render_updated env lastTimestamp now snapshot =
     (map_option (\<lambda>s. case lastTimestamp of
          Some ts \<Rightarrow> if ts = [] then 0 else num_of (seconds_since env now ts)
        | None \<Rightarrow> 0) snapshot,
      map_option ms_timestamp snapshot)"

definition resolveFreshnessColor :: "jsnum \<Rightarrow> theme_color" where
  "resolveFreshnessColor seconds =
     (if STALE_RED_SECONDS < seconds then ErrorMain else if STALE_AMBER_SECONDS < seconds then WarningMain else TextDisabled)"

text \<open>The units of an uptime, as \<open>formatUptime\<close> prints them.\<close>

definition uptime_units :: "int \<Rightarrow> (int \<times> char) list" where
  "uptime_units diffS =
     (if diffS < 60 then [(diffS, CHR ''s'')]
      else let m = diffS div 60
           in if m < 60 then [(m, CHR ''m''), (diffS mod 60, CHR ''s'')]
              else let h = m div 60
                   in if h < 24 then [(h, CHR ''h''), (m mod 60, CHR ''m'')]
                      else let d = h div 24 in [(d, CHR ''d''), (h mod 24, CHR ''h'')])"

definition units_text :: "(int \<times> char) list \<Rightarrow> string" where
  "units_text us = join_with '' '' (map (\<lambda>(n, u). show_int n @ [u]) us)"

definition formatUptime :: "js_env \<Rightarrow> int \<Rightarrow> string \<Rightarrow> string" where
  "formatUptime env now timestamp =
     (case seconds_since env now timestamp of Some diffS \<Rightarrow> units_text (uptime_units diffS) | None \<Rightarrow> ''NaNd NaNh'')"

definition uptime_label :: "js_env \<Rightarrow> int \<Rightarrow> metric_snapshot option \<Rightarrow> string" where
  "uptime_label env now snapshot = (case snapshot of Some s \<Rightarrow> formatUptime env now (ms_timestamp s) | None \<Rightarrow> ''--'')"

section \<open>Trends\<close>

datatype trend_arrow = Flat | UpArrow | DownArrow

record trend_info =
  tr_arrow :: trend_arrow
  tr_color :: theme_color

definition buildTrendResult :: "bool \<Rightarrow> bool \<Rightarrow> trend_info" where
  "buildTrendResult isIncrease invertColors =
     (let upColor = (if invertColors then ErrorMain else WarningMain)
      in if isIncrease then \<lparr>tr_arrow = UpArrow, tr_color = upColor\<rparr> else \<lparr>tr_arrow = DownArrow, tr_color = SuccessMain\<rparr>)"

definition change_pct :: "jsnum \<Rightarrow> jsnum \<Rightarrow> jsnum" where
  "change_pct current past =
     (if js_eq past 0 then (if 0 < current then Num 100 else 0) else js_divide (current - past) (js_abs past) * Num 100)"

definition computeTrend :: "metric_snapshot list \<Rightarrow> (metric_snapshot \<Rightarrow> jsnum) \<Rightarrow> bool \<Rightarrow> trend_info" where
  "computeTrend history accessor invertColors =
     (let current = accessor (history ! (length history - 1));
          past = accessor (history ! (length history - 1 - TREND_LOOKBACK_TICKS));
          changePct = change_pct current past
      in if js_abs changePct \<le> TREND_THRESHOLD_PERCENT then \<lparr>tr_arrow = Flat, tr_color = TextDisabled\<rparr>
         else buildTrendResult (0 < changePct) invertColors)"

definition useTrend :: "metric_snapshot list \<Rightarrow> (metric_snapshot \<Rightarrow> jsnum) \<Rightarrow> bool \<Rightarrow> trend_info option" where
  "useTrend history accessor invertColors =
     (if length history < TREND_LOOKBACK_TICKS + 1 then None else Some (computeTrend history accessor invertColors))"

section \<open>Flashes\<close>

datatype flash_direction = FlashUp | FlashDown

text \<open>\<open>fs_dep\<close> is the value the effect last ran for, \<open>None\<close> before the first time.\<close>

record flash_state =
  fs_dep :: "jsnum option option"
  fs_prev :: "jsnum option"
  fs_flash :: "flash_direction option"
  fs_timer :: bool

datatype flash_event =
    ValueShown "jsnum option"
  | FlashOver

definition flash_start :: flash_state where
  "flash_start = \<lparr>fs_dep = None, fs_prev = None, fs_flash = None, fs_timer = False\<rparr>"

text \<open>The effect runs again only for another value; the clean-up of its last run takes the timer away first.\<close>

definition flash_effect :: "flash_state \<Rightarrow> jsnum option \<Rightarrow> flash_state" where
  "flash_effect s currentRaw =
     (let s1 = s\<lparr>fs_dep := Some currentRaw, fs_timer := False\<rparr>
      in case (currentRaw, fs_prev s1) of
           (Some v, Some prev) \<Rightarrow>
             if js_eq v prev then s1
             else s1\<lparr>fs_prev := Some v, fs_flash := Some (if prev < v then FlashUp else FlashDown), fs_timer := True\<rparr>
         | _ \<Rightarrow> s1\<lparr>fs_prev := currentRaw\<rparr>)"

fun flash_step :: "flash_state \<Rightarrow> flash_event \<Rightarrow> flash_state" where
  "flash_step s (ValueShown v) = (if fs_dep s = Some v then s else flash_effect s v)"
| "flash_step s FlashOver = (if fs_timer s then s\<lparr>fs_flash := None, fs_timer := False\<rparr> else s)"

section \<open>Sparklines\<close>

fun js_min_list :: "jsnum list \<Rightarrow> jsnum" where
  "js_min_list [] = NaN"
| "js_min_list (x # xs) = foldl js_min x xs"

fun js_max_list :: "jsnum list \<Rightarrow> jsnum" where
  "js_max_list [] = NaN"
| "js_max_list (x # xs) = foldl js_max x xs"

text \<open>Both are only applied to lists that are not empty.\<close>

definition sparkline_range :: "jsnum list \<Rightarrow> jsnum" where
  "sparkline_range values = (let d = js_max_list values - js_min_list values in if d = NaN \<or> d = Num 0 then Num 1 else d)"

definition sparkline_points :: "jsnum list \<Rightarrow> (jsnum \<times> jsnum) list" where
  "sparkline_points values =
     (let mn = js_min_list values; range = sparkline_range values; stepX = 60 / (of_nat (length values) - 1)
      in map (\<lambda>(i, v). (Num (of_nat i * stepX), Num 18 - js_divide (v - mn) range * Num 16 + Num 2)) (enumerate 0 values))"

definition buildSparklinePoints :: "jsnum list \<Rightarrow> string" where
  "buildSparklinePoints values =
     join_with '' '' (map (\<lambda>(x, y). to_fixed 1 x @ '','' @ to_fixed 1 y) (sparkline_points values))"

definition InlineSparkline :: "jsnum list \<Rightarrow> string option" where
  "InlineSparkline values = (if length values < 2 then None else Some (buildSparklinePoints values))"

definition useLast20Values :: "metric_snapshot list \<Rightarrow> (metric_snapshot \<Rightarrow> jsnum) \<Rightarrow> jsnum list" where
  "useLast20Values history accessor = map accessor (slice_last SPARKLINE_SAMPLE_COUNT history)"

section \<open>The figures\<close>

definition formatKpiValue :: "jsnum option \<Rightarrow> nat \<Rightarrow> string \<Rightarrow> string" where
  "formatKpiValue raw decimals suffix' = (case raw of None \<Rightarrow> ''--'' | Some v \<Rightarrow> to_fixed decimals v @ suffix')"

definition resolveLatencyColor :: "jsnum \<Rightarrow> theme_color" where
  "resolveLatencyColor valueMs =
     (if LATENCY_RED_THRESHOLD < valueMs then ErrorMain else if LATENCY_AMBER_THRESHOLD < valueMs then WarningMain else SuccessMain)"

record stat_card =
  kp_label :: string
  kp_value :: string
  kp_color :: "theme_color option"
  kp_sparkline :: "string option"
  kp_raw :: "jsnum option"
  kp_trend :: "trend_info option"

definition db_pool_max :: "metric_snapshot option \<Rightarrow> jsnum" where
  "db_pool_max snapshot =
     (case snapshot of Some s \<Rightarrow> if dbPoolOpen s = Num 0 \<or> dbPoolOpen s = NaN then DB_POOL_FALLBACK_MAX else dbPoolOpen s
      | None \<Rightarrow> DB_POOL_FALLBACK_MAX)"

definition or_zero :: "(metric_snapshot \<Rightarrow> jsnum) \<Rightarrow> metric_snapshot option \<Rightarrow> jsnum" where
  "or_zero f snapshot = (case snapshot of Some s \<Rightarrow> f s | None \<Rightarrow> 0)"

definition KpiSection :: "metric_snapshot option \<Rightarrow> metric_snapshot list \<Rightarrow> stat_card list" where
  "KpiSection snapshot history =
     (let latencyP99 = or_zero httpLatencyP99Ms snapshot; dbActive = or_zero dbPoolInUse snapshot
      in [\<lparr>kp_label = ''THROUGHPUT'', kp_value = formatKpiValue (map_option httpRequestRate snapshot) 1 '' req/s'',
           kp_color = None, kp_sparkline = InlineSparkline (useLast20Values history httpRequestRate),
           kp_raw = map_option httpRequestRate snapshot, kp_trend = useTrend history httpRequestRate False\<rparr>,
          \<lparr>kp_label = ''LATENCY P99'', kp_value = formatKpiValue (Some latencyP99) 0 '' ms'',
           kp_color = Some (resolveLatencyColor latencyP99), kp_sparkline = None,
           kp_raw = Some latencyP99, kp_trend = useTrend history httpLatencyP99Ms True\<rparr>,
          \<lparr>kp_label = ''DB POOL'', kp_value = (if snapshot = None then ''--'' else show_num dbActive @ ''/'' @ show_num (db_pool_max snapshot)),
           kp_color = None, kp_sparkline = None, kp_raw = Some dbActive, kp_trend = None\<rparr>,
          \<lparr>kp_label = ''ERROR RATE'', kp_value = formatKpiValue (map_option totalErrorRate snapshot) 2 '' /s'',
           kp_color = (if 0 < or_zero totalErrorRate snapshot then Some ErrorMain else None), kp_sparkline = None,
           kp_raw = map_option totalErrorRate snapshot, kp_trend = useTrend history totalErrorRate True\<rparr>])"

definition AlertBadge :: "incident_event list \<Rightarrow> string option" where
  "AlertBadge events =
     (if events = [] then None
      else Some (show_nat (length events) @ '' alert'' @ (if 1 < length events then ''s'' else [])))"

section \<open>What the labels say\<close>

definition unit_seconds :: "char \<Rightarrow> int" where
  "unit_seconds u = (if u = CHR ''s'' then 1 else if u = CHR ''m'' then 60 else if u = CHR ''h'' then 3600 else 86400)"

definition units_total :: "(int \<times> char) list \<Rightarrow> int" where
  "units_total us = sum_list (map (\<lambda>(n, u). n * unit_seconds u) us)"

text \<open>An uptime of two units is the number of seconds rounded down to the smaller unit: it is never ahead, and less than
  one of its last unit behind.\<close>

theorem uptime_rounds_down:
  assumes "0 \<le> n"
  shows "let us = uptime_units n in units_total us \<le> n \<and> n < units_total us + unit_seconds (snd (last us))
    \<and> list_all (\<lambda>(k, u). 0 \<le> k) us"
proof -
  obtain q r where q: "n div 60 = q" "n mod 60 = r" by blast
  obtain q2 r2 where q2: "q div 60 = q2" "q mod 60 = r2" by blast
  obtain q3 r3 where q3: "q2 div 24 = q3" "q2 mod 24 = r3" by blast
  have e: "n = 60 * q + r" "q = 60 * q2 + r2" "q2 = 24 * q3 + r3"
    using mult_div_mod_eq [of 60 n] mult_div_mod_eq [of 60 q] mult_div_mod_eq [of 24 q2] unfolding q q2 q3 by simp_all
  have b: "0 \<le> q" "0 \<le> q2" "0 \<le> q3" "0 \<le> r" "r < 60" "0 \<le> r2" "r2 < 60" "0 \<le> r3" "r3 < 24"
    using assms unfolding q [symmetric] q2 [symmetric] q3 [symmetric] by simp_all
  have u: "uptime_units n = (if n < 60 then [(n, CHR ''s'')] else if q < 60 then [(q, CHR ''m''), (r, CHR ''s'')]
      else if q2 < 24 then [(q2, CHR ''h''), (r2, CHR ''m'')] else [(q3, CHR ''d''), (r3, CHR ''h'')])"
    unfolding uptime_units_def Let_def q q2 q3 ..
  have t: "units_total us \<le> n \<and> n < units_total us + unit_seconds (snd (last us)) \<and> list_all (\<lambda>(k, u). 0 \<le> k) us"
    if "us = [(n, CHR ''s'')] \<or> us = [(q, CHR ''m''), (r, CHR ''s'')] \<or> us = [(q2, CHR ''h''), (r2, CHR ''m'')]
      \<or> us = [(q3, CHR ''d''), (r3, CHR ''h'')]" for us
    using that assms e b by (elim disjE) (simp_all add: units_total_def unit_seconds_def)
  show ?thesis unfolding Let_def by (rule t) (simp add: u)
qed

lemma uptime_rounds_down_witness:
  "units_text (uptime_units 93784) = ''1d 2h'' \<and> (let us = uptime_units 93784 in units_total us \<le> 93784
    \<and> 93784 < units_total us + unit_seconds (snd (last us)) \<and> list_all (\<lambda>(k, u). 0 \<le> k) us)"
proof -
  have "units_text (uptime_units 93784) = ''1d 2h''" by code_simp
  moreover have "let us = uptime_units 93784 in units_total us \<le> 93784
    \<and> 93784 < units_total us + unit_seconds (snd (last us)) \<and> list_all (\<lambda>(k, u). 0 \<le> k) us"
    by (rule uptime_rounds_down) simp
  ultimately show ?thesis by (rule conjI)
qed

text \<open>The uptime of the header is not how long the service has been up: it is the age of the last sample, the number of
  seconds that the label beside it shows as the time since the last update, whenever the header is rendered again.\<close>

theorem uptime_is_sample_age:
  assumes "date_parse env (ms_timestamp s) = Some t" "ms_timestamp s \<noteq> []"
  shows "\<exists>n. fst (render_updated env (snd (render_updated env r now0 (Some s))) now (Some s)) = Some (num_int n)
    \<and> uptime_label env now (Some s) = units_text (uptime_units n) \<and> n = max 0 ((now - t) div 1000)"
  using assms by (simp add: render_updated_def uptime_label_def formatUptime_def seconds_since_def num_of_def)

section \<open>What trends, flashes and sparklines say\<close>

lemma change_pct_num:
  "change_pct (Num a) (Num p) = (if p = 0 then (if 0 < a then Num 100 else Num 0) else Num ((a - p) / \<bar>p\<bar> * 100))"
  by (simp add: change_pct_def zero_jsnum_def)

lemma pct_bounds:
  fixes a p :: rat
  assumes "p \<noteq> 0"
  shows "\<bar>(a - p) / \<bar>p\<bar> * 100\<bar> \<le> 5 \<longleftrightarrow> \<bar>a - p\<bar> \<le> 5 / 100 * \<bar>p\<bar>" "0 < (a - p) / \<bar>p\<bar> * 100 \<longleftrightarrow> p < a"
proof -
  have p: "0 < \<bar>p\<bar>" using assms by simp
  have "(a - p) / \<bar>p\<bar> * 100 \<le> 5 \<longleftrightarrow> a - p \<le> 5 / 100 * \<bar>p\<bar>" "- 5 \<le> (a - p) / \<bar>p\<bar> * 100 \<longleftrightarrow> - (5 / 100 * \<bar>p\<bar>) \<le> a - p"
    using p by (simp_all add: field_simps) linarith+
  then show "\<bar>(a - p) / \<bar>p\<bar> * 100\<bar> \<le> 5 \<longleftrightarrow> \<bar>a - p\<bar> \<le> 5 / 100 * \<bar>p\<bar>" by linarith
  have "0 < (a - p) / \<bar>p\<bar> \<longleftrightarrow> 0 < a - p" using p by (simp add: zero_less_divide_iff)
  then show "0 < (a - p) / \<bar>p\<bar> * 100 \<longleftrightarrow> p < a" using zero_less_mult_iff [of "(a - p) / \<bar>p\<bar>" 100] by simp
qed

text \<open>C37. With six samples or more, and numbers for the figure now and five samples ago, the arrow beside the figure is flat
  exactly if the figure differs by at most five percent of what it was; it points up exactly if the figure has risen by more,
  and down if it has fallen by more. Against a past of zero, where there is no percentage, the arrow points up exactly if the
  figure is positive, and is flat otherwise. It is red exactly for a rise of a figure that should not rise.\<close>

theorem trend_arrow_exact:
  assumes "6 \<le> length h" "accessor (h ! (length h - 1)) = Num a" "accessor (h ! (length h - 6)) = Num p"
  shows "\<exists>i. useTrend h accessor inverted = Some i
    \<and> (tr_arrow i = Flat \<longleftrightarrow> (if p = 0 then a \<le> 0 else \<bar>a - p\<bar> \<le> 5 / 100 * \<bar>p\<bar>))
    \<and> (tr_arrow i = UpArrow \<longleftrightarrow> 5 / 100 * \<bar>p\<bar> < a - p)
    \<and> (tr_arrow i = DownArrow \<longleftrightarrow> p \<noteq> 0 \<and> a - p < - (5 / 100 * \<bar>p\<bar>))
    \<and> (tr_color i = ErrorMain \<longleftrightarrow> inverted \<and> tr_arrow i = UpArrow)"
proof -
  have u: "useTrend h accessor inverted = Some (if js_abs (change_pct (Num a) (Num p)) \<le> Num 5 then \<lparr>tr_arrow = Flat, tr_color = TextDisabled\<rparr>
      else buildTrendResult (Num 0 < change_pct (Num a) (Num p)) inverted)"
    using assms(1) by (simp add: useTrend_def computeTrend_def TREND_LOOKBACK_TICKS_def TREND_THRESHOLD_PERCENT_def
        assms(2,3) [simplified] zero_jsnum_def Let_def)
  show ?thesis
  proof (cases "p = 0")
    case True
    then show ?thesis unfolding u by (simp add: change_pct_num buildTrendResult_def)
  next
    case False
    have up: "p < a \<longleftrightarrow> 5 / 100 * \<bar>p\<bar> < a - p" if "\<not> \<bar>a - p\<bar> \<le> 5 / 100 * \<bar>p\<bar>" using that by linarith
    have "useTrend h accessor inverted = Some (if \<bar>a - p\<bar> \<le> 5 / 100 * \<bar>p\<bar> then \<lparr>tr_arrow = Flat, tr_color = TextDisabled\<rparr>
        else buildTrendResult (p < a) inverted)"
      using pct_bounds [OF False, of a] False
      unfolding u change_pct_num if_not_P [OF False] js_abs.simps less_eq_jsnum.simps less_jsnum.simps by (simp only:)
    then show ?thesis using up False by (auto simp: buildTrendResult_def)
  qed
qed

theorem trend_arrow_exact_witness:
  "(\<exists>i. useTrend (replicate 5 sample_snapshot @ [sample_snapshot\<lparr>httpRequestRate := Num 90\<rparr>]) httpRequestRate False = Some i
    \<and> (tr_arrow i = Flat \<longleftrightarrow> (if (80 :: rat) = 0 then (90 :: rat) \<le> 0 else \<bar>90 - 80\<bar> \<le> 5 / 100 * \<bar>80 :: rat\<bar>))
    \<and> (tr_arrow i = UpArrow \<longleftrightarrow> 5 / 100 * \<bar>80\<bar> < 90 - (80 :: rat))
    \<and> (tr_arrow i = DownArrow \<longleftrightarrow> (80 :: rat) \<noteq> 0 \<and> 90 - 80 < - (5 / 100 * \<bar>80 :: rat\<bar>))
    \<and> (tr_color i = ErrorMain \<longleftrightarrow> False \<and> tr_arrow i = UpArrow))"
  by (rule trend_arrow_exact) (simp_all add: sample_snapshot_def nth_append)

definition flash_inv :: "flash_state \<Rightarrow> bool" where
  "flash_inv s =
     ((fs_flash s \<noteq> None \<longrightarrow> fs_timer s) \<and> (fs_dep s = None \<and> fs_prev s = None \<and> fs_flash s = None \<or> fs_dep s = Some (fs_prev s) \<and> fs_prev s \<noteq> None))"

definition value_given :: "flash_event \<Rightarrow> bool" where
  "value_given e = (case e of ValueShown (Some (Num v)) \<Rightarrow> True | FlashOver \<Rightarrow> True | _ \<Rightarrow> False)"

lemma flash_step_inv: "flash_inv s \<Longrightarrow> value_given e \<Longrightarrow> flash_inv (flash_step s e)"
proof (cases e)
  case (ValueShown v)
  assume s: "flash_inv s" "value_given e"
  then obtain x where x: "v = Some (Num x)" by (auto simp: ValueShown value_given_def split: option.splits jsnum.splits)
  show ?thesis
  proof (cases "fs_prev s")
    case None
    then show ?thesis using s(1) by (auto simp: ValueShown x flash_inv_def flash_effect_def Let_def)
  next
    case (Some y)
    have "js_eq (Num x) y \<Longrightarrow> y = Num x" by (cases y) auto
    then show ?thesis using s(1) Some by (auto simp: ValueShown x flash_inv_def flash_effect_def Let_def)
  qed
qed (auto simp: flash_inv_def)

interpretation flash: guarded_machine flash_step flash_inv value_given
  by unfold_locales (rule flash_step_inv)

text \<open>As long as the figure is a number, a flash is only shown while its timer runs, so that it ends after half a second; and a
  figure that changes flashes in the direction of the change.\<close>

theorem flashes_end:
  assumes "list_all value_given es" "s = run flash_step flash_start es"
  shows "(fs_flash s \<noteq> None \<longrightarrow> fs_timer s) \<and> fs_flash (flash_step s FlashOver) = None
    \<and> list_all (\<lambda>(a, b). fs_prev s = Some (Num a) \<and> a \<noteq> b \<longrightarrow>
         fs_flash (flash_step s (ValueShown (Some (Num b)))) = Some (if a < b then FlashUp else FlashDown)) changes"
proof -
  have "flash_inv s" unfolding assms(2) by (rule flash.run_inv) (use assms(1) in \<open>simp_all add: flash_inv_def flash_start_def\<close>)
  then show ?thesis by (auto simp: flash_inv_def flash_effect_def list_all_iff Let_def)
qed

lemma flashes_end_witness:
  "let s = run flash_step flash_start [ValueShown (Some (Num 3)), ValueShown (Some (Num 5))]
   in (fs_flash s \<noteq> None \<longrightarrow> fs_timer s) \<and> fs_flash (flash_step s FlashOver) = None
    \<and> list_all (\<lambda>(a, b). fs_prev s = Some (Num a) \<and> a \<noteq> b \<longrightarrow>
         fs_flash (flash_step s (ValueShown (Some (Num b)))) = Some (if a < b then FlashUp else FlashDown)) [(5, 4)]"
  unfolding Let_def by (rule flashes_end [where es = "[ValueShown (Some (Num 3)), ValueShown (Some (Num 5))]"]) (simp_all add: value_given_def)

text \<open>A figure that stops being one keeps its flash: the timer is gone.\<close>

lemma flash_stays_without_value:
  "fs_flash (run flash_step flash_start [ValueShown (Some (Num 3)), ValueShown (Some (Num 5)), ValueShown None, FlashOver]) = Some FlashUp"
  by code_simp

lemma foldl_js_min: "foldl js_min (Num a) (map Num xs) = Num (Min (insert a (set xs)))"
proof (induction xs arbitrary: a)
  case (Cons x xs)
  show ?case by (cases "xs = []") (simp_all add: Cons.IH min.assoc)
qed simp

lemma foldl_js_max: "foldl js_max (Num a) (map Num xs) = Num (Max (insert a (set xs)))"
proof (induction xs arbitrary: a)
  case (Cons x xs)
  show ?case by (cases "xs = []") (simp_all add: Cons.IH max.assoc)
qed simp

lemma js_min_list_num: "xs \<noteq> [] \<Longrightarrow> js_min_list (map Num xs) = Num (Min (set xs))"
  by (cases xs) (simp_all add: foldl_js_min)

lemma js_max_list_num: "xs \<noteq> [] \<Longrightarrow> js_max_list (map Num xs) = Num (Max (set xs))"
  by (cases xs) (simp_all add: foldl_js_max)

definition spark_range :: "rat list \<Rightarrow> rat" where
  "spark_range xs = (if Max (set xs) = Min (set xs) then 1 else Max (set xs) - Min (set xs))"

definition spark_y :: "rat list \<Rightarrow> rat \<Rightarrow> rat" where
  "spark_y xs v = 18 - (v - Min (set xs)) / spark_range xs * 16 + 2"

lemma sparkline_points_num:
  "xs \<noteq> [] \<Longrightarrow> sparkline_points (map Num xs) =
     map (\<lambda>(i, v). (Num (of_nat i * (60 / (of_nat (length xs) - 1))), Num (spark_y xs v))) (enumerate 0 xs)"
  by (auto simp: sparkline_points_def sparkline_range_def js_min_list_num js_max_list_num spark_y_def spark_range_def Let_def
      enumerate_map_upt enumerate_eq_zip zip_map2 split: prod.split)

lemma spark_range_pos: "xs \<noteq> [] \<Longrightarrow> 0 < spark_range xs"
proof -
  assume "xs \<noteq> []"
  then have "Min (set xs) \<le> Max (set xs)" using Min_le_iff Max_in by fastforce
  then show ?thesis by (auto simp: spark_range_def)
qed

lemma spark_y_bounds: "v \<in> set xs \<Longrightarrow> 4 \<le> spark_y xs v \<and> spark_y xs v \<le> 20"
proof -
  assume v: "v \<in> set xs"
  then have r: "0 < spark_range xs" by (intro spark_range_pos) auto
  have "0 \<le> v - Min (set xs)" using v by simp
  moreover have "v \<le> Max (set xs)" using v by simp
  then have "v - Min (set xs) \<le> spark_range xs" by (simp add: spark_range_def)
  ultimately have "0 \<le> (v - Min (set xs)) / spark_range xs" "(v - Min (set xs)) / spark_range xs \<le> 1" using r by simp_all
  then show ?thesis unfolding spark_y_def by linarith
qed

text \<open>A sparkline of two figures or more runs from the left to the right edge of its box of 60 by 20 and stays inside it; a larger
  figure is never below a smaller one, and the smallest lies on the lower edge, where half of its stroke is cut off, while
  four units stay free above.\<close>

theorem sparkline_in_box:
  assumes "2 \<le> length xs"
  shows "\<exists>pts. sparkline_points (map Num xs) = map (\<lambda>(x, y). (Num x, Num y)) pts \<and> length pts = length xs
    \<and> list_all (\<lambda>(x, y). 0 \<le> x \<and> x \<le> 60 \<and> 4 \<le> y \<and> y \<le> 20) pts \<and> fst (hd pts) = 0 \<and> fst (last pts) = 60
    \<and> list_all (\<lambda>i. list_all (\<lambda>j. xs ! i \<le> xs ! j \<longleftrightarrow> snd (pts ! j) \<le> snd (pts ! i)) [0..<length xs]) [0..<length xs]
    \<and> 20 \<in> set (map snd pts)"
proof -
  let ?f = "\<lambda>i v. (of_nat i * (60 / (of_nat (length xs) - 1)), spark_y xs v) :: rat \<times> rat"
  obtain pts where pts: "pts = map (\<lambda>(i, v). ?f i v) (enumerate 0 xs)" by blast
  have ne: "xs \<noteq> []" using assms by auto
  have nth: "pts ! i = ?f i (xs ! i)" if "i < length xs" for i unfolding pts using that by (simp add: nth_enumerate_eq)
  have lp: "length pts = length xs" by (simp add: pts)
  then have np: "pts \<noteq> []" using ne by auto
  have len: "(1 :: rat) \<le> of_nat (length xs) - 1" using assms by linarith
  have x: "0 \<le> of_nat i * (60 / (of_nat (length xs) - 1 :: rat)) \<and> of_nat i * (60 / (of_nat (length xs) - 1 :: rat)) \<le> 60"
    if "i < length xs" for i
    using that len by (simp add: field_simps)
  obtain k where k: "rat_of_nat (length xs) - 1 = k" by blast
  have "rat_of_nat (length xs - 1) = k" using k assms by (simp add: of_nat_diff)
  then have "rat_of_nat (length xs - 1) * (60 / (rat_of_nat (length xs) - 1)) = 60" using len unfolding k by simp
  moreover have "pts ! 0 = ?f 0 (xs ! 0)" by (rule nth) (use ne in simp)
  moreover have "pts ! (length xs - 1) = ?f (length xs - 1) (xs ! (length xs - 1))" by (rule nth) (use ne in simp)
  ultimately have "fst (pts ! 0) = 0" "fst (pts ! (length xs - 1)) = 60" by (simp_all only: fst_conv of_nat_0 mult_zero_left)
  then have ends: "fst (hd pts) = 0" "fst (last pts) = 60" using np lp by (simp_all add: hd_conv_nth last_conv_nth)
  have inside: "list_all (\<lambda>(x, y). 0 \<le> x \<and> x \<le> 60 \<and> 4 \<le> y \<and> y \<le> 20) pts"
    using x nth spark_y_bounds by (simp add: list_all_length lp)
  have order: "list_all (\<lambda>i. list_all (\<lambda>j. xs ! i \<le> xs ! j \<longleftrightarrow> snd (pts ! j) \<le> snd (pts ! i)) [0..<length xs]) [0..<length xs]"
    using spark_range_pos [OF ne] by (simp add: list_all_iff nth spark_y_def divide_le_cancel)
  obtain i where "i < length xs" "xs ! i = Min (set xs)" using Min_in [of "set xs"] ne by (auto simp: in_set_conv_nth)
  then have "20 = snd (pts ! i)" "i < length pts" using nth lp by (simp_all add: spark_y_def)
  then have "20 \<in> set (map snd pts)" by (metis length_map nth_map nth_mem)
  then show ?thesis using inside ends order
    by (intro exI [of _ pts]) (simp add: sparkline_points_num [OF ne] lp, simp add: pts case_prod_beta' comp_def)
qed

lemma sparkline_in_box_witness:
  "\<exists>pts. sparkline_points (map Num [3, 1, 2]) = map (\<lambda>(x, y). (Num x, Num y)) pts \<and> length pts = length [3, 1, 2 :: rat]
    \<and> list_all (\<lambda>(x, y). 0 \<le> x \<and> x \<le> 60 \<and> 4 \<le> y \<and> y \<le> 20) pts \<and> fst (hd pts) = 0 \<and> fst (last pts) = 60
    \<and> list_all (\<lambda>i. list_all (\<lambda>j. [3, 1, 2 :: rat] ! i \<le> [3, 1, 2] ! j \<longleftrightarrow> snd (pts ! j) \<le> snd (pts ! i)) [0..<length [3, 1, 2 :: rat]])
        [0..<length [3, 1, 2 :: rat]]
    \<and> 20 \<in> set (map snd pts)"
  by (rule sparkline_in_box) simp

end
