(* ===== verification/Dashboard.thy ===== *)
theory Dashboard
  imports StatusBar RiversLive Tables
begin

text \<open>
  The metrics page: \<open>components/observability/MetricsDashboard.tsx\<close> with its panels, charts and statistics, and the strip
  \<open>SystemOverview.tsx\<close> above them. A chart is its series with their data; the styles ECharts draws them in are not
  modelled.
\<close>

section \<open>Panels\<close>

datatype chart_type = ChLine | ChMultiline | ChBar | ChGauge | ChScatter | ChErrorline

record panel_config =
  pc_key :: string
  pc_title :: string
  pc_unit :: string
  pc_panelKey :: string
  pc_getValue :: "metric_snapshot \<Rightarrow> jsnum"
  pc_chartType :: chart_type
  pc_upIsBad :: bool

definition k8s_rate :: "metric_snapshot \<Rightarrow> jsnum" where
  "k8s_rate s = k8sGetRate s + k8sPatchRate s + k8sDeleteRate s"

definition PANELS :: "panel_config list" where
  "PANELS =
     [\<lparr>pc_key = ''http-rate'', pc_title = ''HTTP Request Rate'', pc_unit = ''req/s'', pc_panelKey = ''http_rate'',
        pc_getValue = httpRequestRate, pc_chartType = ChLine, pc_upIsBad = False\<rparr>,
      \<lparr>pc_key = ''latency'', pc_title = ''HTTP Latency'', pc_unit = ''ms'', pc_panelKey = ''latency_p99'',
        pc_getValue = httpLatencyP99Ms, pc_chartType = ChMultiline, pc_upIsBad = True\<rparr>,
      \<lparr>pc_key = ''k8s-api'', pc_title = ''K8s API Calls'', pc_unit = ''/min'', pc_panelKey = ''k8s_api'',
        pc_getValue = k8s_rate, pc_chartType = ChMultiline, pc_upIsBad = False\<rparr>,
      \<lparr>pc_key = ''k8s-latency'', pc_title = ''K8s API Latency'', pc_unit = ''ms'', pc_panelKey = ''k8s_api'',
        pc_getValue = k8sLatencyP99Ms, pc_chartType = ChMultiline, pc_upIsBad = True\<rparr>,
      \<lparr>pc_key = ''ws-conns'', pc_title = ''WebSocket Connections'', pc_unit = [], pc_panelKey = ''ws_connections'',
        pc_getValue = wsActiveConnections, pc_chartType = ChLine, pc_upIsBad = False\<rparr>,
      \<lparr>pc_key = ''error-rate'', pc_title = ''Error Rate'', pc_unit = ''/s'', pc_panelKey = ''error_rate'',
        pc_getValue = totalErrorRate, pc_chartType = ChErrorline, pc_upIsBad = True\<rparr>,
      \<lparr>pc_key = ''scale-ops'', pc_title = ''Pod Scale Operations'', pc_unit = [], pc_panelKey = ''scheduler_health'',
        pc_getValue = workloadsScaledCount, pc_chartType = ChScatter, pc_upIsBad = False\<rparr>]"

definition INVERTED_PANELS :: "string list" where "INVERTED_PANELS = [''cache_hit'']"

definition getThresholdStatus :: "jsnum \<Rightarrow> string \<Rightarrow> observability_threshold option \<Rightarrow> threshold_status" where
  "getThresholdStatus v panelKey threshold =
     (case threshold of
        None \<Rightarrow> StOk
      | Some t \<Rightarrow>
          if panelKey \<in> set INVERTED_PANELS
          then (if v \<le> th_critVal t then StCrit else if v \<le> th_warnVal t then StWarn else StOk)
          else (if th_critVal t \<le> v then StCrit else if th_warnVal t \<le> v then StWarn else StOk))"

section \<open>The history of the page\<close>

text \<open>\<open>Math.max(dataUpdatedAt, Date.parse(latest?.snapshot.timestamp ?? '') || 0)\<close>.\<close>

definition rangeEndMs :: "js_env \<Rightarrow> int \<Rightarrow> stream_payload option \<Rightarrow> int" where
  "rangeEndMs env dataUpdatedAt latest =
     max dataUpdatedAt (case latest of
        None \<Rightarrow> 0
      | Some p \<Rightarrow> (case date_parse env (ms_timestamp (pl_snapshot p)) of Some t \<Rightarrow> t | None \<Rightarrow> 0))"

definition dashboard_history ::
    "js_env \<Rightarrow> metric_snapshot list option \<Rightarrow> int \<Rightarrow> obs_state \<Rightarrow> time_range \<Rightarrow> metric_snapshot list" where
  "dashboard_history env stored dataUpdatedAt s timeRange =
     mergeMetricHistory env stored (os_history s) timeRange (rangeEndMs env dataUpdatedAt (os_latest s))"

section \<open>A panel\<close>

record legend_entry =
  lg_name :: string
  lg_color :: theme_color

definition useLegendEntries :: "panel_config \<Rightarrow> legend_entry list" where
  "useLegendEntries config =
     (if pc_key config = ''latency''
      then [\<lparr>lg_name = ''P50'', lg_color = SuccessMain\<rparr>, \<lparr>lg_name = ''P95'', lg_color = WarningMain\<rparr>, \<lparr>lg_name = ''P99'', lg_color = ErrorMain\<rparr>]
      else if pc_key config = ''k8s-latency''
      then [\<lparr>lg_name = ''P50'', lg_color = SuccessMain\<rparr>, \<lparr>lg_name = ''P99'', lg_color = ErrorMain\<rparr>]
      else if pc_key config = ''k8s-api''
      then [\<lparr>lg_name = ''GET'', lg_color = InfoMain\<rparr>, \<lparr>lg_name = ''PATCH'', lg_color = WarningMain\<rparr>, \<lparr>lg_name = ''DELETE'', lg_color = ErrorMain\<rparr>]
      else [])"

definition useMinMax :: "panel_config \<Rightarrow> metric_snapshot list \<Rightarrow> (jsnum \<times> jsnum) option" where
  "useMinMax config history =
     (if pc_chartType config \<noteq> ChLine \<and> pc_chartType config \<noteq> ChErrorline \<or> length history < 2 then None
      else let values = map (pc_getValue config) history in Some (js_min_list values, js_max_list values))"

definition panel_delta :: "panel_config \<Rightarrow> metric_snapshot option \<Rightarrow> metric_snapshot list \<Rightarrow> jsnum" where
  "panel_delta config snapshot history =
     (let v = (case snapshot of Some s \<Rightarrow> pc_getValue config s | None \<Rightarrow> 0);
          prevValue = (if 2 \<le> length history then pc_getValue config (history ! (length history - 2)) else v)
      in if \<not> js_eq prevValue 0 then js_divide (v - prevValue) prevValue * Num 100 else 0)"

record panel_view =
  pv_value :: string
  pv_delta :: "(bool \<times> string) option"
  pv_deltaColor :: theme_color
  pv_status :: threshold_status
  pv_chip :: "string option"
  pv_color :: theme_color
  pv_range :: "(string \<times> string) option"
  pv_legend :: "legend_entry list"

text \<open>The delta is shown with an arrow up or down, from a tenth of a percent on.\<close>

definition MetricPanel ::
    "panel_config \<Rightarrow> metric_snapshot option \<Rightarrow> metric_snapshot list \<Rightarrow> observability_threshold option \<Rightarrow> panel_view" where
  "MetricPanel config snapshot history threshold =
     (let v = (case snapshot of Some s \<Rightarrow> pc_getValue config s | None \<Rightarrow> 0);
          delta = panel_delta config snapshot history;
          deltaPositive = (if pc_upIsBad config then delta < 0 else 0 < delta);
          status = getThresholdStatus v (pc_panelKey config) threshold;
          fmt = (if pc_unit config = ''ms'' then 0 else 1)
      in \<lparr>pv_value = (if snapshot = None then ''--'' else to_fixed fmt v),
          pv_delta = (if Num (1 / 10) \<le> js_abs delta then Some (0 < delta, to_fixed 1 (js_abs delta) @ ''%'') else None),
          pv_deltaColor = (if js_abs delta < 1 then TextSecondary else if deltaPositive then SuccessMain else WarningMain),
          pv_status = status,
          pv_chip = (case status of StOk \<Rightarrow> None | StCrit \<Rightarrow> Some ''CRITICAL'' | StWarn \<Rightarrow> Some ''WARNING''),
          pv_color = (case status of StCrit \<Rightarrow> ErrorMain | StWarn \<Rightarrow> WarningMain | StOk \<Rightarrow> PrimaryMain),
          pv_range = map_option (\<lambda>(mn, mx). (to_fixed fmt mn, to_fixed fmt mx)) (useMinMax config history),
          pv_legend = useLegendEntries config\<rparr>)"

section \<open>Charts\<close>

datatype series_type = SeLine | SeBar | SeScatter

text \<open>A point has no position when its timestamp cannot be read.\<close>

record series =
  se_type :: series_type
  se_name :: "string option"
  se_data :: "(rat option \<times> jsnum) list"
  se_color :: theme_color
  se_stack :: "string option"
  se_dashed :: bool
  se_marks :: "(jsnum \<times> theme_color) list"

definition series_data :: "js_env \<Rightarrow> metric_snapshot list \<Rightarrow> (metric_snapshot \<Rightarrow> jsnum) \<Rightarrow> (rat option \<times> jsnum) list" where
  "series_data env history v = map (\<lambda>(t, x). (map_option of_int t, x)) (metricSeries env history v)"

definition line_series :: "js_env \<Rightarrow> metric_snapshot list \<Rightarrow> string option \<Rightarrow> (metric_snapshot \<Rightarrow> jsnum) \<Rightarrow> theme_color
    \<Rightarrow> (jsnum \<times> theme_color) list \<Rightarrow> series" where
  "line_series env history name v color marks =
     \<lparr>se_type = SeLine, se_name = name, se_data = series_data env history v, se_color = color, se_stack = None, se_dashed = False,
      se_marks = marks\<rparr>"

definition buildComparisonSeries :: "js_env \<Rightarrow> metric_snapshot list \<Rightarrow> (metric_snapshot \<Rightarrow> jsnum) \<Rightarrow> theme_color \<Rightarrow> series list" where
  "buildComparisonSeries env history v color =
     (let d = previousPeriodSeries env history v
      in if d = [] then []
         else [\<lparr>se_type = SeLine, se_name = Some ''Previous period'', se_data = map (\<lambda>(t, x). (Some t, x)) d, se_color = color,
                se_stack = None, se_dashed = True, se_marks = []\<rparr>])"

definition threshold_marks :: "observability_threshold option \<Rightarrow> (jsnum \<times> theme_color) list" where
  "threshold_marks threshold =
     (case threshold of Some t \<Rightarrow> [(th_warnVal t, WarningMain), (th_critVal t, ErrorMain)] | None \<Rightarrow> [])"

definition bar_series :: "js_env \<Rightarrow> metric_snapshot list \<Rightarrow> string \<Rightarrow> (metric_snapshot \<Rightarrow> jsnum) \<Rightarrow> theme_color \<Rightarrow> series" where
  "bar_series env history name v color =
     \<lparr>se_type = SeBar, se_name = Some name, se_data = series_data env history v, se_color = color, se_stack = Some ''policy'',
      se_dashed = False, se_marks = []\<rparr>"

definition scatter_series :: "js_env \<Rightarrow> metric_snapshot list \<Rightarrow> string \<Rightarrow> (metric_snapshot \<Rightarrow> jsnum) \<Rightarrow> theme_color \<Rightarrow> series" where
  "scatter_series env history name counted color =
     \<lparr>se_type = SeScatter, se_name = Some name,
      se_data = map (\<lambda>s. (map_option of_int (date_parse env (ms_timestamp s)), scaleOperationDurationMs s)) (filter (\<lambda>s. 0 < counted s) history),
      se_color = color, se_stack = None, se_dashed = False, se_marks = []\<rparr>"

text \<open>\<open>None\<close> is the empty option of a gauge.\<close>

definition buildChartOption ::
    "js_env \<Rightarrow> panel_config \<Rightarrow> metric_snapshot list \<Rightarrow> observability_threshold option \<Rightarrow> series list option" where
  "buildChartOption env config history threshold =
     (let marks = threshold_marks threshold; line = line_series env history
      in case pc_chartType config of
           ChLine \<Rightarrow> Some (line None (pc_getValue config) PrimaryMain marks # buildComparisonSeries env history (pc_getValue config) PrimaryMain)
         | ChErrorline \<Rightarrow> Some (line None (pc_getValue config) ErrorMain marks # buildComparisonSeries env history (pc_getValue config) ErrorMain)
         | ChMultiline \<Rightarrow>
             Some (if pc_key config = ''latency''
                   then [line (Some ''P50'') httpLatencyP50Ms SuccessMain [], line (Some ''P95'') httpLatencyP95Ms WarningMain [],
                         line (Some ''P99'') httpLatencyP99Ms ErrorMain marks]
                   else if pc_key config = ''k8s-latency''
                   then [line (Some ''P50'') k8sLatencyP50Ms SuccessMain [], line (Some ''P99'') k8sLatencyP99Ms ErrorMain marks]
                   else [line (Some ''GET'') k8sGetRate InfoMain [], line (Some ''PATCH'') k8sPatchRate WarningMain [],
                         line (Some ''DELETE'') k8sDeleteRate ErrorMain marks])
         | ChBar \<Rightarrow>
             Some [bar_series env history ''Success'' policySuccessCount SuccessMain, bar_series env history ''Failed'' policyFailedCount ErrorMain,
                   bar_series env history ''Interrupted'' policyInterruptedCount Grey500]
         | ChScatter \<Rightarrow>
             Some [scatter_series env history ''Success'' workloadsScaledCount SuccessMain, scatter_series env history ''Failed'' policyFailedCount ErrorMain]
         | ChGauge \<Rightarrow> None)"

definition formatAxisLabel :: "civil \<Rightarrow> int option \<Rightarrow> string" where
  "formatAxisLabel d spanMs =
     (let hh = pad_start 2 CHR ''0'' (show_int (cv_hour d)); mm = pad_start 2 CHR ''0'' (show_int (cv_minute d));
          ss = pad_start 2 CHR ''0'' (show_int (cv_second d));
          upto_ms = (\<lambda>n. case spanMs of Some s \<Rightarrow> s \<le> n | None \<Rightarrow> False)
      in if upto_ms (5 * 60000) then hh @ '':'' @ mm @ '':'' @ ss
         else if upto_ms (60 * 60000) then hh @ '':'' @ mm
         else show_int (cv_month d) @ ''/'' @ show_int (cv_day d) @ '' '' @ hh @ '':'' @ mm)"

definition chart_span :: "js_env \<Rightarrow> metric_snapshot list \<Rightarrow> int option" where
  "chart_span env history =
     (if 2 \<le> length history
      then (case (date_parse env (ms_timestamp (last history)), date_parse env (ms_timestamp (hd history))) of
              (Some b, Some a) \<Rightarrow> Some (b - a) | _ \<Rightarrow> None)
      else Some 0)"

section \<open>The expanded panel\<close>

definition LATENCY_PANEL_KEYS :: "string list" where
  "LATENCY_PANEL_KEYS = [''latency'', ''k8s-latency'', ''http-rate'', ''error-rate'']"

definition SLOWEST_CALLS_COUNT :: nat where "SLOWEST_CALLS_COUNT = 15"

definition by_duration :: "api_call \<Rightarrow> api_call \<Rightarrow> rat" where
  "by_duration a b = num_key (ac_durationMs b) - num_key (ac_durationMs a)"

definition slowest_calls :: "api_call list \<Rightarrow> api_call list" where
  "slowest_calls calls = take SLOWEST_CALLS_COUNT (js_sort by_duration calls)"

definition duration_color :: "api_call \<Rightarrow> theme_color" where
  "duration_color c =
     (if Num 500 < ac_durationMs c then WarningMain else if Num 1000 < ac_durationMs c then ErrorMain else TextPrimary)"

definition call_row :: "api_call \<Rightarrow> string \<times> string \<times> string \<times> (string \<times> theme_color) \<times> (string \<times> theme_color)" where
  "call_row c =
     (ac_method c, ac_path c, ac_goFunc c, (show_int (ac_statusCode c), if 400 \<le> ac_statusCode c then ErrorMain else TextPrimary),
      (to_fixed 1 (ac_durationMs c) @ '' ms'', duration_color c))"

record panel_stats =
  ps_min :: jsnum
  ps_max :: jsnum
  ps_avg :: jsnum

definition computePanelStats :: "panel_config \<Rightarrow> metric_snapshot list \<Rightarrow> panel_stats" where
  "computePanelStats config history =
     (if history = [] then \<lparr>ps_min = 0, ps_max = 0, ps_avg = 0\<rparr>
      else let values = map (pc_getValue config) history; sm = foldl (+) 0 values
           in \<lparr>ps_min = js_min_list values, ps_max = js_max_list values, ps_avg = div_by sm (of_nat (length values))\<rparr>)"

record expanded_view =
  ev_title :: string
  ev_value :: string
  ev_stats :: "(string \<times> string) list"
  ev_calls :: "api_call list option"

definition PanelExpandDialog ::
    "panel_config list \<Rightarrow> string option \<Rightarrow> metric_snapshot option \<Rightarrow> metric_snapshot list \<Rightarrow> (string \<times> observability_threshold) list
      \<Rightarrow> api_call list \<Rightarrow> expanded_view option" where
  "PanelExpandDialog panels expandedPanel snapshot history tm recentCalls =
     (case List.find (\<lambda>p. Some (pc_key p) = expandedPanel) panels of
        None \<Rightarrow> None
      | Some config \<Rightarrow>
          let fmt = (if pc_unit config = ''ms'' then 0 else 1); stats = computePanelStats config history;
              unit' = '' '' @ pc_unit config
          in Some \<lparr>ev_title = pc_title config,
               ev_value = (case snapshot of Some s \<Rightarrow> to_fixed fmt (pc_getValue config s) | None \<Rightarrow> ''--'') @ unit',
               ev_stats = [(''Min'', to_fixed fmt (ps_min stats) @ unit'), (''Avg'', to_fixed fmt (ps_avg stats) @ unit'),
                           (''Max'', to_fixed fmt (ps_max stats) @ unit')]
                 @ (case map_of tm (pc_panelKey config) of
                      None \<Rightarrow> []
                    | Some t \<Rightarrow> [(''Warn'', show_num (th_warnVal t) @ unit'), (''Crit'', show_num (th_critVal t) @ unit')]),
               ev_calls = (if pc_key config \<in> set LATENCY_PANEL_KEYS \<and> recentCalls \<noteq> [] then Some (slowest_calls recentCalls) else None)\<rparr>)"

text \<open>What is expanded, and the pages opened from the dialog.\<close>

datatype dashboard_event =
    PanelClicked string
  | DialogClosed
  | DetailsClicked

fun dashboard_step :: "string option \<times> string list \<Rightarrow> dashboard_event \<Rightarrow> string option \<times> string list" where
  "dashboard_step (e, pushed) (PanelClicked k) = (if k \<in> set (map pc_key PANELS) then (Some k, pushed) else (e, pushed))"
| "dashboard_step (e, pushed) DialogClosed = (None, pushed)"
| "dashboard_step (e, pushed) DetailsClicked =
     (case List.find (\<lambda>p. Some (pc_key p) = e) PANELS of
        None \<Rightarrow> (e, pushed)
      | Some config \<Rightarrow> (None, pushed @ [''/observability/'' @ pc_panelKey config]))"

section \<open>The overview\<close>

definition SCHEDULER_BUDGET_MS :: rat where "SCHEDULER_BUDGET_MS = 500"
definition LATENCY_MAX_MS :: rat where "LATENCY_MAX_MS = 1000"

definition SECTION_ROUTES :: "(string \<times> string) list" where
  "SECTION_ROUTES =
     [(''requestFlow'', ''/observability/http_rate''), (''latency'', ''/observability/latency_p99''),
      (''health'', ''/observability/router''), (''errors'', ''/observability/error_rate''),
      (''scheduler'', ''/observability/scheduler_health'')]"

record traffic_segment =
  ts_label :: string
  ts_value :: jsnum

definition computeTrafficSegments :: "metric_snapshot option \<Rightarrow> traffic_segment list" where
  "computeTrafficSegments snapshot =
     (case snapshot of
        None \<Rightarrow> []
      | Some s \<Rightarrow> let http = httpRequestRate s; k8s = div_by (k8sGetRate s + k8sPatchRate s + k8sDeleteRate s) 60
                  in [\<lparr>ts_label = ''HTTP'', ts_value = http\<rparr>, \<lparr>ts_label = ''K8s'', ts_value = k8s\<rparr>])"

definition traffic_total :: "traffic_segment list \<Rightarrow> jsnum" where
  "traffic_total segments = foldl (\<lambda>sm s. sm + ts_value s) 0 segments"

definition traffic_text :: "traffic_segment list \<Rightarrow> string" where
  "traffic_text segments =
     (let tot = traffic_total segments in (if 0 < tot then to_fixed 1 tot else ''0.0'') @ '' req/s total'')"

definition traffic_legend :: "traffic_segment list \<Rightarrow> string list" where
  "traffic_legend segments = map (\<lambda>s. ts_label s @ '' '' @ to_fixed 0 (ts_value s)) (filter (\<lambda>s. 0 < ts_value s) segments)"

text \<open>Offset and width of every segment in percent; \<open>None\<close> is the empty bar.\<close>

definition StackedBar :: "traffic_segment list \<Rightarrow> jsnum \<Rightarrow> (jsnum \<times> jsnum) list option" where
  "StackedBar segments tot =
     (if js_eq tot 0 then None
      else let pct = (\<lambda>s. js_divide (ts_value s) tot * Num 100)
           in Some (map (\<lambda>(idx, seg). (foldl (\<lambda>sm s. sm + pct s) 0 (take idx segments), pct seg)) (enumerate 0 segments)))"

text \<open>The height of a latency bar; \<open>None\<close> for NaN.\<close>

definition latency_bar_height :: "jsnum \<Rightarrow> jsnum" where
  "latency_bar_height v = js_max (Num 2) (div_by (js_min v (Num LATENCY_MAX_MS)) LATENCY_MAX_MS * Num 32)"

record error_stats =
  es_totalRate :: jsnum
  es_httpErrors :: jsnum
  es_panics :: jsnum
  es_drops :: jsnum
  es_hasErrors :: bool

definition computeErrorStats :: "metric_snapshot option \<Rightarrow> error_stats" where
  "computeErrorStats snapshot =
     (case snapshot of
        None \<Rightarrow> \<lparr>es_totalRate = 0, es_httpErrors = 0, es_panics = 0, es_drops = 0, es_hasErrors = False\<rparr>
      | Some s \<Rightarrow> \<lparr>es_totalRate = totalErrorRate s, es_httpErrors = httpErrorRate s, es_panics = schedulerPanics s, es_drops = auditDrops s,
                   es_hasErrors = (0 < totalErrorRate s \<or> 0 < schedulerPanics s \<or> 0 < auditDrops s)\<rparr>)"

definition error_stat_text :: "jsnum \<Rightarrow> string" where
  "error_stat_text v = (case v of Num r \<Rightarrow> if r = of_int \<lfloor>r\<rfloor> then show_num v else to_fixed 1 v | NaN \<Rightarrow> to_fixed 1 v)"

record scheduler_stats =
  ss_evalRate :: jsnum
  ss_evalDuration :: jsnum
  ss_progress :: jsnum

definition computeSchedulerStats :: "metric_snapshot option \<Rightarrow> scheduler_stats" where
  "computeSchedulerStats snapshot =
     (case snapshot of
        None \<Rightarrow> \<lparr>ss_evalRate = 0, ss_evalDuration = 0, ss_progress = 0\<rparr>
      | Some s \<Rightarrow> \<lparr>ss_evalRate = schedulerEvalRate s, ss_evalDuration = schedulerEvalDurationMs s,
                   ss_progress = js_min (div_by (schedulerEvalDurationMs s) SCHEDULER_BUDGET_MS) (Num 1)\<rparr>)"

definition ring_color :: "jsnum \<Rightarrow> theme_color" where
  "ring_color progress = (if Num (9 / 10) < progress then ErrorMain else if Num (7 / 10) < progress then WarningMain else SuccessMain)"

text \<open>The part of the ring that is left open, as a share of its circumference.\<close>

definition ring_offset :: "jsnum \<Rightarrow> jsnum" where "ring_offset progress = Num 1 - progress"

definition visible_components :: "river_component_metrics list \<Rightarrow> river_component_metrics list" where
  "visible_components components = take 8 components"

definition health_text :: "river_component_metrics list \<Rightarrow> string" where
  "health_text components =
     show_nat (length (filter (\<lambda>c. rc_status c = StOk) components)) @ ''/'' @ show_nat (length components)"

section \<open>Status of the panels and alerts\<close>

text \<open>The status an alert check would give to a panel.\<close>

definition alert_status :: "string \<times> jsnum \<times> string \<Rightarrow> observability_threshold option \<Rightarrow> threshold_status" where
  "alert_status chk threshold =
     (case threshold of Some t \<Rightarrow> threshold_status_of (fst chk) (fst (snd chk)) t | None \<Rightarrow> StOk)"

text \<open>The panels of the request rate, the latency, the connections and the errors judge every sample as the alerts of the
  stream do.\<close>

theorem panel_status_agrees:
  "list_all (\<lambda>c. pc_panelKey c \<notin> {''http_rate'', ''latency_p99'', ''ws_connections'', ''error_rate''}
     \<or> list_ex (\<lambda>chk. fst chk = pc_panelKey c
         \<and> getThresholdStatus (pc_getValue c snap) (pc_panelKey c) threshold = alert_status chk threshold) (checks snap)) PANELS"
  by (simp add: PANELS_def checks_def alert_status_def getThresholdStatus_def INVERTED_PANELS_def threshold_status_of_def
      split: option.split)

lemma k8s_panel:
  "c \<in> set PANELS \<Longrightarrow> pc_key c = ''k8s-api'' \<Longrightarrow> pc_panelKey c = ''k8s_api'' \<and> pc_getValue c = k8s_rate"
  by (auto simp: PANELS_def)

text \<open>C40. The panel of the calls to Kubernetes compares the calls of a minute with thresholds that are meant for a second: from the
  critical threshold up to sixty times the warning threshold it shows a critical status, where the alerts of the stream see
  nothing.\<close>

theorem k8s_panel_alarms_early:
  assumes "k8s_rate snap = Num r" "th_warnVal t = Num w" "th_critVal t = Num c" "w \<le> c" "c \<le> r" "r < 60 * w"
    "config \<in> set PANELS" "pc_key config = ''k8s-api''" "chk \<in> set (checks snap)" "fst chk = ''k8s_api''"
  shows "getThresholdStatus (pc_getValue config snap) (pc_panelKey config) (Some t) = StCrit \<and> alert_status chk (Some t) = StOk"
proof -
  have "fst (snd chk) = div_by (k8s_rate snap) 60" using assms(9,10) by (auto simp: checks_def k8s_rate_def)
  then have "fst (snd chk) = Num (r / 60)" by (simp add: assms(1))
  then show ?thesis using k8s_panel [OF assms(7,8)] assms
    by (simp add: getThresholdStatus_def INVERTED_PANELS_def alert_status_def threshold_status_of_def)
qed

definition busy_snapshot :: metric_snapshot where
  "busy_snapshot = sample_snapshot\<lparr>k8sGetRate := Num 1000\<rparr>"

definition k8s_threshold :: observability_threshold where
  "k8s_threshold = \<lparr>th_id = 3, th_panelKey = ''k8s_api'', th_warnVal = Num 100, th_critVal = Num 120\<rparr>"

lemma k8s_panel_alarms_early_witness:
  "getThresholdStatus (pc_getValue (PANELS ! 2) busy_snapshot) (pc_panelKey (PANELS ! 2)) (Some k8s_threshold) = StCrit
    \<and> alert_status (checks busy_snapshot ! 2) (Some k8s_threshold) = StOk"
proof (rule k8s_panel_alarms_early [of busy_snapshot 1000 k8s_threshold 100 120])
  show "PANELS ! 2 \<in> set PANELS" "checks busy_snapshot ! 2 \<in> set (checks busy_snapshot)" by (auto simp: PANELS_def checks_def)
qed (simp_all add: busy_snapshot_def sample_snapshot_def k8s_threshold_def k8s_rate_def PANELS_def checks_def)

text \<open>The legend under a panel names the lines of its chart, in their order and in their colors.\<close>

theorem legend_names_lines:
  "list_all (\<lambda>c. useLegendEntries c = [] \<or>
     map_option (map (\<lambda>s. (se_name s, se_color s))) (buildChartOption env c history threshold)
       = Some (map (\<lambda>l. (Some (lg_name l), lg_color l)) (useLegendEntries c))) PANELS"
  by (simp add: PANELS_def useLegendEntries_def buildChartOption_def line_series_def Let_def)

text \<open>Every page that the panels, the dialog and the overview open exists.\<close>

lemma dashboard_pages_exist:
  "list_all (\<lambda>c. map_of COMPONENT_INFO (pc_panelKey c) \<noteq> None) PANELS"
  "list_all (\<lambda>(k, r). list_ex (\<lambda>(c, i). r = ''/observability/'' @ c) COMPONENT_INFO) SECTION_ROUTES"
  by code_simp+

text \<open>No call is shown in red: the test for a second comes after that for half a second.\<close>

lemma slow_calls_never_red: "duration_color c \<noteq> ErrorMain"
  by (cases "ac_durationMs c") (auto simp: duration_color_def)

section \<open>The slowest calls and the statistics\<close>

interpretation durations: comparator by_duration
  by unfold_locales (auto simp: by_duration_def)

text \<open>The table of the slowest requests lists the fifteen longest calls, or all if there are fewer, the longest first: no call
  left out took longer than one shown.\<close>

theorem slowest_calls_shown:
  "let shown = slowest_calls calls
   in \<exists>rest. mset calls = mset shown + mset rest \<and> length shown = min 15 (length calls)
      \<and> sorted_wrt (\<lambda>a b. num_key (ac_durationMs b) \<le> num_key (ac_durationMs a)) shown
      \<and> list_all (\<lambda>a. list_all (\<lambda>b. num_key (ac_durationMs b) \<le> num_key (ac_durationMs a)) rest) shown"
proof -
  let ?s = "js_sort by_duration calls"
  have "sorted_wrt (\<lambda>a b. num_key (ac_durationMs b) \<le> num_key (ac_durationMs a)) ?s"
    using durations.sort_sorted [of calls] by (simp add: by_duration_def)
  then have "sorted_wrt (\<lambda>a b. num_key (ac_durationMs b) \<le> num_key (ac_durationMs a)) (take 15 ?s @ drop 15 ?s)" by simp
  then have o: "sorted_wrt (\<lambda>a b. num_key (ac_durationMs b) \<le> num_key (ac_durationMs a)) (take 15 ?s)"
    "\<forall>a \<in> set (take 15 ?s). \<forall>b \<in> set (drop 15 ?s). num_key (ac_durationMs b) \<le> num_key (ac_durationMs a)"
    unfolding sorted_wrt_append by blast+
  have m: "mset calls = mset (take 15 ?s) + mset (drop 15 ?s)"
    using durations.sort_mset [of calls] by (metis append_take_drop_id mset_append)
  have "size (mset ?s) = size (mset calls)" by (simp add: durations.sort_mset)
  then have l: "length (take 15 ?s) = min 15 (length calls)" by simp
  have d: "slowest_calls calls = take 15 ?s" by (simp add: slowest_calls_def SLOWEST_CALLS_COUNT_def)
  show ?thesis unfolding Let_def d
    by (rule exI [of _ "drop 15 ?s"]) (use m l o in \<open>simp add: list_all_iff\<close>)
qed

lemma foldl_js_plus: "foldl (+) (Num a) (map Num xs) = Num (a + sum_list xs)"
  by (induction xs arbitrary: a) (simp_all add: add.assoc)

lemma sum_list_between:
  fixes xs :: "rat list"
  assumes "\<forall>x \<in> set xs. m \<le> x \<and> x \<le> M"
  shows "of_nat (length xs) * m \<le> sum_list xs \<and> sum_list xs \<le> of_nat (length xs) * M"
  using assms by (induction xs) (auto simp: algebra_simps)

text \<open>Of figures that are numbers the expanded panel shows the smallest, the largest and a mean between them.\<close>

theorem panel_stats_ordered:
  assumes "history \<noteq> []" "map (pc_getValue config) history = map Num xs"
  shows "\<exists>mn mx avg. computePanelStats config history = \<lparr>ps_min = Num mn, ps_max = Num mx, ps_avg = Num avg\<rparr>
    \<and> mn \<le> avg \<and> avg \<le> mx \<and> mn \<in> set xs \<and> mx \<in> set xs \<and> list_all (\<lambda>x. mn \<le> x \<and> x \<le> mx) xs"
proof -
  have l: "length xs = length history" using arg_cong [OF assms(2), of length] by simp
  then have ne: "xs \<noteq> []" using assms(1) by auto
  have "computePanelStats config history
      = \<lparr>ps_min = Num (Min (set xs)), ps_max = Num (Max (set xs)), ps_avg = Num (sum_list xs / of_nat (length xs))\<rparr>"
    using assms ne by (simp add: computePanelStats_def Let_def js_min_list_num js_max_list_num zero_jsnum_def foldl_js_plus l)
  moreover have "of_nat (length xs) * Min (set xs) \<le> sum_list xs \<and> sum_list xs \<le> of_nat (length xs) * Max (set xs)"
    by (rule sum_list_between) simp
  then have "Min (set xs) \<le> sum_list xs / of_nat (length xs)" "sum_list xs / of_nat (length xs) \<le> Max (set xs)"
    using ne by (simp_all add: field_simps)
  ultimately show ?thesis using ne by (auto simp: list_all_iff)
qed

lemma panel_stats_ordered_witness:
  "\<exists>mn mx avg. computePanelStats (PANELS ! 0) [sample_snapshot, busy_snapshot] = \<lparr>ps_min = Num mn, ps_max = Num mx, ps_avg = Num avg\<rparr>
    \<and> mn \<le> avg \<and> avg \<le> mx \<and> mn \<in> set [80, 80] \<and> mx \<in> set [80, 80] \<and> list_all (\<lambda>x. mn \<le> x \<and> x \<le> mx) [80, 80]"
  by (rule panel_stats_ordered) (simp_all add: PANELS_def sample_snapshot_def busy_snapshot_def)

section \<open>The traffic bar\<close>

text \<open>With some traffic and no negative rate, the segments of the traffic bar are the shares of the two rates, side by side from
  the left edge to the right.\<close>

theorem traffic_bar_tiled:
  assumes "httpRequestRate s = Num h" "k8s_rate s = Num k" "0 \<le> h" "0 \<le> k" "0 < h + k"
  shows "\<exists>x. StackedBar (computeTrafficSegments (Some s)) (traffic_total (computeTrafficSegments (Some s)))
      = Some [(Num 0, Num x), (Num x, Num (100 - x))] \<and> 0 \<le> x \<and> x \<le> 100 \<and> x * (h + k / 60) = 100 * h"
proof -
  have t: "traffic_total (computeTrafficSegments (Some s)) = Num (h + k / 60)" and g: "computeTrafficSegments (Some s)
      = [\<lparr>ts_label = ''HTTP'', ts_value = Num h\<rparr>, \<lparr>ts_label = ''K8s'', ts_value = Num (k / 60)\<rparr>]"
    using assms(1,2) by (simp_all add: computeTrafficSegments_def traffic_total_def k8s_rate_def zero_jsnum_def Let_def)
  have p: "0 < h + k / 60" using assms(3-5) by (cases "0 < h") auto
  have "k / 60 / (h + k / 60) * 100 = 100 - h / (h + k / 60) * 100" using p by (simp add: field_simps)
  then have "StackedBar (computeTrafficSegments (Some s)) (traffic_total (computeTrafficSegments (Some s)))
      = Some [(Num 0, Num (h / (h + k / 60) * 100)), (Num (h / (h + k / 60) * 100), Num (100 - h / (h + k / 60) * 100))]"
    unfolding t unfolding g using p by (simp add: StackedBar_def Let_def zero_jsnum_def)
  moreover have "0 \<le> h / (h + k / 60) * 100 \<and> h / (h + k / 60) * 100 \<le> 100 \<and> h / (h + k / 60) * 100 * (h + k / 60) = 100 * h"
    using p assms(3,4) by (simp add: field_simps)
  ultimately show ?thesis by blast
qed

lemma traffic_bar_tiled_witness:
  "\<exists>x. StackedBar (computeTrafficSegments (Some busy_snapshot)) (traffic_total (computeTrafficSegments (Some busy_snapshot)))
      = Some [(Num 0, Num x), (Num x, Num (100 - x))] \<and> 0 \<le> x \<and> x \<le> 100 \<and> x * (80 + 1000 / 60) = 100 * 80"
  by (rule traffic_bar_tiled) (simp_all add: busy_snapshot_def sample_snapshot_def k8s_rate_def)

section \<open>The latest sample\<close>

definition latest_last :: "obs_state \<Rightarrow> bool" where
  "latest_last s = (\<forall>p. os_latest s = Some p \<longrightarrow> (\<exists>xs. os_history s = xs @ [pl_snapshot p]))"

lemma latest_payload: "latest_last (obs_payload now p s)"
proof -
  have "\<exists>xs. slice_last HISTORY_SIZE (ys @ [x]) = xs @ [x]" for ys and x :: metric_snapshot
    by (rule exI [of _ "drop (length ys + 1 - HISTORY_SIZE) ys"]) (simp add: slice_last_def HISTORY_SIZE_def)
  then show ?thesis
    by (auto simp: latest_last_def obs_payload_latest obs_payload_history push_history_def Let_def)
qed

lemma latest_ttl: "latest_last s \<Longrightarrow> latest_last (ttl_cleanup now s)"
  by (simp add: latest_last_def ttl_cleanup_def Let_def)

interpretation latest: machine "obs_step parse" "\<lambda>h :: 'cfg obs_conn. latest_last (cn_data (oc_conn h))"
  for parse :: "string \<Rightarrow> stream_payload option"
  by unfold_locales (rule obs_step_data [where P = latest_last]; simp add: latest_payload latest_ttl)

lemma strict_last:
  assumes "sorted_wrt (<) (map f h)" "x \<in> set h" "\<forall>y \<in> set h. f y \<le> (f x :: int)"
  shows "last h = x"
proof (rule ccontr)
  assume n: "last h \<noteq> x"
  have "h = butlast h @ [last h]" using assms(2) by (metis append_butlast_last_id empty_iff list.set(1))
  then have "x \<in> set (butlast h)" "sorted_wrt (<) (map f (butlast h) @ [f (last h)])" "last h \<in> set h"
    using assms n by (metis Un_iff empty_iff insert_iff list.set set_append, metis list.simps(8,9) map_append, metis in_set_conv_decomp)
  then have "f x < f (last h)" "f (last h) \<le> f x" using assms(3) by (auto simp: sorted_wrt_append)
  then show False by simp
qed

text \<open>C34. Whatever the stream delivered, its newest sample is part of the history of the page if it is not older than the range; and
  it ends the history unless the stored samples were fetched later, so that a panel compares it with the sample before.\<close>

theorem latest_sample_shown:
  assumes "v = cn_data (oc_conn (run (obs_step parse) obs_start es))" "os_latest v = Some p"
    "date_parse env (ms_timestamp (pl_snapshot p)) = Some t" "dataUpdatedAt - TIME_RANGE_MS r \<le> t"
  shows "pl_snapshot p \<in> set (dashboard_history env stored dataUpdatedAt v r)
    \<and> (t < dataUpdatedAt \<or> last (dashboard_history env stored dataUpdatedAt v r) = pl_snapshot p)"
proof -
  have "latest_last v" unfolding assms(1)
    by (rule latest.run_inv) (simp add: obs_start_def sse_init_def obs_init_def latest_last_def)
  then obtain xs where h: "os_history v = xs @ [pl_snapshot p]" using assms(2) by (auto simp: latest_last_def)
  let ?e = "rangeEndMs env dataUpdatedAt (os_latest v)"
  let ?zs = "(case stored of Some s \<Rightarrow> s | None \<Rightarrow> []) @ os_history v"
  have e: "?e = max dataUpdatedAt t" by (simp add: rangeEndMs_def assms(2,3))
  have "0 < TIME_RANGE_MS r" by (cases r) simp_all
  then have "sample_in env (?e - TIME_RANGE_MS r) ?e (pl_snapshot p) t" using assms(3,4) by (auto simp: e sample_in_def)
  then have "last_at env (?e - TIME_RANGE_MS r) ?e ?zs t (pl_snapshot p)"
    unfolding last_at_def h by (intro exI [of _ "(case stored of Some s \<Rightarrow> s | None \<Rightarrow> []) @ xs"] exI [of _ "[]"]) simp
  then have m: "pl_snapshot p \<in> set (dashboard_history env stored dataUpdatedAt v r)"
    and s: "sorted_wrt (<) (map (\<lambda>s. the (date_parse env (ms_timestamp s))) (dashboard_history env stored dataUpdatedAt v r))"
    and b: "\<And>y. y \<in> set (dashboard_history env stored dataUpdatedAt v r) \<Longrightarrow> the (date_parse env (ms_timestamp y)) \<le> ?e"
    using merged_history_exact [of stored "os_history v" ?e r env]
    by (auto simp: dashboard_history_def Let_def last_at_def sample_in_def)
  have "last (dashboard_history env stored dataUpdatedAt v r) = pl_snapshot p" if "\<not> t < dataUpdatedAt"
    by (rule strict_last [OF s m]) (use that b e assms(3) in auto)
  then show ?thesis using m by blast
qed

definition clock_env :: js_env where
  "clock_env = \<lparr>date_parse = (\<lambda>s. Some 5000), intl_parts = (\<lambda>_ _. None),
     host_fields = (\<lambda>_. \<lparr>cv_year = 1970, cv_month = 1, cv_day = 1, cv_hour = 0, cv_minute = 0, cv_second = 5\<rparr>), date_now = 6000\<rparr>"

lemma net_conn: "oc_conn (obs_step parse h (Net n)) = sse_step (obs_hook parse) (oc_conn h) n"
  by simp

lemma sample_view:
  "os_latest (cn_data (oc_conn (run (obs_step sample_parse) obs_start [Net (Opened 1), Net (Chunk 2 (''data: {}'' @ [LF]))]))) = Some sample_payload"
proof -
  have f: "feed [] (''data: {}'' @ [LF]) = ([''data: {}''], [])" by code_simp
  have "os_latest (cn_data (sse_step (obs_hook sample_parse) (sse_step (obs_hook sample_parse) (sse_init obs_init) (Opened 1))
      (Chunk 2 (''data: {}'' @ [LF])))) = Some sample_payload"
    using f by (simp add: sse_init_def sse_read_def sse_deliver_def obs_hook_def sample_parse_def obs_payload_latest)
  moreover have "oc_conn (obs_start :: 'a obs_conn) = sse_init obs_init" by (simp add: obs_start_def)
  ultimately show ?thesis unfolding run_simps net_conn by simp
qed

lemma latest_sample_shown_witness:
  "let v = cn_data (oc_conn (run (obs_step sample_parse) obs_start [Net (Opened 1), Net (Chunk 2 (''data: {}'' @ [LF]))]))
   in sample_snapshot \<in> set (dashboard_history clock_env None 4000 v R1m)
    \<and> (5000 < (4000 :: int) \<or> last (dashboard_history clock_env None 4000 v R1m) = sample_snapshot)"
proof -
  have p: "pl_snapshot sample_payload = sample_snapshot" by (simp add: sample_payload_def)
  have d: "date_parse clock_env (ms_timestamp (pl_snapshot sample_payload)) = Some 5000" "4000 - TIME_RANGE_MS R1m \<le> 5000"
    by (simp_all add: clock_env_def)
  show ?thesis unfolding Let_def using latest_sample_shown [OF refl sample_view d, of None] unfolding p .
qed

end
