(* ===== verification/ErrorStrip.thy ===== *)
theory ErrorStrip
  imports Dashboard
begin

text \<open>
  The strip of errors under the metrics (\<open>components/observability/ErrorTimeline.tsx\<close>): the area of the error rate and the
  dots of the alerts. The text of the path is kept as its points.
\<close>

definition useTimeRange :: "js_env \<Rightarrow> metric_snapshot list \<Rightarrow> int option \<times> int option" where
  "useTimeRange env history =
     (if history = [] then (Some 0, Some 0)
      else (date_parse env (ms_timestamp (hd history)), date_parse env (ms_timestamp (last history))))"

definition useMaxErrorRate :: "metric_snapshot list \<Rightarrow> jsnum" where
  "useMaxErrorRate history = foldl (\<lambda>mx s. if mx < totalErrorRate s then totalErrorRate s else mx) 0 history"

text \<open>Percent of the range; \<open>NaN\<close> if a timestamp cannot be read.\<close>

definition range_percent :: "js_env \<Rightarrow> int option \<Rightarrow> int option \<Rightarrow> int option \<Rightarrow> jsnum" where
  "range_percent env startMs endMs t =
     (case (startMs, endMs, t) of
        (Some a, Some b, Some x) \<Rightarrow> Num (of_int (x - a) / of_int (b - a) * 100) | _ \<Rightarrow> NaN)"

definition empty_range :: "int option \<Rightarrow> int option \<Rightarrow> bool" where
  "empty_range startMs endMs = (case (startMs, endMs) of (Some a, Some b) \<Rightarrow> b - a \<le> 0 | _ \<Rightarrow> False)"

definition area_points :: "js_env \<Rightarrow> metric_snapshot list \<Rightarrow> (jsnum \<times> jsnum) list" where
  "area_points env history =
     (let (startMs, endMs) = useTimeRange env history
      in map (\<lambda>s. (range_percent env startMs endMs (date_parse env (ms_timestamp s)),
                   Num 32 - js_divide (totalErrorRate s) (useMaxErrorRate history) * Num 20)) history)"

text \<open>\<open>M first,32 L... L last,32 Z\<close>; nothing without errors or without a span of time.\<close>

definition ErrorRateArea :: "js_env \<Rightarrow> metric_snapshot list \<Rightarrow> (jsnum \<times> jsnum) list option" where
  "ErrorRateArea env history =
     (let (startMs, endMs) = useTimeRange env history; pts = area_points env history
      in if history = [] \<or> \<not> 0 < useMaxErrorRate history \<or> empty_range startMs endMs then None
         else Some ((fst (hd pts), Num 32) # pts @ [(fst (last pts), Num 32)]))"

definition EventDots :: "js_env \<Rightarrow> metric_snapshot list \<Rightarrow> incident_event list \<Rightarrow> (string \<times> theme_color \<times> jsnum) list" where
  "EventDots env history events =
     (let (startMs, endMs) = useTimeRange env history
      in if history = [] \<or> empty_range startMs endMs then []
         else map (\<lambda>e. (ie_id e, if ie_severity e = SevCritical then ErrorMain else WarningMain,
                        range_percent env startMs endMs (Some (ie_time e)))) events)"

definition formatTimeLabel :: "civil \<Rightarrow> string" where
  "formatTimeLabel d =
     pad_start 2 CHR ''0'' (show_int (cv_hour d)) @ '':'' @ pad_start 2 CHR ''0'' (show_int (cv_minute d)) @ '':''
       @ pad_start 2 CHR ''0'' (show_int (cv_second d))"

section \<open>Where the area lies\<close>

lemma max_error_fold:
  assumes "\<forall>s \<in> set h. \<exists>r. totalErrorRate s = Num r" "0 \<le> m"
  shows "\<exists>M. foldl (\<lambda>mx s. if mx < totalErrorRate s then totalErrorRate s else mx) (Num m) h = Num M \<and> m \<le> M
    \<and> (\<forall>s \<in> set h. \<forall>r. totalErrorRate s = Num r \<longrightarrow> r \<le> M)"
  using assms
proof (induction h arbitrary: m)
  case (Cons s h)
  then obtain r where r: "totalErrorRate s = Num r" by auto
  obtain m' where m': "m' = (if m < r then r else m)" by blast
  have "0 \<le> m'" using Cons.prems(2) m' by auto
  moreover have "\<forall>s \<in> set h. \<exists>r. totalErrorRate s = Num r" using Cons.prems(1) by simp
  ultimately obtain M where M: "foldl (\<lambda>mx s. if mx < totalErrorRate s then totalErrorRate s else mx) (Num m') h = Num M" "m' \<le> M"
    "\<forall>s \<in> set h. \<forall>r. totalErrorRate s = Num r \<longrightarrow> r \<le> M"
    using Cons.IH [of m'] by blast
  have "(if Num m < totalErrorRate s then totalErrorRate s else Num m) = Num m'" by (simp add: r m')
  moreover have "m \<le> M" "r \<le> M" using M(2) m' by (auto split: if_splits)
  ultimately show ?case using M(1,3) r by (intro exI [of _ M]) simp
qed simp

lemma strip_box:
  fixes x y :: rat
  shows "0 \<le> x \<Longrightarrow> x \<le> 1 \<Longrightarrow> 0 \<le> y \<Longrightarrow> y \<le> 1 \<Longrightarrow>
    0 \<le> x * 100 \<and> x * 100 \<le> 100 \<and> 12 \<le> 32 - y * 20 \<and> 32 - y * 20 \<le> 32"
  by simp

text \<open>Of a history joined from stored and live samples, with at least two samples and some error, the area runs from the left to the right
  end of the range, never backwards, and between the base line and twenty units above it.\<close>

theorem error_area_in_strip:
  assumes "h = mergeMetricHistory env stored live r endMs" "2 \<le> length h"
    "list_all (\<lambda>s. \<exists>e. totalErrorRate s = Num e \<and> 0 \<le> e) h" "list_ex (\<lambda>s. 0 < totalErrorRate s) h"
  shows "\<exists>pts. area_points env h = map (\<lambda>(x, y). (Num x, Num y)) pts
    \<and> ErrorRateArea env h = Some ((Num 0, Num 32) # area_points env h @ [(Num 100, Num 32)])
    \<and> list_all (\<lambda>(x, y). 0 \<le> x \<and> x \<le> 100 \<and> 12 \<le> y \<and> y \<le> 32) pts \<and> sorted (map fst pts)"
proof -
  obtain t where t: "t = (\<lambda>s :: metric_snapshot. the (date_parse env (ms_timestamp s)))" by blast
  have s: "sorted_wrt (<) (map t h)" and p: "\<And>s. s \<in> set h \<Longrightarrow> date_parse env (ms_timestamp s) = Some (t s)"
    using merged_history_exact [of stored live endMs r env] unfolding assms(1) Let_def t
    by (blast, force simp: last_at_def sample_in_def)
  have ne: "h \<noteq> []" using assms(2) by auto
  obtain a b where a: "a = t (hd h)" and b: "b = t (last h)" by blast
  have le: "t (h ! i) \<le> t (h ! j)" if "i \<le> j" "j < length h" for i j
    using sorted_wrt_nth_less [OF s, of i j] that by (cases "i = j") auto
  have ab: "a < b"
    using sorted_wrt_nth_less [OF s, of 0 "length h - 1"] assms(2) ne unfolding a b by (simp add: hd_conv_nth last_conv_nth)
  have bounds: "a \<le> t x \<and> t x \<le> b" if "x \<in> set h" for x
  proof -
    from that obtain i where "i < length h" "x = h ! i" by (auto simp: in_set_conv_nth)
    then show ?thesis using le [of 0 i] le [of i "length h - 1"] ne unfolding a b by (simp add: hd_conv_nth last_conv_nth)
  qed
  have r: "useTimeRange env h = (Some a, Some b)" using ne p [of "hd h"] p [of "last h"] by (simp add: useTimeRange_def a b)
  have nums: "\<forall>s \<in> set h. \<exists>e. totalErrorRate s = Num e" using assms(3) by (auto simp: list_all_iff)
  obtain M where M: "useMaxErrorRate h = Num M" "\<forall>s \<in> set h. \<forall>e. totalErrorRate s = Num e \<longrightarrow> e \<le> M"
    using max_error_fold [OF nums, of 0] by (auto simp: useMaxErrorRate_def zero_jsnum_def)
  obtain x e where x: "x \<in> set h" "totalErrorRate x = Num e" "0 < e"
    using assms(4) nums by (auto simp: list_ex_iff zero_jsnum_def)
  then have M0: "0 < M" using M(2) by (meson less_le_trans)
  obtain rate where rate: "\<And>s. s \<in> set h \<Longrightarrow> totalErrorRate s = Num (rate s) \<and> 0 \<le> rate s"
    using assms(3) unfolding list_all_iff by metis
  obtain pts where pts: "pts = map (\<lambda>s. (of_int (t s - a) / of_int (b - a) * 100 :: rat, 32 - rate s / M * 20)) h" by blast
  have pos: "(0 :: rat) < of_int (b - a)" using ab by simp
  have area: "area_points env h = map (\<lambda>(x, y). (Num x, Num y)) pts"
    unfolding pts area_points_def r using p rate by (simp add: range_percent_def M(1) del: of_int_diff)
  have inside: "list_all (\<lambda>(x, y). 0 \<le> x \<and> x \<le> 100 \<and> 12 \<le> y \<and> y \<le> 32) pts"
  proof -
    have "0 \<le> of_int (t s - a) / of_int (b - a) * (100 :: rat) \<and> of_int (t s - a) / of_int (b - a) * (100 :: rat) \<le> 100
      \<and> 12 \<le> 32 - rate s / M * 20 \<and> 32 - rate s / M * 20 \<le> 32" if "s \<in> set h" for s
    proof -
      have "(0 :: rat) \<le> of_int (t s - a)" "of_int (t s - a) \<le> (of_int (b - a) :: rat)" using bounds [OF that] by simp_all
      then have "0 \<le> of_int (t s - a) / (of_int (b - a) :: rat)" "of_int (t s - a) / (of_int (b - a) :: rat) \<le> 1"
        using pos by (simp_all only: divide_le_eq_1_pos divide_nonneg_pos)
      moreover have "0 \<le> rate s / M" "rate s / M \<le> 1" using rate [OF that] M(2) M0 that by (auto simp: divide_le_eq_1_pos)
      ultimately show ?thesis by (rule strip_box)
    qed
    then show ?thesis unfolding pts list_all_iff by simp
  qed
  have mono: "sorted (map fst pts)"
  proof -
    have "of_int (t (h ! i) - a) / of_int (b - a) * 100 \<le> (of_int (t (h ! j) - a) / of_int (b - a) * 100 :: rat)"
      if "i \<le> j" "j < length h" for i j
      using le [OF that] pos by (intro mult_right_mono divide_right_mono) simp_all
    then show ?thesis unfolding pts by (simp add: sorted_iff_nth_mono)
  qed
  have ends: "fst (hd (area_points env h)) = Num 0" "fst (last (area_points env h)) = Num 100"
  proof -
    have "of_int (b - a) / of_int (b - a) = (1 :: rat)" using pos by (metis divide_self less_irrefl)
    then have "fst (last pts) = 100" unfolding pts last_map [OF ne] fst_conv b [symmetric] by simp
    moreover have "fst (hd pts) = 0" unfolding pts hd_map [OF ne] fst_conv a [symmetric] by simp
    moreover have "pts \<noteq> []" using ne pts by simp
    ultimately show "fst (hd (area_points env h)) = Num 0" "fst (last (area_points env h)) = Num 100"
      unfolding area by (simp_all add: hd_map last_map case_prod_beta)
  qed
  have "ErrorRateArea env h = Some ((Num 0, Num 32) # area_points env h @ [(Num 100, Num 32)])"
    using ne ab M0 by (simp add: ErrorRateArea_def r ends M(1) zero_jsnum_def empty_range_def)
  then show ?thesis using area inside mono by blast
qed

definition length_env :: js_env where
  "length_env = clock_env\<lparr>date_parse := (\<lambda>s. Some (int (length s)))\<rparr>"

definition error_samples :: "metric_snapshot list" where
  "error_samples = [sample_snapshot\<lparr>ms_timestamp := ''a'', totalErrorRate := Num 1\<rparr>, sample_snapshot\<lparr>ms_timestamp := ''bb''\<rparr>]"

lemma error_area_in_strip_witness:
  "\<exists>pts. area_points length_env error_samples = map (\<lambda>(x, y). (Num x, Num y)) pts
    \<and> ErrorRateArea length_env error_samples = Some ((Num 0, Num 32) # area_points length_env error_samples @ [(Num 100, Num 32)])
    \<and> list_all (\<lambda>(x, y). 0 \<le> x \<and> x \<le> 100 \<and> 12 \<le> y \<and> y \<le> 32) pts \<and> sorted (map fst pts)"
proof (rule error_area_in_strip)
  show "error_samples = mergeMetricHistory length_env None error_samples R1m 2"
    by (simp add: error_samples_def length_env_def mergeMetricHistory_def add_sample_def)
qed (simp_all add: error_samples_def sample_snapshot_def zero_jsnum_def)

end
