(* ===== verification/Danger.thy ===== *)
theory Danger
  imports QueryKeys Formatters "HOL-Library.Sublist"
begin

text \<open>
  \<open>components/settings/DatabaseSettings.tsx\<close>: resetting the database and the emergency scale-up, each behind two
  confirmations and followed by a dialog that shows the events of the service. The two operations have the same code but
  for their constants; the model takes the operation as an argument.
\<close>

section \<open>State\<close>

datatype danger_op = ResetDB | EmergencyScale

datatype reset_kind = EvStep | EvDone | EvError

record reset_event =
  re_type :: reset_kind
  re_message :: string

text \<open>A dialog that was closed stays over the page until its transition has ended.\<close>

datatype dialog = Closed | Shown | Leaving

record danger_state =
  op_step1 :: dialog
  op_step2 :: dialog
  op_phrase :: string
  op_progress :: dialog
  op_events :: "reset_event list"
  op_done :: bool
  op_running :: bool

text \<open>\<open>op_running\<close>: the loop over the events has not ended. \<open>dz_started\<close> are the requests sent, \<open>dz_cleared\<close> and
  \<open>dz_invalidated\<close> count the calls that drop and refetch the cached data.\<close>

record danger_zone =
  dz_op :: "danger_op \<Rightarrow> danger_state"
  dz_started :: "danger_op list"
  dz_cleared :: nat
  dz_invalidated :: nat

fun confirm_phrase :: "danger_op \<Rightarrow> string" where
  "confirm_phrase ResetDB = ''RESET DATABASE''"
| "confirm_phrase EmergencyScale = ''EMERGENCY SCALE''"

fun op_permitted :: "string list option \<Rightarrow> danger_op \<Rightarrow> bool" where
  "op_permitted permissions ResetDB = canResetDB permissions"
| "op_permitted permissions EmergencyScale = canEmergencyScale permissions"

definition op_start :: danger_state where
  "op_start = \<lparr>op_step1 = Closed, op_step2 = Closed, op_phrase = [], op_progress = Closed, op_events = [], op_done = False,
     op_running = False\<rparr>"

definition danger_start :: danger_zone where
  "danger_start = \<lparr>dz_op = (\<lambda>_. op_start), dz_started = [], dz_cleared = 0, dz_invalidated = 0\<rparr>"

section \<open>The dialogs\<close>

definition leave :: "dialog \<Rightarrow> dialog" where "leave d = (if d = Shown then Leaving else d)"

definition confirmStep1 :: "danger_state \<Rightarrow> danger_state" where
  "confirmStep1 o' = o'\<lparr>op_step1 := leave (op_step1 o'), op_phrase := [], op_step2 := Shown\<rparr>"

definition confirmStep2 :: "danger_op \<Rightarrow> danger_zone \<Rightarrow> danger_zone" where
  "confirmStep2 k s =
     (let o' = dz_op s k
      in if op_phrase o' \<noteq> confirm_phrase k then s
         else s\<lparr>dz_op := (dz_op s)(k := o'\<lparr>op_step2 := leave (op_step2 o'), op_phrase := [], op_events := [], op_done := False,
                  op_progress := Shown, op_running := True\<rparr>),
                dz_started := dz_started s @ [k]\<rparr>)"

text \<open>The \<open>finally\<close> block: an emergency scale-up has all cached data fetched again.\<close>

definition stream_over :: "danger_op \<Rightarrow> danger_zone \<Rightarrow> danger_zone" where
  "stream_over k s =
     s\<lparr>dz_op := (dz_op s)(k := (dz_op s k)\<lparr>op_done := True, op_running := False\<rparr>),
       dz_invalidated := dz_invalidated s + (if k = EmergencyScale then 1 else 0)\<rparr>"

definition add_event :: "danger_op \<Rightarrow> reset_event \<Rightarrow> danger_zone \<Rightarrow> danger_zone" where
  "add_event k e s = s\<lparr>dz_op := (dz_op s)(k := (dz_op s k)\<lparr>op_events := op_events (dz_op s k) @ [e]\<rparr>)\<rparr>"

definition event_arrived :: "danger_op \<Rightarrow> reset_event \<Rightarrow> danger_zone \<Rightarrow> danger_zone" where
  "event_arrived k e s =
     (let s1 = add_event k e s
      in case re_type e of
           EvStep \<Rightarrow> s1
         | EvError \<Rightarrow> stream_over k s1
         | EvDone \<Rightarrow> stream_over k (if k = ResetDB then s1\<lparr>dz_cleared := dz_cleared s1 + 1\<rparr> else s1))"

definition stream_failed :: "danger_op \<Rightarrow> string option \<Rightarrow> danger_zone \<Rightarrow> danger_zone" where
  "stream_failed k err s = stream_over k (add_event k \<lparr>re_type = EvError, re_message = formatError err\<rparr> s)"

text \<open>Clicks reach the page only when no dialog lies over it, and a dialog only when no later one does; the keyboard is with the
  dialog opened last.\<close>

definition all_closed :: "danger_state \<Rightarrow> bool" where
  "all_closed o' = (op_step1 o' = Closed \<and> op_step2 o' = Closed \<and> op_progress o' = Closed)"

definition step1_on_top :: "danger_state \<Rightarrow> bool" where
  "step1_on_top o' = (op_step1 o' \<noteq> Closed \<and> op_step2 o' = Closed \<and> op_progress o' = Closed)"

definition step2_on_top :: "danger_state \<Rightarrow> bool" where
  "step2_on_top o' = (op_step2 o' \<noteq> Closed \<and> op_progress o' = Closed)"

datatype danger_event =
    ButtonClicked danger_op
  | Step1Cancelled danger_op
  | Step1Confirmed danger_op
  | PhraseTyped danger_op string
  | Step2Cancelled danger_op
  | Step2Confirmed danger_op
  | EnterPressed danger_op
  | EventArrived danger_op reset_event
  | StreamEnded danger_op
  | StreamFailed danger_op "string option"
  | ProgressClosed danger_op
  | TransitionsOver danger_op

definition on_op :: "danger_op \<Rightarrow> (danger_state \<Rightarrow> danger_state) \<Rightarrow> danger_zone \<Rightarrow> danger_zone" where
  "on_op k f s = s\<lparr>dz_op := (dz_op s)(k := f (dz_op s k))\<rparr>"

definition gone :: "dialog \<Rightarrow> dialog" where "gone d = (if d = Leaving then Closed else d)"

fun danger_step :: "string list option \<Rightarrow> danger_zone \<Rightarrow> danger_event \<Rightarrow> danger_zone" where
  "danger_step permissions s (ButtonClicked k) =
     (if op_permitted permissions k \<and> all_closed (dz_op s ResetDB) \<and> all_closed (dz_op s EmergencyScale) then on_op k (\<lambda>o'. o'\<lparr>op_step1 := Shown\<rparr>) s else s)"
| "danger_step permissions s (Step1Cancelled k) =
     (if step1_on_top (dz_op s k) then on_op k (\<lambda>o'. o'\<lparr>op_step1 := leave (op_step1 o')\<rparr>) s else s)"
| "danger_step permissions s (Step1Confirmed k) = (if step1_on_top (dz_op s k) then on_op k confirmStep1 s else s)"
| "danger_step permissions s (PhraseTyped k t) =
     (if op_step2 (dz_op s k) = Shown \<and> step2_on_top (dz_op s k) then on_op k (\<lambda>o'. o'\<lparr>op_phrase := t\<rparr>) s else s)"
| "danger_step permissions s (Step2Cancelled k) =
     (if step2_on_top (dz_op s k) then on_op k (\<lambda>o'. o'\<lparr>op_step2 := leave (op_step2 o')\<rparr>) s else s)"
| "danger_step permissions s (Step2Confirmed k) = (if step2_on_top (dz_op s k) then confirmStep2 k s else s)"
| "danger_step permissions s (EnterPressed k) =
     (if op_step2 (dz_op s k) = Shown \<and> step2_on_top (dz_op s k) then confirmStep2 k s else s)"
| "danger_step permissions s (EventArrived k e) = (if op_running (dz_op s k) then event_arrived k e s else s)"
| "danger_step permissions s (StreamEnded k) = (if op_running (dz_op s k) then stream_over k s else s)"
| "danger_step permissions s (StreamFailed k err) = (if op_running (dz_op s k) then stream_failed k err s else s)"
| "danger_step permissions s (ProgressClosed k) =
     (if op_progress (dz_op s k) \<noteq> Closed \<and> op_done (dz_op s k)
      then on_op k (\<lambda>o'. o'\<lparr>op_progress := leave (op_progress o'), op_events := [], op_done := False\<rparr>) s else s)"
| "danger_step permissions s (TransitionsOver k) =
     on_op k (\<lambda>o'. o'\<lparr>op_step1 := gone (op_step1 o'), op_step2 := gone (op_step2 o'), op_progress := gone (op_progress o')\<rparr>) s"

text \<open>The title of the dialog with the events, which both operations show.\<close>

definition progress_title :: "danger_state \<Rightarrow> string" where
  "progress_title o' =
     (if \<not> op_done o' then ''Resetting database'' @ [CHR 0xE2, CHR 0x80, CHR 0xA6] else if EvDone \<in> set (map re_type (op_events o')) then ''Reset complete'' else ''Reset failed'')"

section \<open>Only confirmed operations run\<close>

definition asked :: "danger_event list \<Rightarrow> danger_event list \<Rightarrow> bool" where
  "asked es steps = subseq steps es"

lemma asked_more: "asked es steps \<Longrightarrow> asked (es @ [e]) steps"
  unfolding asked_def by (rule subseq_rev_drop_many)

lemma asked_next: "asked es steps \<Longrightarrow> asked (es @ [e]) (steps @ [e])"
  unfolding asked_def by (rule list_emb_append_mono) simp_all

lemma asked_nil: "asked es []"
  by (simp add: asked_def)

text \<open>What a state of a dialog says about the clicks so far.\<close>

definition op_inv :: "string list option \<Rightarrow> danger_event list \<Rightarrow> danger_op \<Rightarrow> danger_state \<Rightarrow> bool" where
  "op_inv ps es k o' =
     ((op_step1 o' \<noteq> Closed \<longrightarrow> op_permitted ps k \<and> asked es [ButtonClicked k])
      \<and> (op_step2 o' \<noteq> Closed \<longrightarrow> op_permitted ps k \<and> asked es [ButtonClicked k, Step1Confirmed k])
      \<and> (op_phrase o' \<noteq> [] \<longrightarrow> op_permitted ps k \<and> asked es [ButtonClicked k, Step1Confirmed k, PhraseTyped k (op_phrase o')])
      \<and> (op_running o' \<longrightarrow> op_progress o' = Shown \<and> \<not> op_done o'))"

definition confirmed :: "string list option \<Rightarrow> danger_event list \<Rightarrow> danger_op \<Rightarrow> bool" where
  "confirmed ps es k = (op_permitted ps k \<and> asked es [ButtonClicked k, Step1Confirmed k, PhraseTyped k (confirm_phrase k)])"

definition zone_inv :: "string list option \<Rightarrow> danger_event list \<Rightarrow> danger_zone \<Rightarrow> bool" where
  "zone_inv ps es s =
     ((\<forall>k. op_inv ps es k (dz_op s k)) \<and> (\<forall>k \<in> set (dz_started s). confirmed ps es k)
      \<and> (\<forall>j k. j \<noteq> k \<longrightarrow> all_closed (dz_op s j) \<or> all_closed (dz_op s k)))"

lemma op_inv_more: "op_inv ps es k o' \<Longrightarrow> op_inv ps (es @ [e]) k o'"
  by (auto simp: op_inv_def asked_more)

lemma zone_inv_more: "zone_inv ps es s \<Longrightarrow> zone_inv ps (es @ [e]) s"
  by (auto simp: zone_inv_def op_inv_more confirmed_def asked_more)

lemma all_ops: "all_closed (dz_op s ResetDB) \<Longrightarrow> all_closed (dz_op s EmergencyScale) \<Longrightarrow> all_closed (dz_op s k)"
  by (cases k) simp_all

text \<open>A step that only touches one operation, and opens nothing unless it was already open or nothing was.\<close>

lemma zone_inv_on:
  assumes s: "zone_inv ps es s" and i: "op_inv ps (es @ [e]) k o'"
    and c: "all_closed o' \<or> \<not> all_closed (dz_op s k) \<or> all_closed (dz_op s ResetDB) \<and> all_closed (dz_op s EmergencyScale)"
    and t: "dz_op t = (dz_op s)(k := o')" "\<forall>j \<in> set (dz_started t). confirmed ps (es @ [e]) j"
  shows "zone_inv ps (es @ [e]) t"
proof -
  have "all_closed o' \<or> all_closed (dz_op s j)" if "j \<noteq> k" for j
    using c s that all_ops unfolding zone_inv_def by blast
  then show ?thesis using s i t(2) by (auto simp: zone_inv_def t(1) op_inv_more)
qed

lemma zone_inv_op:
  assumes "zone_inv ps es s" "op_inv ps (es @ [e]) k (f (dz_op s k))"
    "all_closed (f (dz_op s k)) \<or> \<not> all_closed (dz_op s k) \<or> all_closed (dz_op s ResetDB) \<and> all_closed (dz_op s EmergencyScale)"
  shows "zone_inv ps (es @ [e]) (on_op k f s)"
  using assms by (intro zone_inv_on [where s = s and k = k]) (auto simp: on_op_def zone_inv_def confirmed_def asked_more)

lemma confirmStep2_inv:
  assumes "zone_inv ps es s" "step2_on_top (dz_op s k)"
  shows "zone_inv ps (es @ [e]) (confirmStep2 k s)"
proof (cases "op_phrase (dz_op s k) = confirm_phrase k")
  case True
  have "confirm_phrase k \<noteq> []" by (cases k) simp_all
  moreover have "op_inv ps es k (dz_op s k)" using assms(1) by (simp add: zone_inv_def)
  ultimately have "confirmed ps es k" by (simp add: op_inv_def confirmed_def True)
  then show ?thesis using assms True
    by (intro zone_inv_on [where s = s and k = k and o' = "dz_op (confirmStep2 k s) k"])
      (auto simp: confirmStep2_def zone_inv_def op_inv_def confirmed_def asked_more all_closed_def step2_on_top_def leave_def Let_def)
next
  case False
  then show ?thesis using assms(1) by (simp add: confirmStep2_def zone_inv_more)
qed

lemma stream_over_inv:
  assumes "zone_inv ps es s" "op_running (dz_op s k)" "dz_op t = (dz_op s)(k := (dz_op s k)\<lparr>op_events := evs\<rparr>)" "dz_started t = dz_started s"
  shows "zone_inv ps (es @ [e]) t" "zone_inv ps (es @ [e]) (stream_over k t)"
proof -
  have p: "op_progress (dz_op s k) = Shown" using assms(1,2) by (auto simp: zone_inv_def op_inv_def)
  have i: "op_inv ps (es @ [e]) k (dz_op s k)" using assms(1) by (auto simp: zone_inv_def intro: op_inv_more)
  have c: "\<forall>j \<in> set (dz_started t). confirmed ps (es @ [e]) j" using assms(1,4) by (auto simp: zone_inv_def confirmed_def asked_more)
  show "zone_inv ps (es @ [e]) t"
    by (rule zone_inv_on [OF assms(1) _ _ assms(3) c]) (use i p in \<open>auto simp: op_inv_def all_closed_def\<close>)
  show "zone_inv ps (es @ [e]) (stream_over k t)"
    by (rule zone_inv_on [OF assms(1), where k = k and o' = "dz_op (stream_over k t) k"])
      (use i p c assms(3) in \<open>auto simp: op_inv_def all_closed_def stream_over_def\<close>)
qed

lemma danger_step_inv: "zone_inv ps es s \<Longrightarrow> zone_inv ps (es @ [e]) (danger_step ps s e)"
proof (cases e)
  case (ButtonClicked k)
  assume s: "zone_inv ps es s"
  show ?thesis
  proof (cases "op_permitted ps k \<and> all_closed (dz_op s ResetDB) \<and> all_closed (dz_op s EmergencyScale)")
    case True
    have "asked (es @ [e]) [ButtonClicked k]" using asked_next [OF asked_nil, of es "ButtonClicked k"] by (simp add: ButtonClicked)
    moreover have "op_inv ps (es @ [e]) k (dz_op s k)" using s by (auto simp: zone_inv_def intro: op_inv_more)
    ultimately have "zone_inv ps (es @ [e]) (on_op k (\<lambda>o'. o'\<lparr>op_step1 := Shown\<rparr>) s)"
      using True by (intro zone_inv_op [OF s]) (simp_all add: op_inv_def)
    then show ?thesis using True by (simp add: ButtonClicked)
  qed (use s in \<open>auto simp: ButtonClicked zone_inv_more\<close>)
next
  case (Step1Confirmed k)
  assume s: "zone_inv ps es s"
  show ?thesis
  proof (cases "step1_on_top (dz_op s k)")
    case True
    then have "op_permitted ps k \<and> asked es [ButtonClicked k]" using s by (auto simp: zone_inv_def op_inv_def step1_on_top_def)
    then have "asked (es @ [e]) [ButtonClicked k, Step1Confirmed k]" "op_permitted ps k"
      using asked_next [of es "[ButtonClicked k]" "Step1Confirmed k"] by (simp_all add: Step1Confirmed)
    then have "zone_inv ps (es @ [e]) (on_op k confirmStep1 s)" using s True
      by (intro zone_inv_op) (auto simp: zone_inv_def op_inv_def asked_more step1_on_top_def all_closed_def confirmStep1_def leave_def)
    then show ?thesis using True by (simp add: Step1Confirmed)
  qed (use s in \<open>simp add: Step1Confirmed zone_inv_more\<close>)
next
  case (PhraseTyped k t)
  assume s: "zone_inv ps es s"
  show ?thesis
  proof (cases "op_step2 (dz_op s k) = Shown \<and> step2_on_top (dz_op s k)")
    case True
    then have "op_permitted ps k \<and> asked es [ButtonClicked k, Step1Confirmed k]" using s by (auto simp: zone_inv_def op_inv_def)
    then have "asked (es @ [e]) [ButtonClicked k, Step1Confirmed k, PhraseTyped k t]" "op_permitted ps k"
      using asked_next [of es "[ButtonClicked k, Step1Confirmed k]" "PhraseTyped k t"] by (simp_all add: PhraseTyped)
    then have "zone_inv ps (es @ [e]) (on_op k (\<lambda>o'. o'\<lparr>op_phrase := t\<rparr>) s)" using s True
      by (intro zone_inv_op) (auto simp: zone_inv_def op_inv_def asked_more step2_on_top_def all_closed_def)
    then show ?thesis using True by (simp add: PhraseTyped)
  qed (use s in \<open>auto simp: PhraseTyped zone_inv_more\<close>)
next
  case (EventArrived k ev)
  assume s: "zone_inv ps es s"
  let ?evs = "op_events (dz_op s k) @ [ev]"
  show ?thesis
  proof (cases "op_running (dz_op s k)")
    case True
    note i = stream_over_inv [OF s True, where evs = ?evs and e = e]
    have "zone_inv ps (es @ [e]) (add_event k ev s)" "zone_inv ps (es @ [e]) (stream_over k (add_event k ev s))"
      "zone_inv ps (es @ [e]) (stream_over k ((add_event k ev s)\<lparr>dz_cleared := dz_cleared (add_event k ev s) + 1\<rparr>))"
      by (rule i; simp add: add_event_def)+
    then show ?thesis using True by (cases k; cases "re_type ev") (simp_all add: EventArrived event_arrived_def Let_def)
  qed (use s in \<open>simp add: EventArrived zone_inv_more\<close>)
next
  case (StreamEnded k)
  assume s: "zone_inv ps es s"
  show ?thesis
  proof (cases "op_running (dz_op s k)")
    case True
    then have "zone_inv ps (es @ [e]) (stream_over k s)"
      by (intro stream_over_inv(2) [OF s True, where evs = "op_events (dz_op s k)"]) simp_all
    then show ?thesis using True by (simp add: StreamEnded)
  qed (use s in \<open>simp add: StreamEnded zone_inv_more\<close>)
next
  case (StreamFailed k err)
  assume s: "zone_inv ps es s"
  show ?thesis
  proof (cases "op_running (dz_op s k)")
    case True
    then have "zone_inv ps (es @ [e]) (stream_failed k err s)" unfolding stream_failed_def
      by (intro stream_over_inv(2) [OF s True, where evs = "op_events (dz_op s k) @ [\<lparr>re_type = EvError, re_message = formatError err\<rparr>]"])
        (simp_all add: add_event_def)
    then show ?thesis using True by (simp add: StreamFailed)
  qed (use s in \<open>simp add: StreamFailed zone_inv_more\<close>)
next
  case (Step2Confirmed k)
  then show "zone_inv ps es s \<Longrightarrow> ?thesis" by (auto simp: confirmStep2_inv zone_inv_more)
next
  case (EnterPressed k)
  then show "zone_inv ps es s \<Longrightarrow> ?thesis" by (auto simp: confirmStep2_inv zone_inv_more)
next
  case (Step1Cancelled k)
  assume s: "zone_inv ps es s"
  then have "zone_inv ps (es @ [e]) (on_op k (\<lambda>o'. o'\<lparr>op_step1 := leave (op_step1 o')\<rparr>) s)"
    by (intro zone_inv_op) (auto simp: zone_inv_def op_inv_def asked_more all_closed_def leave_def)
  then show ?thesis using s by (simp add: Step1Cancelled zone_inv_more)
next
  case (Step2Cancelled k)
  assume s: "zone_inv ps es s"
  then have "zone_inv ps (es @ [e]) (on_op k (\<lambda>o'. o'\<lparr>op_step2 := leave (op_step2 o')\<rparr>) s)"
    by (intro zone_inv_op) (auto simp: zone_inv_def op_inv_def asked_more all_closed_def leave_def)
  then show ?thesis using s by (simp add: Step2Cancelled zone_inv_more)
next
  case (ProgressClosed k)
  assume s: "zone_inv ps es s"
  show ?thesis
  proof (cases "op_progress (dz_op s k) \<noteq> Closed \<and> op_done (dz_op s k)")
    case True
    then have "zone_inv ps (es @ [e])
        (on_op k (\<lambda>o'. o'\<lparr>op_progress := leave (op_progress o'), op_events := [], op_done := False\<rparr>) s)"
      using s by (intro zone_inv_op) (auto simp: zone_inv_def op_inv_def asked_more all_closed_def leave_def)
    then show ?thesis using True by (simp add: ProgressClosed)
  qed (use s in \<open>auto simp: ProgressClosed zone_inv_more\<close>)
next
  case (TransitionsOver k)
  assume s: "zone_inv ps es s"
  then have "zone_inv ps (es @ [e])
      (on_op k (\<lambda>o'. o'\<lparr>op_step1 := gone (op_step1 o'), op_step2 := gone (op_step2 o'), op_progress := gone (op_progress o')\<rparr>) s)"
    by (intro zone_inv_op) (auto simp: zone_inv_def op_inv_def asked_more all_closed_def gone_def)
  then show ?thesis by (simp add: TransitionsOver)
qed

lemma danger_run_inv: "zone_inv ps es (run (danger_step ps) danger_start es)"
proof (induction es rule: rev_induct)
  case Nil
  show ?case by (simp add: zone_inv_def op_inv_def danger_start_def op_start_def all_closed_def)
next
  case (snoc e es)
  then show ?case using danger_step_inv by simp
qed

text \<open>C30. Whatever is clicked and typed and whatever the service answers, a reset of the database or an emergency scale-up is only
  requested with the permission for it and after its button, its first confirmation and its exact phrase, in this order; and
  the two never run at the same time.\<close>

theorem danger_confirmed:
  "let s = run (danger_step ps) danger_start es
   in list_all (\<lambda>k. op_permitted ps k \<and> subseq [ButtonClicked k, Step1Confirmed k, PhraseTyped k (confirm_phrase k)] es) (dz_started s)
     \<and> \<not> (op_running (dz_op s ResetDB) \<and> op_running (dz_op s EmergencyScale))"
proof -
  let ?s = "run (danger_step ps) danger_start es"
  have i: "zone_inv ps es ?s" by (rule danger_run_inv)
  then have "all_closed (dz_op ?s ResetDB) \<or> all_closed (dz_op ?s EmergencyScale)" unfolding zone_inv_def by blast
  moreover have "op_running (dz_op ?s k) \<Longrightarrow> \<not> all_closed (dz_op ?s k)" for k
    using i by (auto simp: zone_inv_def op_inv_def all_closed_def)
  ultimately have "\<not> (op_running (dz_op ?s ResetDB) \<and> op_running (dz_op ?s EmergencyScale))" by blast
  then show ?thesis using i by (auto simp: zone_inv_def confirmed_def asked_def list_all_iff Let_def)
qed

section \<open>What the dialog shows in the end\<close>

definition events_seen :: "reset_event list \<Rightarrow> reset_event list" where
  "events_seen evs =
     takeWhile (\<lambda>e. re_type e = EvStep) evs @ take 1 (dropWhile (\<lambda>e. re_type e = EvStep) evs)"

definition danger_ended :: "danger_op \<Rightarrow> danger_zone \<Rightarrow> reset_event list \<Rightarrow> danger_zone \<Rightarrow> bool" where
  "danger_ended k s evs t =
     (op_events (dz_op t k) = op_events (dz_op s k) @ events_seen evs \<and> op_done (dz_op t k) \<and> \<not> op_running (dz_op t k)
      \<and> dz_started t = dz_started s
      \<and> dz_cleared t = dz_cleared s + (if k = ResetDB \<and> EvDone \<in> set (map re_type (events_seen evs)) then 1 else 0))"

lemma stopped_ignores: "\<not> op_running (dz_op s k) \<Longrightarrow> run (danger_step ps) s (map (EventArrived k) evs @ [StreamEnded k]) = s"
  by (induction evs) simp_all

lemma danger_reads:
  "op_running (dz_op s k) \<Longrightarrow> danger_ended k s evs (run (danger_step ps) s (map (EventArrived k) evs @ [StreamEnded k]))"
proof (induction evs arbitrary: s)
  case Nil
  then show ?case by (simp add: danger_ended_def events_seen_def stream_over_def)
next
  case (Cons e evs)
  show ?case
  proof (cases "re_type e")
    case EvStep
    then have "op_running (dz_op (add_event k e s) k)" using Cons.prems by (simp add: add_event_def)
    from Cons.IH [OF this] show ?thesis using Cons.prems EvStep
      by (simp add: event_arrived_def danger_ended_def events_seen_def add_event_def Let_def)
  next
    case EvDone
    then have "\<not> op_running (dz_op (event_arrived k e s) k)" by (simp add: event_arrived_def stream_over_def add_event_def Let_def)
    from stopped_ignores [OF this] show ?thesis using Cons.prems EvDone
      by (simp add: event_arrived_def danger_ended_def events_seen_def add_event_def stream_over_def Let_def)
  next
    case EvError
    then have "\<not> op_running (dz_op (event_arrived k e s) k)" by (simp add: event_arrived_def stream_over_def add_event_def Let_def)
    from stopped_ignores [OF this] show ?thesis using Cons.prems EvError
      by (simp add: event_arrived_def danger_ended_def events_seen_def add_event_def stream_over_def Let_def)
  qed
qed

text \<open>C32. A running operation shows the events up to the first that ends it, or all if the service stops before; then its dialog can
  be closed, it reports success exactly if the operation was done, and the cached data are dropped exactly if a reset was
  done.\<close>

theorem danger_outcome:
  assumes "op_running (dz_op s k)" "op_events (dz_op s k) = []"
    "t = run (danger_step ps) s (map (EventArrived k) evs @ [StreamEnded k])"
  shows "op_events (dz_op t k) = events_seen evs \<and> op_done (dz_op t k) \<and> \<not> op_running (dz_op t k)
    \<and> progress_title (dz_op t k) = (if EvDone \<in> set (map re_type (events_seen evs)) then ''Reset complete'' else ''Reset failed'')
    \<and> dz_cleared t = dz_cleared s + (if k = ResetDB \<and> EvDone \<in> set (map re_type (events_seen evs)) then 1 else 0)"
  using danger_reads [OF assms(1), of evs ps] assms(2) unfolding assms(3) by (simp add: danger_ended_def progress_title_def)

definition sample_zone :: danger_zone where
  "sample_zone = run (danger_step (Some [''admin.reset_db''])) danger_start
     [ButtonClicked ResetDB, Step1Confirmed ResetDB, TransitionsOver ResetDB, PhraseTyped ResetDB ''RESET DATABASE'', Step2Confirmed ResetDB]"

lemma danger_outcome_witness:
  "let t = run (danger_step None) sample_zone (map (EventArrived ResetDB) [\<lparr>re_type = EvStep, re_message = ''Dropping''\<rparr>,
       \<lparr>re_type = EvDone, re_message = ''Done''\<rparr>] @ [StreamEnded ResetDB])
   in length (op_events (dz_op t ResetDB)) = 2 \<and> dz_cleared t = 1"
proof -
  have s: "op_running (dz_op sample_zone ResetDB)" "op_events (dz_op sample_zone ResetDB) = []" "dz_cleared sample_zone = 0"
    by (simp_all add: sample_zone_def danger_start_def op_start_def canResetDB_def hasPerm_def all_closed_def step1_on_top_def
        step2_on_top_def on_op_def confirmStep1_def confirmStep2_def leave_def gone_def)
  show ?thesis unfolding Let_def
    using danger_outcome [OF s(1,2) refl, of None "[\<lparr>re_type = EvStep, re_message = ''Dropping''\<rparr>, \<lparr>re_type = EvDone, re_message = ''Done''\<rparr>]"]
    by (simp add: s(3) events_seen_def del: run_simps)
qed

text \<open>The dialog of an emergency scale-up says that the database is being reset.\<close>

lemma scale_titled_reset:
  "op_running (dz_op (run (danger_step (Some [''admin.emergency_scale''])) danger_start
      [ButtonClicked EmergencyScale, Step1Confirmed EmergencyScale, TransitionsOver EmergencyScale,
       PhraseTyped EmergencyScale ''EMERGENCY SCALE'', Step2Confirmed EmergencyScale]) EmergencyScale)"
  "progress_title (op_start\<lparr>op_running := True\<rparr>) = ''Resetting database'' @ [CHR 0xE2, CHR 0x80, CHR 0xA6]"
  by (simp_all add: danger_start_def op_start_def canEmergencyScale_def hasPerm_def all_closed_def step1_on_top_def
        step2_on_top_def on_op_def confirmStep1_def confirmStep2_def leave_def gone_def progress_title_def)

end
