(* ===== verification/Regex.thy ===== *)
theory Regex
  imports Prelude
begin

text \<open>
  The regular expressions of the program and what matching them means. The patterns in the source
  repeat single characters only (\<open>\d+\<close>, \<open>\S+\<close>, \<open>\s*\<close>), so a repetition carries a character
  predicate. Matching is the backtracking of ECMAScript: a pattern lists its matches in the order
  in which the engine tries them, longest first for a repetition, and the first complete match at
  the leftmost position wins. A group records the text it matched.
\<close>

datatype re =
    Lit string
  | LitI string
  | Cls "char \<Rightarrow> bool"
  | Plus "char \<Rightarrow> bool"
  | Star "char \<Rightarrow> bool"
  | Opt re
  | Alt re re
  | Cat re re
  | Cap nat re
  | Bol
  | Eol

type_synonym caps = "(nat \<times> string) list"

definition eq_ci :: "string \<Rightarrow> string \<Rightarrow> bool" where
  "eq_ci a b = (map to_lower_char a = map to_lower_char b)"

text \<open>\<open>n\<close> is the length of the whole subject, so that \<open>^\<close> knows the first position.\<close>

fun matches :: "nat \<Rightarrow> re \<Rightarrow> string \<times> caps \<Rightarrow> (string \<times> caps) list" where
  "matches n (Lit l) (s, c) = (if starts_with l s then [(drop (length l) s, c)] else [])"
| "matches n (LitI l) (s, c) =
     (if length l \<le> length s \<and> eq_ci l (take (length l) s) then [(drop (length l) s, c)] else [])"
| "matches n (Cls P) (s, c) = (case s of [] \<Rightarrow> [] | x # xs \<Rightarrow> if P x then [(xs, c)] else [])"
| "matches n (Plus P) (s, c) =
     map (\<lambda>i. (drop i s, c)) (rev [1..<Suc (length (takeWhile P s))])"
| "matches n (Star P) (s, c) =
     map (\<lambda>i. (drop i s, c)) (rev [0..<Suc (length (takeWhile P s))])"
| "matches n (Opt r) (s, c) = matches n r (s, c) @ [(s, c)]"
| "matches n (Alt a b) (s, c) = matches n a (s, c) @ matches n b (s, c)"
| "matches n (Cat a b) (s, c) = concat (map (matches n b) (matches n a (s, c)))"
| "matches n (Cap i r) (s, c) =
     map (\<lambda>(s', c'). (s', (i, take (length s - length s') s) # c')) (matches n r (s, c))"
| "matches n Bol (s, c) = (if length s = n then [(s, c)] else [])"
| "matches n Eol (s, c) = (if s = [] then [(s, c)] else [])"

definition seq :: "re list \<Rightarrow> re" where
  "seq rs = foldr Cat rs (Lit [])"

definition alts :: "re list \<Rightarrow> re" where
  "alts rs = foldr Alt (butlast rs) (last rs)"

fun search :: "nat \<Rightarrow> re \<Rightarrow> string \<Rightarrow> caps option" where
  "search n r [] = (case matches n r ([], []) of [] \<Rightarrow> None | (s', c) # _ \<Rightarrow> Some c)"
| "search n r (x # xs) =
     (case matches n r (x # xs, []) of [] \<Rightarrow> search n r xs | (s', c) # _ \<Rightarrow> Some c)"

text \<open>\<open>s.match(r)\<close> (\<open>None\<close> for null), and a group of the result (\<open>None\<close> for undefined).\<close>

definition re_match :: "re \<Rightarrow> string \<Rightarrow> caps option" where
  "re_match r s = search (length s) r s"

definition group :: "caps \<Rightarrow> nat \<Rightarrow> string option" where
  "group c i = map_of c i"

definition re_test :: "re \<Rightarrow> string \<Rightarrow> bool" where
  "re_test r s = (re_match r s \<noteq> None)"

abbreviation non_space :: "char \<Rightarrow> bool" where
  "non_space \<equiv> \<lambda>c. \<not> is_space c"

section \<open>Facts about matching\<close>

lemma starts_with_append [simp]: "starts_with l (l @ s)"
  by (induction l) auto

lemma starts_with_iff: "starts_with l s \<longleftrightarrow> (\<exists>t. s = l @ t)"
  by (induction l s rule: starts_with.induct) auto

lemma starts_with_append_cases:
  "starts_with (l @ m) s \<longleftrightarrow> starts_with l s \<and> starts_with m (drop (length l) s)"
  by (auto simp: starts_with_iff)

lemma matches_seq_Nil [simp]: "matches n (seq []) (s, c) = [(s, c)]"
  by (simp add: seq_def)

lemma matches_seq_Cons [simp]:
  "matches n (seq (r # rs)) (s, c) = concat (map (matches n (seq rs)) (matches n r (s, c)))"
  by (simp add: seq_def)

text \<open>A match only ever consumes a prefix.\<close>

lemma matches_suffix: "(s', c') \<in> set (matches n r (s, c)) \<Longrightarrow> suffix s' s"
proof (induction r arbitrary: s c s' c')
  case (Cat a b)
  then show ?case by (force intro: suffix_order.trans)
next
  case (Cap i r)
  then show ?case by force
qed (auto simp: suffix_drop split: if_splits list.splits intro: suffix_ConsI)

text \<open>An anchored pattern is only tried at the first position.\<close>

lemma matches_Bol_later:
  "length s \<noteq> n \<Longrightarrow> matches n (seq (Bol # rs)) (s, c) = []"
  by simp

lemma search_Bol_short: "length s < n \<Longrightarrow> search n (seq (Bol # rs)) s = None"
proof (induction s)
  case Nil
  then show ?case by (simp del: matches_seq_Cons add: matches_Bol_later)
next
  case (Cons x s)
  then show ?case by (simp del: matches_seq_Cons add: matches_Bol_later)
qed

lemma re_match_Bol:
  "re_match (seq (Bol # rs)) s =
     (case matches (length s) (seq rs) (s, []) of [] \<Rightarrow> None | (s', c) # _ \<Rightarrow> Some c)"
proof (cases s)
  case Nil
  then show ?thesis by (simp add: re_match_def)
next
  case (Cons x xs)
  then show ?thesis
    using search_Bol_short [of xs "length s" rs]
    by (auto simp: re_match_def split: list.splits)
qed

text \<open>The first match of a repetition that cannot give anything back.\<close>

lemma takeWhile_append_stop:
  "list_all P a \<Longrightarrow> b = [] \<or> \<not> P (hd b) \<Longrightarrow> takeWhile P (a @ b) = a"
  by (cases b) (auto simp: list_all_iff takeWhile_append)

lemma matches_Plus_eq:
  assumes "list_all P a" "a \<noteq> []" "b = [] \<or> \<not> P (hd b)"
  shows "matches n (Plus P) (a @ b, c) =
    (b, c) # map (\<lambda>i. (drop i (a @ b), c)) (rev [1..<length a])"
  using assms by (simp add: takeWhile_append_stop Suc_le_eq)


section \<open>Reading back a formatted line\<close>

text \<open>
  The log lines are printed from words and numbers between fixed texts. The lemmas consume a
  pattern element by element from the front: a literal is removed, and a repetition takes its
  longest run when no shorter run lets the rest of the pattern match.
\<close>

lemma matches_Lit_step: "matches n (seq (Lit l # rs)) (l @ b, c) = matches n (seq rs) (b, c)"
  by simp

lemma matches_Cap_Plus:
  assumes "list_all P a" "a \<noteq> []" "b = [] \<or> \<not> P (hd b)"
    and "\<And>i c. 1 \<le> i \<Longrightarrow> i < length a \<Longrightarrow> matches n (seq rs) (drop i a @ b, c) = []"
  shows "matches n (seq (Cap k (Plus P) # rs)) (a @ b, c) = matches n (seq rs) (b, (k, a) # c)"
proof -
  have tw: "takeWhile P (a @ b) = a"
    using assms by (simp add: takeWhile_append_stop)
  have eq: "matches n (Cap k (Plus P)) (a @ b, c) =
      (b, (k, a) # c) # map (\<lambda>i. (drop i a @ b, (k, take i a) # c)) (rev [1..<length a])"
    using assms(2) by (simp add: tw Suc_le_eq)
  have "concat (map (matches n (seq rs))
      (map (\<lambda>i. (drop i a @ b, (k, take i a) # c)) (rev [1..<length a]))) = []"
    using assms(4) by simp
  then show ?thesis
    unfolding matches_seq_Cons eq by simp
qed

lemma Lit_fails: "\<not> starts_with l s \<Longrightarrow> matches n (seq (Lit l # rs)) (s, c) = []"
  by simp

lemma starts_with_hd: "starts_with (x # l) s \<Longrightarrow> s \<noteq> [] \<and> hd s = x"
  by (cases s) auto

text \<open>Greedy words: a run of \<open>P\<close> followed by a literal whose first character is not in \<open>P\<close>
  cannot stop earlier.\<close>

lemma matches_word:
  assumes "list_all P a" "a \<noteq> []" "\<not> P x" 
  shows "matches n (seq (Cap k (Plus P) # Lit (x # l) # rs)) (a @ (x # l) @ b, c)
     = matches n (seq rs) (b, (k, a) # c)"
proof -
  have "matches n (seq (Lit (x # l) # rs)) (drop i a @ (x # l) @ b, c') = []"
    if "1 \<le> i" "i < length a" for i c'
  proof (rule Lit_fails)
    have "drop i a \<noteq> []" and "P (hd (drop i a))"
      using that assms(1) by (auto simp: hd_drop_conv_nth list_all_length)
    then show "\<not> starts_with (x # l) (drop i a @ (x # l) @ b)"
      using assms(3) by (cases "drop i a") auto
  qed
  then have "matches n (seq (Cap k (Plus P) # Lit (x # l) # rs)) (a @ (x # l) @ b, c)
      = matches n (seq (Lit (x # l) # rs)) ((x # l) @ b, (k, a) # c)"
    using assms by (intro matches_Cap_Plus) auto
  then show ?thesis by (simp only: matches_Lit_step)
qed


text \<open>A separator that the repetition would also accept, such as the slash in \<open>(\S+)\/(\S+)\<close>: when it
  occurs once, the two groups are the parts on its sides.\<close>

lemma concat_map_single:
  "distinct xs \<Longrightarrow> i \<in> set xs \<Longrightarrow> (\<And>j. j \<in> set xs \<Longrightarrow> j \<noteq> i \<Longrightarrow> f j = []) \<Longrightarrow>
     concat (map f xs) = f i"
proof (induction xs)
  case Nil
  then show ?case by simp
next
  case (Cons x xs)
  show ?case
  proof (cases "x = i")
    case True
    then have "concat (map f xs) = []" using Cons.prems by auto
    with True show ?thesis by simp
  next
    case False
    then show ?thesis using Cons by auto
  qed
qed

lemma matches_Cap_Plus_sum:
  "matches n (seq (Cap k (Plus P) # rs)) (s, c) =
     concat (map (\<lambda>i. matches n (seq rs) (drop i s, (k, take i s) # c))
       (rev [1..<Suc (length (takeWhile P s))]))"
proof -
  have "matches n (Cap k (Plus P)) (s, c) =
      map (\<lambda>i. (drop i s, (k, take i s) # c)) (rev [1..<Suc (length (takeWhile P s))])"
    using length_takeWhile_le [of P s] by (auto simp del: upt_Suc)
  then show ?thesis unfolding matches_seq_Cons by (simp add: comp_def del: upt_Suc matches.simps)
qed

lemma matches_split_at:
  assumes "list_all P a" "a \<noteq> []" "P x" "x \<notin> set a" "list_all P b" "x \<notin> set b"
    and "c = [] \<or> \<not> P (hd c)"
  shows "matches n (seq (Cap k (Plus P) # Lit [x] # rs)) (a @ x # b @ c, cs)
     = matches n (seq rs) (b @ c, (k, a) # cs)"
proof -
  let ?s = "a @ x # b @ c"
  let ?f = "\<lambda>i. matches n (seq (Lit [x] # rs)) (drop i ?s, (k, take i ?s) # cs)"
  have tw: "takeWhile P ?s = a @ x # b"
    using takeWhile_append_stop [of P "a @ x # b" c] assms by auto
  have fail: "?f i = []" if ni: "i \<noteq> length a" "i \<le> length (a @ x # b)" for i
  proof (rule Lit_fails)
    show "\<not> starts_with [x] (drop i ?s)"
    proof
      assume "starts_with [x] (drop i ?s)"
      then obtain t where t: "drop i ?s = x # t" by (auto simp: starts_with_iff)
      then have i: "i < length ?s" "?s ! i = x"
        by (metis drop_all linorder_not_less list.discI) (metis t nth_via_drop)
      consider "i < length a" | "length a < i" "i < length (a @ x # b)" | "i = length (a @ x # b)"
        using ni by linarith
      then show False
      proof cases
        case 1
        then show False using i assms(4) by (auto simp: nth_append)
      next
        case 2
        then obtain j where "i = length a + Suc j" "j < length b"
          by (metis add_Suc_right length_append length_Cons less_imp_Suc_add nat_add_left_cancel_less not_less_eq)
        then show False using i assms(6) by (auto simp: nth_append)
      next
        case 3
        then show False
          using i assms(3,7) by (cases c) (auto simp: nth_append)
      qed
    qed
  qed
  have "matches n (seq (Cap k (Plus P) # Lit [x] # rs)) (?s, cs) = ?f (length a)"
    unfolding matches_Cap_Plus_sum tw
    using assms(2) fail by (intro concat_map_single) (auto simp: Suc_le_eq simp del: upt_Suc)
  then show ?thesis by simp
qed

end
