(* ===== verification/Auth.thy ===== *)
theory Auth
  imports Types Uri Regex
begin

text \<open>
  \<open>frontend/src/lib/auth.tsx\<close>: the CSRF cookie, and the provider that knows who is signed in. Its state
  is React's (user, flags), the ref \<open>userRef\<close> and the query cache. Every asynchronous step of the code
  is an event: a request that was sent carries what the code remembers until its result arrives.
\<close>

section \<open>The CSRF token\<close>

text \<open>\<open>/(?:^|;\s*)__kp_csrf=([^;]+)/\<close>\<close>

definition csrf_name :: string where "csrf_name = ''__kp_csrf=''"

definition csrf_re :: re where
  "csrf_re = seq [Alt Bol (Cat (Lit '';'') (Star is_space)), Lit csrf_name, Cap 1 (Plus (\<lambda>c. c \<noteq> CHR '';''))]"

text \<open>\<open>cookie\<close> is \<open>None\<close> where there is no document. A malformed escape throws.\<close>

definition getCSRFToken :: "string option \<Rightarrow> js_error + string" where
  "getCSRFToken cookie =
     (case cookie of
        None \<Rightarrow> Inr []
      | Some c \<Rightarrow>
          (case re_match csrf_re c of
             None \<Rightarrow> Inr []
           | Some caps \<Rightarrow>
               (case decodeURIComponent (case group caps 1 of Some v \<Rightarrow> v | None \<Rightarrow> []) of
                  Some t \<Rightarrow> Inr t
                | None \<Rightarrow> Inl (ErrorMsg ''URI malformed''))))"

section \<open>Users\<close>

text \<open>\<open>usersEqual\<close> compares what the interface depends on, not every field.\<close>

fun usersEqual :: "user option \<Rightarrow> user option \<Rightarrow> bool" where
  "usersEqual None None = True"
| "usersEqual (Some a) (Some b) =
     (a = b \<or>
      (usr_id a = usr_id b \<and> usr_username a = usr_username b \<and> usr_role a = usr_role b
       \<and> usr_source a = usr_source b \<and> usr_enabled a = usr_enabled b \<and> usr_createdAt a = usr_createdAt b
       \<and> usr_defaultTimezone a = usr_defaultTimezone b
       \<and> length (usr_permissions a) = length (usr_permissions b)
       \<and> list_all2 (=) (usr_permissions a) (usr_permissions b)))"
| "usersEqual _ _ = False"

definition DEV_PERMISSIONS :: "string list" where
  "DEV_PERMISSIONS = [''view.all'', ''schedule.edit'', ''schedule.trigger'', ''guardrail.edit'',
     ''user.manage'', ''admin.reset_db'', ''audit.view'', ''password.change'']"

definition dev_user :: user where
  "dev_user = \<lparr>usr_id = 0, usr_username = ''dev'', usr_givenName = None, usr_familyName = None,
     usr_email = None, usr_role = Admin, usr_source = LocalUser, usr_enabled = True, usr_createdAt = [],
     usr_lastLoginAt = None, usr_permissions = DEV_PERMISSIONS, usr_defaultTimezone = None\<rparr>"

text \<open>\<open>fetchMe\<close>: the status of the response and the user in its body; \<open>None\<close> for a request that failed.
  A body that is not JSON throws inside the \<open>try\<close>.\<close>

datatype fetch_me = MeUser user | MeUnauthenticated | MeError

definition fetchMe :: "(nat \<times> user option) option \<Rightarrow> fetch_me" where
  "fetchMe res =
     (case res of
        None \<Rightarrow> MeError
      | Some (status, body) \<Rightarrow>
          if 200 \<le> status \<and> status < 300 then (case body of Some u \<Rightarrow> MeUser u | None \<Rightarrow> MeError)
          else if status = 401 \<or> status = 403 then MeUnauthenticated
          else MeError)"

section \<open>The provider\<close>

text \<open>The query cache is the list of its entries, each with the id of the user it was loaded for (\<open>None\<close>
  for nobody).\<close>

record auth_state =
  au_user :: "user option"
  au_userRef :: "user option"
  au_checking :: bool
  au_backendError :: bool
  au_oidcEnabled :: bool
  au_probing :: bool
  au_cache :: "int option list"

definition ref_id :: "auth_state \<Rightarrow> int option" where
  "ref_id s = map_option usr_id (au_userRef s)"

definition updateUser :: "user option \<Rightarrow> auth_state \<Rightarrow> auth_state" where
  "updateUser nextUser s =
     (let s1 = (if ref_id s \<noteq> map_option usr_id nextUser then s\<lparr>au_cache := []\<rparr> else s)
      in s1\<lparr>au_userRef := nextUser,
            au_user := (if usersEqual (au_user s) nextUser then au_user s else nextUser)\<rparr>)"

text \<open>The poll runs while a user with an id other than 0 is signed in.\<close>

definition shouldPoll :: "auth_state \<Rightarrow> bool" where
  "shouldPoll s = (case au_user s of Some u \<Rightarrow> usr_id u \<noteq> 0 | None \<Rightarrow> False)"

definition poll_request :: "auth_state \<Rightarrow> int option" where
  "poll_request s =
     (if \<not> shouldPoll s then None
      else case au_userRef s of Some u \<Rightarrow> if usr_id u = 0 then None else Some (usr_id u) | None \<Rightarrow> None)"

text \<open>Results: of the OIDC configuration, of the initial \<open>/me\<close> request and of the probe that follows a
  refused one (the status, \<open>None\<close> when it failed), of a poll and of a refresh with the id they
  remember, of a login (status, the user it returned, and the \<open>/me\<close> request after it) and of a logout,
  which ends in the same state whether it succeeded or not. Queries fill the cache for the current
  user; clearing the cache also drops the requests in flight.\<close>

datatype auth_event =
    OidcConfig bool
  | MeInitial fetch_me
  | ProbeResult "nat option"
  | SessionExpired
  | PollResult int fetch_me
  | RefreshResult "int option" fetch_me
  | LoginResult nat user fetch_me
  | LogoutResult
  | CacheFill

definition probe_result :: "nat option \<Rightarrow> auth_state \<Rightarrow> auth_state" where
  "probe_result res s =
     (case res of
        None \<Rightarrow> s\<lparr>au_backendError := True\<rparr>
      | Some status \<Rightarrow>
          if 200 \<le> status \<and> status < 300 then updateUser (Some dev_user) s
          else if status \<noteq> 401 \<and> status \<noteq> 403 then s\<lparr>au_backendError := True\<rparr> else s)"

definition me_initial :: "fetch_me \<Rightarrow> auth_state \<Rightarrow> auth_state" where
  "me_initial r s =
     (let s1 = (case r of
                  MeUser u \<Rightarrow> updateUser (Some u) s
                | MeUnauthenticated \<Rightarrow> s\<lparr>au_probing := True\<rparr>
                | MeError \<Rightarrow> s\<lparr>au_backendError := True\<rparr>)
      in s1\<lparr>au_checking := False\<rparr>)"

text \<open>A poll or refresh whose user is no longer the current one is ignored; an error keeps the user.\<close>

definition apply_me :: "int option \<Rightarrow> fetch_me \<Rightarrow> auth_state \<Rightarrow> auth_state" where
  "apply_me requestedUserId r s =
     (if ref_id s \<noteq> requestedUserId then s
      else case r of
             MeUser u \<Rightarrow> updateUser (Some u) s
           | MeUnauthenticated \<Rightarrow> updateUser None s
           | MeError \<Rightarrow> s)"

definition login_result :: "nat \<Rightarrow> user \<Rightarrow> fetch_me \<Rightarrow> auth_state \<Rightarrow> js_error + auth_state" where
  "login_result status data me s =
     (if status = 401 \<or> status = 403 then Inl (ErrorMsg ''Invalid credentials'')
      else if status = 429 then Inl (ErrorMsg ''Too many attempts'')
      else if \<not> (200 \<le> status \<and> status < 300)
      then Inl (ErrorMsg (''Server error ('' @ show_nat status @ '')''))
      else Inr (updateUser (Some (case me of MeUser u \<Rightarrow> u | _ \<Rightarrow> data)) s))"

fun auth_step :: "auth_state \<Rightarrow> auth_event \<Rightarrow> auth_state" where
  "auth_step s (OidcConfig enabled) = (if enabled then s\<lparr>au_oidcEnabled := True\<rparr> else s)"
| "auth_step s (MeInitial r) = (if au_checking s then me_initial r s else s)"
| "auth_step s (ProbeResult res) =
     (if au_probing s then probe_result res (s\<lparr>au_probing := False\<rparr>) else s)"
| "auth_step s SessionExpired = updateUser None s"
| "auth_step s (PollResult i r) = apply_me (Some i) r s"
| "auth_step s (RefreshResult i r) = apply_me i r s"
| "auth_step s (LoginResult status data me) =
     (case login_result status data me s of Inl e \<Rightarrow> s | Inr s' \<Rightarrow> s')"
| "auth_step s LogoutResult = updateUser None s"
| "auth_step s CacheFill = s\<lparr>au_cache := au_cache s @ [ref_id s]\<rparr>"

definition auth_start :: auth_state where
  "auth_start = \<lparr>au_user = None, au_userRef = None, au_checking = True, au_backendError = False,
     au_oidcEnabled = False, au_probing = False, au_cache = []\<rparr>"

definition isAuthenticated :: "auth_state \<Rightarrow> bool" where
  "isAuthenticated s = (au_user s \<noteq> None)"

section \<open>The user shown is the user known\<close>

lemma usersEqual_refl [simp]: "usersEqual a a"
  by (cases a) simp_all

lemma usersEqual_trans: "usersEqual a b \<Longrightarrow> usersEqual b c \<Longrightarrow> usersEqual a c"
  by (cases a; cases b; cases c) (auto simp: list.rel_eq)

lemma usersEqual_None [simp]: "usersEqual None b \<longleftrightarrow> b = None" "usersEqual a None \<longleftrightarrow> a = None"
  by (cases b; simp) (cases a; simp)

lemma usersEqual_both: "usersEqual a b \<Longrightarrow> a = None \<longleftrightarrow> b = None"
  by (cases a; cases b) auto

text \<open>What the interface reads from the user.\<close>

definition same_rights :: "user option \<Rightarrow> user option \<Rightarrow> bool" where
  "same_rights a b =
     (map_option (\<lambda>u. (usr_id u, usr_username u, usr_role u, usr_enabled u, usr_permissions u)) a =
      map_option (\<lambda>u. (usr_id u, usr_username u, usr_role u, usr_enabled u, usr_permissions u)) b)"

lemma usersEqual_rights: "usersEqual a b \<Longrightarrow> same_rights a b"
  by (cases a; cases b) (auto simp: same_rights_def list.rel_eq)

definition auth_inv :: "auth_state \<Rightarrow> bool" where
  "auth_inv s = (usersEqual (au_user s) (au_userRef s) \<and> (\<forall>i \<in> set (au_cache s). i = ref_id s))"

lemma updateUser_inv: "auth_inv s \<Longrightarrow> auth_inv (updateUser u s)"
  by (auto simp: auth_inv_def updateUser_def ref_id_def Let_def)

lemma auth_inv_flags [simp]:
  "auth_inv (s\<lparr>au_checking := b\<rparr>) = auth_inv s" "auth_inv (s\<lparr>au_backendError := b\<rparr>) = auth_inv s"
  "auth_inv (s\<lparr>au_oidcEnabled := b\<rparr>) = auth_inv s" "auth_inv (s\<lparr>au_probing := b\<rparr>) = auth_inv s"
  by (simp_all add: auth_inv_def ref_id_def)

lemma auth_step_inv: "auth_inv s \<Longrightarrow> auth_inv (auth_step s e)"
proof (cases e)
  case CacheFill
  assume "auth_inv s"
  then show ?thesis using CacheFill by (auto simp: auth_inv_def ref_id_def)
qed (auto simp: me_initial_def probe_result_def apply_me_def login_result_def Let_def updateUser_inv
       split: fetch_me.split option.split)

interpretation auth: machine auth_step auth_inv
  by unfold_locales (rule auth_step_inv)

text \<open>C20. Through any sequence of results the interface shows a user exactly when one is signed in, with that
  user's role and permissions, and no cached data of another user survives.\<close>

theorem auth_state_consistent:
  "let s = run auth_step auth_start es
   in (isAuthenticated s \<longleftrightarrow> au_userRef s \<noteq> None) \<and> same_rights (au_user s) (au_userRef s)
     \<and> set (au_cache s) \<subseteq> {ref_id s}"
proof -
  have "auth_inv auth_start" by (simp add: auth_inv_def auth_start_def)
  then have "auth_inv (run auth_step auth_start es)" by (rule auth.run_inv)
  then have inv: "usersEqual (au_user (run auth_step auth_start es)) (au_userRef (run auth_step auth_start es))"
    "\<forall>i \<in> set (au_cache (run auth_step auth_start es)). i = ref_id (run auth_step auth_start es)"
    by (simp_all add: auth_inv_def)
  show ?thesis
    using usersEqual_both [OF inv(1)] usersEqual_rights [OF inv(1)] inv(2)
    by (auto simp: isAuthenticated_def Let_def)
qed

section \<open>Signing out is final\<close>

fun cannot_sign_in :: "auth_event \<Rightarrow> bool" where
  "cannot_sign_in (PollResult i r) = True"
| "cannot_sign_in (RefreshResult i r) = (i \<noteq> None)"
| "cannot_sign_in (LoginResult status data me) = (status \<ge> 300)"
| "cannot_sign_in SessionExpired = True"
| "cannot_sign_in LogoutResult = True"
| "cannot_sign_in (OidcConfig b) = True"
| "cannot_sign_in CacheFill = True"
| "cannot_sign_in _ = False"

lemma signed_out_step:
  "au_userRef s = None \<Longrightarrow> au_user s = None \<Longrightarrow> cannot_sign_in e \<Longrightarrow>
     au_userRef (auth_step s e) = None \<and> au_user (auth_step s e) = None"
  by (cases e) (auto simp: apply_me_def ref_id_def updateUser_def login_result_def Let_def)

lemma signed_out_run:
  "au_userRef s = None \<Longrightarrow> au_user s = None \<Longrightarrow> list_all cannot_sign_in es \<Longrightarrow>
     au_userRef (run auth_step s es) = None \<and> au_user (run auth_step s es) = None"
  by (induction es arbitrary: s) (simp_all add: signed_out_step)

text \<open>After a sign-out or an expired session no result of a poll, or of a refresh that was started while a
  user was signed in, brings the user back, whatever it says; neither does a failed login.\<close>

theorem sign_out_is_final:
  assumes "list_all cannot_sign_in es" "e = LogoutResult \<or> e = SessionExpired"
  shows "let s = run auth_step (run auth_step auth_start es0) (e # es)
     in \<not> isAuthenticated s \<and> au_userRef s = None"
proof -
  let ?s = "auth_step (run auth_step auth_start es0) e"
  have "au_userRef ?s = None" "au_user ?s = None" using assms(2) by (auto simp: updateUser_def Let_def)
  from signed_out_run [OF this assms(1)] show ?thesis
    by (simp add: isAuthenticated_def Let_def)
qed

theorem sign_out_is_final_witness:
  "let s = run auth_step (run auth_step auth_start [MeInitial (MeUser (dev_user\<lparr>usr_id := 4\<rparr>)), CacheFill])
       (LogoutResult # [PollResult 4 (MeUser (dev_user\<lparr>usr_id := 4\<rparr>))])
   in \<not> isAuthenticated s \<and> au_userRef s = None"
  by (rule sign_out_is_final) simp_all

text \<open>A poll that fails keeps the user; one that belongs to an earlier user changes nothing; one for the
  current user brings the role and the permissions the server reports.\<close>

theorem poll_result_cases:
  "auth_step s (PollResult i MeError) = s
   \<and> (ref_id s \<noteq> Some i \<longrightarrow> auth_step s (PollResult i r) = s)
   \<and> (ref_id s = Some i \<longrightarrow> same_rights (au_user (auth_step s (PollResult i (MeUser u)))) (Some u)
        \<and> au_user (auth_step s (PollResult i MeUnauthenticated)) = None)"
  by (auto simp: apply_me_def updateUser_def Let_def same_rights_def [of "Some u"] intro: usersEqual_rights
      dest: usersEqual_rights)

theorem poll_result_cases_witness:
  "let s = run auth_step auth_start [MeInitial (MeUser (dev_user\<lparr>usr_id := 4\<rparr>))];
       u = dev_user\<lparr>usr_id := 4, usr_role := Viewer\<rparr>
   in auth_step s (PollResult 4 MeError) = s \<and> auth_step s (PollResult 3 (MeUser u)) = s
      \<and> same_rights (au_user (auth_step s (PollResult 4 (MeUser u)))) (Some u)
      \<and> au_user (auth_step s (PollResult 4 MeUnauthenticated)) = None"
proof -
  have "ref_id (run auth_step auth_start [MeInitial (MeUser (dev_user\<lparr>usr_id := 4\<rparr>))]) = Some 4" by code_simp
  then show ?thesis
    unfolding Let_def
    using poll_result_cases [of "run auth_step auth_start [MeInitial (MeUser (dev_user\<lparr>usr_id := 4\<rparr>))]" 4]
      poll_result_cases [of "run auth_step auth_start [MeInitial (MeUser (dev_user\<lparr>usr_id := 4\<rparr>))]" 3] by simp
qed

text \<open>A change of the name or the address alone is not shown: the comparison leaves those fields out, so the
  provider keeps the earlier user object.\<close>

theorem profile_change_not_shown:
  "let u = dev_user\<lparr>usr_id := 4\<rparr>; s = run auth_step auth_start
       [MeInitial (MeUser u), PollResult 4 (MeUser (u\<lparr>usr_email := Some ''new@kp'', usr_givenName := Some ''Ada''\<rparr>))]
   in au_userRef s = Some (u\<lparr>usr_email := Some ''new@kp'', usr_givenName := Some ''Ada''\<rparr>) \<and> au_user s = Some u"
  by code_simp

end
