(* ===== verification/Users.thy ===== *)
theory Users
  imports Auth QueryKeys Formatters TimeBlocks "HOL-Library.Sublist"
begin

text \<open>
  \<open>app/users/page.tsx\<close>, the administration of accounts, as a machine over clicks and answers, and the login form
  (\<open>components/auth/LoginScreen.tsx\<close>).
\<close>

section \<open>Texts\<close>

definition relativeTime :: "js_env \<Rightarrow> (int option \<Rightarrow> string) \<Rightarrow> int \<Rightarrow> string \<Rightarrow> string" where
  "relativeTime env localeDate now ts =
     (case date_parse env ts of
        None \<Rightarrow> ''Just now''
      | Some t \<Rightarrow>
          let minutes = (now - t) div 60000; hours = minutes div 60; days = hours div 24
          in if 30 < days then localeDate (Some t)
             else if 0 < days then show_int days @ ''d ago''
             else if 0 < hours then show_int hours @ ''h ago''
             else if 0 < minutes then show_int minutes @ ''m ago''
             else ''Just now'')"

definition text_includes :: "string \<Rightarrow> string \<Rightarrow> bool" where
  "text_includes s t = list_ex (\<lambda>i. starts_with t (drop i s)) [0..<Suc (length s)]"

definition user_name_matches :: "string \<Rightarrow> string option \<Rightarrow> bool" where
  "user_name_matches term' name = (case name of Some n \<Rightarrow> text_includes (map to_lower_char n) term' | None \<Rightarrow> False)"

definition filteredUsers :: "user list option \<Rightarrow> string \<Rightarrow> user list" where
  "filteredUsers users query =
     (case users of
        None \<Rightarrow> []
      | Some us \<Rightarrow>
          let searchTerm = map to_lower_char query
          in if searchTerm = [] then us
             else filter (\<lambda>u. text_includes (map to_lower_char (usr_username u)) searchTerm \<or> user_name_matches searchTerm (usr_givenName u)
               \<or> user_name_matches searchTerm (usr_familyName u)) us)"

section \<open>The page\<close>

record user_form =
  uf_username :: string
  uf_email :: string
  uf_password :: string
  uf_role :: role

definition empty_form :: user_form where
  "empty_form = \<lparr>uf_username = [], uf_email = [], uf_password = [], uf_role = Viewer\<rparr>"

text \<open>The requests the page sends; the payload of an update has one field.\<close>

datatype users_request =
    CreateUser user_form
  | UpdateRole user role
  | UpdateEnabled user bool
  | DeleteUser user

record users_page =
  up_users :: "user list option"
  up_search :: string
  up_createOpen :: bool
  up_form :: user_form
  up_createError :: string
  up_createPending :: bool
  up_deleteTarget :: "user option"
  up_deletePending :: bool
  up_updatePending :: bool
  up_mutationError :: string
  up_sent :: "users_request list"
  up_refetches :: nat

datatype form_edit =
    EditUsername string
  | EditEmail string
  | EditPassword string
  | EditRole role

fun edit_form :: "user_form \<Rightarrow> form_edit \<Rightarrow> user_form" where
  "edit_form f (EditUsername v) = f\<lparr>uf_username := v\<rparr>"
| "edit_form f (EditEmail v) = f\<lparr>uf_email := v\<rparr>"
| "edit_form f (EditPassword v) = f\<lparr>uf_password := v\<rparr>"
| "edit_form f (EditRole v) = f\<lparr>uf_role := v\<rparr>"

text \<open>An answer is \<open>None\<close> for success, or the message of the error. Only one request of a kind is on its way.\<close>

datatype users_event =
    UsersLoaded "user list"
  | SearchTyped string
  | AddClicked
  | FormEdited form_edit
  | CreateCancelled
  | CreateClicked
  | CreateAnswered "string option"
  | RoleChosen user role
  | EnabledToggled user
  | UpdateAnswered "string option"
  | DeleteClicked user
  | DeleteCancelled
  | DeleteConfirmed
  | DeleteAnswered "string option"
  | ErrorClosed

definition users_start :: users_page where
  "users_start = \<lparr>up_users = None, up_search = [], up_createOpen = False, up_form = empty_form, up_createError = [],
     up_createPending = False, up_deleteTarget = None, up_deletePending = False, up_updatePending = False, up_mutationError = [],
     up_sent = [], up_refetches = 0\<rparr>"

definition create_disabled :: "users_page \<Rightarrow> bool" where
  "create_disabled s = (up_createPending s \<or> uf_username (up_form s) = [] \<or> length (uf_password (up_form s)) < 8)"

definition create_answered :: "string option \<Rightarrow> users_page \<Rightarrow> users_page" where
  "create_answered err s =
     (case err of
        None \<Rightarrow> s\<lparr>up_createPending := False, up_refetches := up_refetches s + 1, up_createOpen := False, up_form := empty_form,
                   up_createError := []\<rparr>
      | Some m \<Rightarrow> s\<lparr>up_createPending := False, up_createError := m\<rparr>)"

definition update_answered :: "string option \<Rightarrow> users_page \<Rightarrow> users_page" where
  "update_answered err s =
     (case err of
        None \<Rightarrow> s\<lparr>up_updatePending := False, up_refetches := up_refetches s + 1, up_mutationError := []\<rparr>
      | Some m \<Rightarrow> s\<lparr>up_updatePending := False, up_mutationError := m\<rparr>)"

definition delete_answered :: "string option \<Rightarrow> users_page \<Rightarrow> users_page" where
  "delete_answered err s =
     (case err of
        None \<Rightarrow> s\<lparr>up_deletePending := False, up_refetches := up_refetches s + 1, up_deleteTarget := None, up_mutationError := []\<rparr>
      | Some m \<Rightarrow> s\<lparr>up_deletePending := False, up_mutationError := m, up_deleteTarget := None\<rparr>)"

text \<open>The page under the dialogs takes no clicks.\<close>

definition page_free :: "users_page \<Rightarrow> bool" where
  "page_free s = (\<not> up_createOpen s \<and> up_deleteTarget s = None)"

definition row_shown :: "users_page \<Rightarrow> user \<Rightarrow> bool" where
  "row_shown s u = (u \<in> set (filteredUsers (up_users s) (up_search s)))"

definition own_row :: "user option \<Rightarrow> user \<Rightarrow> bool" where
  "own_row me u = (map_option usr_id me = Some (usr_id u))"

definition send :: "users_request \<Rightarrow> users_page \<Rightarrow> users_page" where
  "send r s = s\<lparr>up_sent := up_sent s @ [r]\<rparr>"

fun users_page_step :: "user option \<Rightarrow> users_page \<Rightarrow> users_event \<Rightarrow> users_page" where
  "users_page_step me s (UsersLoaded us) = s\<lparr>up_users := Some us\<rparr>"
| "users_page_step me s (SearchTyped t) = (if page_free s then s\<lparr>up_search := t\<rparr> else s)"
| "users_page_step me s AddClicked = (if page_free s then s\<lparr>up_createOpen := True, up_createError := []\<rparr> else s)"
| "users_page_step me s (FormEdited e) = (if up_createOpen s then s\<lparr>up_form := edit_form (up_form s) e\<rparr> else s)"
| "users_page_step me s CreateCancelled = s\<lparr>up_createOpen := False\<rparr>"
| "users_page_step me s CreateClicked =
     (if up_createOpen s \<and> \<not> create_disabled s then send (CreateUser (up_form s)) (s\<lparr>up_createPending := True\<rparr>) else s)"
| "users_page_step me s (CreateAnswered err) = (if up_createPending s then create_answered err s else s)"
| "users_page_step me s (RoleChosen u r) =
     (if page_free s \<and> row_shown s u \<and> usr_source u \<noteq> OidcUser \<and> \<not> own_row me u \<and> \<not> up_updatePending s \<and> r \<noteq> usr_role u
      then send (UpdateRole u r) (s\<lparr>up_updatePending := True\<rparr>) else s)"
| "users_page_step me s (EnabledToggled u) =
     (if page_free s \<and> row_shown s u \<and> \<not> own_row me u \<and> \<not> up_updatePending s
      then send (UpdateEnabled u (\<not> usr_enabled u)) (s\<lparr>up_updatePending := True\<rparr>) else s)"
| "users_page_step me s (UpdateAnswered err) = (if up_updatePending s then update_answered err s else s)"
| "users_page_step me s (DeleteClicked u) =
     (if page_free s \<and> row_shown s u \<and> \<not> own_row me u then s\<lparr>up_deleteTarget := Some u\<rparr> else s)"
| "users_page_step me s DeleteCancelled = s\<lparr>up_deleteTarget := None\<rparr>"
| "users_page_step me s DeleteConfirmed =
     (case up_deleteTarget s of
        Some u \<Rightarrow> if up_deletePending s then s else send (DeleteUser u) (s\<lparr>up_deletePending := True\<rparr>)
      | None \<Rightarrow> s)"
| "users_page_step me s (DeleteAnswered err) = (if up_deletePending s then delete_answered err s else s)"
| "users_page_step me s ErrorClosed = s\<lparr>up_mutationError := []\<rparr>"

text \<open>Who may not manage users sees nothing and is sent to the overview.\<close>

definition users_shown :: "user option \<Rightarrow> bool" where
  "users_shown me = (case me of Some u \<Rightarrow> canManageUsers (Some (usr_permissions u)) | None \<Rightarrow> True)"

definition users_step :: "user option \<Rightarrow> users_page \<Rightarrow> users_event \<Rightarrow> users_page" where
  "users_step me s e =
     (if users_shown me then users_page_step me s e
      else case e of UsersLoaded us \<Rightarrow> s\<lparr>up_users := Some us\<rparr> | _ \<Rightarrow> s)"

section \<open>What the page sends\<close>

definition request_safe :: "user \<Rightarrow> users_request \<Rightarrow> bool" where
  "request_safe me r =
     (case r of
        CreateUser f \<Rightarrow> uf_username f \<noteq> [] \<and> 8 \<le> length (uf_password f)
      | UpdateRole u r' \<Rightarrow> usr_id u \<noteq> usr_id me \<and> usr_source u = LocalUser \<and> r' \<noteq> usr_role u
      | UpdateEnabled u b \<Rightarrow> usr_id u \<noteq> usr_id me \<and> b \<noteq> usr_enabled u
      | DeleteUser u \<Rightarrow> usr_id u \<noteq> usr_id me)"

definition users_inv :: "user \<Rightarrow> users_page \<Rightarrow> bool" where
  "users_inv me s =
     (list_all (request_safe me) (up_sent s) \<and> (up_sent s \<noteq> [] \<or> up_deleteTarget s \<noteq> None \<longrightarrow> canManageUsers (Some (usr_permissions me)))
      \<and> (\<forall>u. up_deleteTarget s = Some u \<longrightarrow> usr_id u \<noteq> usr_id me))"

lemma users_step_inv: "users_inv me s \<Longrightarrow> users_inv me (users_step (Some me) s e)"
proof (cases "users_shown (Some me)")
  case True
  assume s: "users_inv me s"
  have l: "usr_source u \<noteq> OidcUser \<Longrightarrow> usr_source u = LocalUser" for u by (cases "usr_source u") simp_all
  show ?thesis using s True
    by (cases e) (auto simp: users_step_def users_shown_def users_inv_def send_def request_safe_def own_row_def create_disabled_def
        create_answered_def update_answered_def delete_answered_def l split: option.splits)
next
  case False
  assume "users_inv me s"
  then show ?thesis using False by (cases e) (simp_all add: users_step_def users_inv_def)
qed

interpretation accounts: machine "users_step (Some me)" "users_inv me"
  for me
  by unfold_locales (rule users_step_inv)

text \<open>C31. Whatever is clicked and answered, in any order, the page of users sends nothing without the permission to manage
  users; it never changes or deletes the account that is signed in, changes roles only of local accounts, and creates
  accounts only with a name and a password of eight characters.\<close>

theorem users_requests_safe:
  "let s = run (users_step (Some me)) users_start es
   in list_all (request_safe me) (up_sent s) \<and> (up_sent s = [] \<or> canManageUsers (Some (usr_permissions me)))"
proof -
  have "users_inv me (run (users_step (Some me)) users_start es)"
    by (rule accounts.run_inv) (simp add: users_inv_def users_start_def)
  then show ?thesis by (auto simp: users_inv_def Let_def)
qed

text \<open>A canceled form keeps what was typed, the password too, and shows it when the dialog is opened again.\<close>

lemma cancel_keeps_password:
  "users_shown me \<Longrightarrow> up_createOpen s \<Longrightarrow> up_deleteTarget s = None \<Longrightarrow>
     up_form (run (users_step me) s [FormEdited (EditPassword p), CreateCancelled, AddClicked]) = (up_form s)\<lparr>uf_password := p\<rparr>"
  by (simp add: users_step_def page_free_def)

text \<open>The answer of a canceled creation closes the dialog that is open by then and empties it.\<close>

lemma late_create_closes:
  "users_shown me \<Longrightarrow> up_createOpen s \<Longrightarrow> up_deleteTarget s = None \<Longrightarrow> \<not> create_disabled s \<Longrightarrow>
     let t = run (users_step me) s [CreateClicked, CreateCancelled, AddClicked, FormEdited (EditUsername n), CreateAnswered None]
     in \<not> up_createOpen t \<and> up_form t = empty_form"
  by (simp add: users_step_def page_free_def send_def create_answered_def create_disabled_def)

section \<open>The login form\<close>

definition login_message :: "string \<Rightarrow> string" where
  "login_message msg =
     (if msg = ''Invalid credentials'' \<or> text_includes msg ''401'' then ''Invalid credentials. Please try again.''
      else if msg = ''Too many attempts'' \<or> text_includes msg ''429'' then ''Too many login attempts. Please wait a few minutes.''
      else ''Could not reach the server. Please try again.'')"

end
