(* ===== verification/AuditDiff.thy ===== *)
theory AuditDiff
  imports Dates Json "HOL-Library.List_Lexorder"
begin

text \<open>
  \<open>frontend/src/components/audit/auditDiff.ts\<close> and \<open>auditFormatters.ts\<close>: the diff of two audit
  snapshots, the CSV export of the audit log and the labels of the actions.

  A snapshot is flattened into a map from dotted paths to printed leaves, here an association list
  in insertion order. Two simplifications: strings are ordered by their bytes, and the names of the
  members that every JavaScript object inherits (\<open>constructor\<close>, \<open>toString\<close> and the like) are read
  as absent where the snapshot lacks them.
\<close>

section \<open>Snapshots\<close>

definition isEmptySnapshot :: "string option \<Rightarrow> bool" where
  "isEmptySnapshot j = (case j of None \<Rightarrow> True | Some s \<Rightarrow> s = [] \<or> s = ''null'')"

definition object_assign :: "(string \<times> 'v) list \<Rightarrow> (string \<times> 'v) list \<Rightarrow> (string \<times> 'v) list" where
  "object_assign target source = fold (\<lambda>(k, v). assoc_set k v) source target"

definition sub_path :: "string \<Rightarrow> string \<Rightarrow> string" where
  "sub_path path fieldKey = (if path \<noteq> [] then path @ ''.'' @ fieldKey else fieldKey)"

fun flattenToLeaves :: "json \<Rightarrow> string \<Rightarrow> (string \<times> string) list" where
  "flattenToLeaves JNull path = (if path \<noteq> [] then [(path, ''null'')] else [])"
| "flattenToLeaves (JObj ms) path =
     fold (\<lambda>leaves result. object_assign result leaves)
       (map (\<lambda>(fieldKey, child). flattenToLeaves child (sub_path path fieldKey)) ms) []"
| "flattenToLeaves v path = [(path, stringify v)]"

definition parseSnapshot :: "string \<Rightarrow> (string \<times> string) list option" where
  "parseSnapshot j = map_option (\<lambda>v. flattenToLeaves v []) (json_parse j)"

section \<open>The diff\<close>

datatype diff_type = Added | Removed | Changed | Unchanged

record diff_entry =
  de_key :: string
  de_type :: diff_type
  de_before :: "string option"
  de_after :: "string option"

definition classifyLine :: "string \<Rightarrow> string option \<Rightarrow> string option \<Rightarrow> diff_entry" where
  "classifyLine key beforeValue afterValue =
     (if beforeValue = None then \<lparr>de_key = key, de_type = Added, de_before = None, de_after = afterValue\<rparr>
      else if afterValue = None then \<lparr>de_key = key, de_type = Removed, de_before = beforeValue, de_after = None\<rparr>
      else if beforeValue \<noteq> afterValue
        then \<lparr>de_key = key, de_type = Changed, de_before = beforeValue, de_after = afterValue\<rparr>
      else \<lparr>de_key = key, de_type = Unchanged, de_before = beforeValue, de_after = afterValue\<rparr>)"

definition snapshot_leaves :: "string option \<Rightarrow> (string \<times> string) list option" where
  "snapshot_leaves j = (if isEmptySnapshot j then Some [] else parseSnapshot (the j))"

definition computeDiff :: "string option \<Rightarrow> string option \<Rightarrow> diff_entry list option" where
  "computeDiff beforeJson afterJson =
     (if isEmptySnapshot beforeJson \<and> isEmptySnapshot afterJson then None
      else case (snapshot_leaves beforeJson, snapshot_leaves afterJson) of
             (Some flatBefore, Some flatAfter) \<Rightarrow>
               (let allKeys = sort (remdups (map fst flatBefore @ map fst flatAfter))
                in Some (map (\<lambda>key. classifyLine key (map_of flatBefore key) (map_of flatAfter key)) allKeys))
           | _ \<Rightarrow> None)"

definition formatChangeSummary :: "nat \<Rightarrow> string" where
  "formatChangeSummary changedCount =
     (if changedCount = 0 then ''No fields changed''
      else show_nat changedCount @ '' field'' @ (if changedCount \<noteq> 1 then ''s'' else '''') @ '' changed'')"

record diff_colors =
  df_bg :: string
  df_border :: string
  df_text :: string
  df_prefix :: string

fun diffStyle :: "bool \<Rightarrow> diff_type \<Rightarrow> diff_colors" where
  "diffStyle isDark Added = \<lparr>df_bg = ''rgba(34,197,94,0.10)'', df_border = (if isDark then ''#86efac'' else ''#15803D''),
     df_text = (if isDark then ''#86efac'' else ''#15803D''), df_prefix = ''+''\<rparr>"
| "diffStyle isDark Removed = \<lparr>df_bg = ''rgba(239,68,68,0.10)'', df_border = (if isDark then ''#fca5a5'' else ''#B91C1C''),
     df_text = (if isDark then ''#fca5a5'' else ''#B91C1C''), df_prefix = ''-''\<rparr>"
| "diffStyle isDark Changed = \<lparr>df_bg = ''rgba(245,158,11,0.10)'', df_border = (if isDark then ''#fcd34d'' else ''#92400E''),
     df_text = (if isDark then ''#fcd34d'' else ''#92400E''), df_prefix = ''~''\<rparr>"
| "diffStyle isDark Unchanged = \<lparr>df_bg = ''transparent'', df_border = ''transparent'', df_text = '''', df_prefix = '' ''\<rparr>"

section \<open>The CSV export\<close>

fun replace_first :: "char \<Rightarrow> char \<Rightarrow> string \<Rightarrow> string" where
  "replace_first a b [] = []"
| "replace_first a b (c # s) = (if c = a then b # s else c # replace_first a b s)"

definition toUTCString :: "js_env \<Rightarrow> string \<Rightarrow> js_error + string" where
  "toUTCString env ts =
     (case date_parse env ts of
        None \<Rightarrow> Inl RangeError
      | Some ms \<Rightarrow> Inr (take 19 (replace_first CHR ''T'' CHR '' '' (toISOString ms)) @ '' UTC''))"

definition formula_start :: "char list" where
  "formula_start = [CHR ''='', CHR ''+'', CHR ''-'', CHR ''@'', CHR 0x09, CHR 0x0D]"

definition guard_cell :: "string \<Rightarrow> string" where
  "guard_cell value = (if value \<noteq> [] \<and> hd value \<in> set formula_start then CHR 0x27 # value else value)"

definition escapeCSVCell :: "string \<Rightarrow> string" where
  "escapeCSVCell value =
     CHR 0x22 # concat (map (\<lambda>c. if c = CHR 0x22 then [c, c] else [c]) (guard_cell value)) @ [CHR 0x22]"

definition csv_header :: "string list" where
  "csv_header = [''Time (UTC)'', ''User'', ''Action'', ''Resource'', ''IP Address'']"

definition csv_row :: "js_env \<Rightarrow> audit_log_entry \<Rightarrow> js_error + string list" where
  "csv_row env e =
     (case toUTCString env (aud_timestamp e) of
        Inl err \<Rightarrow> Inl err
      | Inr time \<Rightarrow> Inr
          [time, aud_username e, aud_action e,
           (case aud_resourceType e of
              None \<Rightarrow> ''''
            | Some t \<Rightarrow> if t = [] then ''''
                else t @ (case aud_resourceId e of None \<Rightarrow> '''' | Some i \<Rightarrow> '' #'' @ show_int i)),
           (case aud_ipAddress e of None \<Rightarrow> '''' | Some ip \<Rightarrow> ip)])"

definition csv_text :: "string list list \<Rightarrow> string" where
  "csv_text rows = join_with [CHR 0x0A] (map (\<lambda>row. join_with '','' (map escapeCSVCell row)) rows)"

text \<open>The text and the name of the file that the browser saves.\<close>

definition downloadCSV :: "js_env \<Rightarrow> audit_log_entry list \<Rightarrow> js_error + string \<times> string" where
  "downloadCSV env items =
     (case fold_res (\<lambda>e rows. case csv_row env e of Inl err \<Rightarrow> Inl err | Inr r \<Rightarrow> Inr (rows @ [r])) items [] of
        Inl err \<Rightarrow> Inl err
      | Inr rows \<Rightarrow> Inr (csv_text (csv_header # rows),
          ''audit-'' @ take 10 (toISOString (date_now env)) @ ''.csv''))"

section \<open>Labels and colors of actions\<close>

definition ACTION_LABELS :: "(string \<times> string) list" where
  "ACTION_LABELS =
     [(''policy.create'', ''Policy Create''), (''policy.update'', ''Policy Update''), (''policy.delete'', ''Policy Delete''),
      (''policy.sleep'', ''Policy Sleep''), (''policy.wake'', ''Policy Wake''),
      (''exception.create'', ''Exception Create''), (''exception.update'', ''Exception Update''),
      (''exception.delete'', ''Exception Delete''), (''guardrail.update'', ''Guardrail Update''),
      (''admin.reset_db'', ''Reset Database''),
      (''user.create'', ''User Create''), (''user.update'', ''User Update''), (''user.delete'', ''User Delete''),
      (''auth.login'', ''Login''), (''auth.logout'', ''Logout''), (''auth.password_change'', ''Password Change'')]"

text \<open>\<open>replace(/\b\w/g, upper)\<close>; the flag says whether the previous character is a word character.\<close>

fun upper_words :: "bool \<Rightarrow> string \<Rightarrow> string" where
  "upper_words w [] = []"
| "upper_words w (c # s) = (if is_word c \<and> \<not> w then to_upper_char c else c) # upper_words (is_word c) s"

definition formatActionLabel :: "string \<Rightarrow> string" where
  "formatActionLabel action =
     (case map_of ACTION_LABELS action of
        Some l \<Rightarrow> l
      | None \<Rightarrow> upper_words False (map (\<lambda>c. if c = CHR ''.'' \<or> c = CHR ''_'' then CHR '' '' else c) action))"

datatype chip_color = ErrorColor | WarningColor | InfoColor | SuccessColor | DefaultColor

definition actionColor :: "string \<Rightarrow> chip_color" where
  "actionColor action =
     (if action = ''admin.reset_db'' then ErrorColor
      else if ends_with ''.delete'' action then ErrorColor
      else if ends_with ''.create'' action then SuccessColor
      else if action = ''auth.login'' then SuccessColor
      else if action = ''auth.logout'' then DefaultColor
      else if ends_with ''.sleep'' action \<or> ends_with ''.wake'' action \<or> action = ''auth.password_change'' then WarningColor
      else InfoColor)"

section \<open>What flattening means\<close>

text \<open>The leaf at a path of field names, read without flattening.\<close>

fun leaf_at :: "json \<Rightarrow> string list \<Rightarrow> string option" where
  "leaf_at JNull [] = Some ''null''"
| "leaf_at JNull (k # ks) = None"
| "leaf_at (JObj ms) [] = None"
| "leaf_at (JObj ms) (k # ks) = (case map_of ms k of None \<Rightarrow> None | Some v \<Rightarrow> leaf_at v ks)"
| "leaf_at v [] = Some (stringify v)"
| "leaf_at v (k # ks) = None"

definition plain_key :: "string \<Rightarrow> bool" where
  "plain_key k = (k \<noteq> [] \<and> CHR ''.'' \<notin> set k)"

text \<open>Snapshots whose field names contain no dot, as those of the backend's records.\<close>

fun plain :: "json \<Rightarrow> bool" where
  "plain (JObj ms) = (distinct (map fst ms) \<and> list_all (\<lambda>(k, v). plain_key k \<and> plain v) ms)"
| "plain _ = True"

abbreviation dotted :: "string list \<Rightarrow> string" where
  "dotted \<equiv> join_with ''.''"

lemma plain_path_split: "qs \<noteq> [] \<Longrightarrow> list_all plain_key qs \<Longrightarrow> split_on CHR ''.'' (dotted qs) = qs"
  by (rule split_join) (auto simp: plain_key_def list_all_iff)

lemma dotted_inj:
  "qs \<noteq> [] \<Longrightarrow> rs \<noteq> [] \<Longrightarrow> list_all plain_key qs \<Longrightarrow> list_all plain_key rs \<Longrightarrow> dotted qs = dotted rs \<longleftrightarrow> qs = rs"
  using plain_path_split by metis

lemma dotted_not_Nil: "qs \<noteq> [] \<Longrightarrow> list_all plain_key qs \<Longrightarrow> dotted qs \<noteq> []"
  by (cases qs; cases "tl qs") (auto simp: plain_key_def join_with_Cons)

lemma dotted_snoc: "ps \<noteq> [] \<Longrightarrow> dotted (ps @ [k]) = dotted ps @ ''.'' @ k"
proof (induction ps)
  case (Cons p ps)
  then show ?case by (cases "ps = []") (simp_all add: join_with_Cons)
qed simp

lemma sub_path_dotted: "list_all plain_key ps \<Longrightarrow> sub_path (dotted ps) k = dotted (ps @ [k])"
  using dotted_not_Nil [of ps] dotted_snoc [of ps k] by (cases "ps = []") (auto simp: sub_path_def)

lemma object_assign_keys: "set (map fst (object_assign t s)) = set (map fst t) \<union> set (map fst s)"
  unfolding object_assign_def
  by (induction s arbitrary: t) (auto simp: keys_assoc_set simp del: set_map)

lemma object_assign_distinct: "distinct (map fst t) \<Longrightarrow> distinct (map fst (object_assign t s))"
  unfolding object_assign_def
  by (induction s arbitrary: t) (auto simp: distinct_assoc_set simp del: set_map)

lemma object_assign_map_of: "distinct (map fst s) \<Longrightarrow> map_of (object_assign t s) = map_of t ++ map_of s"
proof (induction s arbitrary: t)
  case Nil
  then show ?case by (simp add: object_assign_def)
next
  case (Cons m s)
  obtain k v where m: "m = (k, v)" by fastforce
  have new: "map_of s k = None" using Cons.prems by (simp add: m map_of_eq_None_iff)
  have "map_of (object_assign t (m # s)) = map_of (assoc_set k v t) ++ map_of s"
    using Cons.IH [of "assoc_set k v t"] Cons.prems by (simp add: object_assign_def m fun_upd_def)
  with new show ?case by (auto simp: m fun_eq_iff map_add_def split: option.splits)
qed

lemma flatten_distinct: "distinct (map fst (flattenToLeaves v path))"
proof -
  have "distinct (map fst (fold (\<lambda>leaves result. object_assign result leaves) ls r))" if "distinct (map fst r)" for ls r
    using that by (induction ls arbitrary: r) (auto intro: object_assign_distinct)
  from this [of "[]"] show ?thesis by (cases "(v, path)" rule: flattenToLeaves.cases) (simp_all del: map_map)
qed

lemma fold_assign_pick:
  assumes "distinct (map fst ms)"
    and "\<And>k v. (k, v) \<in> set ms \<Longrightarrow> distinct (map fst (f k v)) \<and> map_of (f k v) q = (if k = k0 then g v else None)"
  shows "map_of (fold (\<lambda>leaves result. object_assign result leaves) (map (\<lambda>(k, v). f k v) ms) r) q =
     (case map_of ms k0 of Some v \<Rightarrow> (case g v of Some y \<Rightarrow> Some y | None \<Rightarrow> map_of r q) | None \<Rightarrow> map_of r q)"
  using assms
proof (induction ms arbitrary: r)
  case Nil
  then show ?case by simp
next
  case (Cons m ms)
  obtain k v where m: "m = (k, v)" by fastforce
  have f: "distinct (map fst (f k v))" "map_of (f k v) q = (if k = k0 then g v else None)"
    using Cons.prems(2) m by auto
  have "map_of ms k0 = None" if "k = k0" using that Cons.prems(1) m by (simp add: map_of_eq_None_iff)
  then show ?case
    using Cons.IH [of "object_assign r (f k v)"] Cons.prems f
    by (auto simp: m object_assign_map_of map_add_def split: option.splits)
qed

lemma leaf_below:
  assumes "\<forall>ms. v \<noteq> JObj ms" "take (length ps) qs = ps" "qs \<noteq> ps"
  shows "leaf_at v (drop (length ps) qs) = None"
proof (cases "drop (length ps) qs")
  case Nil
  then have "qs = ps" using assms(2) by (metis append_Nil2 append_take_drop_id)
  with assms(3) show ?thesis by simp
next
  case (Cons k ks)
  then show ?thesis using assms(1) by (cases v) simp_all
qed

lemma flatten_by_path:
  assumes "plain v" "list_all plain_key ps" "list_all plain_key qs" "ps \<noteq> [] \<or> (\<exists>ms. v = JObj ms)" "qs \<noteq> []"
  shows "map_of (flattenToLeaves v (dotted ps)) (dotted qs) =
     (if take (length ps) qs = ps then leaf_at v (drop (length ps) qs) else None)"
  using assms
proof (induction v arbitrary: ps)
  case (JObj ms)
  have members: "map_of (flattenToLeaves v (sub_path (dotted ps) k)) (dotted qs) =
      (if k = qs ! length ps then (if length ps < length qs \<and> take (length ps) qs = ps then leaf_at v (drop (Suc (length ps)) qs) else None) else None)"
    if "(k, v) \<in> set ms" for k v
  proof -
    have kv: "plain_key k" "plain v" using JObj.prems(1) that by (auto simp: list_all_iff)
    have "map_of (flattenToLeaves v (dotted (ps @ [k]))) (dotted qs) =
        (if take (length (ps @ [k])) qs = ps @ [k] then leaf_at v (drop (length (ps @ [k])) qs) else None)"
      by (rule JObj.IH [of "(k, v)" v]) (use that kv JObj.prems in auto)
    moreover have "take (length (ps @ [k])) qs = ps @ [k] \<longleftrightarrow>
        length ps < length qs \<and> take (length ps) qs = ps \<and> k = qs ! length ps"
      by (cases "length ps < length qs") (auto simp: take_Suc_conv_app_nth)
    ultimately show ?thesis using JObj.prems(2) by (auto simp: sub_path_dotted)
  qed
  have "map_of (flattenToLeaves (JObj ms) (dotted ps)) (dotted qs) =
      (case map_of ms (qs ! length ps) of
         Some v \<Rightarrow> (if length ps < length qs \<and> take (length ps) qs = ps then leaf_at v (drop (Suc (length ps)) qs) else None)
       | None \<Rightarrow> None)"
    using fold_assign_pick [of ms "\<lambda>k v. flattenToLeaves v (sub_path (dotted ps) k)" "dotted qs" "qs ! length ps"
        "\<lambda>v. if length ps < length qs \<and> take (length ps) qs = ps then leaf_at v (drop (Suc (length ps)) qs) else None" "[]"]
      JObj.prems(1) flatten_distinct members
    by (auto split: option.splits)
  also have "\<dots> = (if take (length ps) qs = ps then leaf_at (JObj ms) (drop (length ps) qs) else None)"
    by (cases "length ps < length qs") (auto simp: Cons_nth_drop_Suc [symmetric] split: option.splits)
  finally show ?case .
qed (use dotted_inj dotted_not_Nil in \<open>auto simp: leaf_below\<close>)

lemma flatten_keys:
  assumes "plain v" "list_all plain_key ps" "ps \<noteq> [] \<or> (\<exists>ms. v = JObj ms)" "key \<in> set (map fst (flattenToLeaves v (dotted ps)))"
  shows "\<exists>qs. qs \<noteq> [] \<and> list_all plain_key qs \<and> key = dotted qs"
  using assms
proof (induction v arbitrary: ps)
  case (JObj ms)
  have "set (map fst (fold (\<lambda>leaves result. object_assign result leaves) ls r)) =
      set (map fst r) \<union> (\<Union>l \<in> set ls. set (map fst l))" for ls :: "(string \<times> string) list list" and r
    by (induction ls arbitrary: r) (auto simp: object_assign_keys simp del: set_map)
  from this [of _ "[]"] JObj.prems(4) obtain k v where kv: "(k, v) \<in> set ms"
      "key \<in> set (map fst (flattenToLeaves v (sub_path (dotted ps) k)))"
    by auto
  then have "key \<in> set (map fst (flattenToLeaves v (dotted (ps @ [k]))))"
    using JObj.prems(2) by (simp add: sub_path_dotted)
  then show ?case
    using JObj.IH [of "(k, v)" v "ps @ [k]"] kv(1) JObj.prems(1,2) by (auto simp: list_all_iff simp del: set_map)
qed (auto split: if_splits)

section \<open>The diff shows what changed\<close>

lemma stringify_obj_nonempty: "\<not> isEmptySnapshot (Some (stringify (JObj ms)))"
  by (simp add: isEmptySnapshot_def)

lemma snapshot_leaves_printed:
  "wf_json (JObj ms) \<Longrightarrow> snapshot_leaves (Some (stringify (JObj ms))) = Some (flattenToLeaves (JObj ms) [])"
  using stringify_obj_nonempty [of ms] json_parse_stringify [of "JObj ms"]
  by (simp add: snapshot_leaves_def parseSnapshot_def)

definition plain_path :: "string list \<Rightarrow> bool" where
  "plain_path qs = (qs \<noteq> [] \<and> list_all plain_key qs)"

lemma flatten_top:
  assumes "plain (JObj ms)" "plain_path qs"
  shows "map_of (flattenToLeaves (JObj ms) []) (dotted qs) = leaf_at (JObj ms) qs"
  using flatten_by_path [OF assms(1), of "[]" qs] assms(2) by (simp add: plain_path_def)

lemma flatten_top_keys:
  assumes "plain (JObj ms)"
  shows "set (map fst (flattenToLeaves (JObj ms) [])) =
     {dotted qs | qs. plain_path qs \<and> leaf_at (JObj ms) qs \<noteq> None}"
proof -
  let ?F = "flattenToLeaves (JObj ms) []"
  have "key \<in> set (map fst ?F) \<longleftrightarrow> map_of ?F key \<noteq> None" for key
    using map_of_eq_None_iff [of ?F key] by (simp del: flattenToLeaves.simps)
  moreover have "\<exists>qs. plain_path qs \<and> key = dotted qs" if "key \<in> set (map fst ?F)" for key
    using flatten_keys [OF assms, of "[]" key] that by (simp add: plain_path_def del: flattenToLeaves.simps set_map)
  ultimately have "key \<in> set (map fst ?F) \<longleftrightarrow> (\<exists>qs. key = dotted qs \<and> plain_path qs \<and> leaf_at (JObj ms) qs \<noteq> None)" for key
    using flatten_top [OF assms] by metis
  then show ?thesis by (intro set_eqI) (simp only: mem_Collect_eq)
qed


lemma classifyLine_fields [simp]:
  "de_key (classifyLine k x y) = k"
  "de_before (classifyLine k x y) = x" "de_after (classifyLine k x y) = y"
  "de_type (classifyLine k x y) = Unchanged \<longleftrightarrow> x = y \<and> x \<noteq> None"
  by (auto simp: classifyLine_def)

lemma image_paths:
  "(\<And>x. ok x \<Longrightarrow> f (d x) = g x) \<Longrightarrow>
     f ` ({d x | x. ok x \<and> P x} \<union> {d x | x. ok x \<and> Q x}) = {g x | x. ok x \<and> (P x \<or> Q x)}"
  unfolding setcompr_eq_image image_Un [symmetric] image_image by (rule image_cong) auto

lemma sorted_keys:
  fixes ks :: "string list"
  shows "sorted_wrt (<) (sort (remdups ks))"
  by (simp add: strict_sorted_iff)

text \<open>C10. For snapshots as the backend prints them, the diff consists of one line for every path of field names
  at which either record has a leaf, with the two leaves, in the order of the dotted paths.\<close>

theorem audit_diff_complete:
  assumes "plain (JObj b)" "wf_json (JObj b)" "plain (JObj a)" "wf_json (JObj a)"
  shows "\<exists>ds. computeDiff (Some (stringify (JObj b))) (Some (stringify (JObj a))) = Some ds
     \<and> sorted_wrt (<) (map de_key ds)
     \<and> set ds = {classifyLine (dotted qs) (leaf_at (JObj b) qs) (leaf_at (JObj a) qs) | qs.
          plain_path qs \<and> (leaf_at (JObj b) qs \<noteq> None \<or> leaf_at (JObj a) qs \<noteq> None)}"
proof -
  let ?B = "flattenToLeaves (JObj b) []" and ?A = "flattenToLeaves (JObj a) []"
  let ?line = "\<lambda>key. classifyLine key (map_of ?B key) (map_of ?A key)"
  let ?ds = "map ?line (sort (remdups (map fst ?B @ map fst ?A)))"
  have "computeDiff (Some (stringify (JObj b))) (Some (stringify (JObj a))) = Some ?ds"
    using stringify_obj_nonempty snapshot_leaves_printed assms(2,4)
    by (simp add: computeDiff_def del: flattenToLeaves.simps stringify.simps)
  moreover have "map de_key ?ds = sort (remdups (map fst ?B @ map fst ?A))"
    by (simp add: comp_def del: flattenToLeaves.simps)
  moreover have "set ?ds = ?line ` (set (map fst ?B) \<union> set (map fst ?A))"
    by (simp add: image_Un del: flattenToLeaves.simps)
  moreover have "\<dots> = {classifyLine (dotted qs) (leaf_at (JObj b) qs) (leaf_at (JObj a) qs) | qs.
      plain_path qs \<and> (leaf_at (JObj b) qs \<noteq> None \<or> leaf_at (JObj a) qs \<noteq> None)}"
    unfolding flatten_top_keys [OF assms(1)] flatten_top_keys [OF assms(3)]
    by (rule image_paths) (simp only: flatten_top [OF assms(1)] flatten_top [OF assms(3)])
  ultimately show ?thesis using sorted_keys by metis
qed

definition sample_before :: "(string \<times> json) list" where
  "sample_before = [(''name'', JStr ''nightly''), (''spec'', JObj [(''mode'', JStr ''plan''), (''retries'', JNum (num_int 2))])]"

definition sample_after :: "(string \<times> json) list" where
  "sample_after = [(''name'', JStr ''nightly''), (''spec'', JObj [(''mode'', JStr ''apply''), (''note'', JNull)])]"

lemma sample_diff:
  "map_option (map (\<lambda>d. (de_key d, de_type d))) (computeDiff (Some (stringify (JObj sample_before))) (Some (stringify (JObj sample_after)))) =
     Some [(''name'', Unchanged), (''spec.mode'', Changed), (''spec.note'', Added), (''spec.retries'', Removed)]"
  by code_simp

theorem audit_diff_complete_witness:
  "\<exists>ds. computeDiff (Some (stringify (JObj sample_before))) (Some (stringify (JObj sample_after))) = Some ds
     \<and> sorted_wrt (<) (map de_key ds)
     \<and> set ds = {classifyLine (dotted qs) (leaf_at (JObj sample_before) qs) (leaf_at (JObj sample_after) qs) | qs.
          plain_path qs \<and> (leaf_at (JObj sample_before) qs \<noteq> None \<or> leaf_at (JObj sample_after) qs \<noteq> None)}"
  by (rule audit_diff_complete) code_simp+

section \<open>The CSV file read back\<close>

text \<open>A reader of the format (RFC 4180) for files whose cells are all quoted: the rest of a quoted cell, then
  the records. It is the specification of what a spreadsheet gets to see.\<close>

fun csv_quoted :: "string \<Rightarrow> string \<times> string" where
  "csv_quoted [] = ([], [])"
| "csv_quoted (c # r) =
     (if c \<noteq> CHR 0x22 then (case csv_quoted r of (x, t) \<Rightarrow> (c # x, t))
      else (case r of
              [] \<Rightarrow> ([], [])
            | d # r' \<Rightarrow> if d = CHR 0x22 then (case csv_quoted r' of (x, t) \<Rightarrow> (d # x, t)) else ([], r)))"

lemma csv_quoted_shorter: "csv_quoted s = (x, t) \<Longrightarrow> length t \<le> length s"
proof (induction s arbitrary: x t rule: csv_quoted.induct)
  case (2 c r)
  then show ?case
    by (cases r) (force split: if_splits prod.splits)+
qed simp

lemma csv_quoted_rest: "(x, d # t) = csv_quoted s \<Longrightarrow> length t < length s"
  using csv_quoted_shorter [of s x "d # t"] by simp

function csv_read :: "string \<Rightarrow> string list list" where
  "csv_read [] = []"
| "csv_read (q # s) =
     (case csv_quoted s of
        (x, []) \<Rightarrow> [[x]]
      | (x, d # t) \<Rightarrow>
          if d = CHR '','' then (case csv_read t of row # rows \<Rightarrow> (x # row) # rows | [] \<Rightarrow> [[x]])
          else [x] # csv_read t)"
  by pat_completeness auto
termination
  by (relation "measure length") (auto dest: csv_quoted_rest)

lemma csv_quoted_cell:
  "r = [] \<or> hd r \<noteq> CHR 0x22 \<Longrightarrow>
     csv_quoted (concat (map (\<lambda>c. if c = CHR 0x22 then [c, c] else [c]) s) @ CHR 0x22 # r) = (s, r)"
  by (induction s) (auto split: list.split)

lemma csv_read_cell:
  "r = [] \<or> hd r \<noteq> CHR 0x22 \<Longrightarrow> csv_read (escapeCSVCell v @ r) =
     (case r of [] \<Rightarrow> [[guard_cell v]]
      | d # t \<Rightarrow> if d = CHR '','' then (case csv_read t of row # rows \<Rightarrow> (guard_cell v # row) # rows | [] \<Rightarrow> [[guard_cell v]])
          else [guard_cell v] # csv_read t)"
  using csv_quoted_cell [of r "guard_cell v"] by (simp add: escapeCSVCell_def split: list.split)

lemma csv_read_row:
  assumes "row \<noteq> []" "r = [] \<or> hd r = CHR 0x0A"
  shows "csv_read (join_with '','' (map escapeCSVCell row) @ r) = map guard_cell row # csv_read (tl r)"
  using assms(1)
proof (induction row)
  case (Cons v row)
  show ?case
  proof (cases "row = []")
    case True
    with assms(2) show ?thesis using csv_read_cell [of "[]" v] by (cases r) (auto simp: csv_read_cell)
  next
    case False
    with Cons show ?thesis by (simp add: join_with_Cons csv_read_cell)
  qed
qed simp

lemma csv_read_text: "list_all (\<lambda>row. row \<noteq> []) rows \<Longrightarrow> csv_read (csv_text rows) = map (map guard_cell) rows"
proof (induction rows)
  case (Cons row rows)
  then show ?case
    using csv_read_row [of row "[]"] csv_read_row [of row "CHR 0x0A # csv_text rows"]
    by (cases "rows = []") (simp_all add: csv_text_def join_with_Cons)
qed (simp add: csv_text_def)

lemma guard_cell_safe: "guard_cell v = [] \<or> hd (guard_cell v) \<notin> set formula_start"
  by (auto simp: guard_cell_def formula_start_def)

lemma csv_rows_collect:
  "fold_res (\<lambda>e rows. case csv_row env e of Inl err \<Rightarrow> Inl err | Inr r \<Rightarrow> Inr (rows @ [r])) items acc = Inr out \<Longrightarrow>
     \<exists>rows. out = acc @ rows \<and> list_all2 (\<lambda>e r. csv_row env e = Inr r) items rows"
  by (induction items arbitrary: acc) (fastforce split: sum.splits)+

lemma csv_row_length: "csv_row env e = Inr r \<Longrightarrow> length r = 5"
  by (auto simp: csv_row_def split: sum.splits)

text \<open>Whatever the user names, actions and addresses contain, quotes, commas and line breaks included, the
  reader gets the table with every cell as guarded, and no cell starts with a character that a
  spreadsheet takes for a formula.\<close>

theorem csv_rows_read_back:
  assumes "downloadCSV env items = Inr (text, name)"
  shows "\<exists>rows. list_all2 (\<lambda>e r. csv_row env e = Inr r) items rows
     \<and> csv_read text = map (map guard_cell) (csv_header # rows)
     \<and> (\<forall>row \<in> set (csv_read text). \<forall>c \<in> set row. c = [] \<or> hd c \<notin> set formula_start)"
proof -
  obtain rows where rows: "list_all2 (\<lambda>e r. csv_row env e = Inr r) items rows" "text = csv_text (csv_header # rows)"
    using assms csv_rows_collect [of env items "[]"] by (auto simp: downloadCSV_def split: sum.splits)
  from rows(1) have "list_all (\<lambda>row. row \<noteq> []) rows"
    by (induction rule: list_all2_induct) (auto dest: csv_row_length)
  then have "csv_read text = map (map guard_cell) (csv_header # rows)"
    using rows(2) csv_read_text [of "csv_header # rows"] by (simp add: csv_header_def)
  with rows(1) guard_cell_safe show ?thesis by auto
qed

definition sample_env :: js_env where
  "sample_env = \<lparr>date_parse = (\<lambda>ts. if ts = ''2024-03-24T14:15:00Z'' then Some 1711289700000 else None),
     intl_parts = (\<lambda>_ _. None), host_fields = (\<lambda>_. \<lparr>cv_year = 2024, cv_month = 3, cv_day = 24,
       cv_hour = 14, cv_minute = 15, cv_second = 0\<rparr>), date_now = 1711289700000\<rparr>"

definition sample_entry :: audit_log_entry where
  "sample_entry = \<lparr>aud_id = 1, aud_userId = Some 4, aud_username = ''=1+1'', aud_action = ''auth.login'',
     aud_resourceType = Some ''user'', aud_resourceId = Some 4, aud_before = None, aud_after = None,
     aud_ipAddress = None, aud_timestamp = ''2024-03-24T14:15:00Z''\<rparr>"

lemma sample_download:
  "downloadCSV sample_env [sample_entry] = Inr (csv_text
     [csv_header, [''2024-03-24 14:15:00 UTC'', ''=1+1'', ''auth.login'', ''user #4'', '''']], ''audit-2024-03-24.csv'')"
  by code_simp

theorem csv_rows_read_back_witness:
  "\<exists>rows. list_all2 (\<lambda>e r. csv_row sample_env e = Inr r) [sample_entry] rows
     \<and> csv_read (csv_text [csv_header, [''2024-03-24 14:15:00 UTC'', ''=1+1'', ''auth.login'', ''user #4'', '''']])
         = map (map guard_cell) (csv_header # rows)
     \<and> (\<forall>row \<in> set (csv_read (csv_text [csv_header, [''2024-03-24 14:15:00 UTC'', ''=1+1'', ''auth.login'', ''user #4'', '''']])).
          \<forall>c \<in> set row. c = [] \<or> hd c \<notin> set formula_start)"
  by (rule csv_rows_read_back [OF sample_download])



end
