(* ===== verification/AuditExport.thy ===== *)
theory AuditExport
  imports AuditDiff ApiClient ClusterTypes UiState
begin

text \<open>
  The audit log page (\<open>app/audit/page.tsx\<close>): its filters and its export, together with the
  handler of the service that answers it (\<open>listAuditLogs\<close>, \<open>parsePageSize\<close> and \<open>ListAuditLogs\<close>
  of the Go backend). The two are composed through the text of the query string.

  The service's store is a parameter: how it reads an RFC 3339 timestamp and which entries the
  database selects for the filters, newest first. The statement of the service orders by the timestamp alone, so the
  database is free in the order of entries of the same time; a store fixes one order. The number format of the browser's locale and the message of an exception are parameters
  as well.
\<close>

section \<open>The service\<close>

text \<open>\<open>strconv.Atoi\<close> on 64 bits.\<close>

definition atoi :: "string \<Rightarrow> int option" where
  "atoi s =
     (let neg = (s \<noteq> [] \<and> hd s = CHR ''-'');
          ds = (if s \<noteq> [] \<and> hd s \<in> {CHR ''-'', CHR ''+''} then tl s else s);
          n = (if neg then - int (digits_val ds) else int (digits_val ds))
      in if all_digits ds \<and> - (2 ^ 63) \<le> n \<and> n < 2 ^ 63 then Some n else None)"

text \<open>\<open>query.Get\<close> gives the empty string for a missing parameter.\<close>

definition query_get :: "(string \<times> string) list \<Rightarrow> string \<Rightarrow> string" where
  "query_get q k = (case map_of q k of Some v \<Rightarrow> v | None \<Rightarrow> '''')"

definition parsePageSize :: "(string \<times> string) list \<Rightarrow> int \<Rightarrow> int \<Rightarrow> int" where
  "parsePageSize q defaultVal maxVal =
     (let raw = (if query_get q ''page_size'' = '''' then query_get q ''pageSize'' else query_get q ''page_size'')
      in if raw = '''' then defaultVal
         else case atoi raw of
                None \<Rightarrow> defaultVal
              | Some ps \<Rightarrow> if ps < 1 then defaultVal else if ps > maxVal then maxVal else ps)"

text \<open>An \<open>int\<close> of the service has 64 bits; an offset that is not positive is left out of the statement.\<close>

definition int64 :: "int \<Rightarrow> int" where
  "int64 n = (n + 2 ^ 63) mod 2 ^ 64 - 2 ^ 63"

definition ListAuditLogs :: "'a list \<Rightarrow> int \<Rightarrow> int \<Rightarrow> 'a page" where
  "ListAuditLogs selected page pageSize =
     (let size = (if pageSize \<le> 0 then 50 else if pageSize > 1000 then 1000 else pageSize);
          offset = int64 (page * size)
      in \<lparr>pg_items = take (nat size) (drop (nat offset) selected), pg_total = int (length selected)\<rparr>)"

record audit_store =
  sv_time :: "string \<Rightarrow> int option"
  sv_rows :: "string \<Rightarrow> string \<Rightarrow> int option \<Rightarrow> int option \<Rightarrow> audit_log_entry list"

text \<open>A time parameter is optional, but when it is there it has to parse.\<close>

definition time_param :: "audit_store \<Rightarrow> (string \<times> string) list \<Rightarrow> string \<Rightarrow> string + int option" where
  "time_param db q k =
     (if query_get q k = [] then Inr None
      else case sv_time db (query_get q k) of
             None \<Rightarrow> Inl (''invalid '' @ [CHR 0x27] @ k @ [CHR 0x27] @ '' timestamp ''
                @ [CHR 0xE2, CHR 0x80, CHR 0x94] @ '' expected RFC3339 format'')
           | Some t \<Rightarrow> Inr (Some t))"

definition page_param :: "(string \<times> string) list \<Rightarrow> string + int" where
  "page_param q =
     (if query_get q ''page'' = [] then Inr 0
      else case atoi (query_get q ''page'') of
             None \<Rightarrow> Inl ''invalid page parameter''
           | Some p \<Rightarrow> Inr (if p < 0 then 0 else p))"

definition listAuditLogs :: "audit_store \<Rightarrow> (string \<times> string) list \<Rightarrow> string + audit_log_entry page" where
  "listAuditLogs db q =
     (case page_param q of
        Inl m \<Rightarrow> Inl m
      | Inr page \<Rightarrow>
          (case time_param db q ''from'' of
             Inl m \<Rightarrow> Inl m
           | Inr from_time \<Rightarrow>
               (case time_param db q ''to'' of
                  Inl m \<Rightarrow> Inl m
                | Inr to_time \<Rightarrow>
                    Inr (ListAuditLogs (sv_rows db (query_get q ''user'') (query_get q ''action'') from_time to_time)
                           page (parsePageSize q 50 1000)))))"

text \<open>A request of the page, read by the service from the query string of its URL.\<close>

definition audit_service :: "audit_store \<Rightarrow> audit_params \<Rightarrow> js_error + audit_log_entry page" where
  "audit_service db p =
     (case listAuditLogs db (List.map_filter id (read_query (params_text (audit_query p)))) of
        Inl m \<Rightarrow> Inl (ErrorMsg m)
      | Inr r \<Rightarrow> Inr r)"

section \<open>The export\<close>

definition EXPORT_PAGE_SIZE :: int where "EXPORT_PAGE_SIZE = 1000"
definition EXPORT_MAX_ROWS :: nat where "EXPORT_MAX_ROWS = 100000"

text \<open>The loop with its local variables; \<open>None\<close> is the initial total, infinity. The requests sent
  are recorded. The answer of the server may be any function of the request.\<close>

record export_run =
  xr_collected :: "audit_log_entry list"
  xr_cursor :: nat
  xr_total :: "int option"
  xr_sent :: "audit_params list"

definition export_request :: "audit_params \<Rightarrow> nat \<Rightarrow> audit_params" where
  "export_request filters cursor = filters\<lparr>ap_page := Some (int cursor), ap_pageSize := Some EXPORT_PAGE_SIZE\<rparr>"

definition wants_more :: "export_run \<Rightarrow> bool" where
  "wants_more r \<longleftrightarrow> (case xr_total r of None \<Rightarrow> True | Some t \<Rightarrow> int (length (xr_collected r)) < t)
     \<and> length (xr_collected r) < EXPORT_MAX_ROWS"

function export_loop ::
  "(audit_params \<Rightarrow> js_error + audit_log_entry page) \<Rightarrow> audit_params \<Rightarrow> export_run \<Rightarrow> export_run \<times> js_error option" where
  "export_loop server filters r =
     (if wants_more r then
        (let p = export_request filters (xr_cursor r); sent = xr_sent r @ [p]
         in case server p of
              Inl e \<Rightarrow> (r\<lparr>xr_sent := sent\<rparr>, Some e)
            | Inr result \<Rightarrow>
                if pg_items result = [] then (r\<lparr>xr_sent := sent\<rparr>, None)
                else export_loop server filters
                  \<lparr>xr_collected = xr_collected r @ pg_items result, xr_cursor = xr_cursor r + 1,
                   xr_total = Some (pg_total result), xr_sent = sent\<rparr>)
      else (r, None))"
  by auto
termination
  by (relation "measure (\<lambda>(_, _, r). EXPORT_MAX_ROWS - length (xr_collected r))")
    (auto simp: wants_more_def neq_Nil_conv)

declare export_loop.simps [simp del]

text \<open>What the handler leaves behind: the alert, the saved file and the requests.\<close>

record export_outcome =
  xo_error :: "string option"
  xo_file :: "(string \<times> string) option"
  xo_sent :: "audit_params list"
  xo_isExporting :: bool

text \<open>The total is still infinite when the first page came back empty; infinity exceeds the cap.\<close>

definition over_cap :: "int option \<Rightarrow> bool" where
  "over_cap t = (case t of None \<Rightarrow> True | Some n \<Rightarrow> n > int EXPORT_MAX_ROWS)"

definition capped_message :: "(int option \<Rightarrow> string) \<Rightarrow> int option \<Rightarrow> string" where
  "capped_message toLocale t =
     ''Export capped at '' @ toLocale (Some (int EXPORT_MAX_ROWS)) @ '' rows ('' @ toLocale t
       @ '' match filters). Narrow the filters to capture older entries.''"

definition export_start :: export_run where
  "export_start = \<lparr>xr_collected = [], xr_cursor = 0, xr_total = None, xr_sent = []\<rparr>"

definition handleExport ::
  "js_env \<Rightarrow> (int option \<Rightarrow> string) \<Rightarrow> (js_error \<Rightarrow> string)
     \<Rightarrow> (audit_params \<Rightarrow> js_error + audit_log_entry page) \<Rightarrow> audit_params \<Rightarrow> export_outcome" where
  "handleExport env toLocale message server filters =
     (case export_loop server filters export_start of
        (r, Some e) \<Rightarrow> \<lparr>xo_error = Some (message e), xo_file = None, xo_sent = xr_sent r, xo_isExporting = False\<rparr>
      | (r, None) \<Rightarrow>
          (case downloadCSV env (xr_collected r) of
             Inl e \<Rightarrow> \<lparr>xo_error = Some (message e), xo_file = None, xo_sent = xr_sent r, xo_isExporting = False\<rparr>
           | Inr file \<Rightarrow>
               \<lparr>xo_error = (if over_cap (xr_total r) then Some (capped_message toLocale (xr_total r)) else None),
                xo_file = Some file, xo_sent = xr_sent r, xo_isExporting = False\<rparr>))"

section \<open>Termination\<close>

text \<open>Whatever the server answers, the loop sends the pages 0, 1, 2, \<dots> once each and stops: every
  answer but the last brings a row, and it asks no further once it holds the maximum.\<close>

definition export_inv :: "audit_params \<Rightarrow> export_run \<Rightarrow> bool" where
  "export_inv filters r \<longleftrightarrow> xr_sent r = map (export_request filters) [0..<xr_cursor r]
     \<and> xr_cursor r \<le> length (xr_collected r)"

lemma export_loop_bounded:
  assumes "export_inv filters r" "xr_cursor r \<le> EXPORT_MAX_ROWS"
  shows "\<exists>n \<le> EXPORT_MAX_ROWS. xr_sent (fst (export_loop server filters r)) = map (export_request filters) [0..<n]"
  using assms
proof (induction server filters r rule: export_loop.induct)
  case (1 server filters r)
  show ?case
  proof (cases "wants_more r")
    case False
    then show ?thesis using 1 by (auto simp: export_loop.simps [of server filters r] export_inv_def)
  next
    case True
    let ?p = "export_request filters (xr_cursor r)"
    have lt: "Suc (xr_cursor r) \<le> EXPORT_MAX_ROWS" 
      using True 1(2) by (auto simp: wants_more_def export_inv_def)
    have sent: "xr_sent r @ [?p] = map (export_request filters) [0..<Suc (xr_cursor r)]"
      using 1(2) by (simp add: export_inv_def)
    show ?thesis
    proof (cases "server ?p")
      case (Inl e)
      then show ?thesis using True lt sent
        by (auto simp: export_loop.simps [of server filters r] intro!: exI [of _ "Suc (xr_cursor r)"])
    next
      case (Inr result)
      show ?thesis
      proof (cases "pg_items result = []")
        case True
        then show ?thesis using \<open>wants_more r\<close> Inr lt sent
          by (auto simp: export_loop.simps [of server filters r] intro!: exI [of _ "Suc (xr_cursor r)"])
      next
        case False
        then have "Suc 0 \<le> length (pg_items result)" by (cases "pg_items result") auto
        then show ?thesis
          using 1(1) [OF True refl refl Inr False] 1(2) True Inr False lt sent
          by (simp add: export_loop.simps [of server filters r] export_inv_def)
      qed
    qed
  qed
qed

section \<open>What the export holds\<close>

text \<open>The entries that match the filters of a request; an absent filter is sent as no filter.\<close>

definition filter_text :: "string option \<Rightarrow> string" where
  "filter_text v = (case v of Some s \<Rightarrow> s | None \<Rightarrow> '''')"

definition time_of :: "audit_store \<Rightarrow> string option \<Rightarrow> int option" where
  "time_of db v = (if filter_text v = [] then None else sv_time db (filter_text v))"

definition matching_rows :: "audit_store \<Rightarrow> audit_params \<Rightarrow> audit_log_entry list" where
  "matching_rows db p =
     sv_rows db (filter_text (ap_user p)) (filter_text (ap_action p)) (time_of db (ap_from p)) (time_of db (ap_to p))"

text \<open>The service can read the times of the filters, if any.\<close>

definition readable_times :: "audit_store \<Rightarrow> audit_params \<Rightarrow> bool" where
  "readable_times db p \<longleftrightarrow> (\<forall>v \<in> {ap_from p, ap_to p}. filter_text v = [] \<or> sv_time db (filter_text v) \<noteq> None)"

text \<open>The promise of the export: the newest entries that match, up to the maximum, in one file, and an
  alert when there are more. When nothing matches, the alert of the maximum comes too.\<close>

definition export_spec ::
  "js_env \<Rightarrow> (int option \<Rightarrow> string) \<Rightarrow> (js_error \<Rightarrow> string) \<Rightarrow> audit_log_entry list
     \<Rightarrow> string option \<times> (string \<times> string) option" where
  "export_spec env toLocale message es =
     (case downloadCSV env (take EXPORT_MAX_ROWS es) of
        Inl e \<Rightarrow> (Some (message e), None)
      | Inr file \<Rightarrow>
          (if es = [] then Some (capped_message toLocale None)
           else if length es > EXPORT_MAX_ROWS then Some (capped_message toLocale (Some (int (length es)))) else None,
           Some file))"

lemma query_get_read:
  "query_get (audit_query p) ''user'' = filter_text (ap_user p)"
  "query_get (audit_query p) ''action'' = filter_text (ap_action p)"
  "query_get (audit_query p) ''from'' = filter_text (ap_from p)"
  "query_get (audit_query p) ''to'' = filter_text (ap_to p)"
  using audit_query_read [of p] by (auto simp: query_get_def filter_text_def split: option.splits)

lemma query_get_page_size:
  "query_get (audit_query p) ''page_size'' = ''''"
  by (simp add: query_get_def audit_query_def set_num_def set_page_def set_str_lookup split: option.split)

lemma atoi_show: "n < 2 ^ 63 \<Longrightarrow> atoi (show_nat n) = Some (int n)"
proof -
  have "hd (show_nat n) \<noteq> CHR ''-'' \<and> hd (show_nat n) \<noteq> CHR ''+''"
    using is_digit_not_sign [OF show_nat_digits [of "hd (show_nat n)" n]] by simp
  moreover assume "n < 2 ^ 63"
  ultimately show ?thesis by (simp add: atoi_def Let_def)
qed

lemma map_filter_Some: "List.map_filter id (map Some xs) = xs"
  by (induction xs) (simp_all add: List.map_filter_simps)

lemma service_page:
  assumes "k < 1000" "readable_times rows f"
  shows "audit_service rows (export_request f k) =
    Inr \<lparr>pg_items = take 1000 (drop (1000 * k) (matching_rows rows f)), pg_total = int (length (matching_rows rows f))\<rparr>"
proof -
  let ?p = "export_request f k" and ?q = "audit_query (export_request f k)"
  have q: "List.map_filter id (read_query (params_text ?q)) = ?q"
    using audit_query_read [of ?p] by (simp add: map_filter_Some)
  have page: "query_get ?q ''page'' = show_nat k" "query_get ?q ''pageSize'' = show_nat 1000"
    using audit_query_read [of ?p]
    by (simp_all add: query_get_def export_request_def EXPORT_PAGE_SIZE_def show_int_def)
  have "parsePageSize ?q 50 1000 = 1000"
    using page atoi_show [of 1000] by (simp add: parsePageSize_def query_get_page_size Let_def)
  moreover have "int64 (int k * 1000) = int (1000 * k)"
    using assms by (simp add: int64_def)
  moreover have "page_param ?q = Inr (int k)"
    using assms(1) atoi_show [of k] by (simp add: page_param_def page)
  moreover have "time_param rows ?q ''from'' = Inr (time_of rows (ap_from ?p))"
    "time_param rows ?q ''to'' = Inr (time_of rows (ap_to ?p))"
    using assms(2)
    by (auto simp: time_param_def time_of_def query_get_read readable_times_def export_request_def split: option.split)
  moreover have "matching_rows rows ?p = matching_rows rows f"
    by (simp add: matching_rows_def export_request_def)
  ultimately show ?thesis
    by (simp add: audit_service_def q listAuditLogs_def query_get_read ListAuditLogs_def Let_def
        nat_mult_distrib flip: matching_rows_def)
qed


text \<open>The state of the loop before page \<open>k\<close>, and the number of pages it asks for.\<close>

definition export_at :: "audit_store \<Rightarrow> audit_params \<Rightarrow> nat \<Rightarrow> export_run" where
  "export_at rows f k =
     \<lparr>xr_collected = take (1000 * k) (matching_rows rows f), xr_cursor = k,
      xr_total = (if k = 0 then None else Some (int (length (matching_rows rows f)))),
      xr_sent = map (export_request f) [0..<k]\<rparr>"

definition export_pages :: "nat \<Rightarrow> nat" where
  "export_pages n = min 100 ((n + 999) div 1000)"

lemma export_pages_less: "k < export_pages n \<longleftrightarrow> k < 100 \<and> 1000 * k < n"
  unfolding export_pages_def by linarith

lemma export_step:
  assumes "readable_times rows f" "k < export_pages (length (matching_rows rows f))"
  shows "export_loop (audit_service rows) f (export_at rows f k) = export_loop (audit_service rows) f (export_at rows f (Suc k))"
proof -
  let ?es = "matching_rows rows f"
  have k: "k < 100" "1000 * k < length ?es" using assms by (simp_all add: export_pages_less)
  then have "wants_more (export_at rows f k)"
    by (simp add: wants_more_def export_at_def EXPORT_MAX_ROWS_def)
  moreover have "take 1000 (drop (1000 * k) ?es) \<noteq> []" using k by simp
  moreover have "take (1000 * k) ?es @ take 1000 (drop (1000 * k) ?es) = take (1000 * Suc k) ?es"
    by (simp add: take_add [symmetric] add.commute)
  ultimately show ?thesis
    using k by (subst export_loop.simps) (simp add: Let_def service_page assms(1) export_at_def)
qed

lemma export_loop_pages:
  assumes "readable_times rows f" "k \<le> export_pages (length (matching_rows rows f))"
  shows "export_loop (audit_service rows) f export_start = export_loop (audit_service rows) f (export_at rows f k)"
  using assms
proof (induction k)
  case 0
  then show ?case by (simp add: export_at_def export_start_def)
next
  case (Suc k)
  then show ?case by (simp add: export_step)
qed

lemma export_result:
  assumes "readable_times rows f" "matching_rows rows f \<noteq> []"
  shows "export_loop (audit_service rows) f export_start =
    (\<lparr>xr_collected = take EXPORT_MAX_ROWS (matching_rows rows f), xr_cursor = export_pages (length (matching_rows rows f)),
      xr_total = Some (int (length (matching_rows rows f))),
      xr_sent = map (export_request f) [0..<export_pages (length (matching_rows rows f))]\<rparr>, None)"
proof -
  let ?es = "matching_rows rows f" and ?n = "export_pages (length (matching_rows rows f))"
  have n: "?n \<noteq> 0" "100 \<le> ?n \<or> length ?es \<le> 1000 * ?n" "?n \<le> 100"
    using assms export_pages_less [of 0 "length ?es"] export_pages_less [of ?n "length ?es"]
    by (auto simp: export_pages_def)
  then have all: "take (1000 * ?n) ?es = take EXPORT_MAX_ROWS ?es"
    by (auto simp: EXPORT_MAX_ROWS_def)
  have "\<not> wants_more (export_at rows f ?n)"
    using n by (auto simp: wants_more_def export_at_def EXPORT_MAX_ROWS_def)
  then have "export_loop (audit_service rows) f (export_at rows f ?n) = (export_at rows f ?n, None)"
    by (simp add: export_loop.simps)
  then show ?thesis
    using n(1) all by (simp add: export_loop_pages [OF assms(1) order_refl] export_at_def)
qed

section \<open>The page\<close>

text \<open>The filters and the table's page. The user filter is applied through \<open>useDebouncedValue\<close>; a
  running export keeps the filters of its click.\<close>

record audit_view =
  av_page :: int
  av_pageSize :: int
  av_user :: "string debounced"
  av_action :: string
  av_from :: string
  av_to :: string
  av_exportError :: "string option"
  av_job :: "audit_params option"
  av_files :: "(string \<times> string) list"

abbreviation av_isExporting :: "audit_view \<Rightarrow> bool" where
  "av_isExporting v \<equiv> av_job v \<noteq> None"

definition audit_view_start :: audit_view where
  "audit_view_start = \<lparr>av_page = 0, av_pageSize = 25,
     av_user = \<lparr>db_value = [], db_timer = False, db_debounced = []\<rparr>, av_action = [], av_from = [], av_to = [],
     av_exportError = None, av_job = None, av_files = []\<rparr>"

definition non_empty :: "string \<Rightarrow> string option" where
  "non_empty s = (if s = [] then None else Some s)"

text \<open>\<open>new Date(`${day}T\<dots>`).toISOString()\<close>, a local time; an unparsable day makes it throw.\<close>

definition day_bound :: "js_env \<Rightarrow> string \<Rightarrow> string \<Rightarrow> js_error + string option" where
  "day_bound env day time =
     (if day = [] then Inr None
      else case date_parse env (day @ ''T'' @ time) of
             None \<Rightarrow> Inl RangeError
           | Some ms \<Rightarrow> Inr (Some (toISOString ms)))"

definition audit_filters :: "js_env \<Rightarrow> audit_view \<Rightarrow> js_error + audit_params" where
  "audit_filters env v =
     (case day_bound env (av_from v) ''00:00:00'' of
        Inl e \<Rightarrow> Inl e
      | Inr localFrom \<Rightarrow>
          (case day_bound env (av_to v) ''23:59:59'' of
             Inl e \<Rightarrow> Inl e
           | Inr localTo \<Rightarrow> Inr \<lparr>ap_user = non_empty (db_debounced (av_user v)), ap_action = non_empty (av_action v),
               ap_from = localFrom, ap_to = localTo, ap_page = None, ap_pageSize = None\<rparr>))"

text \<open>The request of the table.\<close>

definition table_request :: "audit_view \<Rightarrow> audit_params \<Rightarrow> audit_params" where
  "table_request v filters = filters\<lparr>ap_page := Some (av_page v), ap_pageSize := Some (av_pageSize v)\<rparr>"

datatype audit_event =
    UserTyped string | UserSettled | ActionPicked string | FromPicked string | ToPicked string
  | PageTurned int | RowsPicked int
  | ExportClicked bool | ExportEnded "audit_params \<Rightarrow> js_error + audit_log_entry page" | AlertClosed

fun audit_view_step ::
  "js_env \<Rightarrow> (int option \<Rightarrow> string) \<Rightarrow> (js_error \<Rightarrow> string) \<Rightarrow> audit_view \<Rightarrow> audit_event \<Rightarrow> audit_view" where
  "audit_view_step env loc msg v (UserTyped s) = v\<lparr>av_user := debounce_step (av_user v) (ValueChanged s), av_page := 0\<rparr>"
| "audit_view_step env loc msg v UserSettled = v\<lparr>av_user := debounce_step (av_user v) DebounceFired\<rparr>"
| "audit_view_step env loc msg v (ActionPicked s) = v\<lparr>av_action := s, av_page := 0\<rparr>"
| "audit_view_step env loc msg v (FromPicked s) = v\<lparr>av_from := s, av_page := 0\<rparr>"
| "audit_view_step env loc msg v (ToPicked s) = v\<lparr>av_to := s, av_page := 0\<rparr>"
| "audit_view_step env loc msg v (PageTurned p) = v\<lparr>av_page := p\<rparr>"
| "audit_view_step env loc msg v (RowsPicked n) = v\<lparr>av_pageSize := n, av_page := 0\<rparr>"
| "audit_view_step env loc msg v (ExportClicked isLoading) =
     (if isLoading \<or> av_isExporting v then v
      else case audit_filters env v of
             Inl _ \<Rightarrow> v
           | Inr filters \<Rightarrow> v\<lparr>av_exportError := None, av_job := Some filters\<rparr>)"
| "audit_view_step env loc msg v (ExportEnded server) =
     (case av_job v of
        None \<Rightarrow> v
      | Some filters \<Rightarrow>
          (let x = handleExport env loc msg server filters
           in v\<lparr>av_exportError := (case xo_error x of None \<Rightarrow> av_exportError v | Some e \<Rightarrow> Some e), av_job := None,
                av_files := av_files v @ (case xo_file x of None \<Rightarrow> [] | Some file \<Rightarrow> [file])\<rparr>))"
| "audit_view_step env loc msg v AlertClosed = v\<lparr>av_exportError := None\<rparr>"

section \<open>Properties\<close>

text \<open>C16. Whatever the service answers, an export sends the pages 0, 1, 2 and so on of 1000 entries, once
  each and at most 100000 in all, and then ends: the button is enabled again.\<close>

theorem export_terminates:
  "(\<exists>n \<le> EXPORT_MAX_ROWS. xo_sent (handleExport env toLocale message server f) = map (export_request f) [0..<n])
   \<and> \<not> xo_isExporting (handleExport env toLocale message server f)"
proof -
  have "export_inv f export_start" "xr_cursor export_start \<le> EXPORT_MAX_ROWS"
    by (simp_all add: export_inv_def export_start_def)
  from export_loop_bounded [OF this] obtain n where n: "n \<le> EXPORT_MAX_ROWS"
    "xr_sent (fst (export_loop server f export_start)) = map (export_request f) [0..<n]" by blast
  obtain r e where "export_loop server f export_start = (r, e)" by fastforce
  with n show ?thesis
    by (auto simp: handleExport_def split: option.split sum.split)
qed

lemma empty_export:
  assumes "readable_times db f" "matching_rows db f = []"
  shows "export_loop (audit_service db) f export_start = (export_start\<lparr>xr_sent := [export_request f 0]\<rparr>, None)"
proof -
  have "audit_service db (export_request f 0) = Inr \<lparr>pg_items = [], pg_total = 0\<rparr>"
    using assms by (simp add: service_page)
  then show ?thesis
    by (subst export_loop.simps) (simp add: wants_more_def export_start_def EXPORT_MAX_ROWS_def Let_def)
qed

text \<open>C3. Against the service's own paging, read from the query string of each request, and a log that does not change
  and keeps its order meanwhile, the export saves the newest matching entries up to 100000 in one file; it warns exactly
  when more match or none does, the second of which is a mistake.\<close>

theorem export_refines_spec:
  assumes "readable_times db f"
  shows "let x = handleExport env toLocale message (audit_service db) f; es = matching_rows db f
     in (xo_error x, xo_file x) = export_spec env toLocale message es
        \<and> xo_sent x = map (export_request f) [0..<max 1 (min 100 ((length es + 999) div 1000))]"
proof (cases "matching_rows db f = []")
  case True
  then show ?thesis
    using empty_export [OF assms True]
    by (simp add: handleExport_def export_spec_def Let_def over_cap_def export_start_def split: sum.split)
next
  case False
  then have "1 \<le> min 100 ((length (matching_rows db f) + 999) div 1000)" by (cases "matching_rows db f") simp_all
  then show ?thesis
    using export_result [OF assms False] False
    by (simp add: handleExport_def export_spec_def Let_def over_cap_def export_pages_def max_absorb2 split: sum.split)
qed

definition sample_store :: "nat \<Rightarrow> audit_store" where
  "sample_store n = \<lparr>sv_time = (\<lambda>_. None), sv_rows = (\<lambda>user action from_time to_time.
     if user = ''ann'' then map (\<lambda>i. sample_entry\<lparr>aud_id := int i\<rparr>) [0..<n] else [])\<rparr>"

definition sample_filters :: audit_params where
  "sample_filters = \<lparr>ap_user = Some ''ann'', ap_action = None, ap_from = None, ap_to = None, ap_page = None, ap_pageSize = None\<rparr>"

lemma sample_store_rows:
  "readable_times (sample_store n) sample_filters"
  "matching_rows (sample_store n) sample_filters = map (\<lambda>i. sample_entry\<lparr>aud_id := int i\<rparr>) [0..<n]"
  by (simp_all add: readable_times_def matching_rows_def sample_store_def sample_filters_def filter_text_def)

theorem export_refines_spec_witness:
  "let x = handleExport sample_env (\<lambda>_. []) (\<lambda>_. []) (audit_service (sample_store 2500)) sample_filters;
       es = matching_rows (sample_store 2500) sample_filters
   in (xo_error x, xo_file x) = export_spec sample_env (\<lambda>_. []) (\<lambda>_. []) es
      \<and> xo_sent x = map (export_request sample_filters) [0..<max 1 (min 100 ((length es + 999) div 1000))]"
  by (rule export_refines_spec) (simp_all add: sample_store_rows)

text \<open>An export that matches nothing saves a file with the header only and nevertheless warns that it
  was capped, because its total is still infinite.\<close>

theorem empty_export_reports_cap:
  "handleExport env toLocale message (audit_service \<lparr>sv_time = \<lambda>s. Some (t s), sv_rows = \<lambda>_ _ _ _. []\<rparr>) f =
     \<lparr>xo_error = Some (capped_message toLocale None),
      xo_file = Some (csv_text [csv_header], ''audit-'' @ take 10 (toISOString (date_now env)) @ ''.csv''),
      xo_sent = [export_request f 0], xo_isExporting = False\<rparr>"
proof -
  let ?server = "audit_service \<lparr>sv_time = \<lambda>s. Some (t s), sv_rows = \<lambda>_ _ _ _. []\<rparr>"
  have "export_loop ?server f export_start = (export_start\<lparr>xr_sent := [export_request f 0]\<rparr>, None)"
    by (rule empty_export) (simp_all add: readable_times_def matching_rows_def)
  then show ?thesis
    by (simp add: handleExport_def export_start_def over_cap_def downloadCSV_def)
qed

text \<open>The pages are cut out of a log that grows at its front: an entry written between the first and
  the second request pushes the last entry of the first page into the second, and the file holds it twice.\<close>

theorem export_of_growing_log_repeats:
  assumes "readable_times before f" "readable_times later f" "matching_rows before f = es" "matching_rows later f = new # es" "1000 < length es" "length es < 2000"
  shows "let server = (\<lambda>p. audit_service (if ap_page p = Some 0 then before else later) p)
     in xr_collected (fst (export_loop server f export_start)) = take 1000 es @ drop 999 es"
proof -
  let ?server = "\<lambda>p. audit_service (if ap_page p = Some 0 then before else later) p"
  let ?r1 = "\<lparr>xr_collected = take 1000 es, xr_cursor = 1, xr_total = Some (int (length es)), xr_sent = [export_request f 0]\<rparr>"
  let ?r2 = "\<lparr>xr_collected = take 1000 es @ drop 999 es, xr_cursor = 2, xr_total = Some (int (length es) + 1),
    xr_sent = [export_request f 0, export_request f 1]\<rparr>"
  have more: "wants_more export_start" "wants_more ?r1" "\<not> wants_more ?r2"
    using assms by (auto simp: wants_more_def export_start_def EXPORT_MAX_ROWS_def)
  have pages: "?server (export_request f 0) = Inr \<lparr>pg_items = take 1000 es, pg_total = int (length es)\<rparr>"
    "?server (export_request f 1) = Inr \<lparr>pg_items = drop 999 es, pg_total = int (length es) + 1\<rparr>"
    using assms service_page [of 0 before f] service_page [of 1 later f]
    by (simp_all add: export_request_def)
  have "export_loop ?server f export_start = export_loop ?server f ?r1"
    using more(1) pages(1) assms(5)
    by (subst export_loop.simps) (auto simp: Let_def export_start_def)
  also have "\<dots> = export_loop ?server f ?r2"
    using more(2) pages(2) assms(5) by (subst export_loop.simps) (simp add: Let_def numeral_2_eq_2)
  also have "\<dots> = (?r2, None)"
    using more(3) by (subst export_loop.simps) simp
  finally show ?thesis by (simp add: Let_def)
qed

theorem export_of_growing_log_repeats_witness:
  "let before = sample_store 1500; es = matching_rows before sample_filters;
       later = before\<lparr>sv_rows := \<lambda>_ _ _ _. sample_entry # es\<rparr>;
       server = (\<lambda>p. audit_service (if ap_page p = Some 0 then before else later) p)
   in xr_collected (fst (export_loop server sample_filters export_start)) = take 1000 es @ drop 999 es"
proof -
  let ?before = "sample_store 1500" and ?es = "matching_rows (sample_store 1500) sample_filters"
  let ?later = "?before\<lparr>sv_rows := \<lambda>_ _ _ _. sample_entry # ?es\<rparr>"
  have "readable_times ?later sample_filters" "matching_rows ?later sample_filters = sample_entry # ?es"
    using sample_store_rows(1) [of 1500] by (simp_all add: readable_times_def matching_rows_def)
  from export_of_growing_log_repeats [OF sample_store_rows(1) this(1) refl this(2)]
  show ?thesis by (simp add: Let_def sample_store_rows(2))
qed

end
