(* ===== verification/PodLogService.thy ===== *)
theory PodLogService
  imports AuditExport
begin

text \<open>
  What the service reads from a request for the log of a pod (\<open>internal/api/cluster_pods.go\<close>), composed with the client
  through the text of the URL. The router matches the path as it was sent, or its decoded form where the standard
  encoding of that form gives the path back; it does not decode the parameters of the route.
\<close>

section \<open>The route\<close>

text \<open>\<open>^[a-z0-9][a-z0-9\-\.]{0,252}[a-z0-9]$|^[a-z0-9]$\<close>\<close>

definition k8s_alnum :: "char \<Rightarrow> bool" where
  "k8s_alnum c = (is_lower c \<or> is_digit c)"

definition isValidK8sName :: "string \<Rightarrow> bool" where
  "isValidK8sName s =
     (s \<noteq> [] \<and> length s \<le> 254 \<and> k8s_alnum (hd s) \<and> k8s_alnum (last s)
      \<and> list_all (\<lambda>c. k8s_alnum c \<or> c = CHR ''-'' \<or> c = CHR ''.'') s)"

text \<open>The path encoding of the library \<open>net/url\<close>, and the path on which the router works; \<open>None\<close> is an answer 400.\<close>

definition go_escape :: "string \<Rightarrow> string" where
  "go_escape s = concat (map (\<lambda>c. if is_alnum c \<or> c \<in> set ''-_.~$&+,/:;=@'' then [c] else pct c) s)"

definition route_path :: "string \<Rightarrow> string option" where
  "route_path p = (case pct_decode p of None \<Rightarrow> None | Some t \<Rightarrow> Some (if go_escape t = p then t else p))"

fun pod_route :: "string list \<Rightarrow> (string \<times> string) option" where
  "pod_route [r, a, c, p, namespace, name, l] =
     (if r = [] \<and> a = ''api'' \<and> c = ''cluster'' \<and> p = ''pods'' \<and> l = ''logs'' then Some (namespace, name) else None)"
| "pod_route _ = None"

section \<open>The options\<close>

record pod_log_options =
  plo_Container :: string
  plo_TailLines :: int
  plo_Previous :: bool
  plo_Follow :: bool

definition parsePodLogParams :: "(string \<times> string) list \<Rightarrow> pod_log_options" where
  "parsePodLogParams q =
     (let previous = (query_get q ''previous'' = ''true'')
      in \<lparr>plo_Container = query_get q ''container'',
          plo_TailLines = (case atoi (query_get q ''tailLines'') of None \<Rightarrow> 500 | Some n \<Rightarrow> if 0 < n \<and> n \<le> 10000 then n else 500),
          plo_Previous = previous,
          plo_Follow = (query_get q ''follow'' = ''true'' \<and> \<not> previous)\<rparr>)"

text \<open>The handler up to the call of Kubernetes: \<open>None\<close> if the route does not match or a name is not valid.\<close>

definition pod_log_handler :: "string \<Rightarrow> string \<Rightarrow> (string \<times> string \<times> pod_log_options) option" where
  "pod_log_handler path query =
     (case route_path path of
        None \<Rightarrow> None
      | Some p \<Rightarrow>
          (case pod_route (split_on CHR ''/'' p) of
             None \<Rightarrow> None
           | Some (namespace, name) \<Rightarrow>
               if isValidK8sName namespace \<and> isValidK8sName name
               then Some (namespace, name, parsePodLogParams (List.map_filter id (read_query query))) else None))"

section \<open>Reading back\<close>

lemma plain_path: "list_all (\<lambda>c. is_alnum c \<or> c \<in> set ''-./'') s \<Longrightarrow> pct_decode s = Some s \<and> go_escape s = s"
proof (induction s)
  case (Cons c s)
  then have "c \<noteq> CHR ''%''" by (auto simp: is_alnum_def is_lower_def is_upper_def is_digit_def less_eq_char_def)
  with Cons show ?case by (auto simp: go_escape_def)
qed (simp add: go_escape_def)

lemma plain_component: "list_all uri_unreserved s \<Longrightarrow> encodeURIComponent s = s"
  by (induction s) (simp_all add: encodeURIComponent_def)

lemma valid_name_chars: "isValidK8sName s \<Longrightarrow> list_all (\<lambda>c. is_alnum c \<or> c = CHR ''-'' \<or> c = CHR ''.'') s"
  by (auto simp: isValidK8sName_def k8s_alnum_def is_alnum_def list_all_iff)

lemma valid_name_plain: "isValidK8sName s \<Longrightarrow> encodeURIComponent s = s \<and> CHR ''/'' \<notin> set s"
proof -
  have slash: "\<not> is_alnum CHR ''/''" using alnum_not_special by force
  assume "isValidK8sName s"
  from valid_name_chars [OF this] slash show ?thesis
    by (auto intro!: plain_component simp: list_all_iff uri_unreserved_def)
qed

lemma pod_log_route:
  assumes "isValidK8sName namespace" "isValidK8sName podName"
  shows "pod_log_handler (pod_logs_path namespace podName) query
    = Some (namespace, podName, parsePodLogParams (List.map_filter id (read_query query)))"
proof -
  note n = valid_name_plain [OF assms(1)] valid_name_plain [OF assms(2)]
  let ?ss = "[[], ''api'', ''cluster'', ''pods'', namespace, podName, ''logs'']"
  have p: "pod_logs_path namespace podName = join_with ''/'' ?ss" using n by (simp add: pod_logs_path_def)
  have "split_on CHR ''/'' (join_with ''/'' ?ss) = ?ss" using n by (intro split_join) auto
  moreover have "list_all (\<lambda>c. is_alnum c \<or> c \<in> set ''-./'') (join_with ''/'' ?ss)"
    using valid_name_chars [OF assms(1)] valid_name_chars [OF assms(2)]
    by (auto simp: list_all_iff is_alnum_def is_lower_def less_eq_char_def)
  ultimately show ?thesis using plain_path assms by (simp add: pod_log_handler_def route_path_def p)
qed

lemma atoi_int: "atoi (show_int n) = (if - (2 ^ 63) \<le> n \<and> n < 2 ^ 63 then Some n else None)"
proof (cases "n < 0")
  case True
  then have "show_int n = CHR ''-'' # show_nat (nat (- n))" by (simp add: show_int_def)
  then show ?thesis using True by (simp add: atoi_def Let_def)
next
  case False
  have "hd (show_nat (nat n)) \<noteq> CHR ''-'' \<and> hd (show_nat (nat n)) \<noteq> CHR ''+''"
    using is_digit_not_sign [OF show_nat_digits [of "hd (show_nat (nat n))" "nat n"]] by simp
  then show ?thesis using False by (simp add: atoi_def show_int_def Let_def)
qed

definition log_options :: "string option \<Rightarrow> int \<Rightarrow> bool \<Rightarrow> bool \<Rightarrow> pod_log_options" where
  "log_options container tail previous follow =
     \<lparr>plo_Container = (case container of Some c \<Rightarrow> c | None \<Rightarrow> []), plo_TailLines = (if 0 < tail \<and> tail \<le> 10000 then tail else 500),
      plo_Previous = previous, plo_Follow = follow\<rparr>"

lemma log_options_read:
  "parsePodLogParams (pod_logs_query container tail previous) = log_options container tail previous False"
  "parsePodLogParams (stream_query container tail) = log_options container tail False True"
  by (auto simp: parsePodLogParams_def log_options_def query_get_def pod_logs_query_def stream_query_def set_str_lookup atoi_int Let_def
      set_str_def split: option.split)

text \<open>C12. From a request for the log of a pod with valid names, the handler of the service reads exactly the namespace, the pod
  and the options, whatever characters the name of the container holds; a number of lines out of its range counts as
  500. The same holds for the request that follows the log.\<close>

theorem pod_log_request_read_back:
  assumes "isValidK8sName namespace" "isValidK8sName podName"
  shows "(\<exists>path query. hr_url (getPodLogs BASE namespace podName container tail previous) = BASE @ path @ ''?'' @ query
       \<and> CHR ''?'' \<notin> set path
       \<and> pod_log_handler path query = Some (namespace, podName, log_options container tail previous False))
    \<and> (\<exists>path query. hr_url (streamPodLogs BASE namespace podName container tail signal) = BASE @ path @ ''?'' @ query
       \<and> CHR ''?'' \<notin> set path
       \<and> pod_log_handler path query = Some (namespace, podName, log_options container tail False True))"
proof -
  let ?p = "pod_logs_path namespace podName"
  have "pod_log_handler ?p (params_text q) = Some (namespace, podName, parsePodLogParams q)" for q
    using pod_log_route [OF assms] by (simp add: read_query_params map_filter_Some)
  then have "pod_log_handler ?p (params_text (pod_logs_query container tail previous)) = Some (namespace, podName, log_options container tail previous False)"
    "pod_log_handler ?p (params_text (stream_query container tail)) = Some (namespace, podName, log_options container tail False True)"
    by (simp_all add: log_options_read)
  then show ?thesis using path_no_query [of namespace podName]
    by (intro conjI exI [of _ ?p] exI [of _ "params_text (pod_logs_query container tail previous)"] exI [of _ "params_text (stream_query container tail)"])
      (simp_all add: getPodLogs_def streamPodLogs_def)
qed

theorem pod_log_request_read_back_witness:
  "\<exists>path query. hr_url (getPodLogs [] ''kube-system'' ''api-7d9.x'' (Some ''c&previous=true'') 200 False) = [] @ path @ ''?'' @ query
     \<and> CHR ''?'' \<notin> set path
     \<and> pod_log_handler path query = Some (''kube-system'', ''api-7d9.x'', log_options (Some ''c&previous=true'') 200 False False)"
proof -
  have "isValidK8sName ''kube-system''" "isValidK8sName ''api-7d9.x''" by code_simp+
  from pod_log_request_read_back [OF this] show ?thesis by blast
qed

end
