(* ===== verification/ServerWindows.thy ===== *)
theory ServerWindows
  imports PolicyForm AuditExport
begin

text \<open>
  The validation of sleep windows by the service (\<open>backend/internal/policy/windows.go\<close>), and what it finds in the windows that
  the editor and the form of the client leave.
\<close>

section \<open>The service\<close>

definition validateTime :: "string \<Rightarrow> bool" where
  "validateTime t =
     (let p0 = takeWhile (\<lambda>c. c \<noteq> CHR '':'') t; p1 = drop 1 (dropWhile (\<lambda>c. c \<noteq> CHR '':'') t)
      in CHR '':'' \<in> set t
       \<and> (case atoi p0 of None \<Rightarrow> False | Some h \<Rightarrow> 0 \<le> h \<and> h \<le> 23)
       \<and> (case atoi p1 of None \<Rightarrow> False | Some m \<Rightarrow> 0 \<le> m \<and> m \<le> 59)
       \<and> length p0 = 2 \<and> length p1 = 2)"

datatype window_fault = NoDays | BadDay int | DuplicateDay int | BadStart | BadEnd | SameTimes

fun check_days :: "int list \<Rightarrow> int list \<Rightarrow> window_fault option" where
  "check_days seen [] = None"
| "check_days seen (d # ds) =
     (if d < 0 \<or> 6 < d then Some (BadDay d)
      else if d \<in> set seen then Some (DuplicateDay d)
      else check_days (d # seen) ds)"

definition validateWindow :: "sleep_window \<Rightarrow> window_fault option" where
  "validateWindow w =
     (if daysOfWeek w = [] then Some NoDays
      else case check_days [] (daysOfWeek w) of
             Some f \<Rightarrow> Some f
           | None \<Rightarrow>
               if allDay w then None
               else if \<not> validateTime (startTime w) then Some BadStart
               else if \<not> validateTime (endTime w) then Some BadEnd
               else if startTime w = endTime w then Some SameTimes
               else None)"

section \<open>What the editor leaves\<close>

lemma atoi_two_digits: "list_all is_digit s \<Longrightarrow> s \<noteq> [] \<Longrightarrow> digits_val s < 60 \<Longrightarrow> atoi s = Some (int (digits_val s))"
proof -
  assume s: "list_all is_digit s" "s \<noteq> []" "digits_val s < 60"
  then have "is_digit (hd s)" by (cases s) simp_all
  then have "hd s \<noteq> CHR ''-''" "hd s \<noteq> CHR ''+''" using is_digit_not_sign by auto
  then show ?thesis using s by (simp add: atoi_def all_digits_def Let_def)
qed

lemma valid_time_accepted:
  assumes "valid_time t"
  shows "validateTime t"
proof -
  note sh = valid_time_shape [OF assms]
  have len: "length t = 5" and b: "digits_val (take 2 t) < 24" "digits_val (drop 3 t) < 60" using assms by (auto simp: valid_time_def)
  have "takeWhile (\<lambda>c. c \<noteq> CHR '':'') (take 2 t @ CHR '':'' # drop 3 t) = take 2 t"
    using sh(4) by (subst takeWhile_append2) auto
  moreover have "dropWhile (\<lambda>c. c \<noteq> CHR '':'') (take 2 t @ CHR '':'' # drop 3 t) = CHR '':'' # drop 3 t"
    using sh(4) by (subst dropWhile_append2) auto
  ultimately have "takeWhile (\<lambda>c. c \<noteq> CHR '':'') t = take 2 t" "dropWhile (\<lambda>c. c \<noteq> CHR '':'') t = CHR '':'' # drop 3 t"
    unfolding sh(1) [symmetric] by simp_all
  moreover have "CHR '':'' \<in> set t" by (subst sh(1)) simp
  moreover have "atoi (take 2 t) = Some (int (digits_val (take 2 t)))" "atoi (drop 3 t) = Some (int (digits_val (drop 3 t)))"
    using sh(2,3) b by (auto intro!: atoi_two_digits simp: all_digits_def)
  ultimately show ?thesis using len b by (simp add: validateTime_def)
qed

lemma check_days_ok: "check_days seen ds = None \<longleftrightarrow> list_all (\<lambda>d. 0 \<le> d \<and> d \<le> 6) ds \<and> distinct ds \<and> set seen \<inter> set ds = {}"
  by (induction seen ds rule: check_days.induct) auto

text \<open>The two faults an editable window can have.\<close>

definition remaining_fault :: "sleep_window \<Rightarrow> window_fault option" where
  "remaining_fault w =
     (if daysOfWeek w = [] then Some NoDays
      else if \<not> allDay w \<and> startTime w = endTime w then Some SameTimes else None)"

lemma editable_faults: "editable w \<Longrightarrow> validateWindow w = remaining_fault w"
  using check_days_ok [of "[]" "daysOfWeek w"]
  by (auto simp: editable_def validateWindow_def remaining_fault_def valid_time_accepted)

text \<open>C19. Whatever the user clicks, in any order, from at most ten windows with distinct days and readable times (the hidden
  times of an all-day window included), the editor holds at most ten windows; the service rejects one of them exactly if
  it has no day, or is not all-day and ends when it starts; and the weekly figures are always defined.\<close>

theorem picker_windows_accepted:
  assumes "list_all editable ws" "length ws \<le> MAX_WINDOWS"
  shows "let ws' = run picker_step ws es
     in length ws' \<le> MAX_WINDOWS \<and> list_all (\<lambda>w. validateWindow w = remaining_fault w) ws'
      \<and> (\<exists>m. weeklySleepMinutes ws' = Inr (num_int m) \<and> 0 \<le> m \<and> m \<le> 10080)"
proof -
  have inv: "picker_inv (run picker_step ws es)" using assms by (intro picker.run_inv) (simp add: picker_inv_def)
  then have "\<forall>w \<in> set (run picker_step ws es). wf_window w" by (auto simp: picker_inv_def list_all_iff editable_wf)
  then show ?thesis
    using inv weeklySleepMinutes_counts card_sleep_set_le [of "run picker_step ws es"]
    by (auto simp: picker_inv_def list_all_iff editable_faults Let_def intro!: exI [of _ "int (card (sleep_set (run picker_step ws es)))"])
qed

theorem picker_windows_accepted_witness:
  "let ws' = run picker_step [] [ClickAdd, ClickDay 0 6, PickWakeHour 0 23, ClickPreset 0, ClickRemove 1]
   in length ws' \<le> MAX_WINDOWS \<and> list_all (\<lambda>w. validateWindow w = remaining_fault w) ws'
     \<and> (\<exists>m. weeklySleepMinutes ws' = Inr (num_int m) \<and> 0 \<le> m \<and> m \<le> 10080)"
  by (rule picker_windows_accepted) simp_all

text \<open>The all-day switch uncovers the times below it: the preset for weekends becomes a window from midnight to midnight, which the form
  accepts and the service does not; and an all-day window that the service accepted with any text for its times becomes
  one it rejects.\<close>

lemma switched_weekends_rejected:
  "let ws = run picker_step [] [ClickPreset 2, SwitchAllDay 0 False]
   in map validateWindow ws = [Some SameTimes]
    \<and> policy_validate (DEFAULTS\<lparr>pf_name := ''weekends'', pf_editingWindows := ws\<rparr>) = None"
  unfolding Let_def by (intro conjI; code_simp)

lemma switch_uncovers_times:
  "map validateWindow [window None [0] [] [] True] = [None]
   \<and> map validateWindow (run picker_step [window None [0] [] [] True] [SwitchAllDay 0 False]) = [Some BadStart]"
  by (intro conjI; code_simp)

section \<open>What the form sends\<close>

text \<open>C23. Whatever is clicked and typed on the policies page, in any order and with any answers from the server, when the policies that are
  opened have at most ten windows with distinct days and readable times: each policy that is sent has a name, a timeout of at most a day and
  one to ten windows, each with a day; its week has a positive number of sleeping minutes; and the service finds no fault
  in its windows but, possibly, one that ends when it starts.\<close>

theorem sent_policies_accepted:
  assumes "list_all well_sent es" "PolicySent i p \<in> set (pg_effects (run (policy_step canEdit) (policy_page_start tz) es))"
  shows "js_trim (pp_name p) \<noteq> [] \<and> Num 0 \<le> pp_timeoutMinutes p \<and> pp_timeoutMinutes p \<le> Num 1440
    \<and> pp_sleepWindows p \<noteq> [] \<and> length (pp_sleepWindows p) \<le> MAX_WINDOWS
    \<and> list_all (\<lambda>w. daysOfWeek w \<noteq> [] \<and> validateWindow w = (if \<not> allDay w \<and> startTime w = endTime w then Some SameTimes else None))
        (pp_sleepWindows p)
    \<and> (\<exists>m. weeklySleepMinutes (pp_sleepWindows p) = Inr (num_int m) \<and> 0 < m \<and> m \<le> 10080)"
  using sent_policies_schedulable [OF assms]
  by (auto simp: sendable_def list_all_iff editable_faults remaining_fault_def)

theorem sent_policies_accepted_witness:
  "list_all (\<lambda>w. validateWindow w = None) (pp_sleepWindows night_payload)
   \<and> (\<exists>m. weeklySleepMinutes (pp_sleepWindows night_payload) = Inr (num_int m) \<and> 0 < m \<and> m \<le> 10080)"
proof -
  have "PolicySent (Some 7) night_payload \<in> set (pg_effects (run (policy_step True) (policy_page_start None) night_session))"
    by (simp add: night_session_sends)
  moreover have "list_all well_sent night_session" by (simp add: night_session_def night_schedulable)
  ultimately show ?thesis using sent_policies_accepted [of night_session "Some 7" night_payload True None]
    by (auto simp: night_payload_def DEFAULT_WINDOWS_def window_def)
qed

end
