(* ===== verification/Summary.thy ===== *)
theory Summary
  imports Types Regex
begin

text \<open>
  \<open>frontend/src/components/history/parseSummary.ts\<close>: the summary of an execution is read back from
  its log lines. The patterns are transcribed in the order the code tries them; the loop keeps
  the workload entries, an insertion-ordered map of nodes and the error messages.
\<close>

datatype workload_action = WScaled | WRestored | WPlan

record workload_entry =
  we_kind :: workload_kind
  we_ns :: string
  we_name :: string
  we_targetReplicas :: jsnum
  we_action :: workload_action

datatype node_action = NDrained | NDeleted | NPlan | NProtected

record node_entry =
  ne_name :: string
  ne_action :: node_action

datatype operation = OpScaled | OpRestored

record execution_stats =
  st_operation :: operation
  st_duration :: string
  st_scaled :: jsnum
  st_skipped :: jsnum
  st_errors :: jsnum
  st_apiCalls :: jsnum
  st_throughput :: string

record parsed_summary =
  ps_workloads :: "workload_entry list"
  ps_nodes :: "node_entry list"
  ps_errors :: "string list"
  ps_stats :: "execution_stats option"

section \<open>The patterns\<close>

text \<open>The right arrow and the em dash of the messages, as UTF-8 bytes.\<close>

definition arrow :: string where "arrow = [CHR 0xE2, CHR 0x86, CHR 0x92]"
definition em_dash :: string where "em_dash = [CHR 0xE2, CHR 0x80, CHR 0x94]"

definition kind_re :: re where
  "kind_re = Cap 1 (Alt (Lit ''Deployment'') (Lit ''StatefulSet''))"

definition target_re :: "re list" where
  "target_re = [kind_re, Lit '' '', Cap 2 (Plus non_space), Lit ''/'', Cap 3 (Plus non_space)]"

definition slept_re :: re where
  "slept_re = seq ([Bol, Lit ''Slept ''] @ target_re
     @ [Lit '' (was '', Cap 4 (Plus is_digit), Lit '' replicas)'', Eol])"

definition enforced_re :: re where
  "enforced_re = seq ([Bol, Lit ''Enforced sleep on ''] @ target_re
     @ [Lit '' (was '', Cap 4 (Plus is_digit), Lit '' replicas)'', Eol])"

definition restored_re :: re where
  "restored_re = seq ([Bol, Lit ''Restored ''] @ target_re
     @ [Lit ('' '' @ arrow @ '' ''), Cap 4 (Plus is_digit), Lit '' replicas'', Eol])"

definition planSleep_re :: re where
  "planSleep_re = seq ([Bol, Lit ''Would '', Alt (Lit ''sleep'') (Lit ''enforce sleep''), Lit '' '']
     @ target_re @ [Lit ('' '' @ arrow @ '' ''), Cap 4 (Plus is_digit)])"

definition planWake_re :: re where
  "planWake_re = seq ([Bol, Lit ''Would restore ''] @ target_re
     @ [Lit ('' '' @ arrow @ '' ''), Cap 4 (Plus is_digit), Lit '' replicas'', Eol])"

definition drained_re :: re where
  "drained_re = seq [Bol, Lit ''Drained node '', Cap 1 (Plus non_space), Eol]"

definition deleted_re :: re where
  "deleted_re = seq [Bol, Lit ''Deleted node object '', Cap 1 (Plus non_space), Eol]"

definition wouldDrain_re :: re where
  "wouldDrain_re = seq [Bol, Lit ''Would drain node '', Cap 1 (Plus non_space)]"

definition protected_re :: re where
  "protected_re = seq [Bol, Lit ''Protected node '', Cap 1 (Plus non_space)]"

definition COMPLETE_RE :: re where
  "COMPLETE_RE = seq [alts [Lit ''Sleep'', Lit ''Wake'', Lit ''Enforce sleep''], Lit '' complete in '',
     Cap 1 (Plus non_space), Lit ('' '' @ em_dash @ '' ''),
     Cap 2 (Alt (Lit ''scaled'') (Lit ''restored'')), Lit '' '', Cap 3 (Plus is_digit),
     Lit '' workload'', Opt (Lit ''s''), Lit '', '', Cap 4 (Plus is_digit), Lit '' skipped, '',
     Cap 5 (Plus is_digit), Lit '' error'', Opt (Lit ''s''), Lit '', '', Cap 6 (Plus is_digit),
     Lit '' K8s API calls ('', Cap 7 (Cat (Plus non_space) (Lit '' req/s'')), Lit '')'']"

section \<open>The loop\<close>

text \<open>A group the pattern always sets, as a string.\<close>

definition grp :: "caps \<Rightarrow> nat \<Rightarrow> string" where
  "grp c i = (case group c i of None \<Rightarrow> ''undefined'' | Some s \<Rightarrow> s)"

definition kind_of :: "string \<Rightarrow> workload_kind" where
  "kind_of s = (if s = ''Deployment'' then Deployment else StatefulSet)"

definition entry :: "caps \<Rightarrow> jsnum \<Rightarrow> workload_action \<Rightarrow> workload_entry" where
  "entry c n a = \<lparr>we_kind = kind_of (grp c 1), we_ns = grp c 2, we_name = grp c 3,
     we_targetReplicas = n, we_action = a\<rparr>"

record summary_acc =
  ac_workloads :: "workload_entry list"
  ac_nodes :: "(string \<times> node_entry) list"
  ac_errors :: "string list"

definition add_workload :: "workload_entry \<Rightarrow> summary_acc \<Rightarrow> summary_acc" where
  "add_workload e acc = acc\<lparr>ac_workloads := ac_workloads acc @ [e]\<rparr>"

definition set_node :: "string \<Rightarrow> node_action \<Rightarrow> summary_acc \<Rightarrow> summary_acc" where
  "set_node n a acc =
     acc\<lparr>ac_nodes := assoc_set n \<lparr>ne_name = n, ne_action = a\<rparr> (ac_nodes acc)\<rparr>"

text \<open>The node and error part of the loop body.\<close>

definition parse_node_line :: "log_line \<Rightarrow> summary_acc \<Rightarrow> summary_acc" where
  "parse_node_line line acc =
     (let m = ln_message line in
      case re_match drained_re m of
        Some c \<Rightarrow> set_node (grp c 1) NDrained acc
      | None \<Rightarrow>
     (case re_match deleted_re m of
        Some c \<Rightarrow> set_node (grp c 1) NDeleted acc
      | None \<Rightarrow>
     (let wouldDrain = re_match wouldDrain_re m in
      if wouldDrain \<noteq> None \<and> map_of (ac_nodes acc) (grp (the wouldDrain) 1) = None
      then set_node (grp (the wouldDrain) 1) NPlan acc
      else
     (case re_match protected_re m of
        Some c \<Rightarrow> set_node (grp c 1) NProtected acc
      | None \<Rightarrow>
         if ln_level line = LError then acc\<lparr>ac_errors := ac_errors acc @ [m]\<rparr> else acc))))"

definition parse_line :: "summary_acc \<Rightarrow> log_line \<Rightarrow> summary_acc" where
  "parse_line acc line =
     (let m = ln_message line in
      case re_match slept_re m of
        Some c \<Rightarrow> add_workload (entry c (Num 0) WScaled) acc
      | None \<Rightarrow>
     (case re_match enforced_re m of
        Some c \<Rightarrow> add_workload (entry c (Num 0) WScaled) acc
      | None \<Rightarrow>
     (case re_match restored_re m of
        Some c \<Rightarrow> add_workload (entry c (parse_int (grp c 4)) WRestored) acc
      | None \<Rightarrow>
     (case re_match planSleep_re m of
        Some c \<Rightarrow> add_workload (entry c (parse_int (grp c 4)) WPlan) acc
      | None \<Rightarrow>
     (case re_match planWake_re m of
        Some c \<Rightarrow> add_workload (entry c (parse_int (grp c 4)) WPlan) acc
      | None \<Rightarrow> parse_node_line line acc)))))"

definition stats_of :: "caps \<Rightarrow> execution_stats" where
  "stats_of cm =
     \<lparr>st_operation = (if grp cm 2 = ''scaled'' then OpScaled else OpRestored),
      st_duration = grp cm 1, st_scaled = parse_int (grp cm 3), st_skipped = parse_int (grp cm 4),
      st_errors = parse_int (grp cm 5), st_apiCalls = parse_int (grp cm 6),
      st_throughput = grp cm 7\<rparr>"

text \<open>From the last line backwards, the first one that matches.\<close>

fun find_stats :: "log_line list \<Rightarrow> execution_stats option" where
  "find_stats [] = None"
| "find_stats (l # ls) =
     (case re_match COMPLETE_RE (ln_message l) of
        Some cm \<Rightarrow> Some (stats_of cm)
      | None \<Rightarrow> find_stats ls)"

definition empty_acc :: summary_acc where
  "empty_acc = \<lparr>ac_workloads = [], ac_nodes = [], ac_errors = []\<rparr>"

definition parseSummary :: "log_line list \<Rightarrow> parsed_summary" where
  "parseSummary lines =
     (let acc = foldl parse_line empty_acc lines
      in \<lparr>ps_workloads = ac_workloads acc, ps_nodes = map snd (ac_nodes acc),
          ps_errors = ac_errors acc, ps_stats = find_stats (rev lines)\<rparr>)"


section \<open>The lines the scaler prints\<close>

text \<open>
  The messages of the scaler of the service (\<open>internal/scaler\<close>) about workloads and nodes. A name of the
  cluster is a nonempty text without white space and slashes.
\<close>

datatype log_event =
    Slept workload_kind string string nat
  | Enforced workload_kind string string nat
  | Restored workload_kind string string nat
  | WouldSleep bool workload_kind string string nat
  | WouldRestore workload_kind string string nat
  | DrainedNode string
  | DeletedNode string
  | WouldDrain string string
  | ProtectedNode string string

definition kind_text :: "workload_kind \<Rightarrow> string" where
  "kind_text k = (case k of Deployment \<Rightarrow> ''Deployment'' | StatefulSet \<Rightarrow> ''StatefulSet'')"






section \<open>Reading the lines back\<close>


lemma kind_of_text [simp]: "kind_of (kind_text k) = k"
  by (cases k) (simp_all add: kind_of_def kind_text_def)


lemma not_space_literals [simp]: "is_space CHR '' ''" "\<not> is_space CHR ''/''" "\<not> is_digit CHR '' ''"
  by (simp_all add: is_space_def is_digit_def less_eq_char_def)

























lemma parse_int_show_nat [simp]: "parse_int (show_nat n) = Num (of_nat n)"
  by (simp add: parse_int_digits)







section \<open>Whole logs\<close>







text \<open>The node map always files an entry under its own name, and each name once.\<close>

definition nodes_ok :: "summary_acc \<Rightarrow> bool" where
  "nodes_ok acc = (distinct (map fst (ac_nodes acc)) \<and> (\<forall>(k, e) \<in> set (ac_nodes acc). ne_name e = k))"

lemma set_assoc_set: "set (assoc_set k v xs) \<subseteq> insert (k, v) (set xs)"
  by (induction k v xs rule: assoc_set.induct) auto

lemma nodes_ok_set_node: "nodes_ok acc \<Longrightarrow> nodes_ok (set_node n a acc)"
  using set_assoc_set [of n "\<lparr>ne_name = n, ne_action = a\<rparr>" "ac_nodes acc"]
  by (fastforce simp: nodes_ok_def set_node_def intro: distinct_assoc_set)

lemma nodes_ok_other [simp]:
  "nodes_ok (add_workload e acc) = nodes_ok acc"
  "nodes_ok (acc\<lparr>ac_errors := es\<rparr>) = nodes_ok acc"
  by (simp_all add: nodes_ok_def add_workload_def)

lemma nodes_ok_parse_line: "nodes_ok acc \<Longrightarrow> nodes_ok (parse_line acc line)"
  by (simp add: parse_line_def parse_node_line_def Let_def nodes_ok_set_node split: option.split)

interpretation summary_nodes: machine parse_line nodes_ok
  by unfold_locales (rule nodes_ok_parse_line)

lemma nodes_ok_names: "nodes_ok acc \<Longrightarrow> distinct (map ne_name (map snd (ac_nodes acc)))"
proof -
  assume ok: "nodes_ok acc"
  then have "map ne_name (map snd (ac_nodes acc)) = map fst (ac_nodes acc)"
    by (auto simp: nodes_ok_def)
  with ok show ?thesis by (simp add: nodes_ok_def del: map_map)
qed

text \<open>Every error of the summary is the message of an error line, in the order of the log.\<close>

definition error_messages :: "log_line list \<Rightarrow> string list" where
  "error_messages lines = map ln_message (filter (\<lambda>l. ln_level l = LError) lines)"

lemma subseq_snoc: "subseq xs ys \<Longrightarrow> subseq xs (ys @ zs)"
  by (metis append_Nil2 list_emb_append_mono subseq_order.order_refl list_emb_Nil)

lemma set_node_errors [simp]: "ac_errors (set_node n a acc) = ac_errors acc"
  and add_workload_errors [simp]: "ac_errors (add_workload e acc) = ac_errors acc"
  by (simp_all add: set_node_def add_workload_def)

lemma parse_line_errors:
  "ac_errors (parse_line acc line) = ac_errors acc \<or>
   ln_level line = LError \<and> ac_errors (parse_line acc line) = ac_errors acc @ [ln_message line]"
  by (simp add: parse_line_def parse_node_line_def Let_def split: option.split)

lemma parse_lines_errors:
  "subseq (ac_errors (foldl parse_line empty_acc lines)) (error_messages lines)"
proof (induction lines rule: rev_induct)
  case Nil
  then show ?case by (simp add: empty_acc_def error_messages_def)
next
  case (snoc l lines)
  then show ?case
    using parse_line_errors [of "foldl parse_line empty_acc lines" l]
    by (auto simp: error_messages_def subseq_snoc)
qed






text \<open>For any log at all, each node is listed once, and the errors are messages of error lines, in the
  order of the log.\<close>

theorem summary_nodes_once_errors_real:
  "distinct (map ne_name (ps_nodes (parseSummary lines)))
   \<and> subseq (ps_errors (parseSummary lines)) (error_messages lines)"
proof -
  have "nodes_ok empty_acc" by (simp add: nodes_ok_def empty_acc_def)
  from summary_nodes.run_inv [OF this, of lines] have "nodes_ok (foldl parse_line empty_acc lines)"
    by (simp add: run_def)
  then show ?thesis
    using nodes_ok_names parse_lines_errors [of lines] by (simp add: parseSummary_def Let_def)
qed

end
