(* ===== verification/ExecLogs.thy ===== *)
theory ExecLogs
  imports Types Retry Json "HOL-Library.Multiset"
begin

text \<open>
  \<open>useExecutionLogs.ts\<close>: the live log of a running execution over a WebSocket. The state holds what
  React keeps (lines, flags) and the refs: the socket, the reconnect timer, the retry count, the
  sequence numbers already seen (in insertion order), the lines waiting for the next animation
  frame and whether a frame is requested. The log of a finished execution is a query.
\<close>

definition MAX_RETRIES :: nat where "MAX_RETRIES = 10"
definition MAX_SEEN_IDS :: nat where "MAX_SEEN_IDS = 50000"
definition SEEN_IDS_TRIM :: nat where "SEEN_IDS_TRIM = 25000"

record exec_logs =
  el_execId :: "int option"
  el_isRunning :: bool
  el_liveLines :: "log_line list"
  el_isConnected :: bool
  el_cleanClose :: bool
  el_maxRetries :: bool
  el_ws :: bool
  el_timer :: "rat option"
  el_retries :: nat
  el_seen :: "int list"
  el_buffer :: "log_line list"
  el_raf :: bool
  el_mounted :: bool

text \<open>The effect runs for an execution whose id is neither undefined nor 0, while it is running.\<close>

definition effect_runs :: "int option \<Rightarrow> bool \<Rightarrow> bool" where
  "effect_runs execId isRunning = (execId \<noteq> None \<and> execId \<noteq> Some 0 \<and> isRunning)"

definition openWs :: "exec_logs \<Rightarrow> exec_logs" where
  "openWs s = s\<lparr>el_ws := True\<rparr>"

definition start_effect :: "exec_logs \<Rightarrow> exec_logs" where
  "start_effect s =
     (if effect_runs (el_execId s) (el_isRunning s)
      then openWs (s\<lparr>el_mounted := True, el_isConnected := False, el_cleanClose := False,
             el_maxRetries := False, el_retries := 0, el_seen := []\<rparr>)
      else s)"

definition cleanup :: "exec_logs \<Rightarrow> exec_logs" where
  "cleanup s =
     (if effect_runs (el_execId s) (el_isRunning s)
      then s\<lparr>el_mounted := False, el_timer := None, el_raf := False, el_buffer := [], el_ws := False\<rparr>
      else s)"

text \<open>A render with new properties: another execution clears the view, and the effect is cleaned up and
  run again when one of the two changed.\<close>

definition set_props :: "int option \<Rightarrow> bool \<Rightarrow> exec_logs \<Rightarrow> exec_logs" where
  "set_props execId isRunning s =
     (if execId = el_execId s \<and> isRunning = el_isRunning s then s
      else
        let s1 = (if execId \<noteq> el_execId s
                  then s\<lparr>el_liveLines := [], el_isConnected := False, el_cleanClose := False, el_maxRetries := False\<rparr>
                  else s);
            s2 = cleanup s1
        in start_effect (s2\<lparr>el_execId := execId, el_isRunning := isRunning\<rparr>))"

section \<open>Messages\<close>

text \<open>\<open>sorted.slice(-SEEN_IDS_TRIM)\<close>: the largest numbers stay.\<close>

definition trim_seen :: "int list \<Rightarrow> int list" where
  "trim_seen seen = (if MAX_SEEN_IDS \<le> length seen then slice_last SEEN_IDS_TRIM (sort seen) else seen)"

definition on_line :: "log_line \<Rightarrow> exec_logs \<Rightarrow> exec_logs" where
  "on_line line s =
     (let lineId = ln_seq line in
      if lineId \<in> set (el_seen s) then s
      else s\<lparr>el_seen := trim_seen (el_seen s) @ [lineId], el_buffer := el_buffer s @ [line], el_raf := True\<rparr>)"

definition flush_frame :: "exec_logs \<Rightarrow> exec_logs" where
  "flush_frame s =
     (if el_raf s \<and> el_mounted s
      then s\<lparr>el_liveLines := el_liveLines s @ sort_key ln_seq (el_buffer s), el_buffer := [], el_raf := False\<rparr>
      else s)"

section \<open>Reconnecting\<close>

definition scheduleReconnect :: "rat \<Rightarrow> exec_logs \<Rightarrow> exec_logs" where
  "scheduleReconnect random s =
     (if MAX_RETRIES \<le> el_retries s
      then (if el_mounted s then s\<lparr>el_maxRetries := True\<rparr> else s)
      else if \<not> el_isRunning s then s
      else s\<lparr>el_timer := Some (logsDelay (el_retries s) random), el_retries := el_retries s + 1\<rparr>)"

definition on_close :: "nat \<Rightarrow> rat \<Rightarrow> exec_logs \<Rightarrow> exec_logs" where
  "on_close code random s =
     (if \<not> el_mounted s then s
      else
        let s1 = s\<lparr>el_ws := False\<rparr> in
        if code = 1000 then s1\<lparr>el_cleanClose := True, el_isConnected := False\<rparr>
        else
          let s2 = s1\<lparr>el_isConnected := False\<rparr> in
          if code \<notin> {1008, 1009} \<and> el_isRunning s2 then scheduleReconnect random s2 else s2)"

section \<open>The hook\<close>

text \<open>Socket events come from the open socket only: the clean-up detaches the handlers of an old one. A
  message is the text of a frame, read as a log line by \<open>parse\<close> (\<open>None\<close> when that throws). The error
  handler only closes the socket, which is a close event of its own.\<close>

datatype logs_event =
    WsOpen
  | WsMessage string
  | WsClose nat nat
  | TimerFired
  | FrameFired
  | Props "int option" bool

definition logs_draw :: "nat \<Rightarrow> rat" where
  "logs_draw k = of_nat (k mod 2 ^ 53) / 2 ^ 53"

fun logs_step :: "(string \<Rightarrow> log_line option) \<Rightarrow> exec_logs \<Rightarrow> logs_event \<Rightarrow> exec_logs" where
  "logs_step parse s WsOpen =
     (if el_ws s \<and> el_mounted s then s\<lparr>el_isConnected := True, el_retries := 0\<rparr> else s)"
| "logs_step parse s (WsMessage text) =
     (if el_ws s \<and> el_mounted s
      then (case parse text of None \<Rightarrow> s | Some line \<Rightarrow> on_line line s) else s)"
| "logs_step parse s (WsClose code k) = (if el_ws s then on_close code (logs_draw k) s else s)"
| "logs_step parse s TimerFired =
     (if el_timer s \<noteq> None
      then (let s1 = s\<lparr>el_timer := None\<rparr> in if el_isRunning s1 \<and> \<not> el_ws s1 then openWs s1 else s1)
      else s)"
| "logs_step parse s FrameFired = flush_frame s"
| "logs_step parse s (Props execId isRunning) = set_props execId isRunning s"

definition logs_start :: "int option \<Rightarrow> bool \<Rightarrow> exec_logs" where
  "logs_start execId isRunning =
     start_effect
       \<lparr>el_execId = execId, el_isRunning = isRunning, el_liveLines = [], el_isConnected = False,
        el_cleanClose = False, el_maxRetries = False, el_ws = False, el_timer = None, el_retries = 0,
        el_seen = [], el_buffer = [], el_raf = False, el_mounted = True\<rparr>"

text \<open>What the hook returns; \<open>historic\<close> is the answer of the query for a finished execution.\<close>

definition shown_lines :: "log_line list option \<Rightarrow> exec_logs \<Rightarrow> log_line list" where
  "shown_lines historic s =
     (if el_isRunning s then el_liveLines s
      else case historic of Some ls \<Rightarrow> ls | None \<Rightarrow> el_liveLines s)"

definition shown_connected :: "exec_logs \<Rightarrow> bool" where
  "shown_connected s = (if el_isRunning s then el_isConnected s else True)"

section \<open>Connections\<close>

definition logs_inv :: "exec_logs \<Rightarrow> bool" where
  "logs_inv s =
     (\<not> (el_ws s \<and> el_timer s \<noteq> None)
      \<and> el_retries s \<le> MAX_RETRIES
      \<and> (case el_timer s of None \<Rightarrow> True | Some d \<Rightarrow> 1000 \<le> d \<and> d \<le> 16500)
      \<and> (el_ws s \<or> el_timer s \<noteq> None \<or> el_raf s \<or> el_buffer s \<noteq> []
           \<longrightarrow> effect_runs (el_execId s) (el_isRunning s) \<and> el_mounted s)
      \<and> (el_buffer s \<noteq> [] \<longrightarrow> el_raf s) \<and> (el_timer s \<noteq> None \<longrightarrow> 0 < el_retries s))"

lemma logs_draw_bounds: "0 \<le> logs_draw k" "logs_draw k < 1"
proof -
  have "of_nat (k mod 2 ^ 53) < (of_nat (2 ^ 53) :: rat)"
    unfolding of_nat_less_iff by simp
  then show "logs_draw k < 1" by (simp add: logs_draw_def del: power_numeral)
qed (simp add: logs_draw_def)

lemma start_effect_inv:
  assumes "\<not> el_ws s" "el_timer s = None" "\<not> el_raf s" "el_buffer s = []" "el_retries s \<le> MAX_RETRIES"
  shows "logs_inv (start_effect s)"
  using assms by (auto simp: logs_inv_def start_effect_def openWs_def MAX_RETRIES_def)

lemma cleanup_clears:
  "logs_inv s \<Longrightarrow> \<not> el_ws (cleanup s) \<and> el_timer (cleanup s) = None \<and> \<not> el_raf (cleanup s)
     \<and> el_buffer (cleanup s) = [] \<and> el_retries (cleanup s) \<le> MAX_RETRIES"
  by (auto simp: logs_inv_def cleanup_def)

lemma set_props_inv: "logs_inv s \<Longrightarrow> logs_inv (set_props execId isRunning s)"
proof -
  assume s: "logs_inv s"
  then have "logs_inv (s\<lparr>el_liveLines := [], el_isConnected := False, el_cleanClose := False, el_maxRetries := False\<rparr>)"
    by (simp add: logs_inv_def)
  with s show ?thesis
    using cleanup_clears by (auto simp: set_props_def Let_def intro!: start_effect_inv)
qed

lemma logs_step_inv: "logs_inv s \<Longrightarrow> logs_inv (logs_step parse s e)"
proof (cases e)
  case (WsClose code k)
  assume "logs_inv s"
  then show ?thesis
    using WsClose logs_draw_bounds [of k] delay_bounds [of "logs_draw k" "el_retries s"]
    by (auto simp: logs_inv_def on_close_def scheduleReconnect_def Let_def)
next
  case (Props i r)
  assume "logs_inv s"
  then show ?thesis using Props set_props_inv by simp
qed (auto simp: logs_inv_def on_line_def flush_frame_def openWs_def Let_def split: option.split)

interpretation logs: machine "logs_step parse" logs_inv for parse :: "string \<Rightarrow> log_line option"
  by unfold_locales (rule logs_step_inv)

lemma logs_start_inv: "logs_inv (logs_start execId isRunning)"
  unfolding logs_start_def by (rule start_effect_inv) simp_all

text \<open>The sockets that a sequence of events opens after the first, and the events that end a row of failed attempts: an
  accepted connection, and another execution.\<close>

fun reconnects :: "(string \<Rightarrow> log_line option) \<Rightarrow> exec_logs \<Rightarrow> logs_event list \<Rightarrow> nat" where
  "reconnects parse s [] = 0"
| "reconnects parse s (e # es) =
     (if \<not> el_ws s \<and> el_ws (logs_step parse s e) then 1 else 0) + reconnects parse (logs_step parse s e) es"

fun ends_row :: "logs_event \<Rightarrow> bool" where
  "ends_row WsOpen = True"
| "ends_row (Props execId isRunning) = True"
| "ends_row _ = False"

text \<open>What is left of the ten attempts, a pending one included.\<close>

definition attempts_left :: "exec_logs \<Rightarrow> nat" where
  "attempts_left s = MAX_RETRIES - el_retries s + (if el_timer s = None then 0 else 1)"

lemma attempts_step:
  assumes "logs_inv s" "\<not> ends_row e"
  shows "(if \<not> el_ws s \<and> el_ws (logs_step parse s e) then 1 else 0) + attempts_left (logs_step parse s e) \<le> attempts_left s"
  using assms
  by (cases e) (auto simp: logs_inv_def attempts_left_def on_line_def on_close_def scheduleReconnect_def flush_frame_def openWs_def
      Let_def split: option.split)

lemma reconnects_bound: "logs_inv s \<Longrightarrow> list_all (\<lambda>e. \<not> ends_row e) es \<Longrightarrow> reconnects parse s es \<le> attempts_left s"
proof (induction es arbitrary: s)
  case (Cons e es)
  then have "reconnects parse (logs_step parse s e) es \<le> attempts_left (logs_step parse s e)" using logs_step_inv by simp
  moreover have "(if \<not> el_ws s \<and> el_ws (logs_step parse s e) then 1 else 0) + attempts_left (logs_step parse s e) \<le> attempts_left s"
    using Cons.prems by (intro attempts_step) simp_all
  ultimately show ?case by simp
qed simp

lemma attempts_left_bound: "logs_inv s \<Longrightarrow> attempts_left s \<le> 10"
  by (auto simp: logs_inv_def attempts_left_def MAX_RETRIES_def)

text \<open>C6. At any time there is either an open socket or a pending reconnect, never both; from then on at most ten sockets
  are opened before one is accepted or the properties change; every wait is between 1 and 16.5 seconds; and a hook whose
  execution is absent or no longer runs holds no socket, timer, frame or buffered line.\<close>

theorem logs_connection_safe:
  "let s = run (logs_step parse) (logs_start execId isRunning) es
   in \<not> (el_ws s \<and> el_timer s \<noteq> None) \<and> reconnects parse s (takeWhile (\<lambda>e. \<not> ends_row e) later) \<le> 10
     \<and> (\<forall>d. el_timer s = Some d \<longrightarrow> 1000 \<le> d \<and> d \<le> 16500)
     \<and> (\<not> effect_runs (el_execId s) (el_isRunning s)
          \<longrightarrow> \<not> el_ws s \<and> el_timer s = None \<and> \<not> el_raf s \<and> el_buffer s = [])"
proof -
  let ?s = "run (logs_step parse) (logs_start execId isRunning) es"
  have i: "logs_inv ?s" by (rule logs.run_inv [OF logs_start_inv])
  have "list_all (\<lambda>e. \<not> ends_row e) (takeWhile (\<lambda>e. \<not> ends_row e) later)" by (auto simp: list_all_iff dest: set_takeWhileD)
  then have "reconnects parse ?s (takeWhile (\<lambda>e. \<not> ends_row e) later) \<le> 10"
    using reconnects_bound [OF i] attempts_left_bound [OF i] le_trans by blast
  then show ?thesis using i by (auto simp: logs_inv_def Let_def)
qed

theorem logs_connection_safe_witness:
  "let s = run (logs_step (\<lambda>t. None)) (logs_start (Some 3) True) [WsOpen, WsClose 1006 0, Props (Some 3) False]
   in \<not> (el_ws s \<and> el_timer s \<noteq> None) \<and> reconnects (\<lambda>t. None) s (takeWhile (\<lambda>e. \<not> ends_row e) [TimerFired]) \<le> 10
     \<and> (\<forall>d. el_timer s = Some d \<longrightarrow> 1000 \<le> d \<and> d \<le> 16500)
     \<and> (\<not> effect_runs (el_execId s) (el_isRunning s)
          \<longrightarrow> \<not> el_ws s \<and> el_timer s = None \<and> \<not> el_raf s \<and> el_buffer s = [])"
  by (rule logs_connection_safe)

section \<open>Lines\<close>

fun is_message :: "logs_event \<Rightarrow> bool" where
  "is_message (WsMessage t) = True"
| "is_message _ = False"

fun is_props :: "logs_event \<Rightarrow> bool" where
  "is_props (Props i r) = True"
| "is_props _ = False"

text \<open>While no number was forgotten, what was seen is what is shown or about to be, once each.\<close>

definition seen_inv :: "exec_logs \<Rightarrow> bool" where
  "seen_inv s =
     (distinct (map ln_seq (el_liveLines s @ el_buffer s))
      \<and> set (map ln_seq (el_liveLines s @ el_buffer s)) = set (el_seen s))"

lemma seen_inv_step:
  assumes "seen_inv s" "\<not> is_props e" "is_message e \<Longrightarrow> length (el_seen s) < MAX_SEEN_IDS"
  shows "seen_inv (logs_step parse s e)"
  using assms
proof (cases e)
  case (WsMessage t)
  then show ?thesis
    using assms by (auto simp: seen_inv_def on_line_def trim_seen_def Let_def split: option.split)
next
  case (WsClose code k)
  then show ?thesis
    using assms by (auto simp: seen_inv_def on_close_def scheduleReconnect_def Let_def)
next
  case FrameFired
  have "distinct (map ln_seq (sort_key ln_seq b)) = distinct (map ln_seq b)" for b
    by (metis distinct_map distinct_sort set_sort)
  with FrameFired show ?thesis
    using assms by (auto simp: seen_inv_def flush_frame_def)
qed (auto simp: seen_inv_def openWs_def Let_def)

lemma seen_length_step:
  "\<not> is_props e \<Longrightarrow> length (el_seen (logs_step parse s e)) \<le> length (el_seen s) + (if is_message e then 1 else 0)"
  by (cases e) (auto simp: on_line_def trim_seen_def on_close_def scheduleReconnect_def flush_frame_def openWs_def Let_def
      SEEN_IDS_TRIM_def split: option.split)

lemma seen_inv_run:
  "seen_inv s \<Longrightarrow> list_all (\<lambda>e. \<not> is_props e) es \<Longrightarrow>
     length (el_seen s) + length (filter is_message es) \<le> MAX_SEEN_IDS \<Longrightarrow> seen_inv (run (logs_step parse) s es)"
proof (induction es arbitrary: s)
  case Nil
  then show ?case by simp
next
  case (Cons e es)
  then show ?case
    using seen_inv_step [of s e parse] seen_length_step [of e parse s]
    by (auto split: if_splits)
qed

lemma logs_start_seen: "seen_inv (logs_start execId isRunning)" "el_seen (logs_start execId isRunning) = []"
  by (simp_all add: logs_start_def start_effect_def openWs_def seen_inv_def)

text \<open>Through drops and reconnects, with the server replaying the log each time, no line is shown twice, as
  long as at most 50000 messages arrived.\<close>

theorem live_lines_distinct:
  assumes "list_all (\<lambda>e. \<not> is_props e) es" "length (filter is_message es) \<le> MAX_SEEN_IDS"
  shows "distinct (map ln_seq (el_liveLines (run (logs_step parse) (logs_start execId isRunning) es)))"
  using seen_inv_run [OF logs_start_seen(1) assms(1), of execId isRunning parse] assms(2) logs_start_seen(2)
  by (simp add: seen_inv_def)

subsection \<open>A connection that delivers in order\<close>

fun in_session :: "logs_event \<Rightarrow> bool" where
  "in_session WsOpen = True"
| "in_session (WsMessage t) = True"
| "in_session FrameFired = True"
| "in_session _ = False"

fun received :: "(string \<Rightarrow> log_line option) \<Rightarrow> logs_event list \<Rightarrow> log_line list" where
  "received parse [] = []"
| "received parse (WsMessage t # es) =
     (case parse t of None \<Rightarrow> received parse es | Some l \<Rightarrow> l # received parse es)"
| "received parse (e # es) = received parse es"

lemma received_append: "received parse (es @ es') = received parse es @ received parse es'"
  by (induction parse es rule: received.induct) (auto split: option.split)

definition session_inv :: "log_line list \<Rightarrow> exec_logs \<Rightarrow> bool" where
  "session_inv ls s =
     (el_ws s \<and> el_mounted s \<and> el_isRunning s \<and> el_retries s = 0 \<and> el_liveLines s @ el_buffer s = ls \<and> el_seen s = map ln_seq ls
      \<and> (el_buffer s \<noteq> [] \<longrightarrow> el_raf s))"

lemma session_step:
  assumes inv: "session_inv ls s" and e: "in_session e"
    and srt: "sorted_wrt (<) (map ln_seq (ls @ received parse [e]))"
    and len: "length (ls @ received parse [e]) \<le> MAX_SEEN_IDS"
  shows "session_inv (ls @ received parse [e]) (logs_step parse s e)"
proof (cases e)
  case (WsMessage t)
  show ?thesis
  proof (cases "parse t")
    case None
    then show ?thesis using inv WsMessage by (simp add: session_inv_def)
  next
    case (Some l)
    then have "ln_seq l \<notin> ln_seq ` set ls" "length ls < MAX_SEEN_IDS"
      using srt len WsMessage by (auto simp: sorted_wrt_append)
    then show ?thesis
      using inv WsMessage Some by (auto simp: session_inv_def on_line_def trim_seen_def Let_def)
  qed
next
  case FrameFired
  have "sorted (map ln_seq ls)"
    using srt by (simp add: sorted_wrt_append strict_sorted_imp_sorted)
  moreover have "ls = el_liveLines s @ el_buffer s" using inv by (simp add: session_inv_def)
  ultimately have "sort_key ln_seq (el_buffer s) = el_buffer s"
    by (intro sort_key_id_if_sorted) (simp add: sorted_append)
  then show ?thesis using inv FrameFired by (auto simp: session_inv_def flush_frame_def)
qed (use e inv in \<open>simp_all add: session_inv_def\<close>)

lemma session_start:
  "effect_runs execId isRunning \<Longrightarrow> session_inv [] (logs_start execId isRunning)"
  by (simp add: session_inv_def logs_start_def start_effect_def openWs_def effect_runs_def)

lemma session_run:
  "session_inv ls s \<Longrightarrow> list_all in_session es \<Longrightarrow> sorted_wrt (<) (map ln_seq (ls @ received parse es)) \<Longrightarrow>
     length (ls @ received parse es) \<le> MAX_SEEN_IDS \<Longrightarrow>
     session_inv (ls @ received parse es) (run (logs_step parse) s es)"
proof (induction es arbitrary: ls s)
  case Nil
  then show ?case by simp
next
  case (Cons e es)
  have rcv: "received parse (e # es) = received parse [e] @ received parse es"
    using received_append [of parse "[e]" es] by simp
  have "session_inv (ls @ received parse [e]) (logs_step parse s e)"
    using Cons.prems rcv by (intro session_step) (auto simp: sorted_wrt_append)
  then show ?case
    using Cons.IH [of "ls @ received parse [e]" "logs_step parse s e"] Cons.prems
    by (simp add: rcv)
qed

text \<open>C4. When the server delivers the lines of the log in order, the view shows exactly the lines received, in
  that order, after the next animation frame; frames in between and malformed messages change nothing.\<close>

theorem live_lines_are_received:
  assumes "effect_runs execId isRunning" "list_all in_session es"
    and "sorted_wrt (<) (map ln_seq (received parse es))" "length (received parse es) \<le> MAX_SEEN_IDS"
  shows "el_liveLines (run (logs_step parse) (logs_start execId isRunning) (es @ [FrameFired])) = received parse es"
proof -
  have "session_inv ([] @ received parse (es @ [FrameFired]))
      (run (logs_step parse) (logs_start execId isRunning) (es @ [FrameFired]))"
    using assms by (intro session_run session_start) (simp_all add: received_append)
  moreover have "el_buffer (run (logs_step parse) (logs_start execId isRunning) (es @ [FrameFired])) = []"
    using session_run [OF session_start [OF assms(1)] assms(2), of parse] assms(3,4)
    by (auto simp: session_inv_def flush_frame_def)
  ultimately show ?thesis by (simp add: session_inv_def received_append)
qed

subsection \<open>Concrete messages\<close>

definition level_of :: "string \<Rightarrow> log_level option" where
  "level_of s = map_of [(''info'', LInfo), (''ok'', LOk), (''plan'', LPlan), (''error'', LError), (''warn'', LWarn)] s"

text \<open>The line that a JSON object of the wire format stands for.\<close>

definition line_of_json :: "json \<Rightarrow> log_line option" where
  "line_of_json j =
     (case j of JObj ms \<Rightarrow>
        (case (map_of ms ''seq'', map_of ms ''level'', map_of ms ''message'') of
           (Some (JNum (Num q)), Some (JStr lv), Some (JStr m)) \<Rightarrow>
             map_option (\<lambda>lev. \<lparr>ln_id = 0, ln_executionId = 0, ln_seq = \<lfloor>q\<rfloor>, ln_level = lev, ln_message = m,
               ln_timestamp = []\<rparr>) (level_of lv)
         | _ \<Rightarrow> None)
      | _ \<Rightarrow> None)"

definition parse_log_line :: "string \<Rightarrow> log_line option" where
  "parse_log_line text = Option.bind (json_parse text) line_of_json"

definition wire :: "nat \<Rightarrow> string" where
  "wire n = stringify (JObj [(''seq'', JNum (num_int (int n))), (''level'', JStr ''ok''), (''message'', JStr ''Slept'')])"

definition wire_line :: "nat \<Rightarrow> log_line" where
  "wire_line n = \<lparr>ln_id = 0, ln_executionId = 0, ln_seq = int n, ln_level = LOk, ln_message = ''Slept'', ln_timestamp = []\<rparr>"

lemma parse_wire: "parse_log_line (wire n) = Some (wire_line n)"
proof -
  have "wf_json (JObj [(''seq'', JNum (num_int (int n))), (''level'', JStr ''ok''), (''message'', JStr ''Slept'')])"
    by simp
  from json_parse_stringify [OF this] show ?thesis
    by (simp add: parse_log_line_def wire_def wire_line_def line_of_json_def level_of_def)
qed

theorem live_lines_distinct_witness:
  "distinct (map ln_seq (el_liveLines (run (logs_step parse_log_line) (logs_start (Some 3) True)
     [WsOpen, WsMessage (wire 1), WsClose 1006 0, TimerFired, WsMessage (wire 1), FrameFired])))"
  by (rule live_lines_distinct) (simp_all add: MAX_SEEN_IDS_def)

theorem live_lines_are_received_witness:
  "el_liveLines (run (logs_step parse_log_line) (logs_start (Some 3) True)
     ([WsOpen, WsMessage (wire 1), FrameFired, WsMessage (wire 4)] @ [FrameFired]))
   = received parse_log_line [WsOpen, WsMessage (wire 1), FrameFired, WsMessage (wire 4)]"
  by (rule live_lines_are_received) (simp_all add: effect_runs_def parse_wire wire_line_def MAX_SEEN_IDS_def)


subsection \<open>Beyond the limit\<close>

lemma received_wires: "received parse_log_line (map (\<lambda>n. WsMessage (wire n)) ns) = map wire_line ns"
  by (induction ns) (simp_all add: parse_wire)

lemma trimmed_range: "trim_seen (map int [0..<MAX_SEEN_IDS]) = map int [25000..<MAX_SEEN_IDS]"
proof -
  have "sorted (map int [0..<MAX_SEEN_IDS])" by (simp add: sorted_map)
  then have "sort (map int [0..<MAX_SEEN_IDS]) = map int [0..<MAX_SEEN_IDS]" by (rule sorted_sort_id)
  moreover have "MAX_SEEN_IDS - SEEN_IDS_TRIM = 25000" by (simp add: MAX_SEEN_IDS_def SEEN_IDS_TRIM_def)
  ultimately show ?thesis
    by (simp only: trim_seen_def slice_last_def drop_map length_map length_upt diff_zero order_refl if_True
        drop_upt add_0)
qed

lemma not_distinct_again:
  assumes "f b \<in> f ` set (xs @ ys)"
  shows "\<not> distinct (map f (xs @ sort_key g (ys @ [a, b])))"
proof -
  have "mset (map f (xs @ sort_key g (ys @ [a, b]))) = mset (map f (xs @ ys @ [a, b]))" by simp
  then have "distinct (map f (xs @ sort_key g (ys @ [a, b]))) = distinct (map f (xs @ ys @ [a, b]))"
    by (rule mset_eq_imp_distinct_iff)
  with assms show ?thesis by auto
qed

lemma replay_lines:
  assumes "el_ws s" "el_mounted s" "el_isRunning s" "el_retries s = 0"
    and "int a \<notin> set (el_seen s)" "int b \<notin> set (trim_seen (el_seen s))" "b \<noteq> a"
  shows "el_liveLines (run (logs_step parse_log_line) s
      [WsMessage (wire a), WsClose 1006 0, TimerFired, WsMessage (wire b), FrameFired])
    = el_liveLines s @ sort_key ln_seq (el_buffer s @ [wire_line a, wire_line b])"
proof -
  have seq: "ln_seq (wire_line n) = int n" for n by (simp add: wire_line_def)
  show ?thesis
    using assms
    by (simp add: parse_wire seq on_line_def on_close_def scheduleReconnect_def openWs_def flush_frame_def
        MAX_RETRIES_def Let_def)
qed

text \<open>Beyond the limit the promise breaks: line 50001 makes the hook forget the older half of the numbers, and
  when the server replays the log after a reconnect its lines are shown a second time.\<close>

theorem replay_after_trim_duplicates:
  "\<not> distinct (map ln_seq (el_liveLines (run (logs_step parse_log_line) (logs_start (Some 3) True)
     (map (\<lambda>n. WsMessage (wire n)) [0..<MAX_SEEN_IDS]
        @ [WsMessage (wire MAX_SEEN_IDS), WsClose 1006 0, TimerFired, WsMessage (wire 0), FrameFired]))))"
proof -
  let ?es = "map (\<lambda>n. WsMessage (wire n)) [0..<MAX_SEEN_IDS]"
  let ?s = "run (logs_step parse_log_line) (logs_start (Some 3) True) ?es"
  let ?r = "run (logs_step parse_log_line) ?s
    [WsMessage (wire MAX_SEEN_IDS), WsClose 1006 0, TimerFired, WsMessage (wire 0), FrameFired]"
  have start: "session_inv [] (logs_start (Some 3) True)" by (rule session_start) (simp add: effect_runs_def)
  have "list_all in_session ?es" by (simp add: list_all_iff)
  moreover have "sorted_wrt (<) (map ln_seq (map wire_line [0..<MAX_SEEN_IDS]))"
    by (simp add: wire_line_def comp_def sorted_wrt_map)
  ultimately have s: "session_inv (map wire_line [0..<MAX_SEEN_IDS]) ?s"
    using session_run [OF start, of ?es parse_log_line] by (simp add: received_wires)
  have live: "el_liveLines ?s @ el_buffer ?s = map wire_line [0..<MAX_SEEN_IDS]"
    and seen: "el_seen ?s = map int [0..<MAX_SEEN_IDS]" and on: "el_ws ?s" "el_mounted ?s"
    using s by (simp_all add: session_inv_def wire_line_def comp_def)
  have run: "el_isRunning ?s" "el_retries ?s = 0" using s by (simp_all add: session_inv_def)
  have low: "0 < MAX_SEEN_IDS" by (simp add: MAX_SEEN_IDS_def)
  have gone: "int 0 \<notin> set (trim_seen (el_seen ?s))" unfolding seen trimmed_range by auto
  have new: "int MAX_SEEN_IDS \<notin> set (el_seen ?s)" by (auto simp: seen)
  have "el_liveLines ?r = el_liveLines ?s @ sort_key ln_seq (el_buffer ?s @ [wire_line MAX_SEEN_IDS, wire_line 0])"
    using low by (intro replay_lines on run new gone) simp
  moreover have "ln_seq (wire_line 0) \<in> ln_seq ` set (el_liveLines ?s @ el_buffer ?s)"
    unfolding live set_map set_upt using low by (intro imageI) simp
  ultimately show ?thesis
    unfolding run_simps(3) by (simp only: not_distinct_again not_False_eq_True)
qed

section \<open>Dropped connections come back\<close>

text \<open>The server closes with 1000 when the log is complete, and refuses with 1008 or 1009; after any other
  close the hook tries again.\<close>

fun retried_close :: "logs_event \<Rightarrow> bool" where
  "retried_close (WsClose code k) = (code \<notin> {1000, 1008, 1009})"
| "retried_close _ = True"

definition logs_alive :: "exec_logs \<Rightarrow> bool" where
  "logs_alive s \<longleftrightarrow>
     (effect_runs (el_execId s) (el_isRunning s) \<longrightarrow> el_mounted s)
     \<and> (effect_runs (el_execId s) (el_isRunning s) \<and> \<not> el_maxRetries s \<longrightarrow> el_ws s \<or> el_timer s \<noteq> None)
     \<and> (el_maxRetries s \<longrightarrow> \<not> el_ws s \<and> el_timer s = None \<and> el_retries s = MAX_RETRIES)"

lemma set_props_alive:
  "logs_inv s \<Longrightarrow> logs_alive s \<Longrightarrow> logs_alive (set_props execId isRunning s)"
  by (auto simp: set_props_def start_effect_def cleanup_def openWs_def logs_alive_def logs_inv_def Let_def)

lemma logs_step_alive:
  assumes "logs_inv s" "logs_alive s" "retried_close e"
  shows "logs_alive (logs_step parse s e)"
proof (cases e)
  case (WsClose code k)
  show ?thesis
  proof (cases "el_ws s")
    case True
    then have "el_mounted s" "effect_runs (el_execId s) (el_isRunning s)" "el_isRunning s" "\<not> el_maxRetries s"
      "el_timer s = None" "el_retries s \<le> MAX_RETRIES"
      using assms(1,2) by (simp_all add: logs_alive_def logs_inv_def effect_runs_def)
    then show ?thesis
      using True WsClose assms(3) by (simp add: logs_alive_def on_close_def scheduleReconnect_def Let_def)
  next
    case False
    then show ?thesis using WsClose assms(2) by simp
  qed
next
  case (Props i r)
  then show ?thesis using assms set_props_alive by simp
next
  case (WsMessage t)
  have "el_execId (on_line l s) = el_execId s \<and> el_isRunning (on_line l s) = el_isRunning s \<and> el_ws (on_line l s) = el_ws s
      \<and> el_timer (on_line l s) = el_timer s \<and> el_mounted (on_line l s) = el_mounted s
      \<and> el_maxRetries (on_line l s) = el_maxRetries s \<and> el_retries (on_line l s) = el_retries s" for l
    by (simp add: on_line_def Let_def)
  then show ?thesis using WsMessage assms(2) by (auto simp: logs_alive_def split: option.split)
next
  case TimerFired
  then show ?thesis using assms(1,2) by (auto simp: logs_alive_def logs_inv_def openWs_def effect_runs_def Let_def)
next
  case FrameFired
  then show ?thesis using assms(2) by (simp add: logs_alive_def flush_frame_def)
next
  case WsOpen
  then show ?thesis using assms(2) by (auto simp: logs_alive_def)
qed

lemma logs_run_alive:
  "list_all retried_close es \<Longrightarrow> logs_alive (run (logs_step parse) (logs_start execId isRunning) es)"
proof (induction es rule: rev_induct)
  case Nil
  then show ?case by (simp add: logs_start_def start_effect_def openWs_def logs_alive_def)
next
  case (snoc e es)
  then show ?case
    using logs.run_inv [OF logs_start_inv, of parse execId isRunning es] by (simp add: logs_step_alive)
qed

text \<open>C17. A running execution never loses its log for good: unless the server ended or refused the stream, or ten
  attempts in a row failed, the next tick of the timer leaves an open socket, and when the server accepts it the
  hook is connected again.\<close>

theorem dropped_connection_returns:
  assumes "list_all retried_close es" "s = run (logs_step parse) (logs_start execId isRunning) es"
    "effect_runs (el_execId s) (el_isRunning s)"
  shows "(el_maxRetries s \<and> el_retries s = 10)
    \<or> (el_ws (logs_step parse s TimerFired) \<and> el_isConnected (run (logs_step parse) s [TimerFired, WsOpen]))"
proof -
  have s: "logs_inv s" "logs_alive s"
    unfolding assms(2) by (rule logs.run_inv [OF logs_start_inv], rule logs_run_alive [OF assms(1)])
  then show ?thesis
    using assms(3) by (auto simp: logs_alive_def logs_inv_def openWs_def Let_def effect_runs_def MAX_RETRIES_def)
qed

theorem dropped_connection_returns_witness:
  "let s = run (logs_step (\<lambda>t. None)) (logs_start (Some 3) True) [WsOpen, WsClose 1006 0, TimerFired, WsClose 1011 0]
   in (el_maxRetries s \<and> el_retries s = 10)
    \<or> (el_ws (logs_step (\<lambda>t. None) s TimerFired) \<and> el_isConnected (run (logs_step (\<lambda>t. None)) s [TimerFired, WsOpen]))"
proof -
  let ?es = "[WsOpen, WsClose 1006 0, TimerFired, WsClose 1011 0]"
  have "list_all retried_close ?es" by simp
  moreover have "effect_runs (el_execId (run (logs_step (\<lambda>t. None)) (logs_start (Some 3) True) ?es))
     (el_isRunning (run (logs_step (\<lambda>t. None)) (logs_start (Some 3) True) ?es))"
    by (simp add: logs_start_def start_effect_def effect_runs_def openWs_def on_close_def scheduleReconnect_def MAX_RETRIES_def Let_def)
  ultimately show ?thesis using dropped_connection_returns [OF _ refl] by (simp only: Let_def)
qed

end
