(* ===== verification/Rollout.thy ===== *)
theory Rollout
  imports Types Regex
begin

text \<open>
  The rollout progress bar of \<open>components/history/LogViewer.tsx\<close>: what the log says about the state of
  an execution, the phases of the bar, how far it is filled, and the segments that are drawn. Weights
  and positions are exact fractions. The theme colors are an argument.
\<close>

section \<open>Reading the log\<close>

definition ESTIMATE_RE :: re where
  "ESTIMATE_RE = alts
     [seq [LitI ''Estimate:'', Plus is_space, Plus is_word, Plus is_space, Cap 1 (Plus is_digit), Plus is_space,
           LitI ''workloads''],
      seq [LitI ''Found'', Plus is_space, Cap 2 (Plus is_digit), Plus is_space, LitI ''matching'', Plus is_space,
           LitI ''workloads''],
      seq [LitI ''restoring'', Plus is_space, Cap 3 (Plus is_digit), Plus is_space, LitI ''snapshotted'',
           Plus is_space, LitI ''workloads'']]"

definition WORKLOAD_NAME_RE :: re where
  "WORKLOAD_NAME_RE = alts
     [seq [alts [Lit ''Slept '', Lit ''Restored '', Lit ''Enforced sleep on '', Lit ''Would sleep '',
             Lit ''Would restore '', Lit ''Would enforce sleep ''],
           Opt (seq [Plus is_word, Plus is_space]),
           Cap 1 (seq [Plus non_space, Lit ''/'', Plus non_space])],
      seq [Lit ''Scaled '', alts [Lit ''deployment'', Lit ''statefulset''], Lit '' '', Cap 2 (Plus non_space)]]"

definition DRAINED_RE :: re where
  "DRAINED_RE = seq [Bol, alts [LitI ''Drained node '', LitI ''Would drain node '']]"

definition DRAIN_PHASE_RE :: re where
  "DRAIN_PHASE_RE = seq [Bol, alts [LitI ''Drain'', LitI ''Would drain '', LitI ''Drained node '',
     LitI ''Fetching nodes'', LitI ''Identifying nodes'']]"

definition WAVE_START_RE :: re where
  "WAVE_START_RE = seq [Bol, Lit ''Wave'', Plus is_space, Cap 1 (Plus is_digit), Lit ''/'', Cap 2 (Plus is_digit)]"

definition COMPLETE_RE :: re where
  "COMPLETE_RE = alts [LitI ''complete'', LitI ''completed'', LitI ''interrupted'']"

record parsed_state =
  pr_total :: nat
  pr_scaledAll :: "string list"
  pr_hasDrain :: bool
  pr_drained :: nat
  pr_hasWaves :: bool
  pr_currentWave :: nat
  pr_waveTotal :: nat
  pr_scaledPerWave :: "(nat \<times> string list) list"
  pr_lineCount :: nat
  pr_done :: bool

text \<open>\<open>parseInt(s, 10)\<close> of a group of digits.\<close>

definition group_num :: "string option \<Rightarrow> nat" where
  "group_num g = (case g of Some s \<Rightarrow> (case parse_int s of Num r \<Rightarrow> nat \<lfloor>r\<rfloor> | NaN \<Rightarrow> 0) | None \<Rightarrow> 0)"

text \<open>\<open>a ?? b\<close>\<close>

definition or_else :: "'a option \<Rightarrow> 'a option \<Rightarrow> 'a option" where
  "or_else a b = (case a of Some x \<Rightarrow> Some x | None \<Rightarrow> b)"

definition set_add :: "'a \<Rightarrow> 'a list \<Rightarrow> 'a list" where
  "set_add x xs = (if x \<in> set xs then xs else xs @ [x])"

definition read_total :: "string \<Rightarrow> parsed_state \<Rightarrow> parsed_state" where
  "read_total msg s =
     (if pr_total s = 0 then
        (case re_match ESTIMATE_RE msg of
           Some m \<Rightarrow> s\<lparr>pr_total := group_num (or_else (group m 1) (or_else (group m 2) (group m 3)))\<rparr>
         | None \<Rightarrow> s)
      else s)"

definition read_wave :: "string \<Rightarrow> parsed_state \<Rightarrow> parsed_state" where
  "read_wave msg s =
     (case re_match WAVE_START_RE msg of
        None \<Rightarrow> s
      | Some m \<Rightarrow>
          (let w = group_num (group m 1)
           in s\<lparr>pr_hasWaves := True, pr_currentWave := w, pr_waveTotal := group_num (group m 2),
                pr_scaledPerWave := (if map_of (pr_scaledPerWave s) w = None
                   then assoc_set w [] (pr_scaledPerWave s) else pr_scaledPerWave s)\<rparr>))"

text \<open>The code keeps \<open>activeWave\<close> beside \<open>currentWave\<close>; the two are assigned together.\<close>

definition read_workload :: "string \<Rightarrow> parsed_state \<Rightarrow> parsed_state" where
  "read_workload msg s =
     (case re_match WORKLOAD_NAME_RE msg of
        None \<Rightarrow> s
      | Some m \<Rightarrow>
          (case or_else (group m 1) (group m 2) of
             None \<Rightarrow> s
           | Some wn \<Rightarrow>
               (let s1 = s\<lparr>pr_scaledAll := set_add wn (pr_scaledAll s)\<rparr>; w = pr_currentWave s
                in if pr_hasWaves s \<and> 0 < w
                   then (case map_of (pr_scaledPerWave s) w of
                           Some names \<Rightarrow> s1\<lparr>pr_scaledPerWave := assoc_set w (set_add wn names) (pr_scaledPerWave s)\<rparr>
                         | None \<Rightarrow> s1)
                   else s1)))"

definition read_drain :: "string \<Rightarrow> parsed_state \<Rightarrow> parsed_state" where
  "read_drain msg s =
     (let s1 = (if re_test DRAIN_PHASE_RE msg then s\<lparr>pr_hasDrain := True\<rparr> else s);
          s2 = (if re_test DRAINED_RE msg then s1\<lparr>pr_drained := pr_drained s1 + 1\<rparr> else s1)
      in if re_test COMPLETE_RE msg then s2\<lparr>pr_done := True\<rparr> else s2)"

definition read_line :: "parsed_state \<Rightarrow> log_line \<Rightarrow> parsed_state" where
  "read_line s line =
     (let msg = ln_message line in read_drain msg (read_workload msg (read_wave msg (read_total msg s))))"

definition parseLogState :: "log_line list \<Rightarrow> parsed_state" where
  "parseLogState lines =
     (foldl read_line
       \<lparr>pr_total = 0, pr_scaledAll = [], pr_hasDrain = False, pr_drained = 0, pr_hasWaves = False,
        pr_currentWave = 0, pr_waveTotal = 0, pr_scaledPerWave = [], pr_lineCount = 0, pr_done = False\<rparr> lines)
     \<lparr>pr_lineCount := length lines\<rparr>"

definition pr_scaled :: "parsed_state \<Rightarrow> nat" where
  "pr_scaled s = length (pr_scaledAll s)"

section \<open>Phases\<close>

record rollout_phase =
  ph_label :: string
  ph_color :: string
  ph_weight :: rat

record bar_colors =
  col_info :: string
  col_purple :: string
  col_vividYellow :: string
  col_success :: string
  col_error :: string

definition wave_phases :: "nat \<Rightarrow> rat \<Rightarrow> bar_colors \<Rightarrow> rollout_phase list" where
  "wave_phases n w colors = map (\<lambda>_. \<lparr>ph_label = [], ph_color = col_purple colors, ph_weight = w\<rparr>) [1..<Suc n]"

definition buildPhases :: "parsed_state \<Rightarrow> direction \<Rightarrow> bar_colors \<Rightarrow> rollout_phase list" where
  "buildPhases state direction colors =
     (let hasDrainPhase = (direction = DirSleep);
          scaleWeight = (if hasDrainPhase then 78 / 100 else 88 / 100)
      in [\<lparr>ph_label = ''Discover'', ph_color = col_info colors, ph_weight = 10 / 100\<rparr>]
         @ (if pr_hasWaves state \<and> 1 < pr_waveTotal state
            then wave_phases (pr_waveTotal state) (scaleWeight / of_nat (pr_waveTotal state)) colors
            else [\<lparr>ph_label = (if direction = DirWake then ''Restore'' else ''Scale''),
                   ph_color = col_purple colors, ph_weight = scaleWeight\<rparr>])
         @ (if hasDrainPhase
            then [\<lparr>ph_label = ''Drain'', ph_color = col_vividYellow colors, ph_weight = 10 / 100\<rparr>] else [])
         @ [\<lparr>ph_label = ''Done'', ph_color = col_success colors, ph_weight = 2 / 100\<rparr>])"

text \<open>The running sums of the weights, from 0.\<close>

definition bounds_of :: "rollout_phase list \<Rightarrow> rat list" where
  "bounds_of phases = map (\<lambda>i. sum_list (map ph_weight (take i phases))) [0..<Suc (length phases)]"

definition find_index :: "('a \<Rightarrow> bool) \<Rightarrow> 'a list \<Rightarrow> nat option" where
  "find_index P xs = (case filter (\<lambda>i. P (xs ! i)) [0..<length xs] of [] \<Rightarrow> None | i # _ \<Rightarrow> Some i)"

section \<open>Progress\<close>

text \<open>The loop over the waves; the accumulator is the completed share with the active index. The phases
  are those built for the same state, so the index \<open>w\<close> exists.\<close>

definition wave_step :: "parsed_state \<Rightarrow> rollout_phase list \<Rightarrow> nat \<Rightarrow> nat \<Rightarrow> rat \<times> nat \<Rightarrow> rat \<times> nat" where
  "wave_step s phases effectiveTotal w acc =
     (let waveScaled = (case map_of (pr_scaledPerWave s) w of Some ns \<Rightarrow> length ns | None \<Rightarrow> 0)
      in if w < pr_currentWave s then (fst acc + ph_weight (phases ! w), snd acc)
         else if w = pr_currentWave s then
           (let waveWorkloadCount = max \<lceil>of_nat effectiveTotal / of_nat (pr_waveTotal s) :: rat\<rceil> 1;
                withinPct = min (of_nat waveScaled / of_int waveWorkloadCount) 1
            in (fst acc + withinPct * ph_weight (phases ! w), w))
         else acc)"

text \<open>Discovering, then scaling or restoring up to \<open>scaleEnd\<close>, wave by wave when there are several.\<close>

definition scaling_progress :: "parsed_state \<Rightarrow> rollout_phase list \<Rightarrow> rat list \<Rightarrow> nat \<Rightarrow> rat \<Rightarrow> rat \<Rightarrow> rat \<times> nat" where
  "scaling_progress state phases bounds effectiveTotal scaleEnd clamp =
     (if pr_scaled state = 0
      then (min (of_nat (pr_lineCount state) * (12 / 100)) (9 / 10) * bounds ! 1, 0)
      else if pr_hasWaves state \<and> 1 < pr_waveTotal state then
        (let (completed, activeIdx) = fold (wave_step state phases effectiveTotal) [1..<Suc (pr_waveTotal state)]
               (0, min (pr_currentWave state) (pr_waveTotal state))
         in (min (bounds ! 1 + completed) clamp, activeIdx))
      else
        (let scalePct = min (of_nat (pr_scaled state) / of_nat effectiveTotal) 1
         in (min (bounds ! 1 + scalePct * (scaleEnd - bounds ! 1)) clamp, 1)))"

definition computeProgress :: "parsed_state \<Rightarrow> rollout_phase list \<Rightarrow> exec_status \<Rightarrow> rat \<times> nat" where
  "computeProgress state phases status =
     (if status = Success \<or> pr_done state then (1, length phases - 1)
      else if pr_lineCount state = 0 then (0, 0)
      else
        let bounds = bounds_of phases;
            total = pr_total state; scaled = pr_scaled state; drained = pr_drained state;
            effectiveTotal = max (max total scaled) 1;
            doneIdx = length phases - 1;
            drainIdx = find_index (\<lambda>p. ph_label p = ''Drain'') phases;
            clamp = (if status = Failed \<or> status = Interrupted then 95 / 100 else 98 / 100 :: rat)
        in case drainIdx of
             Some d \<Rightarrow>
               if pr_hasDrain state \<and> 0 < drained
               then (min (bounds ! d + min (of_nat drained * (3 / 10)) 1 * (bounds ! Suc d - bounds ! d)) clamp, d)
               else if 0 < scaled \<and> effectiveTotal \<le> scaled \<and> \<not> pr_hasDrain state
               then (min (bounds ! d * (99 / 100)) clamp, d)
               else scaling_progress state phases bounds effectiveTotal (bounds ! d) clamp
           | None \<Rightarrow> scaling_progress state phases bounds effectiveTotal (bounds ! doneIdx) clamp)"


section \<open>What is drawn\<close>

record label_group =
  lg_label :: string
  lg_weight :: rat
  lg_indices :: "nat list"

definition add_label :: "rollout_phase list \<Rightarrow> nat \<Rightarrow> label_group list \<Rightarrow> label_group list" where
  "add_label phases i groups =
     (let p = phases ! i
      in if ph_label p = [] \<and> groups \<noteq> [] \<and> lg_label (last groups) = []
         then butlast groups @ [(last groups)\<lparr>lg_weight := lg_weight (last groups) + ph_weight p,
                 lg_indices := lg_indices (last groups) @ [i]\<rparr>]
         else groups @ [\<lparr>lg_label = ph_label p, lg_weight = ph_weight p, lg_indices = [i]\<rparr>])"

fun name_wave_group :: "string \<Rightarrow> label_group list \<Rightarrow> label_group list" where
  "name_wave_group l [] = []"
| "name_wave_group l (g # gs) =
     (if lg_label g = [] \<and> 1 < length (lg_indices g) then g\<lparr>lg_label := l\<rparr> # gs else g # name_wave_group l gs)"

definition buildLabelGroups :: "rollout_phase list \<Rightarrow> direction \<Rightarrow> label_group list" where
  "buildLabelGroups phases direction =
     name_wave_group (if direction = DirWake then ''Restore'' else ''Scale'')
       (fold (add_label phases) [0..<length phases] [])"

record fill_segment =
  fs_start :: rat
  fs_end :: rat
  fs_color :: string
  fs_hasActive :: bool

definition add_fill :: "rollout_phase list \<Rightarrow> rat list \<Rightarrow> rat \<Rightarrow> nat \<Rightarrow> bool \<Rightarrow> string \<Rightarrow> nat
    \<Rightarrow> fill_segment list \<Rightarrow> fill_segment list" where
  "add_fill phases bounds progress activeIdx isFailed errorColor i fills =
     (let segStart = bounds ! i; segEnd = bounds ! Suc i;
          fillWidth = max (min progress segEnd - segStart) 0
      in if fillWidth \<le> 0 then fills
         else
           let color = (if isFailed \<and> i = activeIdx then errorColor else ph_color (phases ! i))
           in if fills \<noteq> [] \<and> fs_color (last fills) = color
              then butlast fills @ [(last fills)\<lparr>fs_end := segStart + fillWidth\<rparr>]
              else fills @ [\<lparr>fs_start = segStart, fs_end = segStart + fillWidth, fs_color = color, fs_hasActive = False\<rparr>])"

fun mark_active :: "rat \<Rightarrow> fill_segment list \<Rightarrow> fill_segment list" where
  "mark_active x [] = []"
| "mark_active x (f # fs) =
     (if fs_start f \<le> x \<and> x < fs_end f then f\<lparr>fs_hasActive := True\<rparr> # fs else f # mark_active x fs)"

definition buildFillSegments :: "rollout_phase list \<Rightarrow> rat list \<Rightarrow> rat \<Rightarrow> nat \<Rightarrow> bool \<Rightarrow> bool \<Rightarrow> string
    \<Rightarrow> fill_segment list" where
  "buildFillSegments phases bounds progress activeIdx isFailed isRunning errorColor =
     (let fills = fold (add_fill phases bounds progress activeIdx isFailed errorColor) [0..<length phases] []
      in if isRunning then mark_active (bounds ! activeIdx) fills else fills)"

record progress_bar =
  pb_groups :: "label_group list"
  pb_fills :: "fill_segment list"
  pb_pct :: int
  pb_activeIdx :: nat

definition RolloutProgressBar :: "bar_colors \<Rightarrow> log_line list \<Rightarrow> exec_status \<Rightarrow> direction \<Rightarrow> progress_bar" where
  "RolloutProgressBar colors lines status direction =
     (let state = parseLogState lines;
          phases = buildPhases state direction colors;
          (progress, activeIdx) = computeProgress state phases status;
          isFailed = (status = Failed \<or> status = Interrupted);
          isRunning = (status = Running)
      in \<lparr>pb_groups = buildLabelGroups phases direction,
          pb_fills = buildFillSegments phases (bounds_of phases) progress activeIdx isFailed isRunning (col_error colors),
          pb_pct = js_round (progress * 100), pb_activeIdx = activeIdx\<rparr>)"

section \<open>Phases and positions\<close>

definition weighted :: "rollout_phase list \<Rightarrow> bool" where
  "weighted ps = ((\<forall>p \<in> set ps. 0 \<le> ph_weight p) \<and> sum_list (map ph_weight ps) = 1 \<and> 3 \<le> length ps)"

lemma wave_phases_weights:
  "sum_list (map ph_weight (wave_phases n w colors)) = of_nat n * w"
  "length (wave_phases n w colors) = n"
  "p \<in> set (wave_phases n w colors) \<Longrightarrow> ph_weight p = w \<and> ph_label p = []"
proof -
  have "map ph_weight (wave_phases n w colors) = replicate n w"
    by (auto simp: wave_phases_def map_replicate_const comp_def simp del: upt_Suc)
  then show "sum_list (map ph_weight (wave_phases n w colors)) = of_nat n * w"
    by (simp add: sum_list_replicate)
qed (auto simp: wave_phases_def simp del: upt_Suc)

lemma buildPhases_weighted: "weighted (buildPhases s d colors)"
  by (auto simp: weighted_def buildPhases_def wave_phases_weights Let_def dest: wave_phases_weights(3))

lemma buildPhases_length:
  "pr_hasWaves s \<Longrightarrow> 1 < pr_waveTotal s \<Longrightarrow> pr_waveTotal s + 2 \<le> length (buildPhases s d colors)"
  by (simp add: buildPhases_def wave_phases_weights Let_def)

lemma buildPhases_first: "ph_label (buildPhases s d colors ! 0) = ''Discover''"
  by (simp add: buildPhases_def Let_def)

lemma bounds_nth: "i \<le> length ps \<Longrightarrow> bounds_of ps ! i = sum_list (map ph_weight (take i ps))"
  unfolding bounds_of_def by (subst nth_map) (simp_all del: upt_Suc)

lemma bounds_Suc: "i < length ps \<Longrightarrow> bounds_of ps ! Suc i = bounds_of ps ! i + ph_weight (ps ! i)"
  by (simp add: bounds_nth take_Suc_conv_app_nth)

lemma bounds_mono:
  assumes "weighted ps" "i \<le> j" "j \<le> length ps"
  shows "bounds_of ps ! i \<le> bounds_of ps ! j"
  using assms(2,3)
proof (induction j rule: dec_induct)
  case base
  then show ?case by simp
next
  case (step j)
  have "0 \<le> ph_weight (ps ! j)" using assms(1) step by (simp add: weighted_def)
  then show ?case using step by (simp add: bounds_Suc)
qed

lemma bounds_ends: "weighted ps \<Longrightarrow> bounds_of ps ! 0 = 0" "weighted ps \<Longrightarrow> bounds_of ps ! length ps = 1"
  by (simp_all add: bounds_nth weighted_def)

lemma bounds_range: "weighted ps \<Longrightarrow> i \<le> length ps \<Longrightarrow> 0 \<le> bounds_of ps ! i \<and> bounds_of ps ! i \<le> 1"
  using bounds_mono [of ps 0 i] bounds_mono [of ps i "length ps"] bounds_ends [of ps] by auto

lemma find_index_Some: "find_index P xs = Some i \<Longrightarrow> i < length xs \<and> P (xs ! i)"
proof -
  assume "find_index P xs = Some i"
  then obtain js where "filter (\<lambda>i. P (xs ! i)) [0..<length xs] = i # js"
    by (auto simp: find_index_def split: list.splits)
  then have "i \<in> set (filter (\<lambda>i. P (xs ! i)) [0..<length xs])" by simp
  then show ?thesis by simp
qed

section \<open>Progress stays in range\<close>

lemma wave_steps_range:
  assumes "weighted ps" "\<forall>w \<in> set ws. w < length ps" "0 \<le> fst acc" "snd acc < length ps"
  shows "0 \<le> fst (fold (wave_step s ps n) ws acc) \<and> snd (fold (wave_step s ps n) ws acc) < length ps"
  using assms(2-4)
proof (induction ws arbitrary: acc)
  case Nil
  then show ?case by simp
next
  case (Cons w ws)
  have "0 \<le> ph_weight (ps ! w)" using Cons.prems(1) assms(1) by (simp add: weighted_def)
  then have "0 \<le> fst (wave_step s ps n w acc) \<and> snd (wave_step s ps n w acc) < length ps"
    using Cons.prems by (auto simp: wave_step_def Let_def intro!: add_nonneg_nonneg mult_nonneg_nonneg)
  then show ?case using Cons by simp
qed

definition in_range :: "rollout_phase list \<Rightarrow> rat \<times> nat \<Rightarrow> bool" where
  "in_range ps r = (0 \<le> fst r \<and> fst r < 1 \<and> snd r < length ps)"

lemma between_nonneg: "(0::rat) \<le> a \<Longrightarrow> a \<le> b \<Longrightarrow> 0 \<le> x \<Longrightarrow> 0 \<le> a + x * (b - a)"
  by (intro add_nonneg_nonneg mult_nonneg_nonneg) auto

lemma scaling_range:
  assumes ps: "weighted ps" and waves: "pr_hasWaves s \<Longrightarrow> 1 < pr_waveTotal s \<Longrightarrow> pr_waveTotal s < length ps"
    and e: "1 \<le> e" "e \<le> length ps" and c: "0 \<le> clamp" "clamp < 1"
  shows "in_range ps (scaling_progress s ps (bounds_of ps) n (bounds_of ps ! e) clamp)"
proof -
  have len: "1 < length ps" using ps by (simp add: weighted_def)
  have b: "0 \<le> bounds_of ps ! 1" "bounds_of ps ! 1 \<le> 1" "bounds_of ps ! 1 \<le> bounds_of ps ! e"
    using bounds_range [OF ps, of 1] bounds_mono [OF ps e] len by auto
  let ?q = "min (of_nat (pr_lineCount s) * (12 / 100)) (9 / 10) :: rat"
  have "0 \<le> ?q * bounds_of ps ! 1" using b by simp
  moreover have "?q * bounds_of ps ! 1 \<le> 9 / 10 * 1" using b by (intro mult_mono) auto
  ultimately have discover: "0 \<le> ?q * bounds_of ps ! 1" "?q * bounds_of ps ! 1 < 1" by auto
  let ?f = "fold (wave_step s ps n) [1..<Suc (pr_waveTotal s)] (0, min (pr_currentWave s) (pr_waveTotal s))"
  have "0 \<le> fst ?f \<and> snd ?f < length ps" if "pr_hasWaves s" "1 < pr_waveTotal s"
    using waves [OF that] by (intro wave_steps_range ps) auto
  then show ?thesis
    using discover len b c between_nonneg [OF b(1,3)]
    by (auto simp: scaling_progress_def in_range_def Let_def min_less_iff_disj simp del: upt_Suc split: prod.split)
qed

lemma computeProgress_range:
  assumes ps: "weighted ps" and first: "ph_label (ps ! 0) \<noteq> ''Drain''"
    and waves: "pr_hasWaves s \<Longrightarrow> 1 < pr_waveTotal s \<Longrightarrow> pr_waveTotal s < length ps"
    and running: "status \<noteq> Success" "\<not> pr_done s"
  shows "in_range ps (computeProgress s ps status)"
proof -
  let ?b = "bounds_of ps"
  let ?d = "find_index (\<lambda>p. ph_label p = ''Drain'') ps"
  have len: "1 < length ps" using ps by (simp add: weighted_def)
  have drain: "1 \<le> d \<and> d < length ps" if "?d = Some d" for d
    using find_index_Some [OF that] first by (cases d) auto
  have fin: "1 \<le> length ps - 1 \<and> length ps - 1 \<le> length ps" using len by auto
  obtain clamp :: rat where clamp_def: "clamp = (if status = Failed \<or> status = Interrupted then 95 / 100 else 98 / 100)"
    by blast
  have c: "0 \<le> clamp" "clamp < 1" by (simp_all add: clamp_def)
  obtain n where n_def: "n = max (max (pr_total s) (pr_scaled s)) 1" by blast
  show ?thesis
  proof (cases ?d)
    case None
    then show ?thesis
      using running len scaling_range [OF ps waves conjunct1 [OF fin] conjunct2 [OF fin] c, of n]
      by (auto simp: computeProgress_def Let_def clamp_def [symmetric] n_def [symmetric] in_range_def
          simp del: One_nat_def)
  next
    case (Some d)
    have d: "1 \<le> d" "d \<le> length ps" "d < length ps" using drain [OF Some] by auto
    have "0 \<le> ?b ! d" "?b ! d \<le> ?b ! Suc d"
      using bounds_range [OF ps d(2)] bounds_mono [OF ps, of d "Suc d"] d by auto
    then have "0 \<le> ?b ! d + min (of_nat (pr_drained s) * (3 / 10)) 1 * (?b ! Suc d - ?b ! d)"
      by (intro between_nonneg) auto
    then show ?thesis
      using running len scaling_range [OF ps waves d(1,2) c, of n] Some d(3) c \<open>0 \<le> ?b ! d\<close>
      by (auto simp: computeProgress_def Let_def clamp_def [symmetric] n_def [symmetric] in_range_def min_less_iff_disj
          simp del: One_nat_def)
  qed
qed

lemma rollout_progress_range:
  "let state = parseLogState lines; phases = buildPhases state dir colors;
       (progress, activeIdx) = computeProgress state phases status
   in 0 \<le> progress \<and> progress \<le> 1 \<and> activeIdx < length phases
     \<and> (progress = 1 \<longleftrightarrow> status = Success \<or> pr_done state)"
proof -
  let ?s = "parseLogState lines"
  let ?ps = "buildPhases ?s dir colors"
  have len: "0 < length ?ps" using buildPhases_weighted [of ?s dir colors] by (auto simp: weighted_def)
  show ?thesis
  proof (cases "status = Success \<or> pr_done ?s")
    case True
    then show ?thesis using len by (simp add: computeProgress_def Let_def)
  next
    case False
    have "in_range ?ps (computeProgress ?s ?ps status)"
      using False buildPhases_length [of ?s dir colors]
      by (intro computeProgress_range buildPhases_weighted) (auto simp: buildPhases_first)
    with False show ?thesis by (auto simp: in_range_def Let_def split: prod.split)
  qed
qed

lemma read_line_done: "pr_done (read_line s l) \<longleftrightarrow> pr_done s \<or> re_test COMPLETE_RE (ln_message l)"
  by (auto simp: read_line_def read_drain_def read_workload_def read_wave_def read_total_def Let_def split: option.splits)

lemma fold_done: "pr_done (foldl read_line s ls) \<longleftrightarrow> pr_done s \<or> list_ex (\<lambda>l. re_test COMPLETE_RE (ln_message l)) ls"
  by (induction ls arbitrary: s) (auto simp: read_line_done)

lemma parsed_done: "pr_done (parseLogState ls) \<longleftrightarrow> list_ex (\<lambda>l. re_test COMPLETE_RE (ln_message l)) ls"
  by (simp add: parseLogState_def fold_done)

text \<open>C9. For any log, status and direction the progress is between 0 and 1, and the active phase is one of the phases. The
  progress is 1 exactly for a success or when some line of the log holds one of the words of the completion pattern:
  a failed or interrupted execution stays below 1 without such a line, and a running one shows 1 with it.\<close>

theorem rollout_progress_in_range:
  "let state = parseLogState lines; phases = buildPhases state dir colors;
       (progress, activeIdx) = computeProgress state phases status
   in 0 \<le> progress \<and> progress \<le> 1 \<and> activeIdx < length phases
     \<and> (progress = 1 \<longleftrightarrow> status = Success \<or> list_ex (\<lambda>l. re_test COMPLETE_RE (ln_message l)) lines)"
  using rollout_progress_range [of lines dir colors status] by (simp add: Let_def parsed_done)

section \<open>The segments tile the bar\<close>

fun tiles :: "rat \<Rightarrow> rat \<Rightarrow> fill_segment list \<Rightarrow> bool" where
  "tiles a b [] = (a = b)"
| "tiles a b (f # fs) = (fs_start f = a \<and> a < fs_end f \<and> tiles (fs_end f) b fs)"

lemma tiles_append: "tiles a b (fs @ gs) \<longleftrightarrow> (\<exists>c. tiles a c fs \<and> tiles c b gs)"
  by (induction fs arbitrary: a) auto

lemma tiles_snoc: "tiles a b (fs @ [f]) \<longleftrightarrow> tiles a (fs_start f) fs \<and> fs_start f < fs_end f \<and> fs_end f = b"
  by (auto simp: tiles_append)

lemma tiles_extend:
  assumes "tiles a b fs" "fs \<noteq> []" "b \<le> e"
  shows "tiles a e (butlast fs @ [(last fs)\<lparr>fs_end := e\<rparr>])"
proof -
  have "fs = butlast fs @ [last fs]" using assms(2) by simp
  then have "tiles a b (butlast fs @ [last fs])" using assms(1) by metis
  then show ?thesis using assms(3) by (auto simp: tiles_snoc)
qed

lemma add_fill_tiles:
  assumes ps: "weighted ps" "i < length ps" and p: "0 \<le> p"
    and t: "tiles 0 (min p (bounds_of ps ! i)) fills"
  shows "tiles 0 (min p (bounds_of ps ! Suc i)) (add_fill ps (bounds_of ps) p k failed col i fills)"
proof -
  let ?a = "bounds_of ps ! i" and ?b = "bounds_of ps ! Suc i"
  have ab: "?a \<le> ?b" using bounds_mono [OF ps(1), of i "Suc i"] ps(2) by simp
  show ?thesis
  proof (cases "?a < min p ?b")
    case False
    then have "min p ?b = min p ?a" using ab by (auto simp: min_def)
    then show ?thesis using False t by (simp add: add_fill_def Let_def)
  next
    case True
    then have a: "min p ?a = ?a" by simp
    have w: "max (min p ?b - ?a) 0 = min p ?b - ?a" "\<not> min p ?b - ?a \<le> 0" using True by auto
    have nz: "\<not> min p ?b \<le> ?a" using True by (simp only: not_le)
    let ?fill = "add_fill ps (bounds_of ps) p k failed col i fills"
    show ?thesis
    proof (cases "fills \<noteq> [] \<and> fs_color (last fills) = (if failed \<and> i = k then col else ph_color (ps ! i))")
      case merge: True
      then have "?fill = butlast fills @ [(last fills)\<lparr>fs_end := min p ?b\<rparr>]"
        by (simp add: add_fill_def w nz Let_def)
      then show ?thesis using tiles_extend [OF t] merge True a by simp
    next
      case new: False
      then have "?fill = fills @ [\<lparr>fs_start = ?a, fs_end = min p ?b,
          fs_color = (if failed \<and> i = k then col else ph_color (ps ! i)), fs_hasActive = False\<rparr>]"
        by (auto simp: add_fill_def w nz Let_def)
      then show ?thesis using t True a by (simp add: tiles_snoc)
    qed
  qed
qed

lemma mark_active_tiles: "tiles a b (mark_active x fs) = tiles a b fs"
  by (induction x fs arbitrary: a rule: mark_active.induct) auto

lemma fills_tile:
  assumes "weighted ps" "0 \<le> p" "n \<le> length ps"
  shows "tiles 0 (min p (bounds_of ps ! n)) (fold (add_fill ps (bounds_of ps) p k failed col) [0..<n] [])"
  using assms(3)
proof (induction n)
  case 0
  then show ?case using bounds_ends(1) [OF assms(1)] assms(2) by simp
next
  case (Suc n)
  then show ?case using add_fill_tiles [OF assms(1) _ assms(2), of n] by simp
qed

text \<open>The drawn segments follow each other without gap or overlap from the left end up to the progress.\<close>

theorem rollout_fills_tile:
  "let state = parseLogState lines; phases = buildPhases state dir colors;
       (progress, activeIdx) = computeProgress state phases status
   in tiles 0 progress (pb_fills (RolloutProgressBar colors lines status dir))"
proof -
  let ?s = "parseLogState lines"
  let ?ps = "buildPhases ?s dir colors"
  obtain p k where pk: "computeProgress ?s ?ps status = (p, k)" by fastforce
  have "0 \<le> p" "p \<le> 1"
    using rollout_progress_range [of lines dir colors status] by (auto simp: pk Let_def)
  then have "tiles 0 p (fold (add_fill ?ps (bounds_of ?ps) p k f col) [0..<length ?ps] [])" for f col
    using fills_tile [of ?ps p "length ?ps"] bounds_ends(2) [of ?ps] buildPhases_weighted [of ?s dir colors]
    by (simp add: min_absorb1)
  then show ?thesis
    by (simp add: RolloutProgressBar_def pk buildFillSegments_def mark_active_tiles Let_def)
qed

definition slept_line :: "string \<Rightarrow> log_line" where
  "slept_line w = \<lparr>ln_id = 1, ln_executionId = 1, ln_seq = 1, ln_level = LOk,
     ln_message = ''Slept Deployment '' @ w @ '' (was 3 replicas)'', ln_timestamp = []\<rparr>"

definition sample_colors :: bar_colors where
  "sample_colors = \<lparr>col_info = ''i'', col_purple = ''p'', col_vividYellow = ''y'', col_success = ''s'', col_error = ''e''\<rparr>"

text \<open>The completion pattern is not anchored: a line about a workload whose name contains the word makes a
  running execution look finished.\<close>

theorem completion_misread:
  "pb_pct (RolloutProgressBar sample_colors [slept_line ''shop/complete-api''] Running DirSleep) = 100
   \<and> pb_pct (RolloutProgressBar sample_colors [slept_line ''shop/api''] Running DirSleep) < 100"
  by code_simp

end
