(* ===== verification/Palette.thy ===== *)
theory Palette
  imports ClusterTypes
begin

text \<open>
  The color tables: \<open>lib/colors.ts\<close>, \<open>lib/statusColors.ts\<close> and \<open>components/cluster/statusColors.ts\<close>.
  The argument is whether the theme is dark. A table indexed by a union of literals is a function on
  the datatype of the union, a lookup by an arbitrary string has the fallback of the code.
\<close>

section \<open>The semantic colors\<close>

record semantic_palette =
  sp_success :: string
  sp_warning :: string
  sp_error :: string
  sp_errorLight :: string
  sp_info :: string
  sp_muted :: string
  sp_orange :: string
  sp_cyan :: string
  sp_purple :: string
  sp_vividYellow :: string
  sp_successBg :: string
  sp_warningBg :: string
  sp_errorBg :: string
  sp_infoBg :: string
  sp_mutedBg :: string
  sp_orangeBg :: string
  sp_purpleBg :: string
  sp_zoneBg :: string

definition semanticColors :: "bool \<Rightarrow> semantic_palette" where
  "semanticColors isDark =
     \<lparr>sp_success = (if isDark then ''#22C55E'' else ''#15803D''),
      sp_warning = (if isDark then ''#F59E0B'' else ''#92400E''),
      sp_error = (if isDark then ''#EF4444'' else ''#B91C1C''),
      sp_errorLight = (if isDark then ''#F87171'' else ''#B91C1C''),
      sp_info = (if isDark then ''#3B82F6'' else ''#1D4ED8''),
      sp_muted = (if isDark then ''#94A3B8'' else ''#475569''),
      sp_orange = (if isDark then ''#F97316'' else ''#C2410C''),
      sp_cyan = (if isDark then ''#22D3EE'' else ''#0369A1''),
      sp_purple = (if isDark then ''#7C3AED'' else ''#6D28D9''),
      sp_vividYellow = (if isDark then ''#FACC15'' else ''#CA8A04''),
      sp_successBg = (if isDark then ''rgba(34,197,94,0.12)'' else ''rgba(21,128,61,0.10)''),
      sp_warningBg = (if isDark then ''rgba(245,158,11,0.12)'' else ''rgba(146,64,14,0.10)''),
      sp_errorBg = (if isDark then ''rgba(248,113,113,0.12)'' else ''rgba(185,28,28,0.10)''),
      sp_infoBg = (if isDark then ''rgba(59,130,246,0.12)'' else ''rgba(29,78,216,0.10)''),
      sp_mutedBg = (if isDark then ''rgba(148,163,184,0.12)'' else ''rgba(71,85,105,0.10)''),
      sp_orangeBg = (if isDark then ''rgba(249,115,22,0.12)'' else ''rgba(194,65,12,0.10)''),
      sp_purpleBg = (if isDark then ''rgba(124,58,237,0.12)'' else ''rgba(109,40,217,0.10)''),
      sp_zoneBg = (if isDark then ''rgba(255,255,255,0.08)'' else ''rgba(0,0,0,0.04)'')\<rparr>"

section \<open>Chips\<close>

record chip_style =
  ch_bg :: string
  ch_color :: string

record chip =
  cp_bg :: string
  cp_color :: string
  cp_label :: string

fun stateColors :: "bool \<Rightarrow> policy_state \<Rightarrow> chip" where
  "stateColors isDark Sleeping = \<lparr>cp_bg = ''rgba(99,102,241,0.18)'', cp_color = (if isDark then ''#a5b4fc'' else ''#4F46E5''), cp_label = ''Sleeping''\<rparr>"
| "stateColors isDark Awake = \<lparr>cp_bg = ''rgba(34,197,94,0.18)'', cp_color = (if isDark then ''#86efac'' else ''#15803D''), cp_label = ''Awake''\<rparr>"
| "stateColors isDark Transitioning = \<lparr>cp_bg = ''rgba(245,158,11,0.18)'', cp_color = (if isDark then ''#fcd34d'' else ''#92400E''), cp_label = ''Transitioning''\<rparr>"
| "stateColors isDark UnknownState = \<lparr>cp_bg = ''rgba(148,163,184,0.15)'', cp_color = (if isDark then ''#94a3b8'' else ''#475569''), cp_label = ''Unknown''\<rparr>"

text \<open>The statuses of executions and of exceptions share one table, indexed by their names.\<close>

definition executionStatusColors :: "bool \<Rightarrow> (string \<times> chip_style) list" where
  "executionStatusColors isDark =
     (let grey = \<lparr>ch_bg = ''rgba(148,163,184,0.15)'', ch_color = (if isDark then ''#94a3b8'' else ''#475569'')\<rparr>;
          green = \<lparr>ch_bg = ''rgba(34,197,94,0.18)'', ch_color = (if isDark then ''#86efac'' else ''#15803D'')\<rparr>;
          red = \<lparr>ch_bg = ''rgba(239,68,68,0.18)'', ch_color = (if isDark then ''#fca5a5'' else ''#B91C1C'')\<rparr>
      in [(''running'', \<lparr>ch_bg = ''rgba(245,158,11,0.18)'', ch_color = (if isDark then ''#fcd34d'' else ''#92400E'')\<rparr>),
          (''success'', green), (''failed'', red), (''interrupted'', grey), (''pending'', grey), (''active'', green),
          (''completed'', grey), (''cancelled'', red)])"

definition executionStatusFallback :: "bool \<Rightarrow> chip_style" where
  "executionStatusFallback isDark =
     \<lparr>ch_bg = ''rgba(148,163,184,0.15)'', ch_color = (if isDark then ''#94a3b8'' else ''#475569'')\<rparr>"

fun modeColors :: "bool \<Rightarrow> exec_mode \<Rightarrow> chip_style" where
  "modeColors isDark Apply = \<lparr>ch_bg = ''rgba(245,158,11,0.18)'', ch_color = (if isDark then ''#FCD34D'' else ''#92400E'')\<rparr>"
| "modeColors isDark Plan = \<lparr>ch_bg = ''rgba(59,130,246,0.18)'', ch_color = (if isDark then ''#93C5FD'' else ''#1D4ED8'')\<rparr>"

definition getModeStyle :: "bool \<Rightarrow> string \<Rightarrow> chip_style" where
  "getModeStyle isDark mode = (if mode = ''apply'' then modeColors isDark Apply else modeColors isDark Plan)"

fun CARD_HEADER_GRADIENTS :: "policy_state \<Rightarrow> string" where
  "CARD_HEADER_GRADIENTS Sleeping = ''linear-gradient(90deg, #7C3AED 0%, #a5b4fc 50%, rgba(165,180,252,0.15) 100%)''"
| "CARD_HEADER_GRADIENTS Awake = ''linear-gradient(90deg, #22C55E 0%, #86efac 50%, rgba(134,239,172,0.15) 100%)''"
| "CARD_HEADER_GRADIENTS Transitioning = ''linear-gradient(90deg, #F59E0B 0%, #fcd34d 50%, rgba(252,211,77,0.15) 100%)''"
| "CARD_HEADER_GRADIENTS UnknownState = ''linear-gradient(90deg, #475569 0%, #64748b 40%, rgba(100,116,139,0.1) 100%)''"

fun HERO_HEADER_GRADIENTS :: "policy_state \<Rightarrow> string" where
  "HERO_HEADER_GRADIENTS Sleeping = ''linear-gradient(180deg, rgba(124,58,237,0.08) 0%, transparent 100%)''"
| "HERO_HEADER_GRADIENTS Awake = ''linear-gradient(180deg, rgba(34,197,94,0.06) 0%, transparent 100%)''"
| "HERO_HEADER_GRADIENTS Transitioning = ''linear-gradient(180deg, rgba(245,158,11,0.06) 0%, transparent 100%)''"
| "HERO_HEADER_GRADIENTS UnknownState = ''linear-gradient(180deg, rgba(148,163,184,0.04) 0%, transparent 100%)''"

text \<open>Background and glow of the dot.\<close>

fun LED_COLORS :: "policy_state \<Rightarrow> string \<times> string" where
  "LED_COLORS Sleeping = (''#a5b4fc'', ''rgba(165,180,252,0.5)'')"
| "LED_COLORS Awake = (''#86efac'', ''rgba(134,239,172,0.5)'')"
| "LED_COLORS Transitioning = (''#fcd34d'', ''rgba(252,211,77,0.5)'')"
| "LED_COLORS UnknownState = (''#64748b'', ''none'')"

definition subtleBorder :: "bool \<Rightarrow> string" where
  "subtleBorder isDark = (if isDark then ''rgba(255,255,255,0.04)'' else ''rgba(0,0,0,0.06)'')"

fun typeLabels :: "bool \<Rightarrow> exception_type \<Rightarrow> chip" where
  "typeLabels isDark StayAwake = \<lparr>cp_bg = ''rgba(245,158,11,0.15)'', cp_color = (if isDark then ''#FCD34D'' else ''#92400E''), cp_label = ''Stay Awake''\<rparr>"
| "typeLabels isDark ForceSleep = \<lparr>cp_bg = ''rgba(239,68,68,0.15)'', cp_color = (if isDark then ''#FCA5A5'' else ''#B91C1C''), cp_label = ''Force Sleep''\<rparr>"

definition typeLabelFallback :: "bool \<Rightarrow> chip" where
  "typeLabelFallback isDark =
     \<lparr>cp_bg = ''rgba(148,163,184,0.15)'', cp_color = (if isDark then ''#94A3B8'' else ''#475569''), cp_label = ''Unknown''\<rparr>"

definition getTypeLabel :: "bool \<Rightarrow> string \<Rightarrow> chip" where
  "getTypeLabel isDark type =
     (if type = ''stay_awake'' then typeLabels isDark StayAwake
      else if type = ''force_sleep'' then typeLabels isDark ForceSleep
      else typeLabelFallback isDark)"

fun LOG_LEVEL_COLORS :: "bool \<Rightarrow> log_level \<Rightarrow> string" where
  "LOG_LEVEL_COLORS isDark LInfo = (if isDark then ''#22D3EE'' else ''#0369A1'')"
| "LOG_LEVEL_COLORS isDark LOk = (if isDark then ''#22C55E'' else ''#15803D'')"
| "LOG_LEVEL_COLORS isDark LPlan = (if isDark then ''#C084FC'' else ''#6D28D9'')"
| "LOG_LEVEL_COLORS isDark LError = (if isDark then ''#F87171'' else ''#B91C1C'')"
| "LOG_LEVEL_COLORS isDark LWarn = (if isDark then ''#FBBF24'' else ''#92400E'')"

section \<open>Workloads, pods and nodes\<close>

fun statusColors :: "bool \<Rightarrow> workload_status \<Rightarrow> chip" where
  "statusColors isDark WlRunning = (let c = semanticColors isDark in \<lparr>cp_bg = sp_successBg c, cp_color = sp_success c, cp_label = ''Running''\<rparr>)"
| "statusColors isDark WlSleeping = (let c = semanticColors isDark in \<lparr>cp_bg = sp_warningBg c, cp_color = sp_warning c, cp_label = ''Sleeping''\<rparr>)"
| "statusColors isDark WlPartial = (let c = semanticColors isDark in \<lparr>cp_bg = sp_infoBg c, cp_color = sp_info c, cp_label = ''Partial''\<rparr>)"

definition podStatusStyle :: "bool \<Rightarrow> (string \<times> chip_style) list" where
  "podStatusStyle isDark =
     (let c = semanticColors isDark
      in [(''Running'', \<lparr>ch_bg = sp_successBg c, ch_color = sp_success c\<rparr>),
          (''Pending'', \<lparr>ch_bg = sp_warningBg c, ch_color = sp_warning c\<rparr>),
          (''Failed'', \<lparr>ch_bg = sp_errorBg c, ch_color = sp_errorLight c\<rparr>),
          (''Succeeded'', \<lparr>ch_bg = sp_mutedBg c, ch_color = sp_muted c\<rparr>)])"

definition getPodStatusStyle :: "string \<Rightarrow> bool \<Rightarrow> chip_style" where
  "getPodStatusStyle status isDark =
     (case map_of (podStatusStyle isDark) status of
        Some st \<Rightarrow> st
      | None \<Rightarrow> \<lparr>ch_bg = (if isDark then ''rgba(148,163,184,0.12)'' else ''rgba(71,85,105,0.10)''),
          ch_color = (if isDark then ''#94A3B8'' else ''#475569'')\<rparr>)"

fun nodeStatusMap :: "bool \<Rightarrow> node_status \<Rightarrow> chip" where
  "nodeStatusMap isDark NodeActive = (let c = semanticColors isDark in \<lparr>cp_bg = sp_successBg c, cp_color = sp_success c, cp_label = ''Active''\<rparr>)"
| "nodeStatusMap isDark NodeProtected = (let c = semanticColors isDark in \<lparr>cp_bg = sp_infoBg c, cp_color = sp_info c, cp_label = ''Protected''\<rparr>)"
| "nodeStatusMap isDark NodeWouldDrain = (let c = semanticColors isDark in \<lparr>cp_bg = sp_warningBg c, cp_color = sp_warning c, cp_label = ''Would Drain''\<rparr>)"

section \<open>States can be told apart\<close>

text \<open>In either theme two states of a policy, two kinds of log line, two statuses of a workload or of a
  node never look the same.\<close>

lemma palettes_injective:
  "inj (stateColors d)" "inj (LOG_LEVEL_COLORS d)" "inj (statusColors d)" "inj (nodeStatusMap d)" "inj (typeLabels d)"
proof -
  show "inj (stateColors d)" by (rule injI, rename_tac x y, case_tac x; case_tac y) auto
  show "inj (LOG_LEVEL_COLORS d)" by (rule injI, rename_tac x y, case_tac x; case_tac y) (auto split: if_splits)
  show "inj (statusColors d)" by (rule injI, rename_tac x y, case_tac x; case_tac y) (auto simp: Let_def)
  show "inj (nodeStatusMap d)" by (rule injI, rename_tac x y, case_tac x; case_tac y) (auto simp: Let_def)
  show "inj (typeLabels d)" by (rule injI, rename_tac x y, case_tac x; case_tac y) auto
qed

end
