(* ===== verification/Guardrails.thy ===== *)
theory Guardrails
  imports Tables
begin

text \<open>
  \<open>components/guardrails/GuardrailsForm.tsx\<close> with \<open>components/common/ChipInput.tsx\<close>: the lists of chips, the
  form with its snapshot of what is saved, the validation of the evaluation interval, and the form as
  a machine over fetches, edits, saves and their outcomes. The form is dirty when the snapshot of its
  fields differs from the saved one.

  The callbacks of a mutation see the form of the latest render, as the documentation of the query library
  says of version 5.
\<close>

section \<open>Lists of chips\<close>

definition joinCommaList :: "string list \<Rightarrow> string" where
  "joinCommaList arr = join_with '','' arr"

abbreviation splitCommaList :: "string \<Rightarrow> string list" where
  "splitCommaList \<equiv> trimmed_list"

record chip_input =
  chip_text :: string
  chip_values :: "string list"
  chip_asked :: "string option"

datatype chip_event = Typed string | EnterKey | BackspaceKey | Blurred | ChipDeleted string

definition chip_add :: "chip_input \<Rightarrow> chip_input" where
  "chip_add c =
     (let trimmed = js_trim (chip_text c)
      in c\<lparr>chip_values := (if trimmed \<noteq> [] \<and> trimmed \<notin> set (chip_values c) then chip_values c @ [trimmed] else chip_values c),
           chip_text := []\<rparr>)"

text \<open>The flag says whether deletions are confirmed elsewhere (\<open>onDelete\<close> is given).\<close>

fun chip_step :: "bool \<Rightarrow> chip_input \<Rightarrow> chip_event \<Rightarrow> chip_input" where
  "chip_step confirmed c (Typed s) = c\<lparr>chip_text := s\<rparr>"
| "chip_step confirmed c EnterKey = chip_add c"
| "chip_step confirmed c BackspaceKey =
     (if chip_text c = [] \<and> chip_values c \<noteq> [] \<and> \<not> confirmed then c\<lparr>chip_values := butlast (chip_values c)\<rparr> else c)"
| "chip_step confirmed c Blurred = chip_add c"
| "chip_step confirmed c (ChipDeleted v) =
     (if confirmed then c\<lparr>chip_asked := Some v\<rparr> else c\<lparr>chip_values := filter (\<lambda>x. x \<noteq> v) (chip_values c)\<rparr>)"

section \<open>The evaluation interval\<close>

definition validateEvalInterval :: "string \<Rightarrow> string option" where
  "validateEvalInterval value =
     (let v = js_trim value; ds = butlast v; u = last v
      in if v = [] \<or> ds = [] \<or> \<not> list_all is_digit ds \<or> (u \<noteq> CHR ''s'' \<and> u \<noteq> CHR ''m'')
         then Some ''Must be a valid duration (e.g. 30s, 1m, 2m)''
         else let tot = (if u = CHR ''m'' then digits_val ds * 60 else digits_val ds)
              in if tot < 10 then Some ''Must be at least 10s''
                 else if 900 < tot then Some ''Must not exceed 15m''
                 else None)"

section \<open>The form and its snapshot\<close>

text \<open>A number field holds a number, or the text while it is edited.\<close>

datatype num_field = NumF jsnum | TextF string

fun field_number :: "num_field \<Rightarrow> jsnum" where
  "field_number (NumF x) = x"
| "field_number (TextF s) = js_number s"

record form_state =
  fo_protectedNs :: "string list"
  fo_skipNsNode :: "string list"
  fo_skipLabels :: "string list"
  fo_skipTaints :: "string list"
  fo_priorityNs :: "string list"
  fo_scalingConcurrency :: num_field
  fo_wakeWaveSize :: num_field
  fo_wakeWavePauseSeconds :: num_field
  fo_evalInterval :: string
  fo_autoWake :: bool
  fo_reconcileWhileAwake :: bool
  fo_enforceSleep :: bool
  fo_protectCriticalPodNodes :: bool

definition INITIAL_FORM :: form_state where
  "INITIAL_FORM = \<lparr>fo_protectedNs = [], fo_skipNsNode = [], fo_skipLabels = [], fo_skipTaints = [], fo_priorityNs = [],
     fo_scalingConcurrency = NumF (num_int 10), fo_wakeWaveSize = NumF (num_int 0), fo_wakeWavePauseSeconds = NumF (num_int 90),
     fo_evalInterval = ''30s'', fo_autoWake = True, fo_reconcileWhileAwake = True, fo_enforceSleep = True,
     fo_protectCriticalPodNodes = False\<rparr>"

datatype form_field =
    ProtectedNs "string list" | SkipNsNode "string list" | SkipLabels "string list" | SkipTaints "string list"
  | PriorityNs "string list"
  | ScalingConcurrency num_field | WakeWaveSize num_field | WakeWavePauseSeconds num_field
  | EvalInterval string
  | AutoWake bool | ReconcileWhileAwake bool | EnforceSleep bool | ProtectCriticalPodNodes bool

datatype form_action = SetForm form_state | SetField form_field

fun set_field :: "form_field \<Rightarrow> form_state \<Rightarrow> form_state" where
  "set_field (ProtectedNs v) f = f\<lparr>fo_protectedNs := v\<rparr>"
| "set_field (SkipNsNode v) f = f\<lparr>fo_skipNsNode := v\<rparr>"
| "set_field (SkipLabels v) f = f\<lparr>fo_skipLabels := v\<rparr>"
| "set_field (SkipTaints v) f = f\<lparr>fo_skipTaints := v\<rparr>"
| "set_field (PriorityNs v) f = f\<lparr>fo_priorityNs := v\<rparr>"
| "set_field (ScalingConcurrency v) f = f\<lparr>fo_scalingConcurrency := v\<rparr>"
| "set_field (WakeWaveSize v) f = f\<lparr>fo_wakeWaveSize := v\<rparr>"
| "set_field (WakeWavePauseSeconds v) f = f\<lparr>fo_wakeWavePauseSeconds := v\<rparr>"
| "set_field (EvalInterval v) f = f\<lparr>fo_evalInterval := v\<rparr>"
| "set_field (AutoWake v) f = f\<lparr>fo_autoWake := v\<rparr>"
| "set_field (ReconcileWhileAwake v) f = f\<lparr>fo_reconcileWhileAwake := v\<rparr>"
| "set_field (EnforceSleep v) f = f\<lparr>fo_enforceSleep := v\<rparr>"
| "set_field (ProtectCriticalPodNodes v) f = f\<lparr>fo_protectCriticalPodNodes := v\<rparr>"

fun formReducer :: "form_state \<Rightarrow> form_action \<Rightarrow> form_state" where
  "formReducer f (SetForm payload) = payload"
| "formReducer f (SetField field) = set_field field f"

record snapshot =
  sh_protectedNs :: string
  sh_skipNsNode :: string
  sh_skipLabels :: string
  sh_skipTaints :: string
  sh_priorityNs :: string
  sh_scalingConcurrency :: jsnum
  sh_wakeWaveSize :: jsnum
  sh_wakeWavePauseSeconds :: jsnum
  sh_evalInterval :: string
  sh_autoWake :: bool
  sh_reconcileWhileAwake :: bool
  sh_enforceSleep :: bool
  sh_protectCriticalPodNodes :: bool

text \<open>\<open>Number(x) || d\<close>: NaN and zero are falsy.\<close>

definition number_or :: "num_field \<Rightarrow> int \<Rightarrow> jsnum" where
  "number_or x d = (if field_number x = NaN \<or> field_number x = Num 0 then num_int d else field_number x)"

definition buildSnapshot :: "form_state \<Rightarrow> snapshot" where
  "buildSnapshot form =
     \<lparr>sh_protectedNs = joinCommaList (fo_protectedNs form),
      sh_skipNsNode = joinCommaList (fo_skipNsNode form),
      sh_skipLabels = joinCommaList (fo_skipLabels form),
      sh_skipTaints = joinCommaList (fo_skipTaints form),
      sh_priorityNs = joinCommaList (fo_priorityNs form),
      sh_scalingConcurrency = number_or (fo_scalingConcurrency form) 10,
      sh_wakeWaveSize = number_or (fo_wakeWaveSize form) 0,
      sh_wakeWavePauseSeconds = number_or (fo_wakeWavePauseSeconds form) 90,
      sh_evalInterval = js_trim (fo_evalInterval form),
      sh_autoWake = fo_autoWake form,
      sh_reconcileWhileAwake = fo_reconcileWhileAwake form,
      sh_enforceSleep = fo_enforceSleep form,
      sh_protectCriticalPodNodes = fo_protectCriticalPodNodes form\<rparr>"

definition isDirty :: "form_state \<Rightarrow> snapshot \<Rightarrow> bool" where
  "isDirty form snap = (buildSnapshot form \<noteq> snap)"

definition clamp_number :: "int \<Rightarrow> int \<Rightarrow> int \<Rightarrow> num_field \<Rightarrow> num_field" where
  "clamp_number mn mx fallback x =
     (let raw = field_number x
      in NumF (if raw = NaN then num_int fallback else js_max (num_int mn) (js_min (num_int mx) raw)))"

datatype clamped = ClampConcurrency | ClampWaveSize | ClampWavePause

fun clampField :: "clamped \<Rightarrow> form_state \<Rightarrow> form_field" where
  "clampField ClampConcurrency f = ScalingConcurrency (clamp_number 1 50 10 (fo_scalingConcurrency f))"
| "clampField ClampWaveSize f = WakeWaveSize (clamp_number 0 200 0 (fo_wakeWaveSize f))"
| "clampField ClampWavePause f = WakeWavePauseSeconds (clamp_number 10 600 90 (fo_wakeWavePauseSeconds f))"

definition loaded_form :: "guardrails \<Rightarrow> form_state" where
  "loaded_form g =
     \<lparr>fo_protectedNs = sort (splitCommaList (gr_protectedNamespaces g)),
      fo_skipNsNode = splitCommaList (gr_skipNsNode g),
      fo_skipLabels = splitCommaList (gr_skipNodeLabels g),
      fo_skipTaints = splitCommaList (gr_skipNodeTaints g),
      fo_priorityNs = splitCommaList (gr_scalingPriorityNamespaces g),
      fo_scalingConcurrency = NumF (num_int (gr_scalingConcurrency g)),
      fo_wakeWaveSize = NumF (num_int (gr_wakeWaveSize g)),
      fo_wakeWavePauseSeconds = NumF (num_int (gr_wakeWavePauseSeconds g)),
      fo_evalInterval = gr_schedulerEvalInterval g,
      fo_autoWake = gr_schedulerAutoWake g,
      fo_reconcileWhileAwake = gr_schedulerReconcileWhileAwake g,
      fo_enforceSleep = gr_schedulerEnforceSleep g,
      fo_protectCriticalPodNodes = gr_protectCriticalPodNodes g\<rparr>"

definition nodeRuleCount :: "form_state \<Rightarrow> nat" where
  "nodeRuleCount f =
     (if fo_skipNsNode f \<noteq> [] then 1 else 0) + (if fo_skipLabels f \<noteq> [] then 1 else 0)
       + (if fo_skipTaints f \<noteq> [] then 1 else 0) + (if fo_protectCriticalPodNodes f then 1 else 0)"

section \<open>The form over time\<close>

text \<open>\<open>gf_pending\<close> is the payload of a running save, \<open>gf_stored\<close> what the last answer of the server said it holds, every
  fetch included; the code keeps neither.\<close>

record guardrails_form =
  gf_form :: form_state
  gf_saved :: snapshot
  gf_initialised :: bool
  gf_dirty :: bool
  gf_saveError :: "string option"
  gf_nsToRemove :: "string option"
  gf_pending :: "snapshot option"
  gf_stored :: "snapshot option"

definition form_start :: guardrails_form where
  "form_start = \<lparr>gf_form = INITIAL_FORM, gf_saved = buildSnapshot INITIAL_FORM, gf_initialised = False, gf_dirty = False,
     gf_saveError = None, gf_nsToRemove = None, gf_pending = None, gf_stored = None\<rparr>"

datatype form_event =
    GuardrailsFetched guardrails
  | GuardrailsImported guardrails
  | Edited form_field
  | ProtectedChanged "string list"
  | NumberBlurred clamped
  | RemoveAsked string
  | RemoveCancelled
  | RemoveConfirmed
  | SaveClicked
  | SaveSucceeded
  | SaveFailed string

definition loadGuardrails :: "guardrails \<Rightarrow> guardrails_form \<Rightarrow> guardrails_form" where
  "loadGuardrails g s =
     s\<lparr>gf_form := formReducer (gf_form s) (SetForm (loaded_form g)), gf_saved := buildSnapshot (loaded_form g),
       gf_saveError := None, gf_dirty := False, gf_stored := Some (buildSnapshot (loaded_form g))\<rparr>"

text \<open>A dispatched edit, followed by the effect that recomputes the dirty flag.\<close>

definition edit :: "form_field \<Rightarrow> guardrails_form \<Rightarrow> guardrails_form" where
  "edit fl s =
     (let f = formReducer (gf_form s) (SetField fl) in s\<lparr>gf_form := f, gf_dirty := isDirty f (gf_saved s)\<rparr>)"

fun form_step :: "guardrails_form \<Rightarrow> form_event \<Rightarrow> guardrails_form" where
  "form_step s (GuardrailsFetched g) =
     (if gf_initialised s then s\<lparr>gf_stored := Some (buildSnapshot (loaded_form g))\<rparr> else loadGuardrails g (s\<lparr>gf_initialised := True\<rparr>))"
| "form_step s (GuardrailsImported g) = loadGuardrails g s"
| "form_step s (Edited fl) = edit fl s"
| "form_step s (ProtectedChanged v) = edit (ProtectedNs (sort v)) s"
| "form_step s (NumberBlurred c) = edit (clampField c (gf_form s)) s"
| "form_step s (RemoveAsked ns) = s\<lparr>gf_nsToRemove := Some ns\<rparr>"
| "form_step s RemoveCancelled = s\<lparr>gf_nsToRemove := None\<rparr>"
| "form_step s RemoveConfirmed =
     (edit (ProtectedNs (sort (filter (\<lambda>ns. Some ns \<noteq> gf_nsToRemove s) (fo_protectedNs (gf_form s))))) s)\<lparr>gf_nsToRemove := None\<rparr>"
| "form_step s SaveClicked =
     (if gf_pending s \<noteq> None then s
      else case validateEvalInterval (fo_evalInterval (gf_form s)) of
             Some e \<Rightarrow> s\<lparr>gf_saveError := Some e\<rparr>
           | None \<Rightarrow> s\<lparr>gf_pending := Some (buildSnapshot (gf_form s))\<rparr>)"
| "form_step s SaveSucceeded =
     (case gf_pending s of
        None \<Rightarrow> s
      | Some p \<Rightarrow> s\<lparr>gf_saveError := None, gf_saved := buildSnapshot (gf_form s), gf_dirty := False,
          gf_pending := None, gf_stored := Some p\<rparr>)"
| "form_step s (SaveFailed msg) =
     (case gf_pending s of None \<Rightarrow> s | Some p \<Rightarrow> s\<lparr>gf_saveError := Some msg, gf_pending := None\<rparr>)"

section \<open>Chips stay clean\<close>

lemma ltrim_idem: "ltrim (ltrim s) = ltrim s"
  by (simp add: ltrim_def)

lemma ltrim_fixed: "ltrim s = s \<longleftrightarrow> s = [] \<or> \<not> is_space (hd s)"
proof (cases s)
  case (Cons c t)
  have "length (dropWhile is_space t) < length (c # t)"
    using length_dropWhile_le [of is_space t] by simp
  then have "dropWhile is_space t \<noteq> c # t" by (metis less_irrefl)
  then show ?thesis by (simp add: ltrim_def Cons)
qed (simp add: ltrim_def)

lemma ltrim_prefix: "ltrim s = s \<Longrightarrow> prefix p s \<Longrightarrow> ltrim p = p"
  by (cases p; cases s) (auto simp: ltrim_fixed)

lemma js_trim_idem: "js_trim (js_trim s) = js_trim s"
proof -
  have "suffix (ltrim (rev (ltrim s))) (rev (ltrim s))" by (auto simp: ltrim_def intro: suffix_dropWhile)
  then have "prefix (js_trim s) (ltrim s)" by (simp add: js_trim_def suffix_to_prefix)
  with ltrim_idem have "ltrim (js_trim s) = js_trim s" by (metis ltrim_prefix)
  then show ?thesis by (simp add: js_trim_def ltrim_idem)
qed

definition clean_chips :: "string list \<Rightarrow> bool" where
  "clean_chips vs = (distinct vs \<and> list_all (\<lambda>v. v \<noteq> [] \<and> js_trim v = v) vs)"

lemma chip_step_clean: "clean_chips (chip_values c) \<Longrightarrow> clean_chips (chip_values (chip_step b c e))"
  by (cases e) (auto simp: chip_add_def clean_chips_def js_trim_idem list_all_iff distinct_butlast Let_def dest: in_set_butlastD)

interpretation chips: machine "chip_step b" "\<lambda>c. clean_chips (chip_values c)" for b
  by unfold_locales (rule chip_step_clean)

section \<open>Saving and loading\<close>

text \<open>What the server stores of a payload, as the API documents it: the fields sent.\<close>

definition stored_guardrails :: "snapshot \<Rightarrow> guardrails \<Rightarrow> guardrails" where
  "stored_guardrails p g = g
     \<lparr>gr_protectedNamespaces := sh_protectedNs p, gr_skipNsNode := sh_skipNsNode p, gr_skipNodeLabels := sh_skipLabels p,
      gr_skipNodeTaints := sh_skipTaints p, gr_scalingPriorityNamespaces := sh_priorityNs p,
      gr_scalingConcurrency := \<lfloor>num_key (sh_scalingConcurrency p)\<rfloor>, gr_wakeWaveSize := \<lfloor>num_key (sh_wakeWaveSize p)\<rfloor>,
      gr_wakeWavePauseSeconds := \<lfloor>num_key (sh_wakeWavePauseSeconds p)\<rfloor>, gr_schedulerEvalInterval := sh_evalInterval p,
      gr_schedulerAutoWake := sh_autoWake p, gr_schedulerReconcileWhileAwake := sh_reconcileWhileAwake p,
      gr_schedulerEnforceSleep := sh_enforceSleep p, gr_protectCriticalPodNodes := sh_protectCriticalPodNodes p\<rparr>"

definition storable_list :: "string list \<Rightarrow> bool" where
  "storable_list vs = (clean_chips vs \<and> list_all (\<lambda>v. CHR '','' \<notin> set v) vs)"

definition whole_number :: "num_field \<Rightarrow> bool" where
  "whole_number x = (case field_number x of NaN \<Rightarrow> True | Num r \<Rightarrow> of_int \<lfloor>r\<rfloor> = r)"

definition storable :: "form_state \<Rightarrow> bool" where
  "storable f =
     (storable_list (fo_protectedNs f) \<and> sorted (fo_protectedNs f) \<and> storable_list (fo_skipNsNode f)
      \<and> storable_list (fo_skipLabels f) \<and> storable_list (fo_skipTaints f) \<and> storable_list (fo_priorityNs f)
      \<and> whole_number (fo_scalingConcurrency f) \<and> whole_number (fo_wakeWaveSize f) \<and> whole_number (fo_wakeWavePauseSeconds f))"

lemma split_join_list: "storable_list vs \<Longrightarrow> splitCommaList (joinCommaList vs) = vs"
proof (cases "vs = []")
  case True
  then show ?thesis by (simp add: joinCommaList_def trimmed_list_def js_trim_def ltrim_def)
next
  case False
  assume "storable_list vs"
  then have vs: "\<forall>v \<in> set vs. CHR '','' \<notin> set v" "\<forall>v \<in> set vs. v \<noteq> [] \<and> js_trim v = v"
    by (auto simp: storable_list_def clean_chips_def list_all_iff)
  have "split_on CHR '','' (join_with [CHR '',''] vs) = vs" using split_join [OF False vs(1)] .
  moreover have "map js_trim vs = vs" "filter (\<lambda>v. v \<noteq> []) vs = vs" using vs(2) by (auto simp: map_idI)
  ultimately show ?thesis by (simp add: joinCommaList_def trimmed_list_def)
qed

lemma number_or_whole: "whole_number x \<Longrightarrow> num_int \<lfloor>num_key (number_or x d)\<rfloor> = number_or x d"
  by (cases "field_number x") (auto simp: whole_number_def number_or_def)

lemma number_or_again: "d \<noteq> 0 \<or> d' = 0 \<Longrightarrow> number_or (NumF (number_or x d)) d = number_or x d"
  by (auto simp: number_or_def)

text \<open>Saving and loading again gives the same form: the same chips, the same numbers, nothing dirty.\<close>

theorem guardrails_save_reload:
  assumes "storable f"
  shows "let f' = loaded_form (stored_guardrails (buildSnapshot f) g)
     in \<not> isDirty f' (buildSnapshot f) \<and> fo_protectedNs f' = fo_protectedNs f \<and> fo_skipNsNode f' = fo_skipNsNode f
      \<and> fo_skipLabels f' = fo_skipLabels f \<and> fo_skipTaints f' = fo_skipTaints f \<and> fo_priorityNs f' = fo_priorityNs f"
proof -
  have "num_int \<lfloor>num_key (number_or x d)\<rfloor> = number_or x d" if "whole_number x" for x d
    using number_or_whole that by simp
  moreover have "number_or (NumF (number_or x d)) d = number_or x d" for x d
    by (simp add: number_or_def)
  moreover have "js_trim (js_trim t) = js_trim t" for t by (rule js_trim_idem)
  moreover have "sort (fo_protectedNs f) = fo_protectedNs f" using assms by (simp add: storable_def sorted_sort_id)
  ultimately show ?thesis
    using assms
    by (simp add: storable_def Let_def isDirty_def buildSnapshot_def loaded_form_def stored_guardrails_def split_join_list)
qed

section \<open>Clean means saved\<close>

text \<open>Events that leave the fields alone.\<close>

fun leaves_form :: "form_event \<Rightarrow> bool" where
  "leaves_form (RemoveAsked ns) = True"
| "leaves_form RemoveCancelled = True"
| "leaves_form SaveClicked = True"
| "leaves_form SaveSucceeded = True"
| "leaves_form (SaveFailed m) = True"
| "leaves_form _ = False"

text \<open>Nobody edits, imports or fetches while a save is running, and a fetch after the first brings what the server was
  known to hold: nobody else changes it.\<close>

fun no_news :: "guardrails_form \<Rightarrow> form_event \<Rightarrow> bool" where
  "no_news s (GuardrailsFetched g) = (gf_initialised s \<longrightarrow> gf_stored s = Some (buildSnapshot (loaded_form g)))"
| "no_news s _ = True"

fun quiet_saves :: "guardrails_form \<Rightarrow> form_event list \<Rightarrow> bool" where
  "quiet_saves s [] = True"
| "quiet_saves s (e # es) = ((gf_pending s = None \<or> leaves_form e) \<and> no_news s e \<and> quiet_saves (form_step s e) es)"

definition form_inv :: "guardrails_form \<Rightarrow> bool" where
  "form_inv s = ((\<forall>x. gf_stored s = Some x \<longrightarrow> gf_saved s = x) \<and> (gf_initialised s \<longrightarrow> gf_stored s \<noteq> None)
     \<and> gf_dirty s = isDirty (gf_form s) (gf_saved s)
     \<and> (\<forall>p. gf_pending s = Some p \<longrightarrow> p = buildSnapshot (gf_form s)))"

lemma form_inv_step: "form_inv s \<Longrightarrow> gf_pending s = None \<or> leaves_form e \<Longrightarrow> no_news s e \<Longrightarrow> form_inv (form_step s e)"
  by (cases e) (auto simp: form_inv_def loadGuardrails_def edit_def isDirty_def Let_def split: option.splits)

lemma form_inv_run: "form_inv s \<Longrightarrow> quiet_saves s es \<Longrightarrow> form_inv (run form_step s es)"
  by (induction es arbitrary: s) (simp_all add: form_inv_step)

text \<open>C11. As long as nobody edits or fetches while a save runs and nobody else changes the guardrails, a form that has loaded
  them is clean exactly when its fields are what the server last said it holds.\<close>

theorem guardrails_clean_means_saved:
  assumes "quiet_saves form_start es"
  shows "let s = run form_step form_start es
     in gf_initialised s \<longrightarrow> (\<exists>x. gf_stored s = Some x \<and> (\<not> gf_dirty s \<longleftrightarrow> buildSnapshot (gf_form s) = x))"
proof -
  have "form_inv form_start" by (simp add: form_inv_def form_start_def isDirty_def)
  from form_inv_run [OF this assms] show ?thesis by (auto simp: form_inv_def isDirty_def Let_def)
qed

text \<open>A fetch after the first is ignored: when somebody else has changed the guardrails, a clean form goes on showing the
  old values, and a save writes them back.\<close>

lemma later_fetch_ignored:
  "gf_initialised s \<Longrightarrow> \<not> gf_dirty s \<Longrightarrow> buildSnapshot (loaded_form g) \<noteq> buildSnapshot (gf_form s) \<Longrightarrow>
     let s' = form_step s (GuardrailsFetched g)
     in \<not> gf_dirty s' \<and> gf_form s' = gf_form s \<and> gf_stored s' \<noteq> Some (buildSnapshot (gf_form s'))"
  by (auto simp: Let_def)

text \<open>An edit made while a save runs is forgotten by the dirty flag: when the answer arrives the form counts as
  clean although the server never got the edit.\<close>

theorem edit_during_save_marked_clean:
  assumes "gf_pending s = Some (buildSnapshot (gf_form s))"
    and "buildSnapshot (set_field fl (gf_form s)) \<noteq> buildSnapshot (gf_form s)"
  shows "let s' = run form_step s [Edited fl, SaveSucceeded]
     in \<not> gf_dirty s' \<and> gf_stored s' \<noteq> Some (buildSnapshot (gf_form s'))"
  using assms by (simp add: edit_def Let_def)

definition sample_guardrails :: guardrails where
  "sample_guardrails = \<lparr>gr_id = 1, gr_protectedNamespaces = ''monitoring, kube-system'', gr_skipNsNode = [], gr_skipNodeLabels = [],
     gr_skipNodeTaints = [], gr_scalingPriorityNamespaces = ''db'', gr_schedulerEvalInterval = ''30s'',
     gr_schedulerAutoWake = True, gr_schedulerReconcileWhileAwake = True, gr_schedulerEnforceSleep = True,
     gr_scalingConcurrency = 10, gr_wakeWaveSize = 0, gr_wakeWavePauseSeconds = 90, gr_protectCriticalPodNodes = False,
     gr_updatedAt = []\<rparr>"

theorem guardrails_save_reload_witness:
  "let f = loaded_form sample_guardrails; f' = loaded_form (stored_guardrails (buildSnapshot f) sample_guardrails)
   in \<not> isDirty f' (buildSnapshot f) \<and> fo_protectedNs f' = fo_protectedNs f"
proof -
  have "storable (loaded_form sample_guardrails)" by code_simp
  from guardrails_save_reload [OF this, of sample_guardrails] show ?thesis by (simp add: Let_def)
qed

definition sample_session :: "form_event list" where
  "sample_session = [GuardrailsFetched sample_guardrails, ProtectedChanged [''payments'', ''kube-system''], SaveClicked,
     SaveSucceeded, NumberBlurred ClampWavePause, Edited (AutoWake False)]"

theorem guardrails_clean_means_saved_witness:
  "\<exists>x. gf_stored (run form_step form_start sample_session) = Some x
     \<and> (\<not> gf_dirty (run form_step form_start sample_session) \<longleftrightarrow> buildSnapshot (gf_form (run form_step form_start sample_session)) = x)"
proof -
  have "quiet_saves form_start sample_session" "gf_initialised (run form_step form_start sample_session)" by code_simp+
  then show ?thesis using guardrails_clean_means_saved unfolding Let_def by blast
qed

theorem edit_during_save_marked_clean_witness:
  "let s' = run form_step (run form_step form_start [GuardrailsFetched sample_guardrails, SaveClicked]) [Edited (AutoWake False), SaveSucceeded]
   in \<not> gf_dirty s' \<and> gf_stored s' \<noteq> Some (buildSnapshot (gf_form s'))"
  by (rule edit_during_save_marked_clean) code_simp+

section \<open>Validation\<close>

text \<open>An accepted interval is between ten seconds and fifteen minutes.\<close>

lemma validateEvalInterval_ok:
  "validateEvalInterval (show_nat n @ ''s'') = None \<longleftrightarrow> 10 \<le> n \<and> n \<le> 900"
  "validateEvalInterval (show_nat n @ ''m'') = None \<longleftrightarrow> 1 \<le> n \<and> n \<le> 15"
proof -
  have trim: "js_trim (show_nat n @ [u]) = show_nat n @ [u]" if "u = CHR ''s'' \<or> u = CHR ''m''" for u
  proof -
    have "\<not> is_space (hd (show_nat n))"
      using show_nat_digits [of "hd (show_nat n)" n] is_digit_not_space by simp
    moreover have "\<not> is_space u" using that by (auto simp: is_space_def)
    ultimately show ?thesis using ltrim_fixed [of "show_nat n @ [u]"] ltrim_fixed [of "rev (show_nat n @ [u])"]
      by (simp add: js_trim_def)
  qed
  have "list_all is_digit (show_nat n)" by (auto simp: list_all_iff intro: show_nat_digits)
  then show "validateEvalInterval (show_nat n @ ''s'') = None \<longleftrightarrow> 10 \<le> n \<and> n \<le> 900"
    "validateEvalInterval (show_nat n @ ''m'') = None \<longleftrightarrow> 1 \<le> n \<and> n \<le> 15"
    using trim by (auto simp: validateEvalInterval_def Let_def)
qed

text \<open>Leaving a number field puts it into its range, whatever was typed.\<close>

lemma clamp_in_range:
  assumes "mn \<le> mx" "mn \<le> d" "d \<le> mx"
  shows "\<exists>r. clamp_number mn mx d x = NumF (Num r) \<and> of_int mn \<le> r \<and> r \<le> of_int mx"
  using assms by (cases "field_number x") (auto simp: clamp_number_def Let_def)

end
