(* ===== verification/ImportDialog.thy ===== *)
theory ImportDialog
  imports ApiClient QueryKeys Formatters
begin

text \<open>
  \<open>components/import/ImportDialog.tsx\<close>: the import of guardrails, a policy or an exception from JSON.
  The dialog is a machine: a text is pasted or dropped, the server previews it, and the previewed
  payload is applied. Answers of the server are events, so they can arrive after the dialog was
  closed or opened again. The error text of \<open>JSON.parse\<close> is a parameter.
\<close>

section \<open>Data\<close>

datatype import_kind = ImportGuardrails | ImportPolicy | ImportException

datatype resolution = Overwrite | Rename

record window_lite =
  wl_name :: "string option"
  wl_daysOfWeek :: "int list"
  wl_startTime :: string
  wl_endTime :: string
  wl_allDay :: bool

record policy_body =
  pb_name :: string
  pb_description :: "string option"
  pb_namespaceFilter :: "string option"
  pb_labelSelector :: "string option"
  pb_timezone :: "string option"
  pb_mode :: string
  pb_enabled :: bool
  pb_timeoutMinutes :: "int option"
  pb_sleepWindows :: "window_lite list option"

record policy_preview =
  pv_conflict :: bool
  pv_existingPolicy :: "policy_body option"
  pv_incoming :: policy_body
  pv_forcedEnabledOff :: bool
  pv_forcedModeToPlan :: bool
  pv_conflictByName :: "string option"

text \<open>The fields of a guardrails body by name, as \<open>Object.keys\<close> lists them.\<close>

type_synonym guardrails_body = "(string \<times> json) list"

record guardrails_preview =
  gv_before :: "guardrails_body option"
  gv_after :: guardrails_body
  gv_differs :: bool

record target_lite =
  tl_kind :: string
  tl_namespace :: string
  tl_name :: string

record exception_body =
  eb_policyName :: "string option"
  eb_exceptionType :: string
  eb_startsAt :: string
  eb_endsAt :: string
  eb_ticketRef :: "string option"
  eb_reason :: "string option"
  eb_sleepOnEnd :: "bool option"
  eb_namespaceFilter :: "string option"
  eb_labelSelector :: "string option"
  eb_workloadTargets :: "target_lite list option"

record exception_preview =
  ev_parentPolicyId :: "int option"
  ev_parentPolicyName :: "string option"
  ev_incoming :: exception_body

datatype preview_resp =
    PolicyPreviewed policy_preview
  | GuardrailsPreviewed guardrails_preview
  | ExceptionPreviewed exception_preview

section \<open>What the previews show\<close>

text \<open>\<open>Object.is\<close> on two parsed values: primitives by value, two objects never.\<close>

fun object_is :: "json \<Rightarrow> json \<Rightarrow> bool" where
  "object_is (JArr _) _ = False"
| "object_is (JObj _) _ = False"
| "object_is a b = (a = b)"

text \<open>Rows of key, old and new value; \<open>None\<close> is \<open>undefined\<close>.\<close>

definition diffGuardrails :: "guardrails_body option \<Rightarrow> guardrails_body \<Rightarrow> (string \<times> json option \<times> json option) list" where
  "diffGuardrails before after =
     (case before of
        None \<Rightarrow> map (\<lambda>(k, v). (k, None, Some v)) after
      | Some b \<Rightarrow>
          map (\<lambda>k. (k, map_of b k, map_of after k))
            (filter (\<lambda>k. \<not> (case (map_of b k, map_of after k) of
                              (Some x, Some y) \<Rightarrow> object_is x y
                            | (None, None) \<Rightarrow> True
                            | _ \<Rightarrow> False))
              (map fst after)))"

text \<open>\<open>String(v)\<close>; the elements of an array are joined by commas, and null is empty there.\<close>

fun js_string :: "json \<Rightarrow> string" where
  "js_string JNull = ''null''"
| "js_string (JBool b) = (if b then ''true'' else ''false'')"
| "js_string (JNum n) = show_num n"
| "js_string (JStr s) = s"
| "js_string (JArr xs) = join_with '','' (map (\<lambda>x. if x = JNull then [] else js_string x) xs)"
| "js_string (JObj _) = ''[object Object]''"

definition formatValue :: "json option \<Rightarrow> string" where
  "formatValue v =
     (case v of
        None \<Rightarrow> em_dash
      | Some j \<Rightarrow>
          (if j = JNull \<or> j = JStr [] then em_dash else js_string j))"

definition guardrails_notice :: "guardrails_preview \<Rightarrow> string \<times> string" where
  "guardrails_notice p =
     (let n = length (diffGuardrails (gv_before p) (gv_after p))
      in if n = 0 then (''success'', ''The pasted guardrails are identical to this environment. Apply will be a no-op.'')
         else (''info'', show_nat n @ '' field'' @ (if n = 1 then [] else ''s'') @ '' will change on overwrite.''))"

text \<open>\<open>a || b\<close> on texts.\<close>

definition text_or :: "string option \<Rightarrow> string \<Rightarrow> string" where
  "text_or v d = (case v of None \<Rightarrow> d | Some s \<Rightarrow> if s = [] then d else s)"

definition minutes_text :: "int option \<Rightarrow> string" where
  "minutes_text m = (case m of None \<Rightarrow> em_dash | Some n \<Rightarrow> if n = 0 then em_dash else show_int n @ '' min'')"

text \<open>A row with its label, both texts, and the mark that the import forces the value.\<close>

record policy_row =
  pr_label :: string
  pr_incoming :: string
  pr_existing :: "string option"
  pr_forced :: bool

definition policy_rows :: "policy_body \<Rightarrow> policy_body option \<Rightarrow> policy_row list" where
  "policy_rows incoming existing =
     [\<lparr>pr_label = ''Name'', pr_incoming = pb_name incoming, pr_existing = map_option pb_name existing, pr_forced = False\<rparr>,
      \<lparr>pr_label = ''Description'', pr_incoming = text_or (pb_description incoming) em_dash,
       pr_existing = Some (text_or (Option.bind existing pb_description) em_dash), pr_forced = False\<rparr>,
      \<lparr>pr_label = ''Namespace filter'', pr_incoming = text_or (pb_namespaceFilter incoming) em_dash,
       pr_existing = Some (text_or (Option.bind existing pb_namespaceFilter) em_dash), pr_forced = False\<rparr>,
      \<lparr>pr_label = ''Label selector'', pr_incoming = text_or (pb_labelSelector incoming) em_dash,
       pr_existing = Some (text_or (Option.bind existing pb_labelSelector) em_dash), pr_forced = False\<rparr>,
      \<lparr>pr_label = ''Timezone'', pr_incoming = text_or (pb_timezone incoming) ''UTC'',
       pr_existing = Option.bind existing pb_timezone, pr_forced = False\<rparr>,
      \<lparr>pr_label = ''Mode'', pr_incoming = ''plan (forced)'', pr_existing = map_option pb_mode existing,
       pr_forced = (pb_mode incoming = ''apply'')\<rparr>,
      \<lparr>pr_label = ''Enabled'', pr_incoming = ''no (forced)'',
       pr_existing = map_option (\<lambda>e. if pb_enabled e then ''yes'' else ''no'') existing, pr_forced = pb_enabled incoming\<rparr>,
      \<lparr>pr_label = ''Timeout'', pr_incoming = minutes_text (pb_timeoutMinutes incoming),
       pr_existing = Some (minutes_text (Option.bind existing pb_timeoutMinutes)), pr_forced = False\<rparr>]"

text \<open>The color of the incoming text, and the existing text where that column is shown.\<close>

definition row_color :: "bool \<Rightarrow> policy_row \<Rightarrow> string" where
  "row_color hasExisting r =
     (let changed = hasExisting \<and> pr_existing r \<noteq> None \<and> pr_existing r \<noteq> Some (pr_incoming r)
      in if pr_forced r then ''warning.main'' else if changed then ''success.main'' else ''text.primary'')"

definition row_existing :: "bool \<Rightarrow> policy_row \<Rightarrow> string option" where
  "row_existing hasExisting r =
     (if hasExisting then Some (case pr_existing r of Some s \<Rightarrow> s | None \<Rightarrow> em_dash) else None)"

definition DOW_LABELS :: "string list" where
  "DOW_LABELS = [''Sun'', ''Mon'', ''Tue'', ''Wed'', ''Thu'', ''Fri'', ''Sat'']"

definition windowOneLine :: "window_lite \<Rightarrow> string" where
  "windowOneLine w =
     (let days = join_with '','' (map (\<lambda>d. if 0 \<le> d \<and> d < 7 then DOW_LABELS ! nat d else ''?'') (wl_daysOfWeek w));
          time = (if wl_allDay w then ''all day'' else wl_startTime w @ '' '' @ [CHR 0xE2, CHR 0x86, CHR 0x92] @ '' '' @ wl_endTime w);
          name = (case wl_name w of None \<Rightarrow> [] | Some n \<Rightarrow> if n = [] then [] else n @ '' '' @ [CHR 0xC2, CHR 0xB7] @ '' '')
      in name @ days @ ''  '' @ time)"

text \<open>\<open>toFixed(1)\<close> below ten hours, \<open>toFixed(0)\<close> from there on; the value is positive.\<close>

definition import_durationLabel :: "js_env \<Rightarrow> string \<Rightarrow> string \<Rightarrow> string" where
  "import_durationLabel env startISO endISO =
     (case (date_parse env startISO, date_parse env endISO) of
        (Some s, Some e) \<Rightarrow>
          (let ms = e - s; hours = of_int ms / 3600000 :: rat
           in if ms \<le> 0 then em_dash
              else if hours < 1 then show_int (js_round (of_int ms / 60000)) @ '' min''
              else if hours < 48 then
                (if hours < 10 then to_fixed1 (Num hours) else show_int (js_round hours)) @ '' h''
              else show_int (js_round (hours / 24)) @ '' d'')
      | _ \<Rightarrow> em_dash)"

definition exception_notice :: "exception_preview \<Rightarrow> string \<times> string" where
  "exception_notice p =
     (case ev_parentPolicyName p of
        Some n \<Rightarrow> if n = [] then (''error'', ''A parent policy is required. Parentless exceptions cannot be imported.'')
          else (''success'', ''Will be created and attached to policy '' @ [CHR 0x22] @ n @ [CHR 0x22] @ ''.'')
      | None \<Rightarrow> (''error'', ''A parent policy is required. Parentless exceptions cannot be imported.''))"

section \<open>Plumbing\<close>

fun dialogTitle :: "import_kind \<Rightarrow> string" where
  "dialogTitle ImportGuardrails = ''Import Guardrails''"
| "dialogTitle ImportPolicy = ''Import Policy''"
| "dialogTitle ImportException = ''Import Scheduled Exception''"

definition kindLabel :: "import_kind \<Rightarrow> string" where
  "kindLabel kind = (if starts_with ''Import '' (dialogTitle kind) then drop 7 (dialogTitle kind) else dialogTitle kind)"

fun successMessage :: "import_kind \<Rightarrow> string" where
  "successMessage ImportGuardrails = ''Guardrails import applied.''"
| "successMessage ImportPolicy = ''Policy import applied.''"
| "successMessage ImportException = ''Exception import applied.''"

fun previewByKind :: "import_kind \<Rightarrow> json \<Rightarrow> api_request" where
  "previewByKind ImportGuardrails payload = previewGuardrailsImport payload"
| "previewByKind ImportPolicy payload = previewPolicyImport payload"
| "previewByKind ImportException payload = previewExceptionImport payload"

text \<open>The own properties that \<open>{...payload}\<close> copies.\<close>

fun spread :: "json \<Rightarrow> (string \<times> json) list" where
  "spread (JObj es) = es"
| "spread (JArr xs) = zip (map show_nat [0..<length xs]) xs"
| "spread (JStr s) = zip (map show_nat [0..<length s]) (map (\<lambda>c. JStr [c]) s)"
| "spread _ = []"

fun resolution_text :: "resolution \<Rightarrow> string" where
  "resolution_text Overwrite = ''overwrite''"
| "resolution_text Rename = ''rename''"

fun applyByKind :: "import_kind \<Rightarrow> json \<Rightarrow> resolution \<Rightarrow> string \<Rightarrow> api_request" where
  "applyByKind ImportGuardrails payload res newName =
     applyGuardrailsImport (JObj (assoc_set ''conflictResolution'' (JStr (resolution_text res)) (spread payload)))"
| "applyByKind ImportPolicy payload res newName =
     applyPolicyImport (JObj (assoc_set ''newName'' (JStr newName)
       (assoc_set ''conflictResolution'' (JStr (resolution_text res)) (spread payload))))"
| "applyByKind ImportException payload res newName = applyExceptionImport payload"

fun invalidateAfterImport :: "import_kind \<Rightarrow> query_key" where
  "invalidateAfterImport ImportGuardrails = guardrails_key"
| "invalidateAfterImport ImportPolicy = policies_key"
| "invalidateAfterImport ImportException = exceptions_key None"

section \<open>The dialog\<close>

text \<open>The state hooks of the dialog, the requests in flight, and what it has done so far. A request keeps
  the values of the render that started it.\<close>

datatype in_flight = Previewing json | Applying json resolution string

datatype apply_result =
    GuardrailsApplied guardrails | PolicyApplied policy | ExceptionApplied

datatype import_effect =
    RequestSent api_request
  | CacheCancelled query_key
  | GuardrailsCached guardrails
  | PolicyCached policy
  | GuardrailsImported guardrails
  | CacheInvalidated query_key
  | NotifiedSuccess string
  | PreviewShown json preview_resp

record import_state =
  im_open :: bool
  im_pastedText :: string
  im_parseError :: "string option"
  im_preview :: "preview_resp option"
  im_previewedPayload :: "json option"
  im_resolution :: resolution
  im_newName :: string
  im_busy :: bool
  im_error :: "string option"
  im_readError :: "string option"
  im_flight :: "in_flight list"
  im_effects :: "import_effect list"

definition import_closed :: import_state where
  "import_closed = \<lparr>im_open = False, im_pastedText = [], im_parseError = None, im_preview = None,
     im_previewedPayload = None, im_resolution = Overwrite, im_newName = [], im_busy = False, im_error = None,
     im_readError = None, im_flight = [], im_effects = []\<rparr>"

text \<open>The effect on \<open>open\<close>: the requests in flight go on.\<close>

definition reset_closed :: "import_state \<Rightarrow> import_state" where
  "reset_closed s = import_closed\<lparr>im_flight := im_flight s, im_effects := im_effects s\<rparr>"

definition json_error :: string where "json_error = ''Could not parse JSON: ''"

definition runPreview :: "(string \<Rightarrow> string) \<Rightarrow> import_kind \<Rightarrow> import_state \<Rightarrow> import_state" where
  "runPreview syntax_error kind s =
     (case json_parse (im_pastedText s) of
        None \<Rightarrow> s\<lparr>im_parseError := Some (json_error @ syntax_error (im_pastedText s))\<rparr>
      | Some payload \<Rightarrow>
          if payload = JNull then s\<lparr>im_parseError := None\<rparr>
          else s\<lparr>im_parseError := None, im_busy := True, im_error := None, im_flight := im_flight s @ [Previewing payload],
                 im_effects := im_effects s @ [RequestSent (previewByKind kind payload)]\<rparr>)"

text \<open>The answer to a preview, an error or a result; both arms end in \<open>finally\<close>.\<close>

definition preview_answered ::
  "import_kind \<Rightarrow> json \<Rightarrow> string option + preview_resp \<Rightarrow> import_state \<Rightarrow> import_state" where
  "preview_answered kind payload answer s =
     (case answer of
        Inl message \<Rightarrow> s\<lparr>im_error := Some (formatError message), im_busy := False\<rparr>
      | Inr result \<Rightarrow>
          (let s1 = s\<lparr>im_preview := Some result, im_previewedPayload := Some payload, im_busy := False, im_readError := None,
                     im_effects := im_effects s @ [PreviewShown payload result]\<rparr>
           in if kind = ImportPolicy then s1\<lparr>im_resolution := Overwrite, im_newName := []\<rparr> else s1))"

definition runApply :: "import_kind \<Rightarrow> import_state \<Rightarrow> import_state" where
  "runApply kind s =
     (case im_previewedPayload s of
        None \<Rightarrow> s
      | Some payload \<Rightarrow>
          s\<lparr>im_busy := True, im_error := None, im_flight := im_flight s @ [Applying payload (im_resolution s) (im_newName s)],
            im_effects := im_effects s
              @ [RequestSent (applyByKind kind payload (im_resolution s) (im_newName s))]\<rparr>)"

fun apply_effects :: "import_kind \<Rightarrow> apply_result \<Rightarrow> import_effect list" where
  "apply_effects ImportGuardrails (GuardrailsApplied g) = [CacheCancelled guardrails_key, GuardrailsCached g, GuardrailsImported g]"
| "apply_effects ImportPolicy (PolicyApplied p) = [CacheCancelled (policy_key (pol_id p)), PolicyCached p]"
| "apply_effects _ _ = []"

text \<open>On success \<open>onClose\<close> makes the parent close the dialog, whose effect then resets it.\<close>

definition apply_answered :: "import_kind \<Rightarrow> string option + apply_result \<Rightarrow> import_state \<Rightarrow> import_state" where
  "apply_answered kind answer s =
     (case answer of
        Inl message \<Rightarrow> s\<lparr>im_error := Some (formatError message), im_busy := False\<rparr>
      | Inr result \<Rightarrow>
          reset_closed (s\<lparr>im_effects := im_effects s @ apply_effects kind result
            @ [CacheInvalidated (invalidateAfterImport kind), NotifiedSuccess (successMessage kind)]\<rparr>))"

text \<open>The buttons and when they are disabled.\<close>

definition preview_enabled :: "import_state \<Rightarrow> bool" where
  "preview_enabled s \<longleftrightarrow> im_open s \<and> im_preview s = None \<and> \<not> (im_busy s \<or> js_trim (im_pastedText s) = [])"

definition has_parent :: "preview_resp \<Rightarrow> bool" where
  "has_parent p = (case p of ExceptionPreviewed e \<Rightarrow> (case ev_parentPolicyId e of Some i \<Rightarrow> i \<noteq> 0 | None \<Rightarrow> False) | _ \<Rightarrow> False)"

definition apply_enabled :: "import_kind \<Rightarrow> import_state \<Rightarrow> bool" where
  "apply_enabled kind s \<longleftrightarrow>
     (case im_preview s of
        None \<Rightarrow> False
      | Some p \<Rightarrow> im_open s \<and>
          \<not> (im_busy s \<or> (kind = ImportPolicy \<and> im_resolution s = Rename \<and> js_trim (im_newName s) = [])
             \<or> (kind = ImportException \<and> \<not> has_parent p)))"

text \<open>A dropped file is read when its name or its type says JSON.\<close>

definition readFile :: "string \<Rightarrow> string \<Rightarrow> string option" where
  "readFile name type =
     (if \<not> ends_with ''.json'' (map to_lower_char name) \<and> type \<noteq> ''application/json''
      then Some (CHR 0x22 # name @ CHR 0x22 # '' is not a .json file'') else None)"

datatype import_event =
    Opened | Closed | CancelClicked | TextChanged string
  | FileDropped string string | FileLoaded string | FileFailed string
  | PreviewClicked | PreviewArrived nat "string option + preview_resp"
  | BackClicked | ResolutionPicked resolution | NameChanged string
  | ApplyClicked | ApplyArrived nat "string option + apply_result"

definition paste_shown :: "import_state \<Rightarrow> bool" where
  "paste_shown s \<longleftrightarrow> im_open s \<and> im_preview s = None"

text \<open>Answers arrive in any order: an event names the request in flight that it answers.\<close>

definition remove_nth :: "nat \<Rightarrow> 'a list \<Rightarrow> 'a list" where
  "remove_nth n xs = take n xs @ drop (Suc n) xs"

definition answered_request :: "import_state \<Rightarrow> nat \<Rightarrow> in_flight option" where
  "answered_request s n = (if n < length (im_flight s) then Some (im_flight s ! n) else None)"

fun import_step :: "(string \<Rightarrow> string) \<Rightarrow> import_kind \<Rightarrow> import_state \<Rightarrow> import_event \<Rightarrow> import_state" where
  "import_step err kind s Opened = s\<lparr>im_open := True\<rparr>"
| "import_step err kind s Closed = reset_closed s"
| "import_step err kind s CancelClicked = (if im_open s \<and> \<not> im_busy s then reset_closed s else s)"
| "import_step err kind s (TextChanged t) = (if paste_shown s then s\<lparr>im_pastedText := t\<rparr> else s)"
| "import_step err kind s (FileDropped name type) =
     (if paste_shown s then (case readFile name type of Some e \<Rightarrow> s\<lparr>im_readError := Some e\<rparr> | None \<Rightarrow> s) else s)"
| "import_step err kind s (FileLoaded t) = s\<lparr>im_readError := None, im_pastedText := t\<rparr>"
| "import_step err kind s (FileFailed name) =
     (if paste_shown s then s\<lparr>im_readError := Some (''Could not read '' @ [CHR 0x22] @ name @ [CHR 0x22])\<rparr> else s)"
| "import_step err kind s PreviewClicked = (if preview_enabled s then runPreview err kind s else s)"
| "import_step err kind s (PreviewArrived n answer) =
     (case answered_request s n of
        Some (Previewing payload) \<Rightarrow>
          preview_answered kind payload answer (s\<lparr>im_flight := remove_nth n (im_flight s)\<rparr>)
      | _ \<Rightarrow> s)"
| "import_step err kind s BackClicked =
     (if im_open s \<and> im_preview s \<noteq> None \<and> \<not> im_busy s then s\<lparr>im_preview := None, im_previewedPayload := None\<rparr> else s)"
| "import_step err kind s (ResolutionPicked r) = (if im_open s \<and> im_preview s \<noteq> None then s\<lparr>im_resolution := r\<rparr> else s)"
| "import_step err kind s (NameChanged n) = (if im_open s \<and> im_preview s \<noteq> None then s\<lparr>im_newName := n\<rparr> else s)"
| "import_step err kind s ApplyClicked = (if apply_enabled kind s then runApply kind s else s)"
| "import_step err kind s (ApplyArrived n answer) =
     (case answered_request s n of
        Some (Applying payload res newName) \<Rightarrow>
          apply_answered kind answer (s\<lparr>im_flight := remove_nth n (im_flight s)\<rparr>)
      | _ \<Rightarrow> s)"


section \<open>What the dialog sends\<close>

definition apply_allowed :: "import_kind \<Rightarrow> preview_resp \<Rightarrow> resolution \<Rightarrow> string \<Rightarrow> bool" where
  "apply_allowed kind p res newName \<longleftrightarrow>
     (kind = ImportException \<longrightarrow> has_parent p) \<and> (kind = ImportPolicy \<and> res = Rename \<longrightarrow> js_trim newName \<noteq> [])"

text \<open>A request is a preview, or it applies a payload whose preview the dialog showed before.\<close>

definition request_ok :: "import_kind \<Rightarrow> import_effect list \<Rightarrow> api_request \<Rightarrow> bool" where
  "request_ok kind before r \<longleftrightarrow>
     (\<exists>j. r = previewByKind kind j)
     \<or> (\<exists>j p res newName. r = applyByKind kind j res newName \<and> PreviewShown j p \<in> set before
          \<and> apply_allowed kind p res newName)"

definition effects_ok :: "import_kind \<Rightarrow> import_effect list \<Rightarrow> bool" where
  "effects_ok kind es \<longleftrightarrow> (\<forall>before r after. es = before @ RequestSent r # after \<longrightarrow> request_ok kind before r)"

definition preview_paired :: "import_state \<Rightarrow> bool" where
  "preview_paired s \<longleftrightarrow>
     (case (im_preview s, im_previewedPayload s) of
        (Some p, Some j) \<Rightarrow> PreviewShown j p \<in> set (im_effects s)
      | (None, None) \<Rightarrow> True
      | _ \<Rightarrow> False)"

definition import_inv :: "import_kind \<Rightarrow> import_state \<Rightarrow> bool" where
  "import_inv kind s \<longleftrightarrow> preview_paired s \<and> effects_ok kind (im_effects s)"

lemma effects_ok_append:
  assumes "effects_ok kind es" "\<And>before r after. es' = before @ RequestSent r # after \<Longrightarrow> request_ok kind (es @ before) r"
  shows "effects_ok kind (es @ es')"
  unfolding effects_ok_def
proof (intro allI impI)
  fix before r after
  assume "es @ es' = before @ RequestSent r # after"
  then consider us where "es = before @ us" "us @ es' = RequestSent r # after"
    | us where "es @ us = before" "es' = us @ RequestSent r # after"
    by (auto simp: append_eq_append_conv2)
  then show "request_ok kind before r"
  proof cases
    case 1
    then show ?thesis using assms(1) assms(2) [of "[]"] by (cases us) (auto simp: effects_ok_def)
  next
    case 2
    then show ?thesis using assms(2) by blast
  qed
qed

lemma effects_ok_quiet:
  "effects_ok kind es \<Longrightarrow> (\<And>r. RequestSent r \<notin> set es') \<Longrightarrow> effects_ok kind (es @ es')"
  by (rule effects_ok_append) auto

lemma effects_ok_sent:
  "effects_ok kind es \<Longrightarrow> request_ok kind es r \<Longrightarrow> effects_ok kind (es @ [RequestSent r])"
  by (rule effects_ok_append) (auto simp: Cons_eq_append_conv)

lemma apply_effects_quiet: "RequestSent r \<notin> set (apply_effects kind result)"
  by (cases kind; cases result) auto

lemma import_inv_keep:
  assumes "import_inv kind s" "im_effects s' = im_effects s"
    "im_preview s' = im_preview s \<and> im_previewedPayload s' = im_previewedPayload s
     \<or> im_preview s' = None \<and> im_previewedPayload s' = None"
  shows "import_inv kind s'"
  using assms(1,3) unfolding import_inv_def preview_paired_def assms(2) by (elim disjE conjE) simp_all

lemma reset_closed_fields [simp]:
  "im_effects (reset_closed s) = im_effects s" "im_preview (reset_closed s) = None"
  "im_previewedPayload (reset_closed s) = None"
  by (simp_all add: reset_closed_def import_closed_def)

lemma reset_closed_inv: "import_inv kind s \<Longrightarrow> import_inv kind (reset_closed s)"
  by (erule import_inv_keep) simp_all

lemma runPreview_inv: "import_inv kind s \<Longrightarrow> im_preview s = None \<Longrightarrow> import_inv kind (runPreview err kind s)"
  by (auto simp: runPreview_def import_inv_def preview_paired_def request_ok_def intro!: effects_ok_sent
      split: option.splits)

lemma preview_answered_inv: "import_inv kind s \<Longrightarrow> import_inv kind (preview_answered kind payload answer s)"
  by (auto simp: preview_answered_def Let_def import_inv_def preview_paired_def intro!: effects_ok_quiet
      split: sum.split option.splits)

lemma runApply_inv:
  assumes "import_inv kind s" "apply_enabled kind s"
  shows "import_inv kind (runApply kind s)"
proof -
  obtain p j where p: "im_preview s = Some p" "im_previewedPayload s = Some j" "PreviewShown j p \<in> set (im_effects s)"
    using assms by (auto simp: apply_enabled_def import_inv_def preview_paired_def split: option.splits)
  then have "apply_allowed kind p (im_resolution s) (im_newName s)"
    using assms(2) by (auto simp: apply_enabled_def apply_allowed_def)
  with p(3) have "request_ok kind (im_effects s) (applyByKind kind j (im_resolution s) (im_newName s))"
    unfolding request_ok_def by blast
  then show ?thesis
    using assms(1) p by (auto simp: runApply_def import_inv_def preview_paired_def intro!: effects_ok_sent)
qed

lemma apply_answered_inv: "import_inv kind s \<Longrightarrow> import_inv kind (apply_answered kind answer s)"
proof (cases answer)
  case (Inl message)
  assume "import_inv kind s"
  then show ?thesis by (rule import_inv_keep) (simp_all add: apply_answered_def Inl)
next
  case (Inr result)
  assume "import_inv kind s"
  then have "import_inv kind (s\<lparr>im_effects := im_effects s @ apply_effects kind result
      @ [CacheInvalidated (invalidateAfterImport kind), NotifiedSuccess (successMessage kind)]\<rparr>)"
    using apply_effects_quiet
    by (auto simp: import_inv_def preview_paired_def intro!: effects_ok_quiet split: option.splits)
  then show ?thesis by (simp add: apply_answered_def Inr reset_closed_inv)
qed

lemma import_step_inv: "import_inv kind s \<Longrightarrow> import_inv kind (import_step err kind s e)"
proof (cases e)
  case PreviewClicked
  assume "import_inv kind s"
  then show ?thesis using PreviewClicked by (auto simp: preview_enabled_def runPreview_inv)
next
  case (PreviewArrived n answer)
  assume "import_inv kind s"
  then have "import_inv kind (s\<lparr>im_flight := remove_nth n (im_flight s)\<rparr>)" by (rule import_inv_keep) simp_all
  with \<open>import_inv kind s\<close> show ?thesis
    using PreviewArrived by (auto simp: preview_answered_inv split: option.split in_flight.split)
next
  case (ApplyArrived n answer)
  assume "import_inv kind s"
  then have "import_inv kind (s\<lparr>im_flight := remove_nth n (im_flight s)\<rparr>)" by (rule import_inv_keep) simp_all
  with \<open>import_inv kind s\<close> show ?thesis
    using ApplyArrived by (auto simp: apply_answered_inv split: option.split in_flight.split)
next
  case ApplyClicked
  assume "import_inv kind s"
  then show ?thesis using ApplyClicked by (simp add: runApply_inv)
qed (auto elim!: import_inv_keep split: option.split)

interpretation import_dialog: machine "import_step err kind" "import_inv kind" for err kind
  by unfold_locales (rule import_step_inv)

text \<open>C5. Whatever the order of clicks and answers, closing and opening included, every request of the
  dialog is a preview or applies a payload that the server previewed and the dialog showed before, for an
  exception with a parent policy and for a renamed policy with a name.\<close>

theorem import_applies_only_previewed:
  assumes "im_effects (run (import_step err kind) import_closed es) = before @ RequestSent r # after"
  shows "(\<exists>j. r = previewByKind kind j)
     \<or> (\<exists>j p res newName. r = applyByKind kind j res newName \<and> PreviewShown j p \<in> set before
          \<and> apply_allowed kind p res newName)"
proof -
  have "import_inv kind import_closed"
    by (simp add: import_inv_def preview_paired_def effects_ok_def import_closed_def)
  from import_dialog.run_inv [OF this, of err es] assms show ?thesis
    by (simp add: import_inv_def effects_ok_def request_ok_def)
qed

theorem import_applies_only_previewed_witness:
  "(\<exists>j. applyByKind ImportGuardrails (JObj []) Overwrite [] = previewByKind ImportGuardrails j)
   \<or> (\<exists>j p res newName. applyByKind ImportGuardrails (JObj []) Overwrite [] = applyByKind ImportGuardrails j res newName
        \<and> PreviewShown j p \<in> set [RequestSent (previewByKind ImportGuardrails (JObj [])), PreviewShown (JObj []) (GuardrailsPreviewed \<lparr>gv_before = None, gv_after = [], gv_differs = True\<rparr>)]
        \<and> apply_allowed ImportGuardrails p res newName)"
proof -
  have parse: "json_parse ''{}'' = Some (JObj [])" by code_simp
  have trim: "js_trim ''{}'' = ''{}''" by code_simp
  show ?thesis
    by (rule import_applies_only_previewed [of id ImportGuardrails
          "[Opened, TextChanged ''{}'', PreviewClicked, PreviewArrived 0 (Inr (GuardrailsPreviewed \<lparr>gv_before = None, gv_after = [], gv_differs = True\<rparr>)), ApplyClicked]" _ _ "[]"])
       (simp add: parse trim import_closed_def preview_enabled_def paste_shown_def runPreview_def
        answered_request_def remove_nth_def preview_answered_def apply_enabled_def runApply_def)
qed

text \<open>A preview that is answered after the dialog was closed opens the next dialog on a preview
  although nothing was pasted into it, and one click applies the abandoned payload.\<close>

theorem abandoned_preview_applied:
  "let s = run (import_step err ImportGuardrails) import_closed
             [Opened, TextChanged ''{}'', PreviewClicked, Closed, Opened, PreviewArrived 0 (Inr p), ApplyClicked]
   in im_pastedText s = [] \<and> im_preview s = Some p
      \<and> im_flight s = [Applying (JObj []) Overwrite []]
      \<and> last (im_effects s) = RequestSent (applyByKind ImportGuardrails (JObj []) Overwrite [])"
proof -
  have parse: "json_parse ''{}'' = Some (JObj [])" by code_simp
  have trim: "js_trim ''{}'' = ''{}''" by code_simp
  show ?thesis
    by (simp add: Let_def parse trim import_closed_def reset_closed_def preview_enabled_def paste_shown_def runPreview_def
        answered_request_def remove_nth_def preview_answered_def apply_enabled_def runApply_def)
qed

section \<open>What the server and the preview read\<close>

lemma wf_assoc_set: "wf_json (JObj es) \<Longrightarrow> wf_json v \<Longrightarrow> wf_json (JObj (assoc_set k v es))"
proof -
  have "list_all (\<lambda>(k, v). wf_json v) es \<Longrightarrow> wf_json v \<Longrightarrow> list_all (\<lambda>(k, v). wf_json v) (assoc_set k v es)"
    by (induction k v es rule: assoc_set.induct) auto
  then show "wf_json (JObj es) \<Longrightarrow> wf_json v \<Longrightarrow> wf_json (JObj (assoc_set k v es))"
    by (simp add: distinct_assoc_set)
qed

text \<open>The server reads from the body of an apply request every field of the pasted object unchanged,
  except the resolution and, for a policy, the new name, which are those chosen in the dialog.\<close>

theorem applied_import_read_back:
  assumes "wf_json (JObj es)"
  shows "\<exists>body fields. ar_body (applyByKind ImportPolicy (JObj es) res newName) = Some body
     \<and> json_parse body = Some (JObj fields)
     \<and> map_of fields = (map_of es)(''conflictResolution'' \<mapsto> JStr (resolution_text res), ''newName'' \<mapsto> JStr newName)"
proof -
  let ?fields = "assoc_set ''newName'' (JStr newName)
    (assoc_set ''conflictResolution'' (JStr (resolution_text res)) es)"
  have "wf_json (JObj ?fields)" by (intro wf_assoc_set assms) simp_all
  from json_parse_stringify [OF this]
  have "json_parse (stringify (JObj ?fields)) = Some (JObj ?fields)" .
  then show ?thesis
    by (intro exI [of _ "stringify (JObj ?fields)"] exI [of _ ?fields])
      (simp add: applyPolicyImport_def api_send_def del: stringify.simps)
qed

theorem applied_import_read_back_witness:
  "\<exists>body fields. ar_body (applyByKind ImportPolicy (JObj [(''kind'', JStr ''policy''), (''newName'', JNull)]) Rename ''a b'') = Some body
     \<and> json_parse body = Some (JObj fields)
     \<and> map_of fields = (map_of [(''kind'', JStr ''policy''), (''newName'', JNull)])
         (''conflictResolution'' \<mapsto> JStr (resolution_text Rename), ''newName'' \<mapsto> JStr ''a b'')"
  by (rule applied_import_read_back) simp

definition primitive :: "json \<Rightarrow> bool" where
  "primitive v = (case v of JArr _ \<Rightarrow> False | JObj _ \<Rightarrow> False | _ \<Rightarrow> True)"

lemma object_is_primitive: "primitive x \<Longrightarrow> object_is x y \<longleftrightarrow> x = y"
  by (cases x) (auto simp: primitive_def)

lemma diff_rows:
  assumes "list_all (\<lambda>(k, v). primitive v) before"
  shows "diffGuardrails (Some before) after =
    map (\<lambda>k. (k, map_of before k, map_of after k)) (filter (\<lambda>k. map_of before k \<noteq> map_of after k) (map fst after))"
proof -
  have "(case (map_of before k, map_of after k) of (Some x, Some y) \<Rightarrow> object_is x y | (None, None) \<Rightarrow> True | _ \<Rightarrow> False)
    \<longleftrightarrow> map_of before k = map_of after k" for k
    using assms by (auto simp: list_all_iff object_is_primitive split: option.split dest!: map_of_SomeD)
  then show ?thesis by (simp add: diffGuardrails_def)
qed

text \<open>The preview of guardrails has one row for each incoming field whose value differs from the
  current one, and no other; without a row the import changes nothing.\<close>

theorem guardrails_diff_exact:
  assumes "list_all (\<lambda>(k, v). primitive v) before" "distinct (map fst after)"
  shows "let rows = diffGuardrails (Some before) after
     in distinct (map fst rows)
        \<and> set rows = {(k, map_of before k, map_of after k) | k. k \<in> fst ` set after \<and> map_of before k \<noteq> map_of after k}
        \<and> (rows = [] \<longleftrightarrow> map_of after \<subseteq>\<^sub>m map_of before)"
proof -
  let ?ks = "filter (\<lambda>k. map_of before k \<noteq> map_of after k) (map fst after)"
  have rows: "diffGuardrails (Some before) after = map (\<lambda>k. (k, map_of before k, map_of after k)) ?ks"
    by (rule diff_rows [OF assms(1)])
  moreover have "set ?ks = {k \<in> fst ` set after. map_of before k \<noteq> map_of after k}" by auto
  moreover have "?ks = [] \<longleftrightarrow> map_of after \<subseteq>\<^sub>m map_of before"
    by (fastforce simp: filter_empty_conv map_le_def dom_map_of_conv_image_fst)
  ultimately show ?thesis
    using assms(2) by (simp add: Let_def comp_def distinct_filter) blast
qed

theorem guardrails_diff_exact_witness:
  "let rows = diffGuardrails (Some [(''a'', JBool True), (''b'', JStr ''x'')]) [(''b'', JStr ''y''), (''a'', JBool True)]
   in distinct (map fst rows)
      \<and> set rows = {(k, map_of [(''a'', JBool True), (''b'', JStr ''x'')] k, map_of [(''b'', JStr ''y''), (''a'', JBool True)] k)
           | k. k \<in> fst ` set [(''b'', JStr ''y''), (''a'', JBool True)]
                \<and> map_of [(''a'', JBool True), (''b'', JStr ''x'')] k \<noteq> map_of [(''b'', JStr ''y''), (''a'', JBool True)] k}
      \<and> (rows = [] \<longleftrightarrow> map_of [(''b'', JStr ''y''), (''a'', JBool True)] \<subseteq>\<^sub>m map_of [(''a'', JBool True), (''b'', JStr ''x'')])"
  by (rule guardrails_diff_exact) (simp_all add: primitive_def)

end
