(* ===== verification/ExportMenu.thy ===== *)
theory ExportMenu
  imports ImportDialog UiState
begin

text \<open>
  The text of an export (\<open>lib/exportFile.ts\<close>) and the menu that fetches and hands it out
  (\<open>components/import/ExportMenu.tsx\<close>). An exported text is what the import dialog of another
  environment reads, so the two are composed at the end.
\<close>

section \<open>Indented JSON\<close>

text \<open>A line break and the indentation of depth \<open>d\<close>.\<close>

definition new_line :: "nat \<Rightarrow> string" where
  "new_line d = CHR 0x0A # replicate (2 * d) CHR '' ''"

text \<open>\<open>JSON.stringify(payload, null, 2)\<close>.\<close>

fun pretty :: "nat \<Rightarrow> json \<Rightarrow> string" where
  "pretty d (JArr vs) =
     (if vs = [] then ''[]''
      else ''['' @ join_with '','' (map (\<lambda>v. new_line (Suc d) @ pretty (Suc d) v) vs) @ new_line d @ '']'')"
| "pretty d (JObj ms) =
     (if ms = [] then ''{}''
      else ''{'' @ join_with '','' (map (\<lambda>(k, v). new_line (Suc d) @ quote_str k @ '': '' @ pretty (Suc d) v) ms)
        @ new_line d @ ''}'')"
| "pretty d v = stringify v"

definition export_text :: "json \<Rightarrow> string" where
  "export_text payload = pretty 0 payload"

section \<open>The parser skips the layout\<close>

definition all_ws :: "string \<Rightarrow> bool" where
  "all_ws w \<longleftrightarrow> (\<forall>c \<in> set w. c \<in> {CHR '' '', CHR 0x09, CHR 0x0A, CHR 0x0D})"

lemma skip_ws_append [simp]: "all_ws w \<Longrightarrow> skip_ws (w @ s) = skip_ws s"
  by (simp add: skip_ws_def all_ws_def)

lemma all_ws_new_line [simp]: "all_ws (new_line d)"
  by (simp add: all_ws_def new_line_def)

lemma all_ws_space [simp]: "all_ws '' ''" "all_ws []"
  by (simp_all add: all_ws_def)

lemma p_value_ws: "all_ws w \<Longrightarrow> p_value (Suc n) (w @ s) = p_value (Suc n) s"
  by simp

text \<open>A text that reads as a value wherever a separator or a line break follows.\<close>

definition reads_as :: "string \<Rightarrow> json \<Rightarrow> bool" where
  "reads_as t v \<longleftrightarrow> t \<noteq> [] \<and> (\<forall>n r. length t \<le> n \<longrightarrow> sep_next r \<longrightarrow> p_value n (t @ r) = Some (v, r))"

lemma reads_as_ws: "all_ws w \<Longrightarrow> reads_as t v \<Longrightarrow> reads_as (w @ t) v"
  unfolding reads_as_def
proof (intro conjI allI impI)
  fix n r
  assume w: "all_ws w" and t: "t \<noteq> [] \<and> (\<forall>n r. length t \<le> n \<longrightarrow> sep_next r \<longrightarrow> p_value n (t @ r) = Some (v, r))"
    and n: "length (w @ t) \<le> n" and r: "sep_next r"
  then obtain m where "n = Suc m" by (cases n) auto
  with w t n r show "p_value n ((w @ t) @ r) = Some (v, r)" by (metis append_assoc le_add2 le_trans length_append p_value_ws)
qed simp

lemma sep_next_new_line [simp]: "sep_next (new_line d @ s)"
  by (simp add: sep_next_def new_line_def)

lemma p_elems_texts:
  assumes "list_all2 reads_as ts vs" "ts \<noteq> []" "Suc (length (join_with '','' ts)) \<le> n"
  shows "p_elems n (join_with '','' ts @ new_line d @ '']'' @ r) = Some (vs, r)"
  using assms
proof (induction ts vs arbitrary: n rule: list_all2_induct)
  case Nil
  then show ?case by simp
next
  case (Cons t ts v vs)
  obtain m where n: "n = Suc m" using Cons.prems(2) by (cases n) auto
  show ?case
  proof (cases "ts = []")
    case True
    then have "p_value m (t @ new_line d @ '']'' @ r) = Some (v, new_line d @ '']'' @ r)"
      using Cons.hyps(1) Cons.prems n unfolding reads_as_def by simp
    moreover have "vs = []" using True Cons.hyps(2) by simp
    ultimately show ?thesis using True n skip_sep(2) [of r] by simp
  next
    case False
    let ?rest = "join_with '','' ts @ new_line d @ '']'' @ r"
    have "p_value m (t @ '','' @ ?rest) = Some (v, '','' @ ?rest)"
      using Cons.hyps(1) Cons.prems n False sep_next_sep(1) [of ?rest] unfolding reads_as_def
      by (simp add: join_with_Cons)
    moreover have "p_elems m ?rest = Some (vs, r)"
      using Cons.prems n False by (intro Cons.IH) (simp_all add: join_with_Cons)
    ultimately show ?thesis
      using n False skip_sep(1) [of ?rest] by (simp add: join_with_Cons)
  qed
qed

definition entry_text :: "nat \<Rightarrow> string \<times> string \<Rightarrow> string" where
  "entry_text d = (\<lambda>(k, t). new_line d @ quote_str k @ '': '' @ t)"

lemma p_members_entry:
  assumes "p_value n ('' '' @ t @ r) = Some (v, r)"
  shows "p_members (Suc n) (entry_text d (k, t) @ r)
     = (case skip_ws r of
          [] \<Rightarrow> None
        | c # r3 \<Rightarrow>
            if c = CHR '','' then map_option (\<lambda>(ms, r4). ((k, v) # ms, r4)) (p_members n r3)
            else if c = CHR ''}'' then Some ([(k, v)], r3) else None)"
proof -
  have "p_string (concat (map escape_char k) @ CHR 0x22 # '': '' @ t @ r) = Some (k, '': '' @ t @ r)"
    by (rule p_string_quoted)
  moreover have "skip_ws ('': '' @ t @ r) = '': '' @ t @ r" by (simp add: skip_ws_def)
  ultimately show ?thesis
    using assms by (simp add: entry_text_def quote_str_def)
qed

lemma p_members_texts:
  assumes "list_all2 (\<lambda>(k, t) (k', v). k = k' \<and> reads_as t v) es ms" "es \<noteq> []"
    "Suc (length (join_with '','' (map (entry_text e) es))) \<le> n"
  shows "p_members n (join_with '','' (map (entry_text e) es) @ new_line d @ ''}'' @ r) = Some (ms, r)"
  using assms
proof (induction es ms arbitrary: n rule: list_all2_induct)
  case Nil
  then show ?case by simp
next
  case (Cons x es y ms)
  obtain k t v where x: "x = (k, t)" "y = (k, v)" and t: "reads_as ('' '' @ t) v"
    using Cons.hyps(1) reads_as_ws [of "'' ''"] by (cases x; cases y) auto
  obtain m where n: "n = Suc m" using Cons.prems(2) by (cases n) auto
  show ?case
  proof (cases "es = []")
    case True
    then have "p_value m ('' '' @ t @ new_line d @ ''}'' @ r) = Some (v, new_line d @ ''}'' @ r)"
      using t Cons.prems n x unfolding reads_as_def by (simp add: entry_text_def)
    moreover have "ms = []" using True Cons.hyps(2) by simp
    ultimately show ?thesis using True n x p_members_entry skip_sep(3) [of r] by simp
  next
    case False
    let ?rest = "join_with '','' (map (entry_text e) es) @ new_line d @ ''}'' @ r"
    have "p_value m ('' '' @ t @ '','' @ ?rest) = Some (v, '','' @ ?rest)"
      using t Cons.prems n x False sep_next_sep(1) [of ?rest] unfolding reads_as_def
      by (simp add: join_with_Cons entry_text_def)
    moreover have "p_members m ?rest = Some (ms, r)"
      using Cons.prems n False x by (intro Cons.IH) (simp_all add: join_with_Cons entry_text_def)
    ultimately show ?thesis
      using n x False p_members_entry [of m t "'','' @ ?rest" v e k] skip_sep(1) [of ?rest] by (simp add: join_with_Cons)
  qed
qed

lemma reads_as_stringify: "wf_json v \<Longrightarrow> reads_as (stringify v) v"
  using reads_value [of v] stringify_hd [of v] unfolding reads_def reads_as_def by auto

lemma pretty_hd: "wf_json v \<Longrightarrow> \<exists>c t. pretty d v = c # t \<and> c \<notin> {CHR '' '', CHR 0x09, CHR 0x0A, CHR 0x0D, CHR '']'', CHR ''}''}"
  using stringify_hd [of v] by (cases v) auto

lemma not_closed:
  assumes "all_ws w" "c \<notin> {CHR '' '', CHR 0x09, CHR 0x0A, CHR 0x0D, CHR '']'', CHR ''}''}"
  shows "\<exists>s. skip_ws (join_with '','' ((w @ c # t) # ts) @ r) = c # s"
proof -
  obtain x where "join_with '','' ((w @ c # t) # ts) @ r = w @ c # x"
    by (cases ts) simp_all
  then show ?thesis using assms by (simp add: skip_ws_def [of "c # x"])
qed

lemma pretty_reads: "wf_json v \<Longrightarrow> reads_as (pretty d v) v"
proof (induction v arbitrary: d)
  case (JArr vs)
  show ?case
  proof (cases vs)
    case Nil
    then show ?thesis using reads_as_stringify [of "JArr []"] by simp
  next
    case (Cons v ws)
    let ?ts = "map (\<lambda>v. new_line (Suc d) @ pretty (Suc d) v) vs"
    have texts: "list_all2 reads_as ?ts vs"
      using JArr by (auto simp: list_all2_conv_all_nth list_all_length intro!: reads_as_ws)
    have "wf_json v" using JArr Cons by simp
    then obtain c t where "pretty (Suc d) v = c # t" "c \<notin> {CHR '' '', CHR 0x09, CHR 0x0A, CHR 0x0D, CHR '']'', CHR ''}''}"
      using pretty_hd by blast
    then have start: "\<exists>s. skip_ws (join_with '','' ?ts @ r) = c # s" for r
      using not_closed [of "new_line (Suc d)"] Cons by simp
    have tx: "pretty d (JArr vs) = ''['' @ join_with '','' ?ts @ new_line d @ '']''"
      using Cons by simp
    show ?thesis
      unfolding reads_as_def
    proof (intro conjI allI impI)
      fix n r
      assume n: "length (pretty d (JArr vs)) \<le> n"
      then obtain i where i: "n = Suc i" using tx by (cases n) auto
      have "p_elems i (join_with '','' ?ts @ new_line d @ '']'' @ r) = Some (vs, r)"
        using n i tx Cons by (intro p_elems_texts texts) (simp_all add: new_line_def)
      then show "p_value n (pretty d (JArr vs) @ r) = Some (JArr vs, r)"
        using start [of "new_line d @ '']'' @ r"] \<open>c \<notin> _\<close> i tx by (auto simp: skip_ws_def [of "CHR ''['' # x" for x])
    qed (simp add: tx)
  qed
next
  case (JObj ms)
  show ?case
  proof (cases ms)
    case Nil
    then show ?thesis using reads_as_stringify [of "JObj []"] by simp
  next
    case (Cons m ws)
    let ?es = "map (\<lambda>(k, v). (k, pretty (Suc d) v)) ms"
    let ?b = "join_with '','' (map (entry_text (Suc d)) ?es)"
    have texts: "list_all2 (\<lambda>(k, t) (k', v). k = k' \<and> reads_as t v) ?es ms"
      using JObj by (fastforce simp: list_all2_conv_all_nth list_all_length in_set_conv_nth split: prod.split)
    have start: "\<exists>s. skip_ws (?b @ r) = CHR 0x22 # s" for r
      using not_closed [of "new_line (Suc d)" "CHR 0x22"] Cons by (cases m) (simp add: entry_text_def quote_str_def)
    have tx: "pretty d (JObj ms) = ''{'' @ ?b @ new_line d @ ''}''"
      using Cons by (simp add: entry_text_def comp_def split_def)
    have "fold (\<lambda>(k, v). assoc_set k v) ms [] = ms"
      using JObj.prems by (subst fold_assoc_set_distinct) auto
    show ?thesis
      unfolding reads_as_def
    proof (intro conjI allI impI)
      fix n r
      assume n: "length (pretty d (JObj ms)) \<le> n"
      then obtain i where i: "n = Suc i" using tx by (cases n) auto
      have "p_members i (?b @ new_line d @ ''}'' @ r) = Some (ms, r)"
        using n i tx Cons by (intro p_members_texts texts) (simp_all add: new_line_def)
      then show "p_value n (pretty d (JObj ms) @ r) = Some (JObj ms, r)"
        using start [of "new_line d @ ''}'' @ r"] \<open>fold _ ms [] = ms\<close> i tx
        by (auto simp: skip_ws_def [of "CHR ''{'' # x" for x])
    qed (simp add: tx)
  qed
qed (use reads_as_stringify in \<open>simp_all del: stringify.simps\<close>)

lemma json_parse_pretty: "wf_json v \<Longrightarrow> json_parse (export_text v) = Some v"
proof -
  assume "wf_json v"
  then have "p_value (Suc (length (export_text v))) (export_text v @ []) = Some (v, [])"
    using pretty_reads [of v 0] unfolding reads_as_def sep_next_def export_text_def by (metis le_SucI order_refl)
  then show ?thesis by (simp add: json_parse_def skip_ws_def)
qed

section \<open>The menu\<close>

text \<open>What the browser makes of a write to the clipboard.\<close>

datatype clipboard = ClipboardUnavailable | ClipboardRejects "string option" | ClipboardWrites

definition copyJsonToClipboard :: "clipboard \<Rightarrow> json \<Rightarrow> string option + string" where
  "copyJsonToClipboard c payload =
     (case c of
        ClipboardUnavailable \<Rightarrow> Inl (Some ''Clipboard API is unavailable in this browser'')
      | ClipboardRejects message \<Rightarrow> Inl message
      | ClipboardWrites \<Rightarrow> Inr (export_text payload))"

text \<open>The name and the text of the file.\<close>

definition downloadJsonFile :: "json \<Rightarrow> string \<Rightarrow> string \<times> string" where
  "downloadJsonFile payload baseName = (download_name baseName, export_text payload)"

datatype menu_job = CopyJob | DownloadJob

record menu_state =
  mn_open :: bool
  mn_busy :: bool
  mn_jobs :: "menu_job list"
  mn_clipboard :: "string option"
  mn_files :: "(string \<times> string) list"
  mn_notes :: "(string \<times> snack_severity) list"

text \<open>\<open>JobDone\<close> carries what \<open>fetchPayload\<close> gave, an error or the payload, and the state of the clipboard.\<close>

datatype menu_event = MenuOpened | MenuClosed | CopyClicked | DownloadClicked | JobDone "string option + json" clipboard

definition start_job :: "menu_job \<Rightarrow> menu_state \<Rightarrow> menu_state" where
  "start_job j s = (if \<not> mn_open s \<or> mn_busy s then s else s\<lparr>mn_busy := True, mn_jobs := mn_jobs s @ [j]\<rparr>)"

definition job_result :: "string \<Rightarrow> menu_job \<Rightarrow> string option + json \<Rightarrow> clipboard \<Rightarrow> menu_state \<Rightarrow> menu_state" where
  "job_result downloadName j fetched c s =
     (let failed = (\<lambda>message. s\<lparr>mn_notes := mn_notes s @ [(formatError message, SnackError)]\<rparr>)
      in case fetched of
           Inl message \<Rightarrow> failed message
         | Inr payload \<Rightarrow>
             (case j of
                CopyJob \<Rightarrow>
                  (case copyJsonToClipboard c payload of
                     Inl message \<Rightarrow> failed message
                   | Inr t \<Rightarrow> s\<lparr>mn_clipboard := Some t, mn_notes := mn_notes s @ [(''Copied JSON to clipboard'', SnackSuccess)]\<rparr>)
              | DownloadJob \<Rightarrow>
                  s\<lparr>mn_files := mn_files s @ [downloadJsonFile payload downloadName],
                    mn_notes := mn_notes s @ [(''Download started'', SnackSuccess)]\<rparr>))"

text \<open>The \<open>finally\<close> block frees the menu and closes it.\<close>

fun menu_step :: "string \<Rightarrow> menu_state \<Rightarrow> menu_event \<Rightarrow> menu_state" where
  "menu_step name s MenuOpened = s\<lparr>mn_open := True\<rparr>"
| "menu_step name s MenuClosed = s\<lparr>mn_open := False\<rparr>"
| "menu_step name s CopyClicked = start_job CopyJob s"
| "menu_step name s DownloadClicked = start_job DownloadJob s"
| "menu_step name s (JobDone fetched c) =
     (case mn_jobs s of
        [] \<Rightarrow> s
      | j # js \<Rightarrow> (job_result name j fetched c s)\<lparr>mn_jobs := js, mn_busy := False, mn_open := False\<rparr>)"

definition menu_start :: menu_state where
  "menu_start = \<lparr>mn_open = False, mn_busy = False, mn_jobs = [], mn_clipboard = None, mn_files = [], mn_notes = []\<rparr>"

text \<open>One job at a time, and every job that ended left exactly one notification.\<close>

definition menu_inv :: "menu_state \<Rightarrow> bool" where
  "menu_inv s \<longleftrightarrow> length (mn_jobs s) \<le> 1 \<and> (mn_busy s \<longleftrightarrow> mn_jobs s \<noteq> [])"

lemma job_result_fields [simp]:
  "mn_jobs (job_result name j fetched c s) = mn_jobs s"
  by (simp add: job_result_def Let_def split: sum.split menu_job.split)

interpretation export_menu: machine "menu_step name" menu_inv for name
proof unfold_locales
  fix s e
  assume "menu_inv s"
  then show "menu_inv (menu_step name s e)"
    by (cases e) (auto simp: menu_inv_def start_job_def split: list.splits)
qed

lemma menu_one_job: "length (mn_jobs (run (menu_step name) menu_start es)) \<le> 1"
  using export_menu.run_inv [of menu_start name es] by (simp add: menu_inv_def menu_start_def)

section \<open>From the menu into the dialog\<close>

lemma export_text_visible: "wf_json v \<Longrightarrow> js_trim (export_text v) \<noteq> []"
proof -
  assume v: "wf_json v"
  have "\<exists>c \<in> set (export_text v). \<not> is_space c"
  proof (cases v)
    case (JNum x)
    obtain i where i: "stringify v = show_int i" using stringify_wf_num v JNum by blast
    obtain c t where "show_int i = c # t" "digit_or_minus c" using show_int_hd by blast
    then have "c \<in> set (stringify v)" "\<not> is_space c"
      using i is_digit_not_space [of c] by (auto simp: digit_or_minus_def) (simp add: is_space_def)
    then show ?thesis using JNum by (auto simp: export_text_def)
  qed (auto simp: export_text_def quote_str_def is_space_def)
  then show ?thesis using js_trim_not_Nil by blast
qed

text \<open>C8. What one environment exports, the other previews: the text of the clipboard and the text of the
  file, pasted into the dialog, parse to exactly the exported payload, and the preview request carries it.\<close>

theorem export_import_roundtrip:
  assumes "wf_json payload" "payload \<noteq> JNull" "t \<in> {copied, downloaded}"
    "mn_clipboard (run (menu_step name) menu_start [MenuOpened, CopyClicked, JobDone (Inr payload) ClipboardWrites]) = Some copied"
    "mn_files (run (menu_step name) menu_start [MenuOpened, DownloadClicked, JobDone (Inr payload) c]) = [(file, downloaded)]"
  shows "let s = run (import_step err kind) import_closed [Opened, TextChanged t, PreviewClicked]
     in im_flight s = [Previewing payload] \<and> im_parseError s = None
        \<and> im_effects s = [RequestSent (previewByKind kind payload)]
        \<and> readFile file ''application/json'' = None"
proof -
  have "t = export_text payload"
    using assms(3-5)
    by (auto simp: menu_start_def start_job_def job_result_def copyJsonToClipboard_def downloadJsonFile_def Let_def)
  then show ?thesis
    using assms(1,2) json_parse_pretty [of payload] export_text_visible [of payload]
    by (simp add: Let_def import_closed_def paste_shown_def preview_enabled_def runPreview_def readFile_def)
qed


definition sample_export :: json where
  "sample_export = JObj [(''kind'', JStr ''policy''), (''windows'', JArr [JObj [(''days'', JArr [JNum (num_int 1), JNum (num_int 5)])], JArr []])]"

theorem export_import_roundtrip_witness:
  "let s = run (import_step id ImportPolicy) import_closed [Opened, TextChanged (export_text sample_export), PreviewClicked]
   in im_flight s = [Previewing sample_export] \<and> im_parseError s = None
      \<and> im_effects s = [RequestSent (previewByKind ImportPolicy sample_export)]
      \<and> readFile ''night-shift.json'' ''application/json'' = None"
proof -
  have wf: "wf_json sample_export" "sample_export \<noteq> JNull" by (simp_all add: sample_export_def)
  have name: "download_name ''Night Shift'' = ''night-shift.json''" by code_simp
  show ?thesis
    by (rule export_import_roundtrip [OF wf, of _ "export_text sample_export" "export_text sample_export" "''Night Shift''" ClipboardWrites])
       (simp_all add: menu_start_def start_job_def job_result_def copyJsonToClipboard_def downloadJsonFile_def name)
qed

end
