(* ===== verification/CallFeed.thy ===== *)
theory CallFeed
  imports ObsStream Tables
begin

text \<open>
  \<open>components/observability/CallFeed.tsx\<close>: the feed of recent API and function calls below the metrics.
  Its filters, the latency buckets, the grouped view, the shared clock of the relative times, the automatic
  scrolling and the curl command of a row. The calls come from the observability stream.
\<close>

section \<open>Constants\<close>

definition METHOD_COLORS :: "(string \<times> string) list" where
  "METHOD_COLORS = [(''GET'', ''#22C55E''), (''POST'', ''#3B82F6''), (''PUT'', ''#F59E0B''), (''DELETE'', ''#EF4444''),
     (''PATCH'', ''#A855F7''), (''WS'', ''#06B6D4''), (''SSE'', ''#8B5CF6'')]"

fun category_name :: "call_category \<Rightarrow> string" where
  "category_name CatHttp = ''http''"
| "category_name CatK8s = ''k8s''"
| "category_name CatStore = ''store''"
| "category_name CatInternal = ''internal''"
| "category_name CatWs = ''ws''"

definition CATEGORY_COLORS :: "(string \<times> string) list" where
  "CATEGORY_COLORS = [(''http'', ''#60A5FA''), (''k8s'', ''#A78BFA''), (''store'', ''#34D399''), (''internal'', ''#94A3B8''),
     (''ws'', ''#FBBF24'')]"

definition color_of :: "(string \<times> string) list \<Rightarrow> string \<Rightarrow> string" where
  "color_of colors k = (case map_of colors k of Some c \<Rightarrow> c | None \<Rightarrow> ''#94A3B8'')"

definition DURATION_CAP_MS :: rat where "DURATION_CAP_MS = 200"
definition CALLS_PER_SEC_WINDOW_MS :: int where "CALLS_PER_SEC_WINDOW_MS = 10000"
definition SCROLL_NEAR_BOTTOM_PX :: int where "SCROLL_NEAR_BOTTOM_PX = 40"
definition HTTP_METHODS :: "string list" where "HTTP_METHODS = [''GET'', ''POST'', ''PUT'', ''DELETE'', ''PATCH'']"
definition MAX_DISPLAY_ROWS :: nat where "MAX_DISPLAY_ROWS = 100"
definition ANIMATED_ROW_COUNT :: nat where "ANIMATED_ROW_COUNT = 5"
definition SPARKLINE_MAX_HEIGHT :: rat where "SPARKLINE_MAX_HEIGHT = 16"

section \<open>Filters\<close>

definition matchesSearch :: "api_call \<Rightarrow> string \<Rightarrow> bool" where
  "matchesSearch call term =
     (let includes = (\<lambda>s. str_includes term (map to_lower_char s))
      in includes (ac_path call) \<or> includes (ac_goFunc call) \<or> includes (ac_component call))"

text \<open>The category filter is \<open>None\<close> for all.\<close>

definition filtered_calls :: "api_call list \<Rightarrow> call_category option \<Rightarrow> string \<Rightarrow> api_call list" where
  "filtered_calls calls category search =
     (let byCategory = (case category of None \<Rightarrow> calls | Some c \<Rightarrow> filter (\<lambda>x. ac_category x = c) calls)
      in if js_trim search = [] then byCategory
         else filter (\<lambda>c. matchesSearch c (map to_lower_char search)) byCategory)"

definition is_error_call :: "api_call \<Rightarrow> bool" where
  "is_error_call c \<longleftrightarrow> 400 \<le> ac_statusCode c"

definition error_badge :: "api_call list \<Rightarrow> string option" where
  "error_badge filtered =
     (let n = length (filter is_error_call filtered)
      in if n > 0 then Some (show_nat n @ '' error'' @ (if n \<noteq> 1 then ''s'' else [])) else None)"

section \<open>Latency\<close>

definition latency_buckets :: "api_call list \<Rightarrow> (nat \<times> string) list" where
  "latency_buckets calls =
     (let bucket = (\<lambda>c (fast, medium, slow).
            if ac_durationMs c < Num 50 then (Suc fast, medium, slow)
            else if ac_durationMs c \<le> Num 100 then (fast, Suc medium, slow)
            else (fast, medium, Suc slow));
          (fast, medium, slow) = fold bucket calls (0, 0, 0)
      in [(fast, ''#22C55E''), (medium, ''#F59E0B''), (slow, ''#EF4444'')])"

definition bar_height :: "nat list \<Rightarrow> nat \<Rightarrow> rat" where
  "bar_height counts n =
     (let maxCount = Max (set (1 # counts)) in max 2 (of_nat n / of_nat maxCount * SPARKLINE_MAX_HEIGHT))"

text \<open>The palette is \<open>error\<close>, \<open>warning\<close> or \<open>success\<close>.\<close>

definition getDurationColor :: "jsnum \<Rightarrow> string" where
  "getDurationColor ms = (if Num 100 < ms then ''error'' else if Num 50 < ms then ''warning'' else ''success'')"

definition duration_text :: "jsnum \<Rightarrow> string" where
  "duration_text ms = (if Num 0 < ms then to_fixed1 ms @ ''ms'' else ''--'')"

definition duration_bar :: "rat \<Rightarrow> rat" where
  "duration_bar ms = min 1 (ms / DURATION_CAP_MS) * 100"

section \<open>The grouped view\<close>

record group_entry =
  ge_component :: string
  ge_goFunc :: string
  ge_total :: nat
  ge_durationSum :: jsnum
  ge_errors :: nat

record call_group =
  cg_key :: string
  cg_component :: string
  cg_goFunc :: string
  cg_count :: nat
  cg_avgDurationMs :: jsnum
  cg_errorPercent :: rat

definition call_key :: "api_call \<Rightarrow> string" where
  "call_key c = ac_component c @ ''::'' @ ac_goFunc c"

definition add_call :: "api_call \<Rightarrow> group_entry \<Rightarrow> group_entry" where
  "add_call c e =
     e\<lparr>ge_total := ge_total e + 1, ge_durationSum := ge_durationSum e + ac_durationMs c,
       ge_errors := ge_errors e + (if is_error_call c then 1 else 0)\<rparr>"

definition new_entry :: "api_call \<Rightarrow> group_entry" where
  "new_entry c = \<lparr>ge_component = ac_component c, ge_goFunc = ac_goFunc c, ge_total = 0, ge_durationSum = 0, ge_errors = 0\<rparr>"

definition group_of_entry :: "string \<times> group_entry \<Rightarrow> call_group" where
  "group_of_entry = (\<lambda>(key, e).
     \<lparr>cg_key = key, cg_component = ge_component e, cg_goFunc = ge_goFunc e, cg_count = ge_total e,
      cg_avgDurationMs = div_by (ge_durationSum e) (of_nat (ge_total e)),
      cg_errorPercent = of_nat (ge_errors e) / of_nat (ge_total e) * 100\<rparr>)"

definition by_count :: "call_group \<Rightarrow> call_group \<Rightarrow> rat" where
  "by_count a b = of_nat (cg_count b) - of_nat (cg_count a)"

definition groupedCalls :: "api_call list \<Rightarrow> call_group list" where
  "groupedCalls calls =
     js_sort by_count (map group_of_entry (fold (group_into call_key add_call new_entry) calls []))"

section \<open>The rows\<close>

definition displayed_calls :: "api_call list \<Rightarrow> api_call list" where
  "displayed_calls filtered = slice_last MAX_DISPLAY_ROWS filtered"

text \<open>The rows without and with an entrance animation.\<close>

definition static_rows :: "api_call list \<Rightarrow> api_call list" where
  "static_rows displayed = take (length displayed - ANIMATED_ROW_COUNT) displayed"

definition animated_rows :: "api_call list \<Rightarrow> api_call list" where
  "animated_rows displayed = drop (length displayed - ANIMATED_ROW_COUNT) displayed"

text \<open>\<open>now\<close> is the shared clock; an unreadable timestamp gives NaN, which prints as minutes.\<close>

definition time_label :: "js_env \<Rightarrow> int \<Rightarrow> string \<Rightarrow> string" where
  "time_label env now timestamp =
     (case date_parse env timestamp of
        None \<Rightarrow> ''NaNm ago''
      | Some t \<Rightarrow>
          (let elapsed = max 0 ((now - t) div 1000)
           in if elapsed < 60 then show_int elapsed @ ''s ago'' else show_int (elapsed div 60) @ ''m ago''))"

definition calls_per_sec :: "js_env \<Rightarrow> int \<Rightarrow> api_call list \<Rightarrow> string" where
  "calls_per_sec env now calls =
     (let cutoff = now - CALLS_PER_SEC_WINDOW_MS;
          recent = filter (\<lambda>c. case date_parse env (ac_timestamp c) of Some t \<Rightarrow> t > cutoff | None \<Rightarrow> False) calls
      in to_fixed1 (Num (of_nat (length recent) / (of_int CALLS_PER_SEC_WINDOW_MS / 1000))) @ ''/s'')"

section \<open>The shared clock\<close>

text \<open>One timer serves all mounted components: the first listener starts it, the last one stops it.\<close>

record shared_clock =
  ck_now :: int
  ck_listeners :: "nat list"
  ck_timer :: bool

datatype clock_event = Subscribed nat | Unsubscribed nat | Ticked int

fun clock_step :: "shared_clock \<Rightarrow> clock_event \<Rightarrow> shared_clock" where
  "clock_step s (Subscribed l) =
     s\<lparr>ck_listeners := (if l \<in> set (ck_listeners s) then ck_listeners s else ck_listeners s @ [l]), ck_timer := True\<rparr>"
| "clock_step s (Unsubscribed l) =
     (let ls = filter (\<lambda>x. x \<noteq> l) (ck_listeners s)
      in s\<lparr>ck_listeners := ls, ck_timer := (if ls = [] then False else ck_timer s)\<rparr>)"
| "clock_step s (Ticked now) = (if ck_timer s then s\<lparr>ck_now := now\<rparr> else s)"

definition clock_inv :: "shared_clock \<Rightarrow> bool" where
  "clock_inv s \<longleftrightarrow> distinct (ck_listeners s) \<and> (ck_timer s \<longleftrightarrow> ck_listeners s \<noteq> [])"

interpretation clock: machine clock_step clock_inv
proof unfold_locales
  fix s e
  assume "clock_inv s"
  then show "clock_inv (clock_step s e)"
    by (cases e) (auto simp: clock_inv_def Let_def)
qed

lemma clock_timer_iff_listener:
  "let s = run clock_step \<lparr>ck_now = now, ck_listeners = [], ck_timer = False\<rparr> es
   in ck_timer s \<longleftrightarrow> ck_listeners s \<noteq> []"
  using clock.run_inv [of "\<lparr>ck_now = now, ck_listeners = [], ck_timer = False\<rparr>" es]
  by (simp add: Let_def clock_inv_def)

text \<open>While nobody listens the clock stands still, and the first reader after that sees the old time.\<close>

lemma clock_stale_after_pause:
  "ck_listeners s = [] \<Longrightarrow> clock_inv s \<Longrightarrow> ck_now (run clock_step s [Ticked later, Subscribed l]) = ck_now s"
  by (simp add: clock_inv_def)

section \<open>Automatic scrolling\<close>

text \<open>The effect depends on the number of calls and on the pause; \<open>sc_jumps\<close> counts the jumps to the bottom.\<close>

record auto_scroll =
  sc_length :: nat
  sc_paused :: bool
  sc_jumps :: nat

datatype scroll_event = CallsRendered nat | Scrolled int int int | BannerClicked

definition scroll_effect :: "auto_scroll \<Rightarrow> auto_scroll \<Rightarrow> auto_scroll" where
  "scroll_effect old new =
     (if (sc_length new \<noteq> sc_length old \<or> sc_paused new \<noteq> sc_paused old) \<and> \<not> sc_paused new
      then new\<lparr>sc_jumps := sc_jumps new + 1\<rparr> else new)"

definition isNearBottom :: "int \<Rightarrow> int \<Rightarrow> int \<Rightarrow> bool" where
  "isNearBottom scrollHeight scrollTop clientHeight \<longleftrightarrow> scrollHeight - scrollTop - clientHeight < SCROLL_NEAR_BOTTOM_PX"

fun scroll_step :: "auto_scroll \<Rightarrow> scroll_event \<Rightarrow> auto_scroll" where
  "scroll_step s (CallsRendered n) = scroll_effect s (s\<lparr>sc_length := n\<rparr>)"
| "scroll_step s (Scrolled h t c) = scroll_effect s (s\<lparr>sc_paused := \<not> isNearBottom h t c\<rparr>)"
| "scroll_step s BannerClicked = scroll_effect s (s\<lparr>sc_paused := False\<rparr>)"

section \<open>The curl command\<close>

text \<open>\<open>path.replace(/'/g, "'\\''")\<close>: a quote is closed, escaped and opened again.\<close>

definition escape_quotes :: "string \<Rightarrow> string" where
  "escape_quotes s = concat (map (\<lambda>c. if c = CHR 0x27 then [CHR 0x27, CHR 0x5C, CHR 0x27, CHR 0x27] else [c]) s)"

definition buildCurlCommand :: "string \<Rightarrow> api_call \<Rightarrow> string" where
  "buildCurlCommand env_url call =
     (let baseUrl = (if env_url = [] then ''http://localhost:8080'' else env_url)
      in ''curl -X '' @ ac_method call @ '' '' @ [CHR 0x27] @ baseUrl @ escape_quotes (ac_path call) @ [CHR 0x27])"

section \<open>The feed\<close>

record call_feed =
  cf_filter :: "call_category option"
  cf_search :: string
  cf_expandedId :: "string option"
  cf_grouped :: bool

datatype feed_event =
  CategoryClicked "call_category option" | SearchTyped string | RowClicked string | ViewToggled "bool option"

fun feed_step :: "call_feed \<Rightarrow> feed_event \<Rightarrow> call_feed" where
  "feed_step s (CategoryClicked c) = s\<lparr>cf_filter := c\<rparr>"
| "feed_step s (SearchTyped t) = s\<lparr>cf_search := t\<rparr>"
| "feed_step s (RowClicked i) = s\<lparr>cf_expandedId := (if cf_expandedId s = Some i then None else Some i)\<rparr>"
| "feed_step s (ViewToggled v) = (case v of None \<Rightarrow> s | Some g \<Rightarrow> s\<lparr>cf_grouped := g\<rparr>)"

section \<open>What the feed shows\<close>

lemma entry_fields:
  "ge_component (fold add_call cs e) = ge_component e" "ge_goFunc (fold add_call cs e) = ge_goFunc e"
  "ge_total (fold add_call cs e) = ge_total e + length cs"
  "ge_errors (fold add_call cs e) = ge_errors e + length (filter is_error_call cs)"
  "ge_durationSum (fold add_call cs e) = fold (\<lambda>c t. t + ac_durationMs c) cs (ge_durationSum e)"
  by (induction cs arbitrary: e) (simp_all add: add_call_def)

interpretation by_count: comparator by_count
  by unfold_locales (auto simp: by_count_def)

definition calls_of :: "string \<Rightarrow> api_call list \<Rightarrow> api_call list" where
  "calls_of k calls = filter (\<lambda>c. call_key c = k) calls"

definition group_spec :: "api_call list \<Rightarrow> string \<Rightarrow> call_group" where
  "group_spec calls k =
     (let cs = calls_of k calls
      in \<lparr>cg_key = k, cg_component = ac_component (hd cs), cg_goFunc = ac_goFunc (hd cs), cg_count = length cs,
          cg_avgDurationMs = div_by (fold (\<lambda>c t. t + ac_durationMs c) cs 0) (of_nat (length cs)),
          cg_errorPercent = of_nat (length (filter is_error_call cs)) / of_nat (length cs) * 100\<rparr>)"

lemma group_entry_spec:
  assumes "(k, e) \<in> set (fold (group_into call_key add_call new_entry) calls [])"
  shows "group_of_entry (k, e) = group_spec calls k"
proof -
  have "map_of (fold (group_into call_key add_call new_entry) calls []) k = Some e"
    using assms by (intro map_of_is_SomeI group_distinct) simp_all
  then show ?thesis
    unfolding group_map_of
    by (auto simp: group_of_entry_def group_spec_def calls_of_def Let_def entry_fields new_entry_def
        simp del: fold.simps filter_filter split: list.splits)
qed

lemma filter_lengths:
  "distinct ks \<Longrightarrow> key ` set xs \<subseteq> set ks \<Longrightarrow> sum_list (map (\<lambda>k. length (filter (\<lambda>x. key x = k) xs)) ks) = length xs"
proof (induction xs)
  case (Cons x xs)
  have "length (filter (\<lambda>y. key y = k) (x # xs)) = (if k = key x then 1 else 0) + length (filter (\<lambda>y. key y = k) xs)" for k
    by simp
  then have "sum_list (map (\<lambda>k. length (filter (\<lambda>y. key y = k) (x # xs))) ks)
      = sum_list (map (\<lambda>k. if k = key x then 1 else 0) ks) + length xs"
    using Cons by (simp only: sum_list_addf) simp
  also have "sum_list (map (\<lambda>k. if k = key x then 1 else 0) ks) = (1 :: nat)"
    using Cons.prems by (simp add: sum_list_distinct_conv_sum_set)
  finally show ?case by simp
qed simp

text \<open>The grouped view has one row for each component and function that was called, most frequent first,
  with the number of its calls, their mean duration and their share of errors; the counts add up to the calls.\<close>

theorem grouped_calls_exact:
  "let gs = groupedCalls calls; keys = map cg_key gs
   in distinct keys \<and> set keys = call_key ` set calls \<and> gs = map (group_spec calls) keys
      \<and> sorted_wrt (\<lambda>a b. cg_count b \<le> cg_count a) gs \<and> sum_list (map cg_count gs) = length calls"
proof -
  let ?m = "fold (group_into call_key add_call new_entry) calls []" and ?gs = "groupedCalls calls"
  have d: "distinct (map fst ?m)" by (simp add: group_distinct del: map_map)
  have ks: "set (map fst ?m) = call_key ` set calls" by (rule group_keys)
  have "map group_of_entry ?m = map (group_spec calls \<circ> fst) ?m"
    using group_entry_spec by (intro map_cong) auto
  then have gs: "mset ?gs = mset (map (group_spec calls) (map fst ?m))"
    by (simp only: groupedCalls_def by_count.sort_mset map_map)
  have key: "cg_key (group_spec calls k) = k" for k by (simp add: group_spec_def Let_def)
  have keys: "mset (map cg_key ?gs) = mset (map fst ?m)"
  proof -
    have "mset (map cg_key ?gs) = mset (map cg_key (map (group_spec calls) (map fst ?m)))"
      using gs by (metis mset_map)
    then show ?thesis by (simp add: key comp_def)
  qed
  then have "distinct (map cg_key ?gs)" "set (map cg_key ?gs) = call_key ` set calls"
    using d ks by (metis mset_eq_imp_distinct_iff, metis mset_eq_setD)
  moreover have "?gs = map (group_spec calls) (map cg_key ?gs)"
  proof -
    have "\<forall>g \<in> set ?gs. g = group_spec calls (cg_key g)"
      using mset_eq_setD [OF gs] by (auto simp: key)
    then show ?thesis by (simp add: comp_def map_idI)
  qed
  moreover have "sorted_wrt (\<lambda>a b. cg_count b \<le> cg_count a) ?gs"
    using by_count.sort_sorted [of "map group_of_entry ?m"]
    unfolding groupedCalls_def by (rule sorted_wrt_mono_rel [rotated]) (simp add: by_count_def)
  moreover have "sum_list (map cg_count ?gs) = length calls"
  proof -
    have "sum_list (map cg_count ?gs) = sum_list (map cg_count (map (group_spec calls) (map fst ?m)))"
      using gs by (metis mset_map sum_mset_sum_list)
    also have "\<dots> = sum_list (map (\<lambda>k. length (filter (\<lambda>c. call_key c = k) calls)) (map fst ?m))"
      by (simp add: group_spec_def calls_of_def Let_def comp_def)
    also have "\<dots> = length calls" using d ks by (intro filter_lengths) simp_all
    finally show ?thesis .
  qed
  ultimately show ?thesis by (simp add: Let_def)
qed

section \<open>The shell reads the copied command\<close>

text \<open>The words of a simple command as a POSIX shell splits them: blanks separate, single quotes and the
  backslash protect, and a character with a meaning of its own makes it another kind of command (\<open>None\<close>).\<close>

definition shell_special :: "char list" where
  "shell_special = ''|&;<>()$`*?[#~=%{}!'' @ [CHR 0x22, CHR 0x0A, CHR 0x09]"

fun sh_plain :: "string option \<Rightarrow> string \<Rightarrow> string list option"
  and sh_quoted :: "string \<Rightarrow> string \<Rightarrow> string list option" where
  "sh_plain cur [] = Some (case cur of None \<Rightarrow> [] | Some w \<Rightarrow> [w])"
| "sh_plain cur (c # s) =
     (let w = (case cur of None \<Rightarrow> [] | Some w \<Rightarrow> w)
      in if c = CHR '' '' then map_option (\<lambda>ws. (case cur of None \<Rightarrow> [] | Some w \<Rightarrow> [w]) @ ws) (sh_plain None s)
         else if c = CHR 0x27 then sh_quoted w s
         else if c = CHR 0x5C then (case s of [] \<Rightarrow> None | d # s' \<Rightarrow> sh_plain (Some (w @ [d])) s')
         else if c \<in> set shell_special then None
         else sh_plain (Some (w @ [c])) s)"
| "sh_quoted w [] = None"
| "sh_quoted w (c # s) = (if c = CHR 0x27 then sh_plain (Some w) s else sh_quoted (w @ [c]) s)"

definition sh_words :: "string \<Rightarrow> string list option" where
  "sh_words s = sh_plain None s"

lemma sh_quoted_run: "CHR 0x27 \<notin> set u \<Longrightarrow> sh_quoted w (u @ s) = sh_quoted (w @ u) s"
  by (induction u arbitrary: w) auto

lemma sh_quoted_escaped: "sh_quoted w (escape_quotes p @ CHR 0x27 # s) = sh_plain (Some (w @ p)) s"
  by (induction p arbitrary: w) (auto simp: escape_quotes_def)

text \<open>C22. Whatever the path of a recorded call holds, quotes and shell characters included, a shell reads the
  copied command as exactly one call of curl with the method and one URL: nothing else is run.\<close>

theorem curl_command_is_one_call:
  assumes "ac_method call \<in> set HTTP_METHODS" "CHR 0x27 \<notin> set url"
  shows "sh_words (buildCurlCommand url call) =
    Some [''curl'', ''-X'', ac_method call, (if url = [] then ''http://localhost:8080'' else url) @ ac_path call]"
proof -
  let ?base = "if url = [] then ''http://localhost:8080'' else url"
  have base: "CHR 0x27 \<notin> set ?base" using assms(2) by simp
  have "sh_quoted [] (?base @ escape_quotes (ac_path call) @ [CHR 0x27]) = Some [?base @ ac_path call]"
    using sh_quoted_run [OF base, of "[]" "escape_quotes (ac_path call) @ [CHR 0x27]"]
      sh_quoted_escaped [of ?base "ac_path call" "[]"] by simp
  then show ?thesis
    using assms(1) by (auto simp: sh_words_def buildCurlCommand_def Let_def HTTP_METHODS_def shell_special_def)
qed

definition sample_call :: "string \<Rightarrow> api_call" where
  "sample_call path = \<lparr>ac_id = ''1'', ac_timestamp = [], ac_method = ''DELETE'', ac_path = path, ac_statusCode = 500,
     ac_durationMs = Num 3, ac_component = ''handlers'', ac_goFunc = ''deletePolicy'', ac_category = CatHttp\<rparr>"

theorem curl_command_is_one_call_witness:
  "sh_words (buildCurlCommand ''https://x.org'' (sample_call (''/a'' @ [CHR 0x27] @ ''; reboot #''))) =
    Some [''curl'', ''-X'', ac_method (sample_call (''/a'' @ [CHR 0x27] @ ''; reboot #'')),
      (if ''https://x.org'' = [] then ''http://localhost:8080'' else ''https://x.org'')
        @ ac_path (sample_call (''/a'' @ [CHR 0x27] @ ''; reboot #''))]"
  by (rule curl_command_is_one_call) (simp_all add: sample_call_def HTTP_METHODS_def)

section \<open>The end of the feed is its oldest part\<close>

text \<open>The stream puts new calls in front, but the feed animates its last rows, jumps to its bottom and
  announces new calls below: a new call is the first row, the animated rows are the oldest ones, and once the
  buffer of the stream is full the effect that scrolls does not run, because the number of calls stays the same.\<close>

theorem feed_end_is_oldest:
  assumes "ac_id c \<notin> set (map ac_id prev)" "ANIMATED_ROW_COUNT < length prev" "length prev \<le> MAX_CALLS"
  shows "let calls = push_calls [c] prev; rows = displayed_calls calls
     in hd rows = c \<and> c \<notin> set (animated_rows rows) \<and> set (animated_rows rows) \<subseteq> set prev
        \<and> (length prev = MAX_CALLS \<longrightarrow>
             scroll_step \<lparr>sc_length = length prev, sc_paused = False, sc_jumps = n\<rparr> (CallsRendered (length calls))
             = \<lparr>sc_length = length prev, sc_paused = False, sc_jumps = n\<rparr>)"
proof -
  let ?calls = "push_calls [c] prev"
  have calls: "?calls = take MAX_CALLS (c # prev)" using assms(1) by (simp add: push_calls_def)
  have len: "length ?calls = min MAX_CALLS (Suc (length prev))" by (simp add: calls)
  have rows: "displayed_calls ?calls = ?calls"
    unfolding displayed_calls_def by (rule slice_last_short) (simp add: len MAX_DISPLAY_ROWS_def MAX_CALLS_def)
  obtain k where k: "length ?calls - ANIMATED_ROW_COUNT = Suc k"
    using assms(2,3) len by (cases "length ?calls - ANIMATED_ROW_COUNT") (auto simp: MAX_CALLS_def ANIMATED_ROW_COUNT_def)
  have "animated_rows ?calls = drop k (take (MAX_CALLS - 1) prev)"
    unfolding animated_rows_def k by (simp add: calls MAX_CALLS_def take_Cons')
  then have "set (animated_rows ?calls) \<subseteq> set prev" by (metis set_drop_subset set_take_subset subset_trans)
  moreover have "c \<notin> set prev" using assms(1) by auto
  moreover have "hd ?calls = c" by (simp add: calls MAX_CALLS_def)
  moreover have "length prev = MAX_CALLS \<Longrightarrow> length ?calls = length prev" by (simp add: len)
  ultimately show ?thesis by (auto simp: Let_def rows scroll_effect_def)
qed

theorem feed_end_is_oldest_witness:
  "let calls = push_calls [sample_call ''/a''] (map (\<lambda>i. sample_call ''/b''\<lparr>ac_id := replicate i CHR ''x''\<rparr>) [0..<50]);
       rows = displayed_calls calls
   in hd rows = sample_call ''/a'' \<and> sample_call ''/a'' \<notin> set (animated_rows rows)"
proof -
  let ?prev = "map (\<lambda>i. sample_call ''/b''\<lparr>ac_id := replicate i CHR ''x''\<rparr>) [0..<50]"
  have "''1'' \<noteq> replicate i CHR ''x''" for i by (cases i) auto
  then have "ac_id (sample_call ''/a'') \<notin> set (map ac_id ?prev)" by (auto simp: sample_call_def)
  from feed_end_is_oldest [OF this] show ?thesis
    by (simp add: Let_def ANIMATED_ROW_COUNT_def MAX_CALLS_def)
qed

end
