(* ===== verification/Spec2Isabelle.thy ===== *)
theory Spec2Isabelle
  imports PolicyForm TimelineViews PolicyCard Calendar ExceptionPicker Exceptions CalendarStrip RiversParticles ErrorStrip Danger Users
    PodLogService ServerWindows
    WindowCover TimeBlocks Timeline WindowPicker Summary Streams Retry StreamLoop ObsStream
    ExecLogs PodLogs PodSearch Uri ApiClient Auth Rollout Dates AuditDiff ClusterTypes
    Formatters MetricHistory ComponentInfo Palette QueryKeys UiState Tables Guardrails
    AuditExport ImportDialog ExportMenu CallFeed
begin

text \<open>
  Kube Phoenix puts the workloads of a Kubernetes cluster to sleep on a schedule and wakes them again.
  A Go service (\<open>backend\<close>) keeps policies, runs them and streams logs, metrics and the state of the
  cluster; a React application (\<open>frontend\<close>) edits the policies and shows what happens. This development
  models the logic of the frontend, written in TypeScript, and the parts of the service that the frontend relies on
  for its promises: the paging of the audit log, the handler of pod logs, and the validation of sleep windows. File names below are relative to \<open>frontend/src\<close>.

  \<^bold>\<open>Conventions.\<close> A TypeScript interface is a record with the field names of the source behind a prefix,
  a union of string literals a datatype, an optional or nullable field an option. Numbers are exact
  rationals or NaN (\<open>jsnum\<close>), integers where the code has only integers; strings are lists of characters
  that hold UTF-8 bytes. An exception is the left summand of a result (\<open>js_error + 'a\<close>). A hook or
  component with state is a record of its state variables and refs and a total step function over its
  events: clicks, timers, frames and the answers of the network, in any order. \<open>run\<close> folds a step
  function over a list of events. What the runtime gives (parsing of timestamps, time zones, the clock,
  random numbers, locale texts) is an argument, usually the record \<open>js_env\<close>.

  \<^bold>\<open>Theories.\<close>
  \<^item> \<open>Prelude\<close>: JavaScript numbers and strings, errors, and the interfaces: \<open>machine\<close>,
    \<open>guarded_machine\<close> and \<open>absorbing_machine\<close>, whose laws say that a step keeps an invariant, keeps it for
    the events that are trusted, or keeps a final mode, and whose lemmas carry them over runs. Each component with state interprets them with its own step.
  \<^item> \<open>Types\<close>, \<open>ClusterTypes\<close>: the interfaces of \<open>lib/types.ts\<close> and the constants of \<open>lib/constants.ts\<close>.
  \<^item> \<open>Windows\<close>, \<open>WindowCover\<close>: \<open>lib/windowUtils.ts\<close>; schedule texts and weekly minutes. The lemmas relate
    the sorted sweep per day to the set of minutes of the week in which some window sleeps.
  \<^item> \<open>TimeBlocks\<close>, \<open>Dates\<close>: time zones and blocks of a time range (\<open>lib/windowUtils.ts\<close>) and the part of \<open>Date\<close> used.
  \<^item> \<open>Timeline\<close>: \<open>components/policies/timelineSegments.ts\<close> and \<open>lib/timelineUtils.ts\<close>; the bars equal the schedule.
  \<^item> \<open>WindowPicker\<close>, \<open>ServerWindows\<close>: the editor of sleep windows, and the validation of windows by the service
    (\<open>backend/internal/policy/windows.go\<close>); what the editor and the policy form leave has no fault but a missing day or an
    end at its start, and the form lets only the second through.
  \<^item> \<open>TimelineViews\<close>: the three drawings of a schedule (\<open>MiniTimeline.tsx\<close>, \<open>WeeklyTimeline.tsx\<close>, \<open>LedGlowTimeline.tsx\<close>)
    over the interface \<open>week_grid\<close>; the waveform and the bars show the minutes the schedule sleeps.
  \<^item> \<open>PolicyForm\<close>, \<open>PolicyCard\<close>: \<open>CreatePolicyDialog.tsx\<close> with the page around it, a save in flight included, and
    \<open>PolicyCard.tsx\<close> with its triggers, dialog and savings ring; what is sent has a schedule and was asked for.
  \<^item> \<open>Calendar\<close>, \<open>ExceptionPicker\<close>, \<open>Exceptions\<close>, \<open>CalendarStrip\<close>: calendar arithmetic, the picker of an exception window
    (\<open>ExceptionWindowPicker.tsx\<close>), its dialog and page, and the strip of exceptions by day. A zone is a pair of functions between
    instants and clock readings; the picker's theorems hold where the clock is never changed across a midnight
    (\<open>keeps_days\<close>), the month grid and the strip are treated without daylight saving (\<open>fixed_zone\<close>).
  \<^item> \<open>Regex\<close>, \<open>Summary\<close>, \<open>Rollout\<close>: the regular expressions the program uses, \<open>parseSummary.ts\<close>, and the progress
    bar of \<open>LogViewer.tsx\<close>; printed log lines are read back, the progress stays in its bounds, the fills tile the bar.
  \<^item> \<open>Json\<close>, \<open>Streams\<close>: JSON text and its parser, and the readers of NDJSON and plain text bodies in \<open>lib/api.ts\<close>.
  \<^item> \<open>Retry\<close>, \<open>StreamLoop\<close>, \<open>ObsStream\<close>: backoff, the SSE loop (\<open>lib/useClusterStream.ts\<close>,
    \<open>lib/streamRetry.ts\<close>) and the observability stream (\<open>lib/useObservabilityStream.ts\<close>).
  \<^item> \<open>ExecLogs\<close>: \<open>components/history/useExecutionLogs.ts\<close>, the WebSocket hook; connection safety, order and
    uniqueness of the lines.
  \<^item> \<open>PodLogs\<close>, \<open>PodSearch\<close>: \<open>components/cluster/usePodLogStream.ts\<close> and the search of \<open>PodLogViewer.tsx\<close>.
  \<^item> \<open>Uri\<close>, \<open>ApiClient\<close>: percent encoding, query strings and every function of \<open>lib/api.ts\<close>.
  \<^item> \<open>PodLogService\<close>: the route and the handler of the service for pod logs (\<open>backend/internal/api/cluster_pods.go\<close>), which
    read back what the client put into the URL.
  \<^item> \<open>Auth\<close>: \<open>lib/auth.tsx\<close>, the provider as a machine over the results of its requests.
  \<^item> \<open>AuditDiff\<close>, \<open>AuditExport\<close>: \<open>components/audit\<close> and \<open>app/audit/page.tsx\<close>; the snapshot diff, the CSV text, the
    filters and the export loop. \<open>AuditExport\<close> also holds \<open>listAuditLogs\<close>, \<open>parsePageSize\<close> and \<open>ListAuditLogs\<close>
    of the service, and shows that the loop over its pages implements the export's promise.
  \<^item> \<open>ImportDialog\<close>, \<open>ExportMenu\<close>: \<open>components/import\<close> and \<open>lib/exportFile.ts\<close>; the dialog and the menu as machines
    with requests in flight, and the composition of both.
  \<^item> \<open>CallFeed\<close>: \<open>components/observability/CallFeed.tsx\<close>; filters, grouping, the shared clock, scrolling, the curl command.
  \<^item> \<open>RiversGraph\<close>, \<open>RiversLive\<close>, \<open>RiversView\<close>, \<open>RiversParticles\<close>: the system diagram \<open>components/observability/ApiRivers.tsx\<close>
    with \<open>RiversMinimap.tsx\<close> and the zoom of \<open>RiversControls.tsx\<close>; components, links and the searches over them, live data,
    layout, dragging and storage, and the particles frame by frame.
  \<^item> \<open>StatusBar\<close>, \<open>Dashboard\<close>, \<open>ErrorStrip\<close>: \<open>StatusHeader.tsx\<close>, \<open>MetricsDashboard.tsx\<close>, \<open>SystemOverview.tsx\<close> and
    \<open>ErrorTimeline.tsx\<close>; labels, trends, flashes and sparklines, panels with their status, charts as series of points, statistics, and the history
    composed from the stream and the stored samples.
  \<^item> \<open>Danger\<close>: \<open>components/settings/DatabaseSettings.tsx\<close>; an operation runs only with its permission and after its
    two confirmations, and its dialog reports what the service sent.
  \<^item> \<open>Users\<close>: \<open>app/users/page.tsx\<close> with its requests in flight, and the messages of \<open>LoginScreen.tsx\<close>.
  \<^item> \<open>Guardrails\<close>: \<open>components/guardrails/GuardrailsForm.tsx\<close> and \<open>components/common/ChipInput.tsx\<close>.
  \<^item> \<open>Tables\<close>: filters, sorting and grouping of \<open>WorkloadsTable.tsx\<close> and \<open>NodesTable.tsx\<close>, over the
    interface \<open>comparator\<close> of a comparison function.
  \<^item> \<open>Formatters\<close>, \<open>MetricHistory\<close>, \<open>ComponentInfo\<close>, \<open>Palette\<close>, \<open>QueryKeys\<close>, \<open>UiState\<close>: the small libraries under
    \<open>lib\<close>: texts, the metric history, the table of components, color tables, cache keys and triggers,
    sorting state, drawer, theme, snackbar, debounce, unsaved changes.

  \<^bold>\<open>Bounds and fuel.\<close> The JSON parser takes the length of its text plus one as a bound on nested calls;
  every call but the last consumes a character, and the round trips show that the bound is enough for all
  printed values. The export loop needs no fuel: each page but the last brings a row and the loop stops at
  100000 rows. The searches of the diagram end because every round visits a component of the table or shortens the
  queue; the walk from a target back to the start is a partial function, and the theorem on shortest paths shows that
  it always returns. All other loops are structural. The limits of the code (50000 remembered log lines, 10000
  pod log lines, 60 snapshots, 10 reconnects and so on) are definitions with the values of the source.

  \<^bold>\<open>Not modelled.\<close> Layout and styles of the components, the drawing on canvases and by ECharts, the tweens of GSAP
  (\<open>lib/motion\<close>, \<open>theme\<close>), the pages that only compose components, the mock API, and the
  rest of the Go service. Floating point rounding is not modelled: the rationals are exact. Unicode case
  mapping and white space outside ASCII are left out. React's batching is taken as each event running to its end
  on the state before it. The audit log is taken as one list in a fixed order during an export; that a growing log repeats
  entries is a theorem of its own. The permissions come with each event on the pages of exceptions and on the policy card; in the
  danger zone, on the page of users and in the policy form they are fixed for a session.
\<close>

end
